(* ===== verification/Lofire_Prelude.thy ===== *)
theory Lofire_Prelude
  imports Main "HOL-Library.Word" "HOL-Library.Log_Nat" "HOL-Library.List_Lexorder"
begin

text \<open>
  The prelude of the development: the machine types of the Rust sources, 32-byte arrays,
  the outcome of a Rust call, the standard-library operations the sources use on slices
  (\<^verbatim>\<open>chunks\<close>, \<^verbatim>\<open>concat\<close>), the f32 rounding used by \<^verbatim>\<open>store_valid_value_size\<close>, and the
  generic lemmas on them that the component theories share.
\<close>

named_theorems res_simps \<open>equations that push an outcome through the combinators below\<close>
named_theorems lofire_defs \<open>the small accessors and constants of the sources\<close>

section \<open>Machine types\<close>

type_synonym u8 = "8 word"
type_synonym u16 = "16 word"
type_synonym u32 = "32 word"
type_synonym u64 = "64 word"
type_synonym usize = nat
type_synonym bytes = "u8 list"

section \<open>Arrays of 32 bytes\<close>

text \<open>Rust's \<^verbatim>\<open>[u8; 32]\<close>: the length is part of the type.\<close>

typedef bytes32 = "{bs :: u8 list. length bs = 32}"
  morphisms bytes_of bytes32_of
  by (rule exI [of _ "replicate 32 0"]) simp

lemma bytes32_of_bytes_of [simp, code abstype]: "bytes32_of (bytes_of b) = b"
  by (rule bytes_of_inverse)

text \<open>\<^verbatim>\<open>[v; 32]\<close>.\<close>

definition fill32 :: "u8 \<Rightarrow> bytes32" where
  "fill32 v = bytes32_of (replicate 32 v)"

lemma bytes_of_fill32 [simp, code abstract]: "bytes_of (fill32 v) = replicate 32 v"
  by (simp add: fill32_def bytes32_of_inverse)

lemma length_bytes_of [simp]: "length (bytes_of b) = 32"
  using bytes_of [of b] by simp

lemma bytes_of_eq_iff [simp]: "bytes_of a = bytes_of b \<longleftrightarrow> a = b"
  by (rule bytes_of_inject)

lemma fill32_eq_iff [simp]: "fill32 a = fill32 b \<longleftrightarrow> a = b"
  by (metis bytes_of_fill32 replicate_eq_replicate zero_neq_numeral)

text \<open>The derived order compares the arrays lexicographically, as Rust's \<^verbatim>\<open>Ord\<close> does.\<close>

instantiation bytes32 :: linorder
begin

definition less_eq_bytes32 :: "bytes32 \<Rightarrow> bytes32 \<Rightarrow> bool" where
  "less_eq_bytes32 a b \<longleftrightarrow> bytes_of a \<le> bytes_of b"

definition less_bytes32 :: "bytes32 \<Rightarrow> bytes32 \<Rightarrow> bool" where
  "less_bytes32 a b \<longleftrightarrow> bytes_of a < bytes_of b"

instance
  by standard (auto simp: less_eq_bytes32_def less_bytes32_def less_le)

end

instantiation bytes32 :: equal
begin

definition equal_bytes32 :: "bytes32 \<Rightarrow> bytes32 \<Rightarrow> bool" where
  "equal_bytes32 a b \<longleftrightarrow> bytes_of a = bytes_of b"

instance
  by standard (simp add: equal_bytes32_def)

end

section \<open>The outcome of a Rust call\<close>

text \<open>
  A call returns \<^verbatim>\<open>Ok\<close> or \<^verbatim>\<open>Err\<close>, or it panics (a failed \<^verbatim>\<open>unwrap\<close>, an index out of range,
  an arithmetic overflow in the debug profile the README builds), or it does not return:
  \<^verbatim>\<open>Hang\<close> is a recursion that never ends (or the model's fuel used up) and a lock that is
  never granted. A function of the sources that cannot fail has a plain HOL type.
\<close>

datatype ('a, 'e) result = Ok 'a | Err 'e | Panic | Hang

primrec and_then :: "('a, 'e) result \<Rightarrow> ('a \<Rightarrow> ('b, 'e) result) \<Rightarrow> ('b, 'e) result" where
  "and_then (Ok x) f = f x"
| "and_then (Err e) f = Err e"
| "and_then Panic f = Panic"
| "and_then Hang f = Hang"

primrec map_err :: "('e \<Rightarrow> 'f) \<Rightarrow> ('a, 'e) result \<Rightarrow> ('a, 'f) result" where
  "map_err g (Ok x) = Ok x"
| "map_err g (Err e) = Err (g e)"
| "map_err g Panic = Panic"
| "map_err g Hang = Hang"

primrec unwrap :: "'a option \<Rightarrow> ('a, 'e) result" where
  "unwrap None = Panic"
| "unwrap (Some x) = Ok x"

primrec unwrap_res :: "('a, 'e) result \<Rightarrow> ('a, 'f) result" where
  "unwrap_res (Ok x) = Ok x"
| "unwrap_res (Err e) = Panic"
| "unwrap_res Panic = Panic"
| "unwrap_res Hang = Hang"

primrec ok_or :: "'e \<Rightarrow> 'a option \<Rightarrow> ('a, 'e) result" where
  "ok_or e None = Err e"
| "ok_or e (Some x) = Ok x"

fun is_ok :: "('a, 'e) result \<Rightarrow> bool" where
  "is_ok (Ok _) = True"
| "is_ok _ = False"

text \<open>An operation on a store returns its outcome with the store it leaves.\<close>

type_synonym ('a, 'e, 's) op = "('a, 'e) result \<times> 's"

fun op_then :: "('a, 'e, 's) op \<Rightarrow> ('a \<Rightarrow> 's \<Rightarrow> ('b, 'e, 's) op) \<Rightarrow> ('b, 'e, 's) op" where
  "op_then (Ok x, s) f = f x s"
| "op_then (Err e, s) f = (Err e, s)"
| "op_then (Panic, s) f = (Panic, s)"
| "op_then (Hang, s) f = (Hang, s)"

lemma and_then_eq_Ok_iff [res_simps]:
  "and_then r f = Ok y \<longleftrightarrow> (\<exists>x. r = Ok x \<and> f x = Ok y)"
  by (cases r) auto

lemma map_err_eq_Ok_iff [res_simps]: "map_err g r = Ok y \<longleftrightarrow> r = Ok y"
  by (cases r) auto

lemma unwrap_eq_Ok_iff [res_simps]: "unwrap x = Ok y \<longleftrightarrow> x = Some y"
  by (cases x) auto

lemma unwrap_not_Err [simp]: "unwrap x \<noteq> Err e" "unwrap x \<noteq> Hang"
  by (cases x; simp)+

lemma ok_or_eq_Ok_iff [res_simps]: "ok_or e x = Ok y \<longleftrightarrow> x = Some y"
  by (cases x) auto

lemma is_ok_iff [res_simps]: "is_ok r \<longleftrightarrow> (\<exists>x. r = Ok x)"
  by (cases r) auto

lemma op_then_eq_Ok_iff [res_simps]:
  "op_then p f = (Ok y, s') \<longleftrightarrow> (\<exists>x s. p = (Ok x, s) \<and> f x s = (Ok y, s'))"
  by (cases "(p, f)" rule: op_then.cases) auto

section \<open>Slices\<close>

text \<open>
  \<^verbatim>\<open>slice::chunks(n)\<close>: consecutive pieces of \<open>n\<close> elements, the last one shorter when \<open>n\<close> does
  not divide the length. Rust panics for \<open>n = 0\<close>; the callers' models check that first.
\<close>

function chunks :: "nat \<Rightarrow> 'a list \<Rightarrow> 'a list list" where
  "chunks n xs = (if n = 0 \<or> xs = [] then [] else take n xs # chunks n (drop n xs))"
  by pat_completeness auto
termination
  by (relation "measure (\<lambda>(n, xs). length xs)") auto

declare chunks.simps [simp del]

lemma chunks_Nil [simp]: "chunks n [] = []"
  by (simp add: chunks.simps)

lemma chunks_step: "0 < n \<Longrightarrow> xs \<noteq> [] \<Longrightarrow> chunks n xs = take n xs # chunks n (drop n xs)"
  by (simp add: chunks.simps [of n xs])

lemma concat_chunks [simp]: "0 < n \<Longrightarrow> concat (chunks n xs) = xs"
proof (induction n xs rule: chunks.induct)
  case (1 n xs)
  then show ?case by (cases "xs = []") (simp_all add: chunks_step)
qed

lemma chunks_nonempty [simp]: "0 < n \<Longrightarrow> chunks n xs = [] \<longleftrightarrow> xs = []"
  by (simp add: chunks.simps [of n xs])

lemma chunks_elem: "c \<in> set (chunks n xs) \<Longrightarrow> c \<noteq> [] \<and> length c \<le> n"
proof (induction n xs rule: chunks.induct)
  case (1 n xs)
  then show ?case by (cases "n = 0 \<or> xs = []") (auto simp: chunks.simps [of n xs])
qed

lemma length_chunks_le: "0 < n \<Longrightarrow> length (chunks n xs) \<le> length xs"
proof (induction n xs rule: chunks.induct)
  case (1 n xs)
  show ?case
  proof (cases "xs = []")
    case False
    with 1 have "length (chunks n (drop n xs)) \<le> length (drop n xs)" by simp
    with 1 False show ?thesis
      by (cases xs) (auto simp: chunks_step)
  qed simp
qed

lemma length_chunks_less:
  assumes "2 \<le> n" "2 \<le> length xs"
  shows "length (chunks n xs) < length xs"
proof -
  from assms have "chunks n xs = take n xs # chunks n (drop n xs)"
    by (intro chunks_step) auto
  moreover have "length (chunks n (drop n xs)) \<le> length (drop n xs)"
    using assms by (intro length_chunks_le) auto
  ultimately show ?thesis using assms by simp
qed

lemma length_chunks_one: "length (chunks 1 xs) = length xs"
  by (induction xs) (simp_all add: chunks_step)

section \<open>f32 rounding\<close>

text \<open>
  \<^verbatim>\<open>n as f32\<close> for an unsigned \<open>n\<close>: exact below \<open>2\<^sup>2\<^sup>4\<close>; above it the 24 leading bits are
  kept and the rest rounded to nearest, ties to even. The value is always an integer, so
  it is a \<^typ>\<open>nat\<close>.
\<close>

definition f32_of_usize :: "usize \<Rightarrow> nat" where
  "f32_of_usize n =
     (if n < 2 ^ 24 then n
      else let e = floorlog 2 n - 24; q = n div 2 ^ e; r = n mod 2 ^ e; h = 2 ^ (e - 1)
           in (if h < r \<or> r = h \<and> odd q then q + 1 else q) * 2 ^ e)"

lemma f32_of_usize_small: "n < 2 ^ 24 \<Longrightarrow> f32_of_usize n = n"
  by (simp add: f32_of_usize_def)

lemma f32_of_usize_large:
  assumes "2 ^ 24 \<le> n"
  shows "2 ^ 24 \<le> f32_of_usize n"
proof -
  define e where "e = floorlog 2 n - 24"
  have "floorlog 2 (2 ^ 24) \<le> floorlog 2 n"
    using assms by (intro floorlog_mono) auto
  moreover have "floorlog 2 (2 ^ 24) = 25" by (simp add: compute_floorlog)
  ultimately have bits: "floorlog 2 n = e + 24" and e: "1 \<le> e"
    unfolding e_def by linarith+
  have "2 ^ (e + 23) \<le> n"
    using floorlog_bounds [of n 2] assms bits by (simp add: add.commute)
  then have q: "2 ^ 23 \<le> n div 2 ^ e"
    by (simp add: less_eq_div_iff_mult_less_eq power_add mult.commute)
  from e have "(2::nat) ^ 24 \<le> 2 ^ 23 * 2 ^ e"
    using power_increasing [of 1 e "2::nat"] by simp
  also have "\<dots> \<le> n div 2 ^ e * 2 ^ e" using q by simp
  also have "\<dots> \<le> f32_of_usize n"
    using assms by (auto simp: f32_of_usize_def Let_def e_def)
  finally show ?thesis .
qed

end
