(* ===== verification/Lofire_Types.thy ===== *)
theory Lofire_Types
  imports Lofire_Prelude
begin

text \<open>
  The data of \<^verbatim>\<open>src/lofire/src/types.rs\<close>: every struct is a \<^theory_text>\<open>record\<close> (its fields with a short
  prefix, since record fields share one name space) and every enum a \<^theory_text>\<open>datatype\<close> with the
  source's constructors, written with the type's name in front (\<^verbatim>\<open>CommitType::Ack\<close> is
  \<open>CommitType.Ack\<close>). At the end the third-party code the crate calls (BLAKE3, ChaCha20,
  Ed25519, the BARE serializer, the Bloom filter) becomes the fields of one record of
  parameters, \<open>externs\<close>, with the laws the proofs use as named predicates.
\<close>

section \<open>Common types\<close>

type_synonym Blake3Digest32 = bytes32

datatype Digest = Blake3Digest32 (digest_bytes: Blake3Digest32)

type_synonym ChaCha20Key = bytes32

datatype SymKey = ChaCha20Key ChaCha20Key

primrec symkey_slice :: "SymKey \<Rightarrow> bytes32" where
  "symkey_slice (ChaCha20Key o') = o'"

type_synonym Ed25519PubKey = bytes32
type_synonym Ed25519PrivKey = bytes32

datatype PubKey = Ed25519PubKey Ed25519PubKey

primrec pubkey_slice :: "PubKey \<Rightarrow> bytes32" where
  "pubkey_slice (Ed25519PubKey o') = o'"

datatype PrivKey = Ed25519PrivKey Ed25519PrivKey

type_synonym Ed25519Sig = "bytes32 \<times> bytes32"

datatype Sig = Ed25519Sig Ed25519Sig

text \<open>Minutes since 2022-02-22 22:22 UTC.\<close>

type_synonym Timestamp = u32

definition EPOCH_AS_UNIX_TIMESTAMP :: u64 where
  "EPOCH_AS_UNIX_TIMESTAMP = 1645568520"

datatype RelTime = Seconds u8 | Minutes u8 | Hours u8 | Days u8

record BloomFilter =
  bf_k :: u32
  bf_f :: bytes

text \<open>\<^verbatim>\<open>[[u8; 32]; 4]\<close> and \<^verbatim>\<open>[[u8; 32]; 32]\<close>; no code looks inside them.\<close>

type_synonym BloomFilter128 = "bytes32 \<times> bytes32 \<times> bytes32 \<times> bytes32"
type_synonym BloomFilter1K = "bytes32 list"

text \<open>Digests are ordered by their bytes, so that sets of them have a canonical listing.\<close>

instantiation Digest :: linorder
begin

definition less_eq_Digest :: "Digest \<Rightarrow> Digest \<Rightarrow> bool" where
  "less_eq_Digest a b \<longleftrightarrow> digest_bytes a \<le> digest_bytes b"

definition less_Digest :: "Digest \<Rightarrow> Digest \<Rightarrow> bool" where
  "less_Digest a b \<longleftrightarrow> digest_bytes a < digest_bytes b"

instance
  by standard (auto simp: less_eq_Digest_def less_Digest_def Digest.expand)

end

section \<open>Repository types\<close>

type_synonym BlockId = Digest

record BlockRef =
  ref_id :: BlockId
  ref_key :: SymKey

type_synonym ObjectId = BlockId
type_synonym ObjectRef = BlockRef
type_synonym InternalNode = "SymKey list"

datatype BlockContentV0 = InternalNode InternalNode | DataChunk bytes

datatype DepList = V0 "ObjectId list"

datatype ObjectDeps = ObjectIdList "ObjectId list" | DepListRef ObjectRef

text \<open>The fields \<^verbatim>\<open>id\<close> and \<^verbatim>\<open>key\<close> are \<^verbatim>\<open>#[serde(skip)]\<close>: they are never serialized.\<close>

record BlockV0 =
  blk_id :: "BlockId option"
  blk_key :: "SymKey option"
  blk_children :: "BlockId list"
  blk_deps :: ObjectDeps
  blk_expiry :: "Timestamp option"
  blk_content :: bytes

datatype Block = V0 BlockV0

record RepositoryV0 =
  repo_id :: PubKey
  repo_branches :: "ObjectRef list"
  repo_allow_ext_requests :: bool
  repo_metadata :: bytes

datatype Repository = V0 RepositoryV0

datatype AddBranch = V0 ObjectRef

datatype RemoveBranch = V0 ObjectRef

datatype CommitType =
    Repository
  | AddBranch
  | RemoveBranch
  | Branch
  | AddMembers
  | EndOfBranch
  | Transaction
  | Snapshot
  | Ack

record MemberV0 =
  mem_id :: PubKey
  mem_commit_types :: "CommitType list"
  mem_metadata :: bytes

datatype Member = V0 MemberV0

record BranchV0 =
  br_id :: PubKey
  br_topic :: PubKey
  br_secret :: SymKey
  br_members :: "MemberV0 list"
  br_quorum :: "CommitType \<rightharpoonup> u32"
  br_ack_delay :: RelTime
  br_tags :: bytes
  br_metadata :: bytes

datatype Branch = V0 BranchV0

record AddMembersV0 =
  am_members :: "MemberV0 list"
  am_quorum :: "(CommitType \<rightharpoonup> u32) option"
  am_ack_delay :: "RelTime option"

datatype AddMembers = V0 AddMembersV0

datatype PlainOrEncryptedObjectRef = Plain ObjectRef | Encrypted bytes

record EndOfBranchV0 =
  eob_fork :: "PlainOrEncryptedObjectRef option"
  eob_expiry :: Timestamp

datatype EndOfBranch = V0 EndOfBranchV0

datatype Transaction = V0 bytes

record SnapshotV0 =
  snap_heads :: "ObjectId list"
  snap_content :: bytes

datatype Snapshot = V0 SnapshotV0

datatype Ack = V0

datatype CommitBody =
    Repository Repository
  | AddBranch AddBranch
  | RemoveBranch RemoveBranch
  | Branch Branch
  | AddMembers AddMembers
  | EndOfBranch EndOfBranch
  | Transaction Transaction
  | Snapshot Snapshot
  | Ack Ack

record CommitContentV0 =
  cc_author :: PubKey
  cc_seq :: u32
  cc_branch :: ObjectRef
  cc_deps :: "ObjectRef list"
  cc_acks :: "ObjectRef list"
  cc_refs :: "ObjectRef list"
  cc_metadata :: bytes
  cc_body :: ObjectRef
  cc_expiry :: "Timestamp option"

text \<open>Again \<^verbatim>\<open>id\<close> and \<^verbatim>\<open>key\<close> are \<^verbatim>\<open>#[serde(skip)]\<close>.\<close>

record CommitV0 =
  com_id :: "ObjectId option"
  com_key :: "SymKey option"
  com_content :: CommitContentV0
  com_sig :: Sig

datatype Commit = V0 CommitV0

record FileV0 =
  file_content_type :: bytes
  file_metadata :: bytes
  file_content :: bytes

datatype File = V0 FileV0

datatype ObjectContent =
    Commit Commit
  | CommitBody CommitBody
  | File File
  | DepList DepList

section \<open>Third-party code\<close>

text \<open>
  The functions of other crates that the code calls, at the types it calls them with. The
  serializer of \<^verbatim>\<open>Block\<close> gets the four serialized fields only, that of \<^verbatim>\<open>Commit\<close> contents the
  whole content record; \<open>chacha20\<close> is \<^verbatim>\<open>ChaCha20::new(key, nonce)\<close> followed by
  \<^verbatim>\<open>apply_keystream\<close>; the Ed25519 operations answer \<open>None\<close> (or \<open>False\<close>) where the crate
  returns an error; \<open>bloom_contains\<close> is \<^verbatim>\<open>Filter::from_u8_array(f, k).contains(d)\<close>;
  \<open>size_of_block\<close> is \<^verbatim>\<open>size_of::<Block>()\<close>, which the language leaves open.
\<close>

record externs =
  blake3_hash :: "bytes \<Rightarrow> bytes32"
  blake3_keyed_hash :: "bytes32 \<Rightarrow> bytes \<Rightarrow> bytes32"
  blake3_derive_key :: "string \<Rightarrow> bytes \<Rightarrow> bytes32"
  chacha20 :: "bytes32 \<Rightarrow> bytes \<Rightarrow> bytes \<Rightarrow> bytes"
  ser_block :: "BlockId list \<Rightarrow> ObjectDeps \<Rightarrow> Timestamp option \<Rightarrow> bytes \<Rightarrow> bytes"
  ser_block_content :: "BlockContentV0 \<Rightarrow> bytes"
  de_block_content :: "bytes \<Rightarrow> BlockContentV0 option"
  ser_object_content :: "ObjectContent \<Rightarrow> bytes"
  de_object_content :: "bytes \<Rightarrow> ObjectContent option"
  ser_commit_content :: "CommitContentV0 \<Rightarrow> bytes"
  ed25519_sign :: "bytes32 \<Rightarrow> bytes32 \<Rightarrow> bytes \<Rightarrow> (bytes32 \<times> bytes32) option"
  ed25519_verify :: "bytes32 \<Rightarrow> bytes \<Rightarrow> bytes32 \<times> bytes32 \<Rightarrow> bool"
  bloom_contains :: "bytes \<Rightarrow> u32 \<Rightarrow> bytes32 \<Rightarrow> bool"
  size_of_block :: usize

text \<open>What deserializing a serialized value gives back (BARE), and what a stream cipher does.\<close>

definition block_content_codec :: "'x externs_scheme \<Rightarrow> bool" where
  "block_content_codec X \<longleftrightarrow> (\<forall>c. de_block_content X (ser_block_content X c) = Some c)"

definition stream_cipher :: "'x externs_scheme \<Rightarrow> bool" where
  "stream_cipher X \<longleftrightarrow> (\<forall>k n d. chacha20 X k n (chacha20 X k n d) = d)"

text \<open>A serialized enum starts with its tag, so it is never empty.\<close>

definition content_tagged :: "'x externs_scheme \<Rightarrow> bool" where
  "content_tagged X \<longleftrightarrow> (\<forall>c. ser_object_content X c \<noteq> [])"

definition object_content_codec :: "'x externs_scheme \<Rightarrow> ObjectContent \<Rightarrow> bool" where
  "object_content_codec X c \<longleftrightarrow> de_object_content X (ser_object_content X c) = Some c"

end
