(* ===== verification/Lofire_Net_Types.thy ===== *)
theory Lofire_Net_Types
  imports Lofire_Types
begin

text \<open>
  The data of \<^verbatim>\<open>src/lofire-net/src/types.rs\<close>, the messages of the network protocol: structs as
  records with a short prefix, enums as datatypes with the source's constructors. An IPv6 address
  (\<^verbatim>\<open>[u8; 16]\<close>) is one 128-bit word. The accessors are in \<open>Lofire_Net\<close>.
\<close>

section \<open>Common types for messages\<close>

type_synonym PeerId = PubKey

type_synonym OverlayId = Digest

type_synonym SessionId = u64

type_synonym TopicId = PubKey

type_synonym UserId = PubKey

type_synonym ClientId = PubKey

type_synonym IPv4 = "u8 \<times> u8 \<times> u8 \<times> u8"

type_synonym IPv6 = "128 word"

datatype IP = IPv4 IPv4 | IPv6 IPv6

datatype IPTransportProtocol = TLS | QUIC

record IPTransportAddr =
  ita_ip :: IP
  ita_port :: u16
  ita_protocol :: IPTransportProtocol

datatype NetAddr = IPTransport IPTransportAddr

section \<open>Overlay messages\<close>

datatype OverlayConnect = V0

datatype OverlayDisconnect = V0

record TopicAdvertContentV0 =
  tac_topic :: TopicId
  tac_peer :: PeerId

record TopicAdvertV0 =
  tad_content :: TopicAdvertContentV0
  tad_sig :: Sig

datatype TopicAdvert = V0 TopicAdvertV0

record SubReqV0 =
  sreq_id :: u64
  sreq_topic :: TopicId

datatype SubReq = V0 SubReqV0

record SubAckV0 =
  sack_id :: u64

datatype SubAck = V0 SubAckV0

record UnsubReqV0 =
  ureq_topic :: TopicId

datatype UnsubReq = V0 UnsubReqV0

record UnsubAckV0 =
  uack_topic :: TopicId

datatype UnsubAck = V0 UnsubAckV0

record ChangeV0 =
  chg_content :: Block
  chg_key :: "SymKey option"

datatype EventBodyV0 = SubAck | Change

record EventContentV0 =
  evc_topic :: TopicId
  evc_publisher :: bytes32
  evc_seq :: u32
  evc_body :: EventBodyV0

record EventV0 =
  ev_content :: EventContentV0
  ev_sig :: Sig

datatype Event = V0 EventV0

record BlockSearchTopicV0 =
  bst_topic :: TopicId
  bst_ids :: "ObjectId list"
  bst_include_children :: bool
  bst_path :: "PeerId list"

datatype BlockSearchTopic = V0 BlockSearchTopicV0

record BlockSearchRandomV0 =
  bsr_ids :: "BlockId list"
  bsr_include_children :: bool
  bsr_fanout :: u8
  bsr_path :: "PeerId list"

datatype BlockSearchRandom = V0 BlockSearchRandomV0

record BlockResultV0 =
  bres_path :: "PeerId list"
  bres_payload :: "Block list"

datatype BlockResult = V0 BlockResultV0

record BranchHeadsReqV0 =
  bhr_topic :: TopicId
  bhr_known_heads :: "ObjectId list"

datatype BranchHeadsReq = V0 BranchHeadsReqV0

record BranchSyncReqV0 =
  bsy_heads :: "ObjectId list"
  bsy_known_heads :: "ObjectId list"
  bsy_known_commits :: BloomFilter

datatype BranchSyncReq = V0 BranchSyncReqV0

record NeedEventsV0 =
  need_publisher :: Digest
  need_from :: u32
  need_to :: u32

record HaveEventsV0 =
  have_publisher :: Digest
  have_from :: u32
  have_to :: u32

record EventReqV0 =
  ereq_topic :: TopicId
  ereq_need :: "NeedEventsV0 list"

datatype EventReq = V0 EventReqV0

record EventRespV0 =
  ersp_have :: "HaveEventsV0 list"

datatype EventResp = V0 EventRespV0

datatype OverlayRequestContentV0 = EventReq EventReq | BranchHeadsReq BranchHeadsReq | BranchSyncReq BranchSyncReq

record OverlayRequestV0 =
  oreq_id :: u64
  oreq_content :: OverlayRequestContentV0

datatype OverlayRequest = V0 OverlayRequestV0

datatype OverlayResponseContentV0 = Block Block | EventResp EventResp | Event Event

record OverlayResponseV0 =
  orsp_id :: u64
  orsp_result :: u8
  orsp_content :: "OverlayResponseContentV0 option"

datatype OverlayResponse = V0 OverlayResponseV0

record PeerAdvertContentV0 =
  pac_peer :: PeerId
  pac_subs :: BloomFilter128
  pac_address :: "NetAddr list"
  pac_version :: u32
  pac_metadata :: bytes

record PeerAdvertV0 =
  pad_content :: PeerAdvertContentV0
  pad_sig :: Sig
  pad_ttl :: u8

datatype PeerAdvert = V0 PeerAdvertV0

datatype OverlayMessageContentV0 =
    OverlayConnect OverlayConnect
  | OverlayDisconnect OverlayDisconnect
  | PeerAdvert PeerAdvert
  | TopicAdvert TopicAdvert
  | SubReq SubReq
  | SubAck SubAck
  | UnsubReq UnsubReq
  | UnsubAck UnsubAck
  | Event Event
  | BlockSearchTopic BlockSearchTopic
  | BlockSearchRandom BlockSearchRandom
  | BlockResult BlockResult
  | OverlayRequest OverlayRequest
  | OverlayResponse OverlayResponse

record OverlayMessageContentPaddedV0 =
  omp_content :: OverlayMessageContentV0
  omp_padding :: bytes

record OverlayMessageV0 =
  om_overlay :: OverlayId
  om_session :: SessionId
  om_content :: OverlayMessageContentPaddedV0
  om_mac :: Digest

datatype OverlayMessage = V0 OverlayMessageV0

section \<open>Broker protocol\<close>

record AddUserContentV0 =
  auc_user :: PubKey

record AddUserV0 =
  au_content :: AddUserContentV0
  au_sig :: Sig

datatype AddUser = V0 AddUserV0

record DelUserContentV0 =
  duc_user :: PubKey

record DelUserV0 =
  du_content :: DelUserContentV0
  du_sig :: Sig

datatype DelUser = V0 DelUserV0

record AddClientContentV0 =
  acc_client :: PubKey

record AddClientV0 =
  ac_content :: AddClientContentV0
  ac_sig :: Sig

datatype AddClient = V0 AddClientV0

record DelClientContentV0 =
  dcc_client :: PubKey

record DelClientV0 =
  dc_content :: DelClientContentV0
  dc_sig :: Sig

datatype DelClient = V0 DelClientV0

datatype BrokerRequestContentV0 =
    AddUser AddUser
  | DelUser DelUser
  | AddClient AddClient
  | DelClient DelClient

record BrokerRequestV0 =
  brq_id :: u64
  brq_content :: BrokerRequestContentV0

datatype BrokerRequest = V0 BrokerRequestV0

record BrokerResponseV0 =
  brs_id :: u64
  brs_result :: u16

datatype BrokerResponse = V0 BrokerResponseV0

record OverlayJoinV0 =
  oj_secret :: SymKey
  oj_repo_pubkey :: "PubKey option"
  oj_peers :: "PeerAdvert list"

datatype OverlayJoin = V0 OverlayJoinV0

datatype OverlayLeave = V0

datatype OverlayStatusReq = V0

record OverlayStatusRespV0 =
  osr_joined :: bool
  osr_peers :: "PeerAdvert list"

datatype OverlayStatusResp = V0 OverlayStatusRespV0

record BlockGetV0 =
  bg_id :: BlockId
  bg_include_children :: bool
  bg_topic :: "PubKey option"

datatype BlockGet = V0 BlockGetV0

datatype BlockPut = V0 Block

record ObjectPinV0 =
  opn_id :: ObjectId

datatype ObjectPin = V0 ObjectPinV0

record ObjectUnpinV0 =
  oun_id :: ObjectId

datatype ObjectUnpin = V0 ObjectUnpinV0

record ObjectCopyV0 =
  ocp_id :: ObjectId
  ocp_expiry :: "Timestamp option"

datatype ObjectCopy = V0 ObjectCopyV0

record ObjectDelV0 =
  odl_id :: ObjectId

datatype ObjectDel = V0 ObjectDelV0

record TopicSubV0 =
  tsu_topic :: PubKey
  tsu_advert :: "TopicAdvert option"

datatype TopicSub = V0 TopicSubV0

record TopicUnsubV0 =
  tun_topic :: PubKey

datatype TopicUnsub = V0 TopicUnsubV0

record TopicConnectV0 =
  tco_topic :: PubKey

datatype TopicConnect = V0 TopicConnectV0

record TopicDisconnectV0 =
  tdi_topic :: PubKey

datatype TopicDisconnect = V0 TopicDisconnectV0

datatype BrokerOverlayRequestContentV0 =
    OverlayConnect OverlayConnect
  | OverlayStatusReq OverlayStatusReq
  | OverlayJoin OverlayJoin
  | OverlayLeave OverlayLeave
  | TopicSub TopicSub
  | TopicUnsub TopicUnsub
  | TopicConnect TopicConnect
  | TopicDisconnect TopicDisconnect
  | Event Event
  | BlockGet BlockGet
  | BlockPut BlockPut
  | ObjectPin ObjectPin
  | ObjectUnpin ObjectUnpin
  | ObjectCopy ObjectCopy
  | ObjectDel ObjectDel
  | BranchHeadsReq BranchHeadsReq
  | BranchSyncReq BranchSyncReq

record BrokerOverlayRequestV0 =
  borq_id :: u64
  borq_content :: BrokerOverlayRequestContentV0

datatype BrokerOverlayRequest = V0 BrokerOverlayRequestV0

datatype BrokerOverlayResponseContentV0 = Block Block | ObjectId ObjectId | OverlayStatusResp OverlayStatusResp

record BrokerOverlayResponseV0 =
  bors_id :: u64
  bors_result :: u16
  bors_content :: "BrokerOverlayResponseContentV0 option"

datatype BrokerOverlayResponse = V0 BrokerOverlayResponseV0

datatype BrokerOverlayMessageContentV0 = BrokerOverlayRequest BrokerOverlayRequest | BrokerOverlayResponse BrokerOverlayResponse | Event Event

record BrokerOverlayMessageV0 =
  bom_overlay :: OverlayId
  bom_content :: BrokerOverlayMessageContentV0

datatype BrokerOverlayMessage = V0 BrokerOverlayMessageV0

datatype BrokerMessageContentV0 = BrokerRequest BrokerRequest | BrokerResponse BrokerResponse | BrokerOverlayMessage BrokerOverlayMessage

record BrokerMessageV0 =
  bm_content :: BrokerMessageContentV0
  bm_padding :: bytes

datatype BrokerMessage = V0 BrokerMessageV0 | Close

section \<open>External requests\<close>

record ExtObjectGetV0 =
  eog_repo :: PubKey
  eog_ids :: "ObjectId list"
  eog_include_children :: bool
  eog_expiry :: "Timestamp option"

datatype ExtObjectGet = V0 ExtObjectGetV0

type_synonym ExtBranchHeadsReq = BranchHeadsReq

type_synonym ExtBranchSyncReq = BranchSyncReq

datatype ExtRequestContentV0 = ExtObjectGet ExtObjectGet | ExtBranchHeadsReq ExtBranchHeadsReq | ExtBranchSyncReq ExtBranchSyncReq

record ExtRequestV0 =
  exq_id :: u64
  exq_content :: ExtRequestContentV0
  exq_mac :: Digest

datatype ExtRequest = V0 ExtRequestV0

datatype ExtResponseContentV0 = Block Block | EventResp EventResp | Event Event

record ExtResponseV0 =
  exs_id :: u64
  exs_result :: u16
  exs_content :: "ExtResponseContentV0 option"

datatype ExtResponse = V0 ExtResponseV0

section \<open>Authentication messages\<close>

datatype ClientHello = V0

datatype StartProtocol = Auth ClientHello | Ext ExtRequest

record ServerHelloV0 =
  sh_nonce :: bytes

datatype ServerHello = V0 ServerHelloV0

record ClientAuthContentV0 =
  cac_user :: PubKey
  cac_client :: PubKey
  cac_nonce :: bytes

record ClientAuthV0 =
  ca_content :: ClientAuthContentV0
  ca_sig :: Sig

datatype ClientAuth = V0 ClientAuthV0

record AuthResultV0 =
  ar_result :: u16
  ar_metadata :: bytes

datatype AuthResult = V0 AuthResultV0

section \<open>Direct messages\<close>

record RepoLinkV0 =
  rl_id :: PubKey
  rl_secret :: SymKey
  rl_peers :: "PeerAdvert list"

datatype RepoLink = V0 RepoLinkV0

record ObjectLinkV0 =
  ol_req :: ExtRequest
  ol_keys :: "ObjectRef list"

datatype ObjectLink = V0 ObjectLinkV0

record RepoKeysV0 =
  rk_key :: PrivKey
  rk_secret :: SymKey
  rk_peers :: "PeerAdvert list"

datatype RepoKeys = V0 RepoKeysV0

end
