(* ===== verification/Lofire_Block.thy ===== *)
theory Lofire_Block
  imports Lofire_Types
begin

text \<open>
  \<^verbatim>\<open>src/lofire/src/block.rs\<close>: construction of blocks, their identifiers and accessors. A block's
  identifier is the BLAKE3 hash of its serialized form; \<^verbatim>\<open>id()\<close> answers the cached one when there
  is one. The lemmas say which fields the identifier depends on and when the cache is honest.
\<close>

section \<open>Definitions\<close>

text \<open>\<^verbatim>\<open>Block::get_id\<close>.\<close>

fun get_id :: "'x externs_scheme \<Rightarrow> Block \<Rightarrow> BlockId" where
  "get_id X (Block.V0 b) =
     Blake3Digest32 (blake3_hash X
       (ser_block X (blk_children b) (blk_deps b) (blk_expiry b) (blk_content b)))"

text \<open>\<^verbatim>\<open>BlockV0::new\<close>: the identifier is computed and cached.\<close>

definition blockv0_new ::
  "'x externs_scheme \<Rightarrow> BlockId list \<Rightarrow> ObjectDeps \<Rightarrow> Timestamp option \<Rightarrow> bytes \<Rightarrow> SymKey option
   \<Rightarrow> BlockV0" where
  "blockv0_new X children deps expiry content key =
     (let b = \<lparr>blk_id = None, blk_key = key, blk_children = children, blk_deps = deps,
               blk_expiry = expiry, blk_content = content\<rparr>;
          block = Block.V0 b
      in b\<lparr>blk_id := Some (get_id X block)\<rparr>)"

definition block_new ::
  "'x externs_scheme \<Rightarrow> BlockId list \<Rightarrow> ObjectDeps \<Rightarrow> Timestamp option \<Rightarrow> bytes \<Rightarrow> SymKey option
   \<Rightarrow> Block" where
  "block_new X children deps expiry content key =
     Block.V0 (blockv0_new X children deps expiry content key)"

text \<open>\<^verbatim>\<open>Block::id\<close>.\<close>

fun block_id :: "'x externs_scheme \<Rightarrow> Block \<Rightarrow> BlockId" where
  "block_id X (Block.V0 b) =
     (case blk_id b of Some i \<Rightarrow> i | None \<Rightarrow> get_id X (Block.V0 b))"

fun block_content :: "Block \<Rightarrow> bytes" where
  "block_content (Block.V0 b) = blk_content b"

fun block_children :: "Block \<Rightarrow> BlockId list" where
  "block_children (Block.V0 b) = blk_children b"

fun block_deps :: "Block \<Rightarrow> ObjectDeps" where
  "block_deps (Block.V0 b) = blk_deps b"

fun block_expiry :: "Block \<Rightarrow> Timestamp option" where
  "block_expiry (Block.V0 b) = blk_expiry b"

text \<open>Changing the expiry changes the serialized form, so the cached identifier is dropped.\<close>

fun set_expiry :: "Timestamp option \<Rightarrow> Block \<Rightarrow> Block" where
  "set_expiry expiry (Block.V0 b) = Block.V0 (b\<lparr>blk_id := None, blk_expiry := expiry\<rparr>)"

fun block_key :: "Block \<Rightarrow> SymKey option" where
  "block_key (Block.V0 b) = blk_key b"

fun set_key :: "SymKey option \<Rightarrow> Block \<Rightarrow> Block" where
  "set_key key (Block.V0 b) = Block.V0 (b\<lparr>blk_key := key\<rparr>)"

section \<open>What a block carries when it is stored or sent\<close>

text \<open>
  \<open>plain b\<close> is the block that a serializer writes and a deserializer reads back: the skipped
  fields are gone. A block is \<open>honest\<close> when its cached identifier, if any, is its real one.
\<close>

fun plain :: "Block \<Rightarrow> Block" where
  "plain (Block.V0 b) = Block.V0 (b\<lparr>blk_id := None, blk_key := None\<rparr>)"

definition honest :: "'x externs_scheme \<Rightarrow> Block \<Rightarrow> bool" where
  "honest X b \<longleftrightarrow> block_id X b = get_id X b"

section \<open>Lemmas\<close>

lemma plain_idem [simp]: "plain (plain b) = plain b"
  by (cases b) simp

lemma get_id_plain [simp]: "get_id X (plain b) = get_id X b"
  by (cases b) simp

lemma block_id_plain [simp]: "block_id X (plain b) = get_id X b"
  by (cases b) simp

lemma plain_fields [simp]:
  "block_content (plain b) = block_content b" "block_children (plain b) = block_children b"
  "block_deps (plain b) = block_deps b" "block_expiry (plain b) = block_expiry b"
  "block_key (plain b) = None"
  by (cases b; simp)+

lemma plain_eqD:
  assumes "plain a = plain b"
  shows "block_content a = block_content b" "block_children a = block_children b"
    "block_deps a = block_deps b" "block_expiry a = block_expiry b" "get_id X a = get_id X b"
  using assms by (metis plain_fields get_id_plain)+

lemma plain_eq_iff:
  "plain a = plain b \<longleftrightarrow> block_content a = block_content b \<and> block_children a = block_children b
     \<and> block_deps a = block_deps b \<and> block_expiry a = block_expiry b"
proof
  assume "plain a = plain b"
  then show "block_content a = block_content b \<and> block_children a = block_children b
     \<and> block_deps a = block_deps b \<and> block_expiry a = block_expiry b"
    using plain_eqD(1-4) by blast
qed (cases a; cases b; auto intro!: BlockV0.equality)

lemma set_key_fields [simp]:
  "plain (set_key k b) = plain b" "get_id X (set_key k b) = get_id X b"
  "block_id X (set_key k b) = block_id X b" "block_key (set_key k b) = k"
  "block_content (set_key k b) = block_content b" "block_children (set_key k b) = block_children b"
  "block_deps (set_key k b) = block_deps b" "block_expiry (set_key k b) = block_expiry b"
  by (cases b; simp split: option.splits)+

lemma set_key_None_id [simp]: "block_key b = None \<Longrightarrow> set_key None b = b"
  by (cases b) simp

lemma set_key_set_key [simp]: "set_key k (set_key l b) = set_key k b"
  by (cases b) simp

lemma set_expiry_fields [simp]:
  "block_content (set_expiry e b) = block_content b"
  "block_children (set_expiry e b) = block_children b" "block_deps (set_expiry e b) = block_deps b"
  "block_expiry (set_expiry e b) = e" "block_key (set_expiry e b) = block_key b"
  "block_id X (set_expiry e b) = get_id X (set_expiry e b)"
  by (cases b; simp)+

lemma block_new_fields [simp]:
  "block_content (block_new X ch d e c k) = c" "block_children (block_new X ch d e c k) = ch"
  "block_deps (block_new X ch d e c k) = d" "block_expiry (block_new X ch d e c k) = e"
  "block_key (block_new X ch d e c k) = k"
  "block_id X (block_new X ch d e c k) = get_id X (block_new X ch d e c k)"
  by (simp_all add: block_new_def blockv0_new_def Let_def)

lemma honest_intros [simp, intro]:
  "honest X (block_new X ch d e c k)" "honest X (set_expiry e b)" "honest X (plain b)"
  by (simp_all add: honest_def)

lemma honest_set_key [simp]: "honest X (set_key k b) \<longleftrightarrow> honest X b"
  by (simp add: honest_def)

lemma honest_id: "honest X b \<Longrightarrow> block_id X b = get_id X b"
  by (simp add: honest_def)

end
