(* ===== verification/Lofire_Store.thy ===== *)
theory Lofire_Store
  imports Lofire_Block "HOL-Library.AList"
begin

text \<open>
  \<^verbatim>\<open>src/lofire/src/store.rs\<close>: the block sizes the storage backend likes, the \<^verbatim>\<open>RepoStore\<close> trait
  and its HashMap implementation. The trait is the record \<open>RepoStore\<close> of its three methods
  (a Rust trait object's table); what a caller may rely on is the locale \<open>repo_store\<close>, and
  \<open>HashMapRepoStore\<close> is shown to provide it.
\<close>

section \<open>Value sizes\<close>

definition MIN_SIZE :: usize where "MIN_SIZE = 4072"
definition PAGE_SIZE :: usize where "PAGE_SIZE = 4096"
definition HEADER :: usize where "HEADER = PAGE_SIZE - MIN_SIZE"
definition MAX_FACTOR :: usize where "MAX_FACTOR = 512"

lemmas size_consts [lofire_defs] = MIN_SIZE_def PAGE_SIZE_def HEADER_def MAX_FACTOR_def

text \<open>
  \<^verbatim>\<open>((size + HEADER) as f32 / PAGE_SIZE as f32).ceil() as usize\<close>: dividing an f32 by the power
  of two 4096 is exact, so the ceiling is that of the rounded sum over 4096.
\<close>

definition pages_f32 :: "usize \<Rightarrow> usize" where
  "pages_f32 n = (f32_of_usize n + (PAGE_SIZE - 1)) div PAGE_SIZE"

text \<open>\<^verbatim>\<open>store_valid_value_size\<close>; the addition panics when it leaves the range of \<^verbatim>\<open>usize\<close>.\<close>

definition store_valid_value_size :: "usize \<Rightarrow> (usize, 'e) result" where
  "store_valid_value_size sz =
     (if 2 ^ 64 \<le> sz + HEADER then Panic
      else Ok (min (pages_f32 (sz + HEADER)) MAX_FACTOR * PAGE_SIZE - HEADER))"

definition store_max_value_size :: usize where
  "store_max_value_size = MAX_FACTOR * PAGE_SIZE - HEADER"

section \<open>The trait and its HashMap implementation\<close>

datatype StorageError = NotFound | InvalidValue | BackendError | SerializationError

record 's RepoStore =
  rs_get :: "'s \<Rightarrow> BlockId \<Rightarrow> (Block, StorageError, 's) op"
  rs_put :: "'s \<Rightarrow> Block \<Rightarrow> (BlockId, StorageError, 's) op"
  rs_del :: "'s \<Rightarrow> BlockId \<Rightarrow> (Block \<times> usize, StorageError, 's) op"

text \<open>
  The HashMap is an association list with one entry per key; its iteration order, which
  Rust leaves open, only shows in \<^verbatim>\<open>get_all\<close>.
\<close>

record HashMapRepoStore =
  hm_blocks :: "(BlockId \<times> Block) list"

definition hashmap_new :: HashMapRepoStore where
  "hashmap_new = \<lparr>hm_blocks = []\<rparr>"

definition hashmap_get_len :: "HashMapRepoStore \<Rightarrow> usize" where
  "hashmap_get_len s = length (hm_blocks s)"

definition hashmap_get_all :: "HashMapRepoStore \<Rightarrow> Block list" where
  "hashmap_get_all s = map snd (hm_blocks s)"

definition hashmap_get :: "HashMapRepoStore \<Rightarrow> BlockId \<Rightarrow> (Block, StorageError, HashMapRepoStore) op" where
  "hashmap_get s i =
     (case map_of (hm_blocks s) i of Some block \<Rightarrow> (Ok block, s) | None \<Rightarrow> (Err NotFound, s))"

definition hashmap_put ::
  "'x externs_scheme \<Rightarrow> HashMapRepoStore \<Rightarrow> Block \<Rightarrow> (BlockId, StorageError, HashMapRepoStore) op" where
  "hashmap_put X s block =
     (let i = block_id X block; b = set_key None block
      in (Ok i, s\<lparr>hm_blocks := AList.update i b (hm_blocks s)\<rparr>))"

definition hashmap_del ::
  "'x externs_scheme \<Rightarrow> HashMapRepoStore \<Rightarrow> BlockId \<Rightarrow> (Block \<times> usize, StorageError, HashMapRepoStore) op" where
  "hashmap_del X s i =
     (case map_of (hm_blocks s) i of
        Some block \<Rightarrow> (Ok (block, size_of_block X), s\<lparr>hm_blocks := AList.delete i (hm_blocks s)\<rparr>)
      | None \<Rightarrow> (Err NotFound, s))"

definition hashmap_store :: "'x externs_scheme \<Rightarrow> HashMapRepoStore RepoStore" where
  "hashmap_store X =
     \<lparr>rs_get = hashmap_get, rs_put = hashmap_put X, rs_del = hashmap_del X\<rparr>"

section \<open>What a caller relies on\<close>

text \<open>
  The abstract state of a store maps an identifier to the plain block stored under it. A
  block read back has the identifier it was asked for and no key; \<^verbatim>\<open>put\<close> of an honest block
  adds it under its identifier; \<^verbatim>\<open>del\<close> removes it. No operation panics.
\<close>

locale repo_store =
  fixes X :: "'x externs_scheme"
    and S :: "'s RepoStore"
    and invar :: "'s \<Rightarrow> bool"
    and \<alpha> :: "'s \<Rightarrow> BlockId \<rightharpoonup> Block"
  assumes get_found: "invar s \<Longrightarrow> \<alpha> s i = Some b \<Longrightarrow>
      \<exists>b' s'. rs_get S s i = (Ok b', s') \<and> plain b' = b \<and> block_id X b' = i \<and> block_key b' = None
        \<and> invar s' \<and> \<alpha> s' = \<alpha> s"
    and get_missing: "invar s \<Longrightarrow> \<alpha> s i = None \<Longrightarrow>
      \<exists>s'. rs_get S s i = (Err NotFound, s') \<and> invar s' \<and> \<alpha> s' = \<alpha> s"
    and put_stores: "invar s \<Longrightarrow> honest X b \<Longrightarrow>
      \<exists>s'. rs_put S s b = (Ok (block_id X b), s') \<and> invar s' \<and> \<alpha> s' = (\<alpha> s)(block_id X b \<mapsto> plain b)"
    and del_found: "invar s \<Longrightarrow> \<alpha> s i = Some b \<Longrightarrow>
      \<exists>b' n s'. rs_del S s i = (Ok (b', n), s') \<and> plain b' = b \<and> invar s' \<and> \<alpha> s' = (\<alpha> s)(i := None)"
    and del_missing: "invar s \<Longrightarrow> \<alpha> s i = None \<Longrightarrow>
      \<exists>s'. rs_del S s i = (Err NotFound, s') \<and> invar s' \<and> \<alpha> s' = \<alpha> s"
begin

lemma get_cases:
  assumes "invar s"
  obtains (found) b s' where "rs_get S s i = (Ok b, s')" "\<alpha> s i = Some (plain b)" "block_id X b = i"
      "block_key b = None" "invar s'" "\<alpha> s' = \<alpha> s"
    | (missing) s' where "rs_get S s i = (Err NotFound, s')" "\<alpha> s i = None" "invar s'" "\<alpha> s' = \<alpha> s"
  using get_found [OF assms] get_missing [OF assms] by (cases "\<alpha> s i") metis+

lemma put_then_get:
  assumes "invar s" "honest X b" "rs_put S s b = (r, s1)"
  shows "\<exists>b' s2. rs_get S s1 (block_id X b) = (Ok b', s2) \<and> plain b' = plain b"
proof -
  from put_stores [OF assms(1,2)] assms(3)
  have "invar s1" "\<alpha> s1 (block_id X b) = Some (plain b)" by auto
  from get_found [OF this] show ?thesis by blast
qed

lemma put_keeps_others:
  assumes "invar s" "honest X b" "rs_put S s b = (r, s1)" "i \<noteq> block_id X b" "\<alpha> s i = Some p"
  shows "\<exists>b' s2. rs_get S s1 i = (Ok b', s2) \<and> plain b' = p"
proof -
  from put_stores [OF assms(1,2)] assms(3-5) have "invar s1" "\<alpha> s1 i = Some p" by auto
  from get_found [OF this] show ?thesis by blast
qed

lemma del_then_get:
  assumes "invar s" "rs_del S s i = (r, s1)"
  shows "\<exists>s2. rs_get S s1 i = (Err NotFound, s2)"
proof -
  from del_found [OF assms(1), of i] del_missing [OF assms(1), of i] assms(2)
  have "invar s1 \<and> \<alpha> s1 i = None" by (cases "\<alpha> s i") auto
  then show ?thesis using get_missing by blast
qed

end

section \<open>The HashMap store provides it\<close>

definition hashmap_invar :: "'x externs_scheme \<Rightarrow> HashMapRepoStore \<Rightarrow> bool" where
  "hashmap_invar X s \<longleftrightarrow> distinct (map fst (hm_blocks s)) \<and>
     (\<forall>(i, b) \<in> set (hm_blocks s). block_id X b = i \<and> block_key b = None)"

definition hashmap_abs :: "HashMapRepoStore \<Rightarrow> BlockId \<rightharpoonup> Block" where
  "hashmap_abs s = (\<lambda>i. map_option plain (map_of (hm_blocks s) i))"

lemma hashmap_invar_lookup:
  "hashmap_invar X s \<Longrightarrow> map_of (hm_blocks s) i = Some b \<Longrightarrow> block_id X b = i \<and> block_key b = None"
  by (auto simp: hashmap_invar_def dest!: map_of_SomeD)

lemma hashmap_invar_new [simp]: "hashmap_invar X hashmap_new"
  by (simp add: hashmap_invar_def hashmap_new_def)

lemma hashmap_abs_new [simp]: "hashmap_abs hashmap_new = Map.empty"
  by (simp add: hashmap_abs_def hashmap_new_def)

lemma hashmap_invar_iff:
  "hashmap_invar X s \<longleftrightarrow> distinct (map fst (hm_blocks s)) \<and>
     (\<forall>i b. map_of (hm_blocks s) i = Some b \<longrightarrow> block_id X b = i \<and> block_key b = None)"
  by (force simp: hashmap_invar_def dest: map_of_SomeD)

lemma hashmap_invar_put:
  "hashmap_invar X s \<Longrightarrow>
     hashmap_invar X (s\<lparr>hm_blocks := AList.update (block_id X b) (set_key None b) (hm_blocks s)\<rparr>)"
  by (simp add: hashmap_invar_iff distinct_update update_conv')

lemma hashmap_invar_delete:
  "hashmap_invar X s \<Longrightarrow> hashmap_invar X (s\<lparr>hm_blocks := AList.delete i (hm_blocks s)\<rparr>)"
  by (simp add: hashmap_invar_iff distinct_delete delete_conv')

interpretation hm: repo_store X "hashmap_store X" "hashmap_invar X" hashmap_abs for X
proof (unfold_locales, goal_cases)
  case (1 s i b)
  then show ?case using hashmap_invar_lookup [of X s i]
    by (auto simp: hashmap_store_def hashmap_get_def hashmap_abs_def)
next
  case (2 s i)
  then show ?case by (auto simp: hashmap_store_def hashmap_get_def hashmap_abs_def)
next
  case (3 s b)
  then show ?case using hashmap_invar_put [of X s b]
    by (auto simp: hashmap_store_def hashmap_put_def hashmap_abs_def update_conv' fun_eq_iff Let_def)
next
  case (4 s i b)
  then show ?case using hashmap_invar_delete [of X s i]
    by (auto simp: hashmap_store_def hashmap_del_def hashmap_abs_def delete_conv' fun_eq_iff)
next
  case (5 s i)
  then show ?case by (auto simp: hashmap_store_def hashmap_del_def hashmap_abs_def)
qed

section \<open>Valid value sizes\<close>

text \<open>A valid size fills \<open>k\<close> pages less the header of the first.\<close>

definition valid_value_size :: "usize \<Rightarrow> bool" where
  "valid_value_size v \<longleftrightarrow> (\<exists>k. 1 \<le> k \<and> k \<le> MAX_FACTOR \<and> v = k * PAGE_SIZE - HEADER)"

lemma min_pages_f32:
  "min (pages_f32 n) MAX_FACTOR = min ((n + (PAGE_SIZE - 1)) div PAGE_SIZE) MAX_FACTOR"
proof (cases "n < 2 ^ 24")
  case True
  then show ?thesis by (simp add: pages_f32_def f32_of_usize_small)
next
  case False
  then have "2 ^ 24 \<le> f32_of_usize n" using f32_of_usize_large [of n] by simp
  with False show ?thesis by (simp add: pages_f32_def lofire_defs)
qed

lemma store_valid_value_size_eq:
  "sz + HEADER < 2 ^ 64 \<Longrightarrow> store_valid_value_size sz =
     Ok (min ((sz + HEADER + (PAGE_SIZE - 1)) div PAGE_SIZE) MAX_FACTOR * PAGE_SIZE - HEADER)"
  by (simp add: store_valid_value_size_def min_pages_f32)

lemma store_valid_value_size_Ok:
  assumes "store_valid_value_size sz = Ok v"
  shows "valid_value_size v"
proof -
  let ?k = "min ((sz + HEADER + (PAGE_SIZE - 1)) div PAGE_SIZE) MAX_FACTOR"
  from assms have "sz + HEADER < 2 ^ 64"
    by (auto simp: store_valid_value_size_def split: if_splits)
  with assms have "v = ?k * PAGE_SIZE - HEADER" by (simp add: store_valid_value_size_eq)
  moreover have "1 \<le> ?k" "?k \<le> MAX_FACTOR" by (simp_all add: lofire_defs)
  ultimately show ?thesis unfolding valid_value_size_def by blast
qed

lemma valid_value_size_bounds:
  "valid_value_size v \<Longrightarrow> MIN_SIZE \<le> v \<and> v \<le> store_max_value_size"
  by (auto simp: valid_value_size_def store_max_value_size_def lofire_defs)

lemma store_valid_value_size_valid:
  assumes "valid_value_size v"
  shows "store_valid_value_size v = Ok v"
proof -
  from assms obtain k where "1 \<le> k" "k \<le> 512" "v = k * 4096 - 24"
    by (auto simp: valid_value_size_def lofire_defs)
  then show ?thesis by (simp add: store_valid_value_size_eq lofire_defs)
qed

text \<open>
  C24. \<^verbatim>\<open>store_valid_value_size\<close>, computed in 32-bit floating point, rounds a requested size up to
  the smallest valid size that holds it, and answers the largest one for anything bigger:
  no rounding error of the f32 arithmetic shows in the result.
\<close>

theorem store_valid_value_size_least:
  assumes "sz + HEADER < 2 ^ 64"
  shows "\<exists>v. store_valid_value_size sz = Ok v \<and> valid_value_size v \<and>
    (if sz \<le> store_max_value_size
     then sz \<le> v \<and> (\<forall>w. valid_value_size w \<and> sz \<le> w \<longrightarrow> v \<le> w)
     else v = store_max_value_size)"
proof -
  let ?k = "(sz + HEADER + (PAGE_SIZE - 1)) div PAGE_SIZE"
  let ?v = "min ?k MAX_FACTOR * PAGE_SIZE - HEADER"
  have v: "store_valid_value_size sz = Ok ?v" using assms by (rule store_valid_value_size_eq)
  have small: "sz \<le> ?v" "?k \<le> MAX_FACTOR" if "sz \<le> store_max_value_size"
    using that by (auto simp: store_max_value_size_def lofire_defs)
  have "?v \<le> w" if "sz \<le> store_max_value_size" "valid_value_size w" "sz \<le> w" for w
  proof -
    from that(2,3) obtain k where "w = k * PAGE_SIZE - HEADER" "?k \<le> k"
      by (auto simp: valid_value_size_def lofire_defs)
    then show ?thesis using small(2) [OF that(1)] by (simp add: lofire_defs)
  qed
  moreover have "?v = store_max_value_size" if "\<not> sz \<le> store_max_value_size"
    using that by (auto simp: store_max_value_size_def lofire_defs)
  ultimately show ?thesis using v small(1) store_valid_value_size_Ok [OF v] by auto
qed

theorem store_valid_value_size_least_witness:
  "\<exists>v. store_valid_value_size 4073 = Ok v \<and> valid_value_size v \<and> 4073 \<le> v"
proof -
  have "4073 + HEADER < 2 ^ 64" "4073 \<le> store_max_value_size"
    by (simp_all add: lofire_defs store_max_value_size_def)
  with store_valid_value_size_least [of 4073] show ?thesis by auto
qed
end
