(* ===== verification/Lofire_Instance.thy ===== *)
theory Lofire_Instance
  imports Lofire_Types
begin

text \<open>
  A concrete instance of the third-party parameters, on which the laws of \<open>externs\<close> hold and
  everything evaluates: a polynomial checksum for the hashes, a one-byte XOR for the cipher, a
  tagged encoding for the serializers, a checksum for the signature. It is used by the witnesses
  only: no property is about these functions.
\<close>

unbundle bit_operations_syntax

definition checksum :: "bytes \<Rightarrow> u8" where
  "checksum bs = foldl (\<lambda>a b. 31 * a + b) 7 bs"

definition xor_cipher :: "bytes32 \<Rightarrow> bytes \<Rightarrow> bytes \<Rightarrow> bytes" where
  "xor_cipher k n d = map (\<lambda>b. b XOR hd (bytes_of k)) d"

primrec tag_block_content :: "BlockContentV0 \<Rightarrow> bytes" where
  "tag_block_content (InternalNode ks) = 0 # concat (map (\<lambda>k. bytes_of (symkey_slice k)) ks)"
| "tag_block_content (DataChunk d) = 1 # d"

fun untag_block_content :: "bytes \<Rightarrow> BlockContentV0 option" where
  "untag_block_content [] = None"
| "untag_block_content (t # bs) =
     (if t = 0 then Some (InternalNode (map (\<lambda>k. ChaCha20Key (bytes32_of k)) (chunks 32 bs)))
      else if t = 1 then Some (DataChunk bs) else None)"

fun tag_object_content :: "ObjectContent \<Rightarrow> bytes" where
  "tag_object_content (ObjectContent.Commit (Commit.V0 c)) = [0, checksum (cc_metadata (com_content c))]"
| "tag_object_content (ObjectContent.CommitBody b) = [1]"
| "tag_object_content (ObjectContent.File (File.V0 f)) = 2 # file_content f"
| "tag_object_content (ObjectContent.DepList (DepList.V0 ds)) = 3 # concat (map (\<lambda>d. bytes_of (digest_bytes d)) ds)"

fun untag_object_content :: "bytes \<Rightarrow> ObjectContent option" where
  "untag_object_content [] = None"
| "untag_object_content (t # bs) =
     (if t = 2 then Some (ObjectContent.File (File.V0
          \<lparr>file_content_type = [], file_metadata = [], file_content = bs\<rparr>))
      else if t = 3 then Some (ObjectContent.DepList (DepList.V0
          (map (\<lambda>d. Blake3Digest32 (bytes32_of d)) (chunks 32 bs))))
      else None)"

definition tag_block ::
  "BlockId list \<Rightarrow> ObjectDeps \<Rightarrow> Timestamp option \<Rightarrow> bytes \<Rightarrow> bytes" where
  "tag_block children deps expiry content =
     (case expiry of None \<Rightarrow> 0 | Some e \<Rightarrow> ucast e + 1) # of_nat (length children) # content"

definition demo_externs :: externs where
  "demo_externs = \<lparr>
     blake3_hash = (\<lambda>bs. fill32 (checksum bs)),
     blake3_keyed_hash = (\<lambda>k bs. fill32 (checksum (bytes_of k @ bs))),
     blake3_derive_key = (\<lambda>c bs. fill32 (checksum bs + of_nat (length c))),
     chacha20 = xor_cipher,
     ser_block = tag_block,
     ser_block_content = tag_block_content,
     de_block_content = untag_block_content,
     ser_object_content = tag_object_content,
     de_object_content = untag_object_content,
     ser_commit_content = cc_metadata,
     ed25519_sign = (\<lambda>sk pk m. Some (pk, fill32 (checksum m))),
     ed25519_verify = (\<lambda>pk m (r, s). r = pk \<and> s = fill32 (checksum m)),
     bloom_contains = (\<lambda>f k d. hd (bytes_of d) \<in> set f),
     size_of_block = 136\<rparr>"

lemma demo_fields [simp]:
  "blake3_hash demo_externs bs = fill32 (checksum bs)"
  "blake3_keyed_hash demo_externs k bs = fill32 (checksum (bytes_of k @ bs))"
  "blake3_derive_key demo_externs c bs = fill32 (checksum bs + of_nat (length c))"
  "chacha20 demo_externs = xor_cipher"
  "ser_block demo_externs = tag_block"
  "ser_block_content demo_externs = tag_block_content"
  "de_block_content demo_externs = untag_block_content"
  "ser_object_content demo_externs = tag_object_content"
  "de_object_content demo_externs = untag_object_content"
  "ser_commit_content demo_externs = cc_metadata"
  "ed25519_sign demo_externs sk pk m = Some (pk, fill32 (checksum m))"
  "ed25519_verify demo_externs pk m (r, s) \<longleftrightarrow> r = pk \<and> s = fill32 (checksum m)"
  "bloom_contains demo_externs f n d \<longleftrightarrow> hd (bytes_of d) \<in> set f"
  "size_of_block demo_externs = 136"
  by (simp_all add: demo_externs_def)

lemma chunks_concat_exact:
  "0 < n \<Longrightarrow> \<forall>x \<in> set xs. length x = n \<Longrightarrow> chunks n (concat xs) = xs"
proof (induction xs)
  case (Cons x xs)
  then have "x \<noteq> []" by auto
  with Cons show ?case by (simp add: chunks_step)
qed simp

lemma demo_block_content_codec [simp]: "block_content_codec demo_externs"
proof -
  have "untag_block_content (tag_block_content c) = Some c" for c
  proof (cases c)
    case (InternalNode ks)
    have "ChaCha20Key (symkey_slice k) = k" for k by (cases k) simp
    with InternalNode show ?thesis
      by (simp add: chunks_concat_exact comp_def)
  qed simp
  then show ?thesis by (simp add: block_content_codec_def)
qed

lemma demo_stream_cipher [simp]: "stream_cipher demo_externs"
  by (simp add: stream_cipher_def xor_cipher_def comp_def xor.assoc)

lemma demo_content_tagged [simp]: "content_tagged demo_externs"
proof -
  have "tag_object_content c \<noteq> []" for c by (cases c rule: tag_object_content.cases) simp_all
  then show ?thesis by (simp add: content_tagged_def)
qed

text \<open>A file and a repository to make objects of.\<close>

definition demo_file :: "bytes \<Rightarrow> ObjectContent" where
  "demo_file d = ObjectContent.File (File.V0
     \<lparr>file_content_type = [], file_metadata = [], file_content = d\<rparr>)"

lemma demo_file_codec [simp]: "object_content_codec demo_externs (demo_file d)"
  by (simp add: object_content_codec_def demo_file_def)

definition demo_pubkey :: PubKey where "demo_pubkey = Ed25519PubKey (fill32 1)"
definition demo_secret :: SymKey where "demo_secret = ChaCha20Key (fill32 2)"
definition demo_id :: "u8 \<Rightarrow> ObjectId" where "demo_id v = Blake3Digest32 (fill32 v)"

end
