(* ===== verification/Lofire_Object.thy ===== *)
theory Lofire_Object
  imports Lofire_Store Lofire_Instance
begin

text \<open>
  \<^verbatim>\<open>src/lofire/src/object.rs\<close>: an object is a content cut into encrypted blocks that form a Merkle
  tree, leaves first and the root last. This theory has the definitions: building
  (\<^verbatim>\<open>Object::new\<close>, \<^verbatim>\<open>make_tree\<close>, \<^verbatim>\<open>make_deps\<close>, \<^verbatim>\<open>copy\<close>), parsing (\<^verbatim>\<open>collect_leaves\<close>, \<^verbatim>\<open>leaves\<close>,
  \<^verbatim>\<open>content\<close>), and moving an object to and from a store (\<^verbatim>\<open>save\<close>, \<^verbatim>\<open>load\<close>).
\<close>

section \<open>Constants and types\<close>

definition EMPTY_BLOCK_SIZE :: usize where "EMPTY_BLOCK_SIZE = 12"
definition BLOCK_ID_SIZE :: usize where "BLOCK_ID_SIZE = 33"
definition BLOCK_KEY_SIZE :: usize where "BLOCK_KEY_SIZE = 33"
definition EMPTY_ROOT_SIZE_DEPSREF :: usize where "EMPTY_ROOT_SIZE_DEPSREF = 77"
definition DEPSREF_OVERLOAD :: usize where
  "DEPSREF_OVERLOAD = EMPTY_ROOT_SIZE_DEPSREF - EMPTY_BLOCK_SIZE"
definition BIG_VARINT_EXTRA :: usize where "BIG_VARINT_EXTRA = 3"
definition DATA_VARINT_EXTRA :: usize where "DATA_VARINT_EXTRA = 4"
definition MAX_DEPS_SIZE :: usize where "MAX_DEPS_SIZE = 8 * BLOCK_ID_SIZE"

lemmas block_size_consts [lofire_defs] = EMPTY_BLOCK_SIZE_def BLOCK_ID_SIZE_def BLOCK_KEY_SIZE_def
  EMPTY_ROOT_SIZE_DEPSREF_def DEPSREF_OVERLOAD_def BIG_VARINT_EXTRA_def DATA_VARINT_EXTRA_def
  MAX_DEPS_SIZE_def

record Object =
  obj_blocks :: "Block list"
  obj_deps :: "ObjectId list"

datatype ObjectParseError =
    MissingBlocks "BlockId list"
  | MissingRootKey
  | InvalidBlockId
  | InvalidChildren
  | InvalidKeys
  | InvalidDeps
  | BlockDeserializeError
  | ObjectDeserializeError

datatype ObjectCopyError = NotFound | ParseError

section \<open>Accessors\<close>

text \<open>\<^verbatim>\<open>self.blocks.last().unwrap()\<close>.\<close>

definition object_root :: "Object \<Rightarrow> (Block, 'e) result" where
  "object_root ob = (if obj_blocks ob = [] then Panic else Ok (last (obj_blocks ob)))"

definition object_id :: "'x externs_scheme \<Rightarrow> Object \<Rightarrow> (ObjectId, 'e) result" where
  "object_id X ob = and_then (object_root ob) (\<lambda>b. Ok (block_id X b))"

definition object_key :: "Object \<Rightarrow> (SymKey option, 'e) result" where
  "object_key ob = and_then (object_root ob) (\<lambda>b. Ok (block_key b))"

definition object_reference :: "'x externs_scheme \<Rightarrow> Object \<Rightarrow> (ObjectRef option, 'e) result" where
  "object_reference X ob =
     and_then (object_key ob) (\<lambda>k. case k of
         None \<Rightarrow> Ok None
       | Some k \<Rightarrow> and_then (object_id X ob) (\<lambda>i. Ok (Some \<lparr>ref_id = i, ref_key = k\<rparr>)))"

definition object_expiry :: "Object \<Rightarrow> (Timestamp option, 'e) result" where
  "object_expiry ob = and_then (object_root ob) (\<lambda>b. Ok (block_expiry b))"

definition object_to_hashmap :: "'x externs_scheme \<Rightarrow> Object \<Rightarrow> BlockId \<rightharpoonup> Block" where
  "object_to_hashmap X ob = foldl (\<lambda>m b. m(block_id X b \<mapsto> b)) Map.empty (obj_blocks ob)"

section \<open>Building\<close>

definition convergence_key :: "'x externs_scheme \<Rightarrow> PubKey \<Rightarrow> SymKey \<Rightarrow> bytes32" where
  "convergence_key X repo_pubkey repo_secret =
     (case (repo_pubkey, repo_secret) of (Ed25519PubKey pubkey, ChaCha20Key secret) \<Rightarrow>
        blake3_derive_key X ''LoFiRe Data BLAKE3 key'' (bytes_of pubkey @ bytes_of secret))"

definition make_block ::
  "'x externs_scheme \<Rightarrow> bytes \<Rightarrow> bytes32 \<Rightarrow> ObjectId list \<Rightarrow> ObjectDeps \<Rightarrow> Timestamp option \<Rightarrow> Block" where
  "make_block X content conv_key children deps expiry =
     (let key = blake3_keyed_hash X conv_key content;
          nonce = replicate 12 0;
          content_enc = chacha20 X key nonce content
      in block_new X children deps expiry content_enc (Some (ChaCha20Key key)))"

text \<open>\<^verbatim>\<open>nodes.iter().map(|block| block.key().unwrap()).collect()\<close>.\<close>

primrec unwrap_keys :: "Block list \<Rightarrow> (SymKey list, 'e) result" where
  "unwrap_keys [] = Ok []"
| "unwrap_keys (b # bs) =
     and_then (unwrap (block_key b)) (\<lambda>k. and_then (unwrap_keys bs) (\<lambda>ks. Ok (k # ks)))"

text \<open>The \<^verbatim>\<open>while let Some(nodes) = it.next()\<close> loop of \<^verbatim>\<open>make_tree\<close>: one parent per chunk.\<close>

fun make_parents ::
  "'x externs_scheme \<Rightarrow> bytes32 \<Rightarrow> ObjectDeps \<Rightarrow> Timestamp option \<Rightarrow> Block list \<Rightarrow> Block list list
   \<Rightarrow> (Block list, 'e) result" where
  "make_parents X conv_key root_deps expiry parents [] = Ok parents"
| "make_parents X conv_key root_deps expiry parents (nodes # rest) =
     and_then (unwrap_keys nodes) (\<lambda>keys.
       let children = map (block_id X) nodes;
           content_ser = ser_block_content X (InternalNode keys);
           deps = (if parents = [] \<and> rest = [] then root_deps else ObjectIdList [])
       in make_parents X conv_key root_deps expiry
            (parents @ [make_block X content_ser conv_key children deps expiry]) rest)"

text \<open>
  \<^verbatim>\<open>make_tree\<close>. \<^verbatim>\<open>leaves.chunks(0)\<close> panics. With arity 1 and more than one leaf every level is as
  long as the one below, so the recursion never ends.
\<close>

function make_tree ::
  "'x externs_scheme \<Rightarrow> Block list \<Rightarrow> bytes32 \<Rightarrow> ObjectDeps \<Rightarrow> Timestamp option \<Rightarrow> usize
   \<Rightarrow> (Block list, 'e) result" where
  "make_tree X leaves conv_key root_deps expiry arity =
     (if arity = 0 then Panic
      else and_then (make_parents X conv_key root_deps expiry [] (chunks arity leaves)) (\<lambda>parents.
        if 1 < length parents then
          (if length parents < length leaves then
             and_then (make_tree X parents conv_key root_deps expiry arity)
               (\<lambda>great_parents. Ok (parents @ great_parents))
           else Hang)
        else Ok parents))"
  by pat_completeness auto
termination
  by (relation "measure (\<lambda>(X, leaves, _). length leaves)") auto

declare make_tree.simps [simp del]

text \<open>\<^verbatim>\<open>content_ser.chunks(n)\<close> turned into leaf blocks; \<open>n = 0\<close> panics.\<close>

definition make_leaf ::
  "'x externs_scheme \<Rightarrow> bytes32 \<Rightarrow> ObjectDeps \<Rightarrow> Timestamp option \<Rightarrow> bytes \<Rightarrow> Block" where
  "make_leaf X conv_key deps expiry chunk =
     make_block X (ser_block_content X (DataChunk chunk)) conv_key [] deps expiry"

definition tree_arity :: "usize \<Rightarrow> usize" where
  "tree_arity valid_block_size =
     (valid_block_size - EMPTY_BLOCK_SIZE - BIG_VARINT_EXTRA * 2 - MAX_DEPS_SIZE)
       div (BLOCK_ID_SIZE + BLOCK_KEY_SIZE)"

text \<open>\<^verbatim>\<open>Object::new\<close> after its dependencies are made: the blocks of the object.\<close>

definition make_blocks ::
  "'x externs_scheme \<Rightarrow> bytes \<Rightarrow> nat \<Rightarrow> Timestamp option \<Rightarrow> usize \<Rightarrow> bytes32 \<Rightarrow> ObjectDeps
   \<Rightarrow> (Block list, 'e) result" where
  "make_blocks X content_ser n_deps expiry valid_block_size conv_key obj_deps' =
     (let data_chunk_size = valid_block_size - EMPTY_BLOCK_SIZE - DATA_VARINT_EXTRA in
      if EMPTY_BLOCK_SIZE + DATA_VARINT_EXTRA + BLOCK_ID_SIZE * n_deps + length content_ser
           \<le> valid_block_size
      then Ok [make_leaf X conv_key obj_deps' expiry content_ser]
      else if data_chunk_size = 0 then Panic
      else
        let blocks = map (make_leaf X conv_key (ObjectIdList []) expiry)
              (chunks data_chunk_size content_ser)
        in and_then (make_tree X blocks conv_key obj_deps' expiry (tree_arity valid_block_size))
             (\<lambda>parents. Ok (blocks @ parents)))"

text \<open>
  \<^verbatim>\<open>make_deps\<close> and \<^verbatim>\<open>Object::new\<close> call each other: more than eight dependencies go into an object
  of their own, of which only the reference is kept.
\<close>

function (sequential)
  make_deps ::
    "'x externs_scheme \<Rightarrow> ObjectId list \<Rightarrow> usize \<Rightarrow> PubKey \<Rightarrow> SymKey \<Rightarrow> (ObjectDeps, 'e) result"
  and object_new ::
    "'x externs_scheme \<Rightarrow> ObjectContent \<Rightarrow> ObjectId list \<Rightarrow> Timestamp option \<Rightarrow> usize \<Rightarrow> PubKey
     \<Rightarrow> SymKey \<Rightarrow> (Object, 'e) result" where
  "make_deps X deps_vec object_size repo_pubkey repo_secret =
     (if length deps_vec \<le> 8 then Ok (ObjectIdList deps_vec)
      else and_then (object_new X (ObjectContent.DepList (DepList.V0 deps_vec)) [] None object_size
                       repo_pubkey repo_secret)
        (\<lambda>dep_obj. and_then (object_id X dep_obj) (\<lambda>i.
           and_then (object_key dep_obj) (\<lambda>k. and_then (unwrap k) (\<lambda>k.
             Ok (DepListRef \<lparr>ref_id = i, ref_key = k\<rparr>))))))"
| "object_new X content deps expiry block_size repo_pubkey repo_secret =
     and_then (store_valid_value_size block_size) (\<lambda>valid_block_size.
       let conv_key = convergence_key X repo_pubkey repo_secret in
       and_then (make_deps X deps valid_block_size repo_pubkey repo_secret) (\<lambda>obj_deps'.
         and_then (make_blocks X (ser_object_content X content) (length deps) expiry
                     valid_block_size conv_key obj_deps')
           (\<lambda>blocks. Ok \<lparr>obj_blocks = blocks, obj_deps = deps\<rparr>)))"
  by pat_completeness auto
termination
  by (relation "measure (case_sum (\<lambda>(X, deps, _). 2 * length deps)
        (\<lambda>(X, content, deps, _). 2 * length deps + 1))") auto

declare make_deps.simps [simp del] object_new.simps [simp del]

section \<open>Parsing\<close>

text \<open>
  The body of the loop of \<^verbatim>\<open>collect_leaves\<close> for one parent: check the identifier, decrypt,
  deserialize, and push either the children or the leaf and its data. The accumulators are
  the children and the two optional vectors of the caller.
\<close>

type_synonym collect_acc = "(ObjectId \<times> SymKey) list \<times> Block list option \<times> bytes option"

definition decrypt_content :: "'x externs_scheme \<Rightarrow> SymKey \<Rightarrow> bytes \<Rightarrow> bytes" where
  "decrypt_content X key content =
     (case key of ChaCha20Key k \<Rightarrow> chacha20 X k (replicate 12 0) content)"

fun collect_block ::
  "'x externs_scheme \<Rightarrow> Block \<Rightarrow> ObjectId \<times> SymKey \<Rightarrow> collect_acc
   \<Rightarrow> (collect_acc, ObjectParseError) result" where
  "collect_block X block (i, key) (children, leaves, obj_content) =
     (if i \<noteq> block_id X block then Err InvalidBlockId
      else case de_block_content X (decrypt_content X key (block_content block)) of
          None \<Rightarrow> Err BlockDeserializeError
        | Some (InternalNode keys) \<Rightarrow>
            if length keys \<noteq> length (block_children block) then Err InvalidKeys
            else Ok (children @ zip (block_children block) keys, leaves, obj_content)
        | Some (DataChunk chunk) \<Rightarrow>
            Ok (children, map_option (\<lambda>l. l @ [set_key (Some key) block]) leaves,
                map_option (\<lambda>c. c @ chunk) obj_content))"

text \<open>The loop over the parents; \<^verbatim>\<open>&blocks[i]\<close> panics out of range.\<close>

fun collect_level ::
  "'x externs_scheme \<Rightarrow> Block list \<Rightarrow> (ObjectId \<times> SymKey) list \<Rightarrow> usize \<Rightarrow> collect_acc
   \<Rightarrow> (collect_acc, ObjectParseError) result" where
  "collect_level X blocks [] i acc = Ok acc"
| "collect_level X blocks (p # parents) i acc =
     (if length blocks \<le> i then Panic
      else and_then (collect_block X (blocks ! i) p acc)
             (\<lambda>acc. collect_level X blocks parents (i + 1) acc))"

function collect_leaves ::
  "'x externs_scheme \<Rightarrow> Block list \<Rightarrow> (ObjectId \<times> SymKey) list \<Rightarrow> usize \<Rightarrow> Block list option
   \<Rightarrow> bytes option \<Rightarrow> (Block list option \<times> bytes option, ObjectParseError) result" where
  "collect_leaves X blocks parents parent_index leaves obj_content =
     and_then (collect_level X blocks parents parent_index ([], leaves, obj_content))
       (\<lambda>(children, leaves, obj_content).
          if children = [] then Ok (leaves, obj_content)
          else if parent_index < length children then Err InvalidChildren
          else collect_leaves X blocks children (parent_index - length children) leaves obj_content)"
  by pat_completeness auto
termination
  by (relation "measure (\<lambda>(X, blocks, parents, i, _). i)") (auto simp flip: length_greater_0_conv)

declare collect_leaves.simps [simp del]

text \<open>\<^verbatim>\<open>Object::leaves\<close> (the root key is unwrapped) and \<^verbatim>\<open>Object::content\<close>.\<close>

definition object_leaves :: "'x externs_scheme \<Rightarrow> Object \<Rightarrow> (Block list, ObjectParseError) result" where
  "object_leaves X ob =
     and_then (object_id X ob) (\<lambda>i. and_then (object_key ob) (\<lambda>k. and_then (unwrap k) (\<lambda>k.
       and_then (collect_leaves X (obj_blocks ob) [(i, k)] (length (obj_blocks ob) - 1) (Some []) None)
         (\<lambda>(leaves, _). unwrap leaves))))"

definition object_content :: "'x externs_scheme \<Rightarrow> Object \<Rightarrow> (ObjectContent, ObjectParseError) result" where
  "object_content X ob =
     and_then (object_key ob) (\<lambda>k. case k of
         None \<Rightarrow> Err MissingRootKey
       | Some k \<Rightarrow> and_then (object_id X ob) (\<lambda>i.
           and_then (collect_leaves X (obj_blocks ob) [(i, k)] (length (obj_blocks ob) - 1) None (Some []))
             (\<lambda>(_, obj_content). and_then (unwrap obj_content)
                (\<lambda>c. ok_or ObjectDeserializeError (de_object_content X c)))))"

section \<open>Copying\<close>

definition object_copy ::
  "'x externs_scheme \<Rightarrow> Object \<Rightarrow> Timestamp option \<Rightarrow> PubKey \<Rightarrow> SymKey
   \<Rightarrow> (Object, ObjectCopyError) result" where
  "object_copy X ob expiry repo_pubkey repo_secret =
     and_then (map_err (\<lambda>_. ParseError) (object_leaves X ob)) (\<lambda>leaves.
       let conv_key = convergence_key X repo_pubkey repo_secret in
       if leaves = [] then Panic
       else and_then (store_valid_value_size (length (block_content (hd leaves)))) (\<lambda>valid_block_size.
         let blocks = map (set_expiry expiry) leaves in
         and_then (object_root ob) (\<lambda>root.
           and_then (make_tree X blocks conv_key (block_deps root) expiry (tree_arity valid_block_size))
             (\<lambda>parents. Ok \<lparr>obj_blocks = blocks @ parents, obj_deps = obj_deps ob\<rparr>))))"

section \<open>Loading and saving\<close>

text \<open>The loop of \<^verbatim>\<open>load_tree\<close> over one level of parents.\<close>

fun load_level ::
  "'s RepoStore \<Rightarrow> BlockId list \<Rightarrow> 's \<Rightarrow> BlockId list \<Rightarrow> Block list \<Rightarrow> BlockId list
   \<Rightarrow> (BlockId list \<times> Block list \<times> BlockId list, ObjectParseError, 's) op" where
  "load_level S [] st children blocks missing = (Ok (children, blocks, missing), st)"
| "load_level S (i # parents) st children blocks missing =
     (case rs_get S st i of
        (Ok block, st) \<Rightarrow>
          load_level S parents st (children @ rev (block_children block)) (block # blocks) missing
      | (Err _, st) \<Rightarrow> load_level S parents st children blocks (missing @ [i])
      | (Panic, st) \<Rightarrow> (Panic, st)
      | (Hang, st) \<Rightarrow> (Hang, st))"

text \<open>The recursion over the levels; a store with a cycle of children makes it run forever.\<close>

fun load_tree ::
  "'s RepoStore \<Rightarrow> nat \<Rightarrow> BlockId list \<Rightarrow> 's \<Rightarrow> Block list \<Rightarrow> BlockId list
   \<Rightarrow> (Block list \<times> BlockId list, ObjectParseError, 's) op" where
  "load_tree S 0 parents st blocks missing = (Hang, st)"
| "load_tree S (Suc fuel) parents st blocks missing =
     op_then (load_level S parents st [] blocks missing) (\<lambda>(children, blocks, missing) st.
       if children = [] then (Ok (blocks, missing), st)
       else load_tree S fuel children st blocks missing)"

fun object_load ::
  "'x externs_scheme \<Rightarrow> 's RepoStore \<Rightarrow> nat \<Rightarrow> ObjectId \<Rightarrow> SymKey option \<Rightarrow> 's
   \<Rightarrow> (Object, ObjectParseError, 's) op" where
  "object_load X S 0 i key st = (Hang, st)"
| "object_load X S (Suc fuel) i key st =
     op_then (load_tree S (Suc fuel) [i] st [] []) (\<lambda>(blocks, missing) st.
       if missing \<noteq> [] then (Err (MissingBlocks missing), st)
       else if blocks = [] then (Panic, st)
       else
         let root = (if key \<noteq> None then set_key key (last blocks) else last blocks);
             blocks = butlast blocks @ [root]
         in case block_deps root of
              ObjectIdList deps_vec \<Rightarrow> (Ok \<lparr>obj_blocks = blocks, obj_deps = deps_vec\<rparr>, st)
            | DepListRef deps_ref \<Rightarrow>
                op_then (object_load X S fuel (ref_id deps_ref) (Some (ref_key deps_ref)) st)
                  (\<lambda>obj st. case object_content X obj of
                       Ok (ObjectContent.DepList (DepList.V0 deps_vec)) \<Rightarrow>
                         (Ok \<lparr>obj_blocks = blocks, obj_deps = deps_vec\<rparr>, st)
                     | Ok _ \<Rightarrow> (Err InvalidDeps, st)
                     | Err e \<Rightarrow> (Err e, st)
                     | Panic \<Rightarrow> (Panic, st)
                     | Hang \<Rightarrow> (Hang, st)))"

text \<open>\<^verbatim>\<open>save\<close>: every block once, by identifier.\<close>

fun save_blocks ::
  "'x externs_scheme \<Rightarrow> 's RepoStore \<Rightarrow> Block list \<Rightarrow> ObjectId set \<Rightarrow> 's \<Rightarrow> (unit, StorageError, 's) op" where
  "save_blocks X S [] deduplicated st = (Ok (), st)"
| "save_blocks X S (block # blocks) deduplicated st =
     (let i = block_id X block in
      if i \<in> deduplicated then save_blocks X S blocks deduplicated st
      else op_then (rs_put S st block)
             (\<lambda>_ st. save_blocks X S blocks (insert i deduplicated) st))"

definition object_save ::
  "'x externs_scheme \<Rightarrow> 's RepoStore \<Rightarrow> Object \<Rightarrow> 's \<Rightarrow> (unit, StorageError, 's) op" where
  "object_save X S ob st = save_blocks X S (obj_blocks ob) {} st"

end
