(* ===== verification/Lofire_Merkle.thy ===== *)
theory Lofire_Merkle
  imports Lofire_Object
begin

text \<open>
  The Merkle tree of an object: what \<^verbatim>\<open>make_tree\<close> builds, and that \<^verbatim>\<open>collect_leaves\<close> walks back
  down exactly what was built. A \<open>tower\<close> is the list of levels above the leaves; each level's
  blocks refer, in order, to all the blocks of the level below, by identifier and by key.
\<close>

section \<open>Levels and towers\<close>

definition keyed :: "Block \<Rightarrow> bool" where
  "keyed b \<longleftrightarrow> block_key b \<noteq> None"

definition refs :: "'x externs_scheme \<Rightarrow> Block list \<Rightarrow> (ObjectId \<times> SymKey) list" where
  "refs X L = map (\<lambda>b. (block_id X b, the (block_key b))) L"

definition opened :: "'x externs_scheme \<Rightarrow> Block \<Rightarrow> BlockContentV0 option" where
  "opened X b = de_block_content X (decrypt_content X (the (block_key b)) (block_content b))"

definition inner_node :: "'x externs_scheme \<Rightarrow> Block \<Rightarrow> Block list \<Rightarrow> bool" where
  "inner_node X m g \<longleftrightarrow> keyed m \<and> list_all keyed g \<and> block_children m = map (block_id X) g
     \<and> opened X m = Some (InternalNode (map (the \<circ> block_key) g))"

definition leaf_node :: "'x externs_scheme \<Rightarrow> Block \<Rightarrow> bytes \<Rightarrow> bool" where
  "leaf_node X b d \<longleftrightarrow> keyed b \<and> block_children b = [] \<and> opened X b = Some (DataChunk d)"

definition parents_of :: "'x externs_scheme \<Rightarrow> Block list \<Rightarrow> Block list \<Rightarrow> bool" where
  "parents_of X M K \<longleftrightarrow> (\<exists>gs. concat gs = K \<and> list_all2 (inner_node X) M gs)"

fun tower :: "'x externs_scheme \<Rightarrow> Block list \<Rightarrow> Block list list \<Rightarrow> bool" where
  "tower X K [] \<longleftrightarrow> False"
| "tower X K (M # Ms) \<longleftrightarrow> parents_of X M K \<and> (if Ms = [] then length M = 1 else tower X M Ms)"

lemma refs_simps [simp]:
  "refs X [] = []" "refs X (b # L) = (block_id X b, the (block_key b)) # refs X L"
  "refs X (L @ M) = refs X L @ refs X M" "length (refs X L) = length L" "refs X L = [] \<longleftrightarrow> L = []"
  by (simp_all add: refs_def)

lemma zip_refs: "zip (map (block_id X) g) (map (the \<circ> block_key) g) = refs X g"
  by (induction g) simp_all

lemma parents_of_children: "parents_of X M K \<Longrightarrow> concat (map block_children M) = map (block_id X) K"
proof -
  have "list_all2 (inner_node X) M gs \<Longrightarrow> concat (map block_children M) = map (block_id X) (concat gs)" for gs
    by (induction M gs rule: list_all2_induct) (simp_all add: inner_node_def)
  then show "parents_of X M K \<Longrightarrow> ?thesis" by (auto simp: parents_of_def)
qed

section \<open>Walking down\<close>

lemma collect_block_inner:
  "inner_node X m g \<Longrightarrow> collect_block X m (block_id X m, the (block_key m)) (ch, lv, c)
     = Ok (ch @ refs X g, lv, c)"
  by (simp add: inner_node_def opened_def zip_refs)

lemma collect_block_leaf:
  "leaf_node X b d \<Longrightarrow> collect_block X b (block_id X b, the (block_key b)) (ch, lv, c)
     = Ok (ch, map_option (\<lambda>l. l @ [b]) lv, map_option (\<lambda>c. c @ d) c)"
  by (cases b) (auto simp: leaf_node_def opened_def keyed_def)

lemma collect_level_inner:
  assumes "list_all2 (inner_node X) M gs"
  shows "collect_level X (pre @ M @ post) (refs X M) (length pre) (ch, lv, c)
     = Ok (ch @ refs X (concat gs), lv, c)"
  using assms
proof (induction M gs arbitrary: pre ch rule: list_all2_induct)
  case (Cons m M g gs)
  from Cons.IH [of "pre @ [m]" "ch @ refs X g"] Cons.hyps show ?case
    by (simp add: collect_block_inner del: collect_block.simps)
qed simp

lemma collect_level_leaves:
  assumes "list_all2 (leaf_node X) L ds"
  shows "collect_level X (pre @ L @ post) (refs X L) (length pre) (ch, lv, c)
     = Ok (ch, map_option (\<lambda>l. l @ L) lv, map_option (\<lambda>c. c @ concat ds) c)"
  using assms
proof (induction L ds arbitrary: pre lv c rule: list_all2_induct)
  case Nil
  show ?case by (simp add: option.map_ident)
next
  case (Cons b L d ds)
  from Cons.IH [of "pre @ [b]" "map_option (\<lambda>l. l @ [b]) lv" "map_option (\<lambda>c. c @ d) c"] Cons.hyps
  show ?case
    by (simp add: collect_block_leaf option.map_comp comp_def del: collect_block.simps)
qed

lemma collect_leaves_inner:
  assumes "parents_of X M K" "K \<noteq> []"
  shows "collect_leaves X (pre @ K @ M @ post) (refs X M) (length pre + length K) lv c
     = collect_leaves X (pre @ K @ M @ post) (refs X K) (length pre) lv c"
proof -
  from assms obtain gs where "list_all2 (inner_node X) M gs" "concat gs = K"
    by (auto simp: parents_of_def)
  with collect_level_inner [of X M gs "pre @ K" post "[]" lv c] assms(2) show ?thesis
    by (simp add: collect_leaves.simps [of X _ "refs X M"])
qed

lemma tower_last: "tower X K Ls \<Longrightarrow> length (last Ls) = 1 \<and> Ls \<noteq> []"
  by (induction X K Ls rule: tower.induct) (auto split: if_splits)

lemma collect_leaves_tower:
  assumes "tower X K Ls" "K \<noteq> []"
  shows "collect_leaves X (pre @ K @ concat Ls) (refs X (last Ls)) (length (pre @ K @ concat Ls) - 1) lv c
     = collect_leaves X (pre @ K @ concat Ls) (refs X K) (length pre) lv c"
  using assms
proof (induction X K Ls arbitrary: pre rule: tower.induct)
  case (2 X K M Ms)
  show ?case
  proof (cases "Ms = []")
    case True
    with 2 collect_leaves_inner [of X M K pre "[]" lv c] show ?thesis by simp
  next
    case False
    with 2 have M: "tower X M Ms" "parents_of X M K" by auto
    have "M \<noteq> []" using M(2) 2(3) by (auto simp: parents_of_def)
    with M 2(1) [OF False, of "pre @ K"] False collect_leaves_inner [of X M K pre "concat Ms" lv c] 2(3)
    show ?thesis by simp
  qed
qed simp

lemma collect_leaves_bottom:
  assumes "list_all2 (leaf_node X) L ds"
  shows "collect_leaves X (pre @ L @ post) (refs X L) (length pre) lv c
     = Ok (map_option (\<lambda>l. l @ L) lv, map_option (\<lambda>c. c @ concat ds) c)"
  using collect_level_leaves [OF assms, of pre post "[]" lv c]
  by (simp add: collect_leaves.simps [of X _ "refs X L"])


section \<open>What the builders build\<close>

text \<open>The leaves \<open>K\<close> with data \<open>ds\<close>, and above them either nothing (one leaf) or a tower.\<close>

definition merkle :: "'x externs_scheme \<Rightarrow> Block list \<Rightarrow> Block list \<Rightarrow> bytes list \<Rightarrow> bool" where
  "merkle X bs K ds \<longleftrightarrow> K \<noteq> [] \<and> list_all2 (leaf_node X) K ds \<and>
     (bs = K \<and> length K = 1 \<or> (\<exists>Ls. bs = K @ concat Ls \<and> tower X K Ls))"

lemma merkle_nonempty: "merkle X bs K ds \<Longrightarrow> bs \<noteq> []"
  by (auto simp: merkle_def)

lemma singleton_last: "length xs = 1 \<Longrightarrow> xs = [last xs]"
  by (cases xs) auto

lemma tower_concat_last:
  "tower X K Ls \<Longrightarrow> concat Ls \<noteq> [] \<and> last Ls = [last (concat Ls)]"
proof (induction X K Ls rule: tower.induct)
  case (2 X K M Ms)
  then show ?case
    by (cases "Ms = []") (auto simp: singleton_last simp del: One_nat_def)
qed simp

lemma merkle_collect:
  assumes "merkle X bs K ds"
  shows "collect_leaves X bs [(block_id X (last bs), the (block_key (last bs)))] (length bs - 1) lv c
     = Ok (map_option (\<lambda>l. l @ K) lv, map_option (\<lambda>c. c @ concat ds) c)"
proof -
  from assms consider (leaf) "bs = K" "length K = 1" | (tree) Ls where "bs = K @ concat Ls" "tower X K Ls"
    by (auto simp: merkle_def)
  then show ?thesis
  proof cases
    case leaf
    then have "refs X K = [(block_id X (last bs), the (block_key (last bs)))]"
      by (metis refs_simps(1,2) singleton_last)
    with leaf assms collect_leaves_bottom [of X K ds "[]" "[]" lv c] show ?thesis
      by (simp add: merkle_def)
  next
    case tree
    from tower_concat_last [OF tree(2)] tree(1)
    have "refs X (last Ls) = [(block_id X (last bs), the (block_key (last bs)))]"
      by (metis last_appendR refs_simps(1,2))
    with tree assms collect_leaves_tower [OF tree(2), of "[]" lv c]
      collect_leaves_bottom [of X K ds "[]" "concat Ls" lv c]
    show ?thesis by (simp add: merkle_def)
  qed
qed

lemma make_block_fields [simp]:
  "block_children (make_block X c ck ch d e) = ch" "block_deps (make_block X c ck ch d e) = d"
  "block_expiry (make_block X c ck ch d e) = e" "keyed (make_block X c ck ch d e)"
  "honest X (make_block X c ck ch d e)"
  by (simp_all add: make_block_def Let_def keyed_def)

lemma opened_make_block:
  "stream_cipher X \<Longrightarrow> opened X (make_block X c ck ch d e) = de_block_content X c"
  by (simp add: opened_def make_block_def Let_def decrypt_content_def stream_cipher_def)

lemma leaf_node_make_leaf:
  "stream_cipher X \<Longrightarrow> block_content_codec X \<Longrightarrow> leaf_node X (make_leaf X ck d e c) c"
  by (simp add: leaf_node_def make_leaf_def opened_make_block block_content_codec_def)

lemma unwrap_keys_keyed:
  "list_all keyed bs \<Longrightarrow> unwrap_keys bs = Ok (map (the \<circ> block_key) bs)"
  by (induction bs) (auto simp: keyed_def)

text \<open>
  The deps of a level built over \<open>n\<close> chunks: \<open>root_deps\<close> when there is a single chunk.
\<close>

definition parent_block ::
  "'x externs_scheme \<Rightarrow> bytes32 \<Rightarrow> Timestamp option \<Rightarrow> ObjectDeps \<Rightarrow> Block list \<Rightarrow> Block" where
  "parent_block X ck e d g =
     make_block X (ser_block_content X (InternalNode (map (the \<circ> block_key) g))) ck (map (block_id X) g) d e"

definition level_deps :: "ObjectDeps \<Rightarrow> 'a list \<Rightarrow> ObjectDeps" where
  "level_deps root_deps gs = (if length gs = 1 then root_deps else ObjectIdList [])"

lemma make_parents_loop:
  "list_all (list_all keyed) gs \<Longrightarrow> ps \<noteq> [] \<Longrightarrow>
   make_parents X ck rd e ps gs = Ok (ps @ map (parent_block X ck e (ObjectIdList [])) gs)"
  by (induction X ck rd e ps gs rule: make_parents.induct)
     (simp_all add: unwrap_keys_keyed parent_block_def)

lemma make_parents_eq:
  assumes "list_all (list_all keyed) gs"
  shows "make_parents X ck rd e [] gs = Ok (map (parent_block X ck e (level_deps rd gs)) gs)"
proof (cases gs)
  case (Cons g gs')
  with assms show ?thesis
    by (cases gs') (simp_all add: unwrap_keys_keyed parent_block_def level_deps_def make_parents_loop)
qed simp

lemma inner_node_parent_block:
  "stream_cipher X \<Longrightarrow> block_content_codec X \<Longrightarrow> list_all keyed g \<Longrightarrow>
   inner_node X (parent_block X ck e d g) g"
  by (simp add: inner_node_def parent_block_def opened_make_block block_content_codec_def)

lemma list_all_chunks:
  "list_all P xs \<Longrightarrow> list_all (list_all P) (chunks n xs)"
proof (induction n xs rule: chunks.induct)
  case (1 n xs)
  then show ?case
    by (auto simp: chunks.simps [of n xs] list_all_iff dest: in_set_takeD in_set_dropD)
qed

lemma list_all2_map_self: "(\<And>x. x \<in> set xs \<Longrightarrow> P (f x) x) \<Longrightarrow> list_all2 P (map f xs) xs"
  by (simp add: list_all2_conv_all_nth)

lemma parents_of_chunks:
  assumes "stream_cipher X" "block_content_codec X" "list_all keyed K" "0 < n"
  shows "parents_of X (map (parent_block X ck e d) (chunks n K)) K"
  unfolding parents_of_def
  using assms list_all_chunks [OF assms(3), of n]
  by (intro exI [of _ "chunks n K"])
     (auto simp: list_all_iff [of "list_all keyed"] intro!: list_all2_map_self inner_node_parent_block)

definition next_level ::
  "'x externs_scheme \<Rightarrow> bytes32 \<Rightarrow> ObjectDeps \<Rightarrow> Timestamp option \<Rightarrow> nat \<Rightarrow> Block list \<Rightarrow> Block list" where
  "next_level X ck rd e n K = map (parent_block X ck e (level_deps rd (chunks n K))) (chunks n K)"

lemma keyed_next_level [simp]: "list_all keyed (next_level X ck rd e n K)"
  by (simp add: next_level_def parent_block_def list_all_length)

lemma make_tree_step:
  assumes "list_all keyed K" "0 < n"
  shows "make_tree X K ck rd e n =
    (let M = next_level X ck rd e n K in
     if 1 < length M then
       if length M < length K
       then and_then (make_tree X M ck rd e n) (\<lambda>ps. Ok (M @ ps)) else Hang
     else Ok M)"
  using assms list_all_chunks [OF assms(1), of n]
  by (simp add: make_tree.simps [of X K] make_parents_eq next_level_def Let_def)

lemma next_level_shrinks:
  "2 \<le> n \<Longrightarrow> 1 < length (next_level X ck rd e n K) \<Longrightarrow> length (next_level X ck rd e n K) < length K"
  using length_chunks_le [of n K] length_chunks_less [of n K] by (simp add: next_level_def)

text \<open>
  The induction every fact about \<^verbatim>\<open>make_tree\<close> goes by: either the next level is the root, or
  the tree continues above it.
\<close>

lemma make_tree_cases:
  assumes "2 \<le> n" "list_all keyed K" "K \<noteq> []"
    and root: "\<And>K. list_all keyed K \<Longrightarrow> K \<noteq> [] \<Longrightarrow> length (next_level X ck rd e n K) = 1 \<Longrightarrow>
      P K (next_level X ck rd e n K)"
    and above: "\<And>K ps. list_all keyed K \<Longrightarrow> K \<noteq> [] \<Longrightarrow> 1 < length (next_level X ck rd e n K) \<Longrightarrow>
      P (next_level X ck rd e n K) ps \<Longrightarrow> P K (next_level X ck rd e n K @ ps)"
  shows "\<exists>ps. make_tree X K ck rd e n = (Ok ps :: (Block list, 'e) result) \<and> P K ps"
  using assms(2,3)
proof (induction "length K" arbitrary: K rule: less_induct)
  case less
  let ?M = "next_level X ck rd e n K"
  have M: "?M \<noteq> []" using less.prems assms(1) by (simp add: next_level_def)
  show ?case
  proof (cases "1 < length ?M")
    case True
    note lt = next_level_shrinks [OF assms(1) True]
    from less.hyps [OF lt keyed_next_level M] obtain ps where
      "make_tree X ?M ck rd e n = (Ok ps :: (Block list, 'e) result)" "P ?M ps" by blast
    with above [OF less.prems True] True lt less.prems assms(1) show ?thesis
      by (auto simp: make_tree_step Let_def)
  next
    case False
    with M have "length ?M = 1" by (cases ?M) auto
    with root [OF less.prems this] False less.prems assms(1) show ?thesis
      by (auto simp: make_tree_step Let_def)
  qed
qed

lemma make_tree_tower:
  assumes "stream_cipher X" "block_content_codec X" "2 \<le> n" "list_all keyed K" "K \<noteq> []"
  shows "\<exists>ps. make_tree X K ck rd e n = (Ok ps :: (Block list, 'e) result)
    \<and> (\<exists>Ls. ps = concat Ls \<and> tower X K Ls)"
proof (rule make_tree_cases [OF assms(3-5)])
  have step: "parents_of X (next_level X ck rd e n K) K" if "list_all keyed K" for K
    using parents_of_chunks [OF assms(1,2) that] assms(3) by (simp add: next_level_def)
  show "\<exists>Ls. next_level X ck rd e n K = concat Ls \<and> tower X K Ls"
    if "list_all keyed K" "length (next_level X ck rd e n K) = 1" for K
    using step [OF that(1)] that(2) by (intro exI [of _ "[next_level X ck rd e n K]"]) simp
  show "\<exists>Ls. next_level X ck rd e n K @ ps = concat Ls \<and> tower X K Ls"
    if "list_all keyed K" "\<exists>Ls. ps = concat Ls \<and> tower X (next_level X ck rd e n K) Ls" for K ps
  proof -
    from that(2) obtain Ls where "ps = concat Ls" "tower X (next_level X ck rd e n K) Ls" by blast
    with step [OF that(1)] show ?thesis
      by (intro exI [of _ "next_level X ck rd e n K # Ls"]) auto
  qed
qed

text \<open>Every block of the tree is a parent over at most \<open>n\<close> blocks, and the last one, the root,
  carries the dependencies.\<close>

definition tree_block ::
  "'x externs_scheme \<Rightarrow> bytes32 \<Rightarrow> ObjectDeps \<Rightarrow> Timestamp option \<Rightarrow> nat \<Rightarrow> Block \<Rightarrow> bool" where
  "tree_block X ck rd e n b \<longleftrightarrow>
     (\<exists>g d. b = parent_block X ck e d g \<and> length g \<le> n \<and> d \<in> {rd, ObjectIdList []})"

lemma next_level_tree_block:
  assumes "b \<in> set (next_level X ck rd e n K)"
  shows "tree_block X ck rd e n b"
proof -
  from assms obtain g where "g \<in> set (chunks n K)" "b = parent_block X ck e (level_deps rd (chunks n K)) g"
    by (auto simp: next_level_def)
  moreover from this(1) have "length g \<le> n" by (simp add: chunks_elem)
  ultimately show ?thesis unfolding tree_block_def level_deps_def by auto
qed

lemma make_tree_blocks:
  assumes "2 \<le> n" "list_all keyed K" "K \<noteq> []"
  shows "\<exists>ps. make_tree X K ck rd e n = (Ok ps :: (Block list, 'e) result)
    \<and> ps \<noteq> [] \<and> block_deps (last ps) = rd \<and> (\<forall>b \<in> set ps. tree_block X ck rd e n b)"
proof (rule make_tree_cases [OF assms])
  fix K assume "length (next_level X ck rd e n K) = 1"
  then obtain g where "chunks n K = [g]" by (cases "chunks n K") (auto simp: next_level_def)
  then show "next_level X ck rd e n K \<noteq> [] \<and> block_deps (last (next_level X ck rd e n K)) = rd
      \<and> (\<forall>b \<in> set (next_level X ck rd e n K). tree_block X ck rd e n b)"
    using next_level_tree_block [of _ X ck rd e n K]
    by (auto simp: next_level_def level_deps_def parent_block_def)
next
  fix K ps assume "ps \<noteq> [] \<and> block_deps (last ps) = rd \<and> (\<forall>b \<in> set ps. tree_block X ck rd e n b)"
  then show "next_level X ck rd e n K @ ps \<noteq> [] \<and> block_deps (last (next_level X ck rd e n K @ ps)) = rd
      \<and> (\<forall>b \<in> set (next_level X ck rd e n K @ ps). tree_block X ck rd e n b)"
    using next_level_tree_block [of _ X ck rd e n K] by auto
qed

lemma make_blocks_merkle:
  assumes "stream_cipher X" "block_content_codec X" "4072 \<le> v" "c \<noteq> []"
  shows "\<exists>bs K ds. make_blocks X c n e v ck d = (Ok bs :: (Block list, 'e) result) \<and> merkle X bs K ds \<and> concat ds = c"
proof (cases "EMPTY_BLOCK_SIZE + DATA_VARINT_EXTRA + BLOCK_ID_SIZE * n + length c \<le> v")
  case True
  then have "make_blocks X c n e v ck d = (Ok [make_leaf X ck d e c] :: (Block list, 'e) result)"
    by (simp add: make_blocks_def)
  moreover have "merkle X [make_leaf X ck d e c] [make_leaf X ck d e c] [c]"
    by (simp add: merkle_def leaf_node_make_leaf assms)
  ultimately show ?thesis by (metis concat.simps append_Nil2)
next
  case False
  let ?n = "v - EMPTY_BLOCK_SIZE - DATA_VARINT_EXTRA"
  let ?K = "map (make_leaf X ck (ObjectIdList []) e) (chunks ?n c)"
  have n: "0 < ?n" "2 \<le> tree_arity v"
    using assms(3) by (auto simp: tree_arity_def lofire_defs)
  then have K: "?K \<noteq> []" "list_all2 (leaf_node X) ?K (chunks ?n c)" "list_all keyed ?K"
    using assms leaf_node_make_leaf [OF assms(1,2)] False
    by (auto simp: lofire_defs list_all_iff make_leaf_def intro!: list_all2_map_self)
  from make_tree_tower [OF assms(1,2) n(2) K(3,1), where 'e = 'e, of ck d e] obtain Ls where
    Ls: "make_tree X ?K ck d e (tree_arity v) = (Ok (concat Ls) :: (Block list, 'e) result)"
      "tower X ?K Ls" by blast
  then have "make_blocks X c n e v ck d = (Ok (?K @ concat Ls) :: (Block list, 'e) result)"
    using n False by (simp add: make_blocks_def Let_def)
  moreover have "merkle X (?K @ concat Ls) ?K (chunks ?n c)"
    using K Ls(2) unfolding merkle_def by blast
  ultimately show ?thesis using n(1) by (metis concat_chunks)
qed

end
