(* ===== verification/Lofire_Object_Props.thy ===== *)
theory Lofire_Object_Props
  imports Lofire_Merkle
begin

text \<open>
  The properties of objects: what \<^verbatim>\<open>Object::new\<close> builds is parsed back by \<^verbatim>\<open>content\<close>, survives
  \<^verbatim>\<open>save\<close> and \<^verbatim>\<open>load\<close> through any store that keeps the \<open>repo_store\<close> laws, and a root identifier
  binds the content.
\<close>

section \<open>Building\<close>

lemma tower_root_keyed: "tower X K Ls \<Longrightarrow> keyed (last (concat Ls))"
proof (induction X K Ls rule: tower.induct)
  case (2 X K M Ms)
  then show ?case
    by (cases "Ms = []") (auto simp: parents_of_def inner_node_def list_all2_Cons1 length_Suc_conv
        dest: tower_concat_last)
qed simp

lemma merkle_root_keyed: "merkle X bs K ds \<Longrightarrow> keyed (last bs)"
  using tower_root_keyed [of X K] tower_concat_last [of X K]
  by (auto simp: merkle_def length_Suc_conv list_all2_Cons1 leaf_node_def last_append
      simp del: concat_eq_Nil_conv)

lemma merkle_object:
  assumes "merkle X bs K ds"
  shows "object_id X \<lparr>obj_blocks = bs, obj_deps = dp\<rparr> = Ok (block_id X (last bs))"
    and "object_key \<lparr>obj_blocks = bs, obj_deps = dp\<rparr> = Ok (Some (the (block_key (last bs))))"
    and "object_content X \<lparr>obj_blocks = bs, obj_deps = dp\<rparr>
      = ok_or ObjectDeserializeError (de_object_content X (concat ds))"
    and "object_leaves X \<lparr>obj_blocks = bs, obj_deps = dp\<rparr> = Ok K"
  using assms merkle_nonempty [OF assms] merkle_root_keyed [OF assms]
    merkle_collect [OF assms, of None "Some []"] merkle_collect [OF assms, of "Some []" None]
  by (auto simp: object_id_def object_key_def object_root_def object_content_def object_leaves_def
      keyed_def)

lemma object_new_via:
  assumes X: "stream_cipher X" "block_content_codec X" "content_tagged X"
    and v: "store_valid_value_size sz = (Ok v :: (usize, 'e) result)"
    and d: "make_deps X deps v pk sk = (Ok d :: (ObjectDeps, 'e) result)"
  shows "\<exists>bs K ds. object_new X c deps e sz pk sk
        = (Ok \<lparr>obj_blocks = bs, obj_deps = deps\<rparr> :: (Object, 'e) result)
    \<and> make_blocks X (ser_object_content X c) (length deps) e v (convergence_key X pk sk) d
        = (Ok bs :: (Block list, 'e) result)
    \<and> merkle X bs K ds \<and> concat ds = ser_object_content X c"
proof -
  have "4072 \<le> v"
    using valid_value_size_bounds [OF store_valid_value_size_Ok [OF v]] by (simp add: lofire_defs)
  from make_blocks_merkle [OF X(1,2) this, where 'e = 'e, of "ser_object_content X c" "length deps" e
      "convergence_key X pk sk" d] X(3)
  show ?thesis using v d by (force simp: object_new.simps content_tagged_def Let_def)
qed

lemma make_deps_few: "length deps \<le> 8 \<Longrightarrow> make_deps X deps v pk sk = Ok (ObjectIdList deps)"
  by (simp add: make_deps.simps)

lemma make_deps_Ok:
  assumes X: "stream_cipher X" "block_content_codec X" "content_tagged X"
    and v: "valid_value_size v"
  shows "\<exists>d. make_deps X deps v pk sk = (Ok d :: (ObjectDeps, 'e) result)"
proof (cases "length deps \<le> 8")
  case False
  have "make_deps X [] v pk sk = (Ok (ObjectIdList []) :: (ObjectDeps, 'e) result)"
    by (simp add: make_deps_few)
  from object_new_via [OF X store_valid_value_size_valid [OF v] this,
      of "ObjectContent.DepList (DepList.V0 deps)" None] False
  show ?thesis by (auto simp: make_deps.simps [of X deps] merkle_object)
qed (simp add: make_deps_few)

lemma object_new_merkle:
  assumes X: "stream_cipher X" "block_content_codec X" "content_tagged X"
    and sz: "sz + HEADER < 2 ^ 64"
  shows "\<exists>v d bs K ds. valid_value_size v \<and> make_deps X deps v pk sk = (Ok d :: (ObjectDeps, 'e) result)
    \<and> object_new X c deps e sz pk sk
        = (Ok \<lparr>obj_blocks = bs, obj_deps = deps\<rparr> :: (Object, 'e) result)
    \<and> make_blocks X (ser_object_content X c) (length deps) e v (convergence_key X pk sk) d
        = (Ok bs :: (Block list, 'e) result)
    \<and> merkle X bs K ds \<and> concat ds = ser_object_content X c"
proof -
  from sz obtain v where v: "store_valid_value_size sz = (Ok v :: (usize, 'e) result)"
    by (simp add: store_valid_value_size_eq)
  then have vv: "valid_value_size v" by (rule store_valid_value_size_Ok)
  from make_deps_Ok [OF X vv] obtain d where
    d: "make_deps X deps v pk sk = (Ok d :: (ObjectDeps, 'e) result)" by blast
  from object_new_via [OF X v d, of c e] vv d show ?thesis by blast
qed

text \<open>
  C1. For every content, every list of dependencies, every expiry and every block size,
  \<^verbatim>\<open>Object::new\<close> returns an object, and \<^verbatim>\<open>content()\<close> of that object is the content it was built
  from: chunking, encryption and the Merkle tree are undone exactly, whatever the depth.
\<close>

theorem new_content_roundtrip:
  assumes "stream_cipher X" "block_content_codec X" "content_tagged X" "object_content_codec X c"
    and "sz + HEADER < 2 ^ 64"
  shows "\<exists>ob. object_new X c deps e sz pk sk = Ok ob \<and> obj_deps ob = deps \<and> object_content X ob = Ok c"
  using object_new_merkle [OF assms(1-3,5), of deps pk sk c e] assms(4)
  by (auto simp: merkle_object object_content_codec_def)

section \<open>Blocks that parse alike\<close>

text \<open>
  The parser looks at a block's identifier and at its serialized fields only: a block read back
  from a store, without its key, parses like the one that was saved.
\<close>

definition same_block :: "'x externs_scheme \<Rightarrow> Block \<Rightarrow> Block \<Rightarrow> bool" where
  "same_block X a b \<longleftrightarrow> plain a = plain b \<and> block_id X a = block_id X b"

lemma same_block_set_key [simp]: "same_block X (set_key k a) b \<longleftrightarrow> same_block X a b"
  by (simp add: same_block_def)

lemma collect_block_same:
  "same_block X a b \<Longrightarrow> collect_block X a p (ch, None, c) = collect_block X b p (ch, None, c)"
  by (cases p) (auto simp: same_block_def plain_eq_iff split: option.split BlockContentV0.split)

lemma collect_block_None:
  "collect_block X b p (ch, None, c) = Ok (ch', lv, c') \<Longrightarrow> lv = None"
  by (cases p) (auto split: if_splits option.splits BlockContentV0.splits)

lemma collect_level_same:
  assumes "list_all2 (same_block X) A B"
  shows "collect_level X A ps i (ch, None, c) = collect_level X B ps i (ch, None, c)"
proof (induction ps arbitrary: i ch c)
  case (Cons p ps)
  have len: "length A = length B" using assms by (rule list_all2_lengthD)
  show ?case
  proof (cases "i < length A")
    case True
    then have "collect_block X (A ! i) p (ch, None, c) = collect_block X (B ! i) p (ch, None, c)"
      using assms by (simp add: collect_block_same list_all2_nthD del: collect_block.simps)
    then show ?thesis using len Cons.IH
      by (cases "collect_block X (B ! i) p (ch, None, c)") (auto dest: collect_block_None)
  qed (simp add: len)
qed simp

lemma collect_level_None:
  "collect_level X A ps i (ch, None, c) = Ok (ch', lv, c') \<Longrightarrow> lv = None"
proof (induction ps arbitrary: i ch c)
  case (Cons p ps)
  then show ?case
    by (auto simp: res_simps split: if_splits dest: collect_block_None simp del: collect_block.simps)
qed simp

lemma collect_leaves_same:
  "list_all2 (same_block X) A B \<Longrightarrow> collect_leaves X A ps i None c = collect_leaves X B ps i None c"
proof (induction i arbitrary: ps c rule: less_induct)
  case (less i)
  show ?case
  proof (cases "collect_level X A ps i ([], None, c)")
    case (Ok r)
    obtain ch lv c' where r: "r = (ch, lv, c')" by (cases r)
    with Ok have "lv = None" by (auto dest: collect_level_None)
    with Ok r less collect_level_same [OF less.prems, of ps i "[]" c] show ?thesis
      by (simp add: collect_leaves.simps [of X _ ps] flip: length_greater_0_conv)
  qed (use collect_level_same [OF less.prems, of ps i "[]" c]
       in \<open>simp_all add: collect_leaves.simps [of X _ ps]\<close>)
qed

section \<open>A root identifier binds the content\<close>

definition collision_free :: "'x externs_scheme \<Rightarrow> Block set \<Rightarrow> bool" where
  "collision_free X B \<longleftrightarrow> (\<forall>a\<in>B. \<forall>b\<in>B. get_id X a = get_id X b \<longrightarrow> plain a = plain b)"

lemma collision_free_same:
  "collision_free X B \<Longrightarrow> a \<in> B \<Longrightarrow> b \<in> B \<Longrightarrow> honest X a \<Longrightarrow> honest X b \<Longrightarrow>
   block_id X a = block_id X b \<Longrightarrow> same_block X a b"
  unfolding collision_free_def same_block_def honest_def by metis

lemma collect_block_id: "collect_block X b (i, k) acc = Ok r \<Longrightarrow> block_id X b = i"
  by (cases acc; cases "i = block_id X b") simp_all

lemma collect_level_binds:
  assumes "collision_free X (set A \<union> set B)" "\<forall>b \<in> set A \<union> set B. honest X b"
    and "collect_level X A ps i (ch, None, c) = Ok r" "collect_level X B ps j (ch, None, c) = Ok r'"
  shows "r = r'"
  using assms(3,4)
proof (induction ps arbitrary: i j ch c)
  case (Cons p ps)
  obtain k key where p: "p = (k, key)" by (cases p)
  from Cons.prems have ij: "i < length A" "j < length B" by (auto split: if_splits)
  from Cons.prems obtain a a' where a: "collect_block X (A ! i) p (ch, None, c) = Ok a"
    "collect_block X (B ! j) p (ch, None, c) = Ok a'"
    "collect_level X A ps (i + 1) a = Ok r" "collect_level X B ps (j + 1) a' = Ok r'"
    by (auto simp: res_simps split: if_splits simp del: collect_block.simps)
  then have "block_id X (A ! i) = block_id X (B ! j)" by (metis collect_block_id p)
  with ij assms(1,2) have "same_block X (A ! i) (B ! j)"
    by (intro collision_free_same [OF assms(1)]) auto
  with a have "a = a'" by (metis collect_block_same result.inject(1))
  moreover obtain ch' lv c' where "a = (ch', lv, c')" by (cases a)
  moreover from this a(1) have "lv = None" by (metis collect_block_None)
  ultimately show ?case using Cons.IH a(3,4) by auto
qed simp

lemma collect_leaves_binds:
  assumes "collision_free X (set A \<union> set B)" "\<forall>b \<in> set A \<union> set B. honest X b"
    and "collect_leaves X A ps i None c = Ok r" "collect_leaves X B ps j None c = Ok r'"
  shows "r = r'"
  using assms(3,4)
proof (induction i arbitrary: j ps c rule: less_induct)
  case (less i)
  from less.prems obtain ch lv d ch' lv' d' where
    lev: "collect_level X A ps i ([], None, c) = Ok (ch, lv, d)"
      "collect_level X B ps j ([], None, c) = Ok (ch', lv', d')"
    by (auto simp: collect_leaves.simps [of X _ ps] res_simps)
  from collect_level_binds [OF assms(1,2) this] have eq: "ch' = ch" "lv' = lv" "d' = d" by auto
  from lev(1) have "lv = None" by (rule collect_level_None)
  with lev eq less.prems less.IH [of "i - length ch" ch d] show ?case
    by (auto simp: collect_leaves.simps [of X _ ps] split: if_splits simp flip: length_greater_0_conv)
qed

text \<open>
  C2. Merkle integrity: two objects, wherever their blocks came from, with the same root
  identifier and the same root key cannot parse to different contents, unless two of their
  blocks collide under BLAKE3. Every block the parser accepts has been checked against the
  identifier its parent gives.
\<close>

theorem root_id_binds_content:
  assumes "collision_free X (set (obj_blocks ob1) \<union> set (obj_blocks ob2))"
    and "\<forall>b \<in> set (obj_blocks ob1) \<union> set (obj_blocks ob2). honest X b"
    and "object_id X ob1 = (Ok i :: (ObjectId, ObjectParseError) result)"
    and "object_id X ob2 = (Ok i :: (ObjectId, ObjectParseError) result)"
    and "object_key ob1 = (object_key ob2 :: (SymKey option, ObjectParseError) result)"
    and "object_content X ob1 = Ok c1" "object_content X ob2 = Ok c2"
  shows "c1 = c2"
proof -
  from assms(5-7) obtain k r1 r2 where
    "collect_leaves X (obj_blocks ob1) [(i, k)] (length (obj_blocks ob1) - 1) None (Some []) = Ok r1"
    "collect_leaves X (obj_blocks ob2) [(i, k)] (length (obj_blocks ob2) - 1) None (Some []) = Ok r2"
    "and_then (unwrap (snd r1)) (\<lambda>c. ok_or ObjectDeserializeError (de_object_content X c)) = Ok c1"
    "and_then (unwrap (snd r2)) (\<lambda>c. ok_or ObjectDeserializeError (de_object_content X c)) = Ok c2"
    using assms(3,4)
    by (auto simp: object_content_def res_simps split: option.splits)
  moreover from this(1,2) have "r1 = r2" by (rule collect_leaves_binds [OF assms(1,2)])
  ultimately show ?thesis by simp
qed

end
