(* ===== verification/Lofire_Object_Store.thy ===== *)
theory Lofire_Object_Store
  imports Lofire_Object_Props
begin

text \<open>
  Objects and stores: \<^verbatim>\<open>save\<close> followed by \<^verbatim>\<open>load\<close>. The lemmas are proved once for every store with
  the \<open>repo_store\<close> laws and used through its interpretations.
\<close>

section \<open>What an object built by the sources looks like in a store\<close>

lemma tree_block_honest: "tree_block X ck rd e n b \<Longrightarrow> honest X b"
  by (auto simp: tree_block_def parent_block_def)

lemma make_leaf_honest [simp]: "honest X (make_leaf X ck d e c)"
  by (simp add: make_leaf_def)

lemma make_leaf_fields [simp]:
  "block_deps (make_leaf X ck d e c) = d" "block_expiry (make_leaf X ck d e c) = e"
  "block_children (make_leaf X ck d e c) = []" "keyed (make_leaf X ck d e c)"
  by (simp_all add: make_leaf_def)

lemma make_blocks_facts:
  assumes "make_blocks X c n e v ck d = (Ok bs :: (Block list, 'e) result)" "4072 \<le> v" "c \<noteq> []"
  shows "\<forall>b \<in> set bs. (\<exists>dd p. b = make_leaf X ck dd e p) \<or> tree_block X ck d e (tree_arity v) b"
    and "block_deps (last bs) = d"
proof -
  let ?n = "v - EMPTY_BLOCK_SIZE - DATA_VARINT_EXTRA"
  let ?K = "map (make_leaf X ck (ObjectIdList []) e) (chunks ?n c)"
  have n: "0 < ?n" "2 \<le> tree_arity v"
    using assms(2) by (auto simp: tree_arity_def lofire_defs)
  have K: "list_all keyed ?K" "?K \<noteq> []" using n(1) assms(3) by (simp_all add: list_all_length)
  from make_tree_blocks [OF n(2) K, where 'e = 'e, of X ck d e] obtain ps where
    ps: "make_tree X ?K ck d e (tree_arity v) = (Ok ps :: (Block list, 'e) result)" "ps \<noteq> []"
      "block_deps (last ps) = d" "\<forall>b \<in> set ps. tree_block X ck d e (tree_arity v) b" by blast
  with assms(1) n(1) have "bs = [make_leaf X ck d e c] \<or> bs = ?K @ ps"
    by (auto simp: make_blocks_def Let_def split: if_splits)
  with ps show "\<forall>b \<in> set bs. (\<exists>dd p. b = make_leaf X ck dd e p) \<or> tree_block X ck d e (tree_arity v) b"
    and "block_deps (last bs) = d" by (auto simp del: ex_simps) (blast | simp)+
qed

section \<open>Saving\<close>

definition holds :: "'x externs_scheme \<Rightarrow> (BlockId \<rightharpoonup> Block) \<Rightarrow> Block \<Rightarrow> bool" where
  "holds X m b \<longleftrightarrow> m (block_id X b) = Some (plain b)"

text \<open>\<open>m'\<close> is \<open>m\<close> with the blocks \<open>bs\<close> added, except under the identifiers \<open>D\<close>.\<close>

definition adds ::
  "'x externs_scheme \<Rightarrow> Block list \<Rightarrow> BlockId set \<Rightarrow> (BlockId \<rightharpoonup> Block) \<Rightarrow> (BlockId \<rightharpoonup> Block) \<Rightarrow> bool" where
  "adds X bs D m m' \<longleftrightarrow> (\<forall>i. if i \<in> block_id X ` set bs - D
     then \<exists>b \<in> set bs. block_id X b = i \<and> m' i = Some (plain b) else m' i = m i)"

lemma adds_skip: "adds X bs D m m' \<Longrightarrow> block_id X b \<in> D \<Longrightarrow> adds X (b # bs) D m m'"
  unfolding adds_def by (auto split: if_splits)

lemma adds_Cons:
  assumes "adds X bs (insert (block_id X b) D) (m(block_id X b \<mapsto> plain b)) m'" "block_id X b \<notin> D"
  shows "adds X (b # bs) D m m'"
  unfolding adds_def
proof
  fix i
  from assms(1) have "if i \<in> block_id X ` set bs - insert (block_id X b) D
     then \<exists>c \<in> set bs. block_id X c = i \<and> m' i = Some (plain c) else m' i = (m(block_id X b \<mapsto> plain b)) i"
    by (simp add: adds_def)
  with assms(2) show "if i \<in> block_id X ` set (b # bs) - D
     then \<exists>c \<in> set (b # bs). block_id X c = i \<and> m' i = Some (plain c) else m' i = m i"
    by (cases "i = block_id X b") (auto split: if_splits)
qed

lemma adds_holds:
  assumes "adds X bs {} m m'" "collision_free X (set bs)" "\<forall>b \<in> set bs. honest X b" "b \<in> set bs"
  shows "holds X m' b"
proof -
  from assms(1,4) obtain c where c: "c \<in> set bs" "block_id X c = block_id X b"
    "m' (block_id X b) = Some (plain c)"
    unfolding adds_def by (metis DiffI empty_iff imageI)
  then have "same_block X c b" using assms(2-4) by (intro collision_free_same [OF assms(2)]) auto
  with c show ?thesis by (simp add: holds_def same_block_def)
qed

context repo_store
begin

lemma save_blocks_adds:
  "invar s \<Longrightarrow> \<forall>b \<in> set bs. honest X b \<Longrightarrow>
   \<exists>s'. save_blocks X S bs D s = (Ok (), s') \<and> invar s' \<and> adds X bs D (\<alpha> s) (\<alpha> s')"
proof (induction bs arbitrary: s D)
  case (Cons b bs)
  show ?case
  proof (cases "block_id X b \<in> D")
    case True
    with Cons show ?thesis by (force intro: adds_skip simp: Let_def)
  next
    case False
    from put_stores [OF Cons.prems(1), of b] Cons.prems(2) obtain s1 where
      s1: "rs_put S s b = (Ok (block_id X b), s1)" "invar s1"
        "\<alpha> s1 = (\<alpha> s)(block_id X b \<mapsto> plain b)" by auto
    from Cons.IH [OF s1(2), of "insert (block_id X b) D"] Cons.prems(2) obtain s' where
      "save_blocks X S bs (insert (block_id X b) D) s1 = (Ok (), s')" "invar s'"
      "adds X bs (insert (block_id X b) D) (\<alpha> s1) (\<alpha> s')" by auto
    with s1 False show ?thesis by (auto simp: Let_def intro!: adds_Cons)
  qed
qed (simp add: adds_def)

section \<open>Loading\<close>

text \<open>A block as a store gives it back: the saved one without its key.\<close>

lemma load_level_holds:
  assumes "invar s" "\<forall>b \<in> set L. holds X (\<alpha> s) b"
  shows "\<exists>L' s'. load_level S (rev (map (block_id X) L)) s ch bl ms
      = (Ok (ch @ rev (concat (map block_children L)), L' @ bl, ms), s')
    \<and> list_all2 (same_block X) L' L \<and> (\<forall>b \<in> set L'. block_key b = None) \<and> invar s' \<and> \<alpha> s' = \<alpha> s"
  using assms
proof (induction L arbitrary: s ch bl rule: rev_induct)
  case (snoc b L)
  from get_found [OF snoc.prems(1), of "block_id X b"] snoc.prems(2) obtain b' s1 where
    b': "rs_get S s (block_id X b) = (Ok b', s1)" "plain b' = plain b" "block_id X b' = block_id X b"
      "block_key b' = None" "invar s1" "\<alpha> s1 = \<alpha> s" by (auto simp: holds_def)
  from snoc.IH [OF b'(5), of "ch @ rev (block_children b')" "b' # bl"] snoc.prems b'(6) obtain L' s' where
    "load_level S (rev (map (block_id X) L)) s1 (ch @ rev (block_children b')) (b' # bl) ms
      = (Ok ((ch @ rev (block_children b')) @ rev (concat (map block_children L)), L' @ b' # bl, ms), s')"
    "list_all2 (same_block X) L' L" "\<forall>b \<in> set L'. block_key b = None" "invar s'" "\<alpha> s' = \<alpha> s"
    by auto
  moreover have "same_block X b' b" using b' by (simp add: same_block_def)
  ultimately show ?case using b' plain_eqD(2) [OF b'(2)]
    by (intro exI [of _ "L' @ [b']"] exI [of _ s']) (auto intro: list_all2_appendI)
qed simp

lemma load_tree_tower:
  assumes "tower X K Ls" "K \<noteq> []" "invar s" "\<forall>b \<in> set (concat Ls). holds X (\<alpha> s) b"
  shows "\<exists>B s'. load_tree S (length Ls + n) (rev (map (block_id X) (last Ls))) s bl ms
      = load_tree S n (rev (map (block_id X) K)) s' (B @ bl) ms
    \<and> list_all2 (same_block X) B (concat Ls) \<and> (\<forall>b \<in> set B. block_key b = None)
    \<and> invar s' \<and> \<alpha> s' = \<alpha> s"
  using assms
proof (induction Ls arbitrary: K n)
  case (Cons M Ms)
  from Cons.prems(1) have par: "parents_of X M K" by simp
  have M: "M \<noteq> []" using par Cons.prems(2) by (auto simp: parents_of_def)
  have step: "\<exists>B s'. load_tree S (Suc n) (rev (map (block_id X) M)) s1 bl' ms
        = load_tree S n (rev (map (block_id X) K)) s' (B @ bl') ms
      \<and> list_all2 (same_block X) B M \<and> (\<forall>b \<in> set B. block_key b = None) \<and> invar s' \<and> \<alpha> s' = \<alpha> s"
    if "invar s1" "\<alpha> s1 = \<alpha> s" for s1 bl'
  proof -
    from load_level_holds [OF that(1), of M "[]" bl' ms] Cons.prems(4) that(2) obtain B s' where
      "load_level S (rev (map (block_id X) M)) s1 [] bl' ms
        = (Ok (rev (map (block_id X) K), B @ bl', ms), s')"
      "list_all2 (same_block X) B M" "\<forall>b \<in> set B. block_key b = None" "invar s'" "\<alpha> s' = \<alpha> s"
      using parents_of_children [OF par] by auto
    with Cons.prems(2) show ?thesis by (intro exI [of _ B] exI [of _ s']) auto
  qed
  show ?case
  proof (cases "Ms = []")
    case True
    with step [OF Cons.prems(3), of bl] show ?thesis by auto
  next
    case False
    with Cons.prems Cons.IH [of M "Suc n"] M obtain B s1 where
      B: "load_tree S (length Ms + Suc n) (rev (map (block_id X) (last Ms))) s bl ms
        = load_tree S (Suc n) (rev (map (block_id X) M)) s1 (B @ bl) ms"
        "list_all2 (same_block X) B (concat Ms)" "\<forall>b \<in> set B. block_key b = None" "invar s1" "\<alpha> s1 = \<alpha> s"
      by auto
    from step [OF B(4,5), of "B @ bl"] obtain B' s' where
      "load_tree S (Suc n) (rev (map (block_id X) M)) s1 (B @ bl) ms
        = load_tree S n (rev (map (block_id X) K)) s' (B' @ B @ bl) ms"
      "list_all2 (same_block X) B' M" "\<forall>b \<in> set B'. block_key b = None" "invar s'" "\<alpha> s' = \<alpha> s"
      by blast
    with B False show ?thesis
      by (intro exI [of _ "B' @ B"] exI [of _ s']) (auto intro: list_all2_appendI)
  qed
qed simp

lemma load_tree_leaves:
  assumes "list_all2 (leaf_node X) K ds" "invar s" "\<forall>b \<in> set K. holds X (\<alpha> s) b"
  shows "\<exists>B s'. load_tree S (Suc n) (rev (map (block_id X) K)) s bl ms = (Ok (B @ bl, ms), s')
    \<and> list_all2 (same_block X) B K \<and> (\<forall>b \<in> set B. block_key b = None) \<and> invar s' \<and> \<alpha> s' = \<alpha> s"
proof -
  have "concat (map block_children K) = []"
    using assms(1) by (induction K ds rule: list_all2_induct) (simp_all add: leaf_node_def)
  with load_level_holds [OF assms(2,3), of "[]" bl ms] show ?thesis by auto
qed

lemma length_tower: "tower X K Ls \<Longrightarrow> K \<noteq> [] \<Longrightarrow> length Ls \<le> length (concat Ls)"
proof (induction Ls arbitrary: K)
  case (Cons M Ms)
  have "M \<noteq> []" using Cons.prems by (auto simp: parents_of_def)
  with Cons show ?case by (cases "Ms = []") (cases M; fastforce)+
qed simp

lemma load_tree_merkle:
  assumes "merkle X bs K ds" "invar s" "\<forall>b \<in> set bs. holds X (\<alpha> s) b" "length bs \<le> fuel"
  shows "\<exists>B s'. load_tree S fuel [block_id X (last bs)] s [] [] = (Ok (B, []), s')
    \<and> list_all2 (same_block X) B bs \<and> (\<forall>b \<in> set B. block_key b = None) \<and> invar s' \<and> \<alpha> s' = \<alpha> s"
proof -
  from assms(1) have K: "K \<noteq> []" "list_all2 (leaf_node X) K ds" by (auto simp: merkle_def)
  from assms(1) consider (leaf) "bs = K" "length K = 1" | (tree) Ls where "bs = K @ concat Ls" "tower X K Ls"
    by (auto simp: merkle_def)
  then show ?thesis
  proof cases
    case leaf
    with assms(4) obtain n where n: "fuel = Suc n" by (cases fuel) auto
    from leaf have "rev (map (block_id X) K) = [block_id X (last bs)]"
      by (metis list.map(1,2) rev_singleton_conv singleton_last)
    with load_tree_leaves [OF K(2) assms(2), of n "[]" "[]"] assms(3) leaf n show ?thesis by auto
  next
    case tree
    have "length Ls \<le> length (concat Ls)" using length_tower tree(2) K(1) by blast
    moreover have "0 < length K" using K(1) by simp
    ultimately have "Suc (length Ls) \<le> fuel"
      using assms(4) tree(1) by (simp only: length_append)
    then obtain n where n: "fuel = length Ls + Suc n" by (metis add_Suc_right add_Suc le_iff_add)
    from tower_concat_last [OF tree(2)] tree(1)
    have top: "rev (map (block_id X) (last Ls)) = [block_id X (last bs)]" by simp
    from load_tree_tower [OF tree(2) K(1) assms(2), of "Suc n" "[]" "[]"] assms(3) tree(1)
    obtain B s1 where B: "load_tree S fuel [block_id X (last bs)] s [] []
        = load_tree S (Suc n) (rev (map (block_id X) K)) s1 B []"
      "list_all2 (same_block X) B (concat Ls)" "\<forall>b \<in> set B. block_key b = None" "invar s1" "\<alpha> s1 = \<alpha> s"
      unfolding n top by auto
    from load_tree_leaves [OF K(2) B(4), of n B "[]"] assms(3) tree(1) B(5) obtain B' s' where
      "load_tree S (Suc n) (rev (map (block_id X) K)) s1 B [] = (Ok (B' @ B, []), s')"
      "list_all2 (same_block X) B' K" "\<forall>b \<in> set B'. block_key b = None" "invar s'" "\<alpha> s' = \<alpha> s"
      by auto
    with B tree(1) show ?thesis
      by (intro exI [of _ "B' @ B"] exI [of _ s']) (auto intro: list_all2_appendI)
  qed
qed

lemma object_load_merkle:
  assumes "merkle X bs K ds" "invar s" "\<forall>b \<in> set bs. holds X (\<alpha> s) b" "length bs \<le> fuel"
    and "block_deps (last bs) = ObjectIdList deps"
  shows "\<exists>ob s'. object_load X S fuel (block_id X (last bs)) key s = (Ok ob, s') \<and> obj_deps ob = deps
    \<and> list_all2 (same_block X) (obj_blocks ob) bs \<and> block_key (last (obj_blocks ob)) = key
    \<and> invar s' \<and> \<alpha> s' = \<alpha> s"
proof -
  have ne: "bs \<noteq> []" using assms(1) by (rule merkle_nonempty)
  with assms(4) obtain n where n: "fuel = Suc n" by (cases fuel) auto
  from load_tree_merkle [OF assms(1-4)] obtain B s' where
    B: "load_tree S fuel [block_id X (last bs)] s [] [] = (Ok (B, []), s')"
      "list_all2 (same_block X) B bs" "\<forall>b \<in> set B. block_key b = None" "invar s'" "\<alpha> s' = \<alpha> s"
    by blast
  with ne have "B \<noteq> []" by auto
  then obtain B' b where Bb: "B = B' @ [b]" by (metis rev_exhaust)
  with B(2) obtain bs' c where bs: "bs = bs' @ [c]" "list_all2 (same_block X) B' bs'" "same_block X b c"
    by (auto simp: list_all2_append1 list_all2_Cons1)
  define root where "root = (if key \<noteq> None then set_key key b else b)"
  have root: "same_block X root c" "block_key root = key" "block_deps root = ObjectIdList deps"
    using bs assms(5) B(3) Bb by (auto simp: root_def same_block_def dest: plain_eqD(3))
  then show ?thesis using B Bb bs n
    by (intro exI [of _ "\<lparr>obj_blocks = B' @ [root], obj_deps = deps\<rparr>"] exI [of _ s'])
       (auto simp: root_def Let_def intro: list_all2_appendI)
qed

lemma object_load_deps_missing:
  assumes "merkle X bs K ds" "invar s" "\<forall>b \<in> set bs. holds X (\<alpha> s) b" "length bs < fuel"
    and "block_deps (last bs) = DepListRef r" "\<alpha> s (ref_id r) = None"
  shows "\<exists>s'. object_load X S fuel (block_id X (last bs)) key s = (Err (MissingBlocks [ref_id r]), s')"
proof -
  have ne: "bs \<noteq> []" using assms(1) by (rule merkle_nonempty)
  with assms(4) obtain n where n: "fuel = Suc (Suc n)"
    by (cases fuel; cases "fuel - 1") auto
  from load_tree_merkle [OF assms(1-3), of fuel] assms(4) obtain B s' where
    B: "load_tree S fuel [block_id X (last bs)] s [] [] = (Ok (B, []), s')"
      "list_all2 (same_block X) B bs" "invar s'" "\<alpha> s' = \<alpha> s"
    by auto
  then have Bne: "B \<noteq> []" using ne by auto
  with B(2) ne have "same_block X (last B) (last bs)"
    by (simp add: list_all2_conv_all_nth last_conv_nth)
  then have "block_deps (last B) = DepListRef r"
    using assms(5) by (auto simp: same_block_def dest: plain_eqD(3))
  moreover from get_missing [OF B(3), of "ref_id r"] assms(6) B(4) obtain s'' where
    "rs_get S s' (ref_id r) = (Err StorageError.NotFound, s'')" by auto
  then have "object_load X S (Suc n) (ref_id r) (Some (ref_key r)) s' = (Err (MissingBlocks [ref_id r]), s'')"
    by simp
  ultimately show ?thesis using B(1) Bne n
    by (simp add: Let_def)
qed

text \<open>\<^verbatim>\<open>save\<close> and then \<^verbatim>\<open>load\<close> gives back blocks that parse like those of the object.\<close>

lemma save_then_load:
  assumes "merkle X (obj_blocks ob) K ds" "\<forall>b \<in> set (obj_blocks ob). honest X b"
    and "collision_free X (set (obj_blocks ob))" "invar s" "length (obj_blocks ob) \<le> fuel"
    and "block_deps (last (obj_blocks ob)) = ObjectIdList deps"
  shows "\<exists>s1 ob' s2. object_save X S ob s = (Ok (), s1)
    \<and> object_load X S fuel (block_id X (last (obj_blocks ob))) key s1 = (Ok ob', s2)
    \<and> obj_deps ob' = deps \<and> list_all2 (same_block X) (obj_blocks ob') (obj_blocks ob)
    \<and> block_key (last (obj_blocks ob')) = key"
proof -
  from save_blocks_adds [OF assms(4,2), of "{}"] obtain s1 where
    s1: "object_save X S ob s = (Ok (), s1)" "invar s1" "adds X (obj_blocks ob) {} (\<alpha> s) (\<alpha> s1)"
    by (auto simp: object_save_def)
  then have "\<forall>b \<in> set (obj_blocks ob). holds X (\<alpha> s1) b" using adds_holds assms(2,3) by blast
  from object_load_merkle [OF assms(1) s1(2) this assms(5,6), of key] s1(1) show ?thesis by blast
qed

end

section \<open>Objects made by the sources\<close>

lemma merkle_ids:
  assumes "merkle X (obj_blocks ob) K ds"
  shows "object_id X ob = Ok (block_id X (last (obj_blocks ob)))"
    and "object_key ob = Ok (Some (the (block_key (last (obj_blocks ob)))))"
  using merkle_nonempty [OF assms] merkle_root_keyed [OF assms]
  by (auto simp: object_id_def object_key_def object_root_def keyed_def)

lemma content_of_loaded:
  assumes "merkle X bs K ds" "list_all2 (same_block X) (obj_blocks ob) bs"
  shows "block_key (last (obj_blocks ob)) = Some (the (block_key (last bs))) \<Longrightarrow>
      object_content X ob = ok_or ObjectDeserializeError (de_object_content X (concat ds))"
    and "block_key (last (obj_blocks ob)) = None \<Longrightarrow> object_content X ob = Err MissingRootKey"
proof -
  have ne: "bs \<noteq> []" "obj_blocks ob \<noteq> []" "length (obj_blocks ob) = length bs"
    using merkle_nonempty [OF assms(1)] assms(2) list_all2_lengthD by auto
  then have "same_block X (last (obj_blocks ob)) (last bs)"
    using assms(2) by (simp add: list_all2_conv_all_nth last_conv_nth)
  then have "block_id X (last (obj_blocks ob)) = block_id X (last bs)" by (simp add: same_block_def)
  then show "block_key (last (obj_blocks ob)) = Some (the (block_key (last bs))) \<Longrightarrow>
      object_content X ob = ok_or ObjectDeserializeError (de_object_content X (concat ds))"
    using ne collect_leaves_same [OF assms(2)] merkle_collect [OF assms(1), of None "Some []"]
    by (simp add: object_content_def object_key_def object_id_def object_root_def)
  show "block_key (last (obj_blocks ob)) = None \<Longrightarrow> object_content X ob = Err MissingRootKey"
    using ne by (simp add: object_content_def object_key_def object_root_def)
qed

text \<open>What the store lemmas need of an object that \<^verbatim>\<open>Object::new\<close> returned.\<close>

lemma object_new_facts:
  assumes X: "stream_cipher X" "block_content_codec X" "content_tagged X"
    and new: "object_new X c deps e sz pk sk = (Ok ob :: (Object, 'e) result)"
  shows "\<exists>K ds v d. merkle X (obj_blocks ob) K ds \<and> concat ds = ser_object_content X c
    \<and> obj_deps ob = deps \<and> (\<forall>b \<in> set (obj_blocks ob). honest X b)
    \<and> make_deps X deps v pk sk = (Ok d :: (ObjectDeps, 'e) result)
    \<and> block_deps (last (obj_blocks ob)) = d"
proof -
  from new have sz: "sz + HEADER < 2 ^ 64"
    by (auto simp: object_new.simps store_valid_value_size_def split: if_splits)
  from object_new_merkle [OF X sz, where 'e = 'e, of deps pk sk c e] new obtain v d bs K ds where
    v: "valid_value_size v" and d: "make_deps X deps v pk sk = (Ok d :: (ObjectDeps, 'e) result)"
    and ob: "ob = \<lparr>obj_blocks = bs, obj_deps = deps\<rparr>"
    and bs: "make_blocks X (ser_object_content X c) (length deps) e v (convergence_key X pk sk) d
        = (Ok bs :: (Block list, 'e) result)"
    and m: "merkle X bs K ds" "concat ds = ser_object_content X c" by auto
  have "4072 \<le> v" using valid_value_size_bounds [OF v] by (simp add: lofire_defs)
  note facts = make_blocks_facts [OF bs this, unfolded content_tagged_def]
  have "\<forall>b \<in> set bs. honest X b" "block_deps (last bs) = d"
    using facts X(3) by (auto simp: content_tagged_def dest: tree_block_honest)
  with m d ob show ?thesis by auto
qed

text \<open>
  C3. An object with at most eight dependencies, saved into a HashMap store and loaded back by
  its identifier and key, has the content and the dependencies it was created with, whatever
  the store already held; loading it without the key gives the blocks but no content.
\<close>

theorem hashmap_save_load_roundtrip:
  assumes X: "stream_cipher X" "block_content_codec X" "content_tagged X" "object_content_codec X c"
    and new: "object_new X c deps e sz pk sk = Ok ob" and deps: "length deps \<le> 8"
    and cf: "collision_free X (set (obj_blocks ob))"
    and s: "hashmap_invar X s" and fuel: "length (obj_blocks ob) \<le> fuel"
  shows "\<exists>i k s1 ob1 s2 ob2 s3. object_id X ob = Ok i \<and> object_key ob = Ok (Some k)
    \<and> object_save X (hashmap_store X) ob s = (Ok (), s1)
    \<and> object_load X (hashmap_store X) fuel i (Some k) s1 = (Ok ob1, s2)
    \<and> object_content X ob1 = Ok c \<and> obj_deps ob1 = deps
    \<and> object_load X (hashmap_store X) fuel i None s1 = (Ok ob2, s3)
    \<and> object_content X ob2 = Err MissingRootKey \<and> obj_deps ob2 = deps"
proof -
  from object_new_facts [OF X(1-3) new] obtain K ds where
    m: "merkle X (obj_blocks ob) K ds" "concat ds = ser_object_content X c"
      "\<forall>b \<in> set (obj_blocks ob). honest X b" "block_deps (last (obj_blocks ob)) = ObjectIdList deps"
    by (auto simp: make_deps_few [OF deps])
  note load = hm.save_then_load [OF m(1,3) cf s fuel m(4)]
  let ?k = "the (block_key (last (obj_blocks ob)))"
  have root: "object_id X ob = (Ok (block_id X (last (obj_blocks ob))) :: (ObjectId, 'e) result)"
    "object_key ob = (Ok (Some ?k) :: (SymKey option, 'f) result)"
    by (rule merkle_ids [OF m(1)])+
  from load [of "Some ?k"] obtain s1 ob1 s2 where
    l1: "object_save X (hashmap_store X) ob s = (Ok (), s1)"
      "object_load X (hashmap_store X) fuel (block_id X (last (obj_blocks ob))) (Some ?k) s1 = (Ok ob1, s2)"
      "obj_deps ob1 = deps" "list_all2 (same_block X) (obj_blocks ob1) (obj_blocks ob)"
      "block_key (last (obj_blocks ob1)) = Some ?k" by blast
  from load [of None] l1(1) obtain ob2 s3 where
    l2: "object_load X (hashmap_store X) fuel (block_id X (last (obj_blocks ob))) None s1 = (Ok ob2, s3)"
      "obj_deps ob2 = deps" "list_all2 (same_block X) (obj_blocks ob2) (obj_blocks ob)"
      "block_key (last (obj_blocks ob2)) = None" by auto
  have "object_content X ob1 = Ok c" "object_content X ob2 = Err MissingRootKey"
    using content_of_loaded(1) [OF m(1) l1(4,5)] content_of_loaded(2) [OF m(1) l2(3,4)] X(4) m(2)
    by (simp_all add: object_content_codec_def)
  with root l1(1-3) l2(1,2) show ?thesis by blast
qed

text \<open>
  C21. An object with more than eight dependencies cannot be loaded from a store that only it was
  saved into: \<^verbatim>\<open>make_deps\<close> builds an object for the dependency list, keeps its reference in the
  root block and drops its blocks, which no operation of the object writes anywhere.
\<close>

theorem many_deps_object_not_loadable:
  assumes X: "stream_cipher X" "block_content_codec X" "content_tagged X"
    and new: "object_new X c deps e sz pk sk = Ok ob" and deps: "8 < length deps"
    and cf: "collision_free X (set (obj_blocks ob))"
    and fuel: "length (obj_blocks ob) < fuel"
    and ref: "block_deps (last (obj_blocks ob)) = DepListRef r"
    and fresh: "ref_id r \<notin> block_id X ` set (obj_blocks ob)"
  shows "\<exists>i s1 s2. object_id X ob = Ok i
    \<and> object_save X (hashmap_store X) ob hashmap_new = (Ok (), s1)
    \<and> object_load X (hashmap_store X) fuel i key s1 = (Err (MissingBlocks [ref_id r]), s2)"
proof -
  from object_new_facts [OF X new] obtain K ds where
    m: "merkle X (obj_blocks ob) K ds" "\<forall>b \<in> set (obj_blocks ob). honest X b" by auto
  from hm.save_blocks_adds [OF hashmap_invar_new m(2), of "{}"] obtain s1 where
    s1: "object_save X (hashmap_store X) ob hashmap_new = (Ok (), s1)" "hashmap_invar X s1"
      "adds X (obj_blocks ob) {} (hashmap_abs hashmap_new) (hashmap_abs s1)"
    by (auto simp: object_save_def)
  from s1(3) fresh have "hashmap_abs s1 (ref_id r) = None"
    unfolding adds_def by (metis Diff_iff hashmap_abs_new)
  moreover have "\<forall>b \<in> set (obj_blocks ob). holds X (hashmap_abs s1) b"
    using adds_holds [OF s1(3) cf m(2)] by blast
  ultimately obtain s2 where "object_load X (hashmap_store X) fuel (block_id X (last (obj_blocks ob))) key s1
      = (Err (MissingBlocks [ref_id r]), s2)"
    using hm.object_load_deps_missing [OF m(1) s1(2) _ fuel ref] by blast
  moreover have "object_id X ob = (Ok (block_id X (last (obj_blocks ob))) :: (ObjectId, 'e) result)"
    by (rule merkle_ids [OF m(1)])
  ultimately show ?thesis using s1(1) by blast
qed

section \<open>Concrete objects\<close>

text \<open>The properties above at concrete objects, over the instance of the parameters.\<close>

definition demo_blocks :: "bytes \<Rightarrow> Block list" where
  "demo_blocks d = [make_leaf demo_externs (convergence_key demo_externs demo_pubkey demo_secret)
     (ObjectIdList []) None (2 # d)]"

definition demo_object :: "bytes \<Rightarrow> Object" where
  "demo_object d = \<lparr>obj_blocks = demo_blocks d, obj_deps = []\<rparr>"

lemma store_valid_value_size_min [simp]: "store_valid_value_size 4072 = Ok 4072"
  by (rule store_valid_value_size_valid) (auto simp: valid_value_size_def lofire_defs intro!: exI [of _ 1])

lemma demo_object_new:
  "length d \<le> 4055 \<Longrightarrow> object_new demo_externs (demo_file d) [] None 4072 demo_pubkey demo_secret = Ok (demo_object d)"
  by (simp add: object_new.simps make_deps_few make_blocks_def lofire_defs demo_object_def demo_blocks_def
     demo_file_def Let_def)

theorem new_content_roundtrip_witness:
  "\<exists>ob. object_new demo_externs (demo_file [1, 2, 3]) [demo_id 5] (Some 9) 4072 demo_pubkey demo_secret = Ok ob
    \<and> object_content demo_externs ob = Ok (demo_file [1, 2, 3])"
  using new_content_roundtrip [of demo_externs "demo_file [1, 2, 3]" 4072 "[demo_id 5]" "Some 9"]
  by (auto simp: lofire_defs)

lemma merkle_demo: "merkle demo_externs (demo_blocks d) (demo_blocks d) [2 # d]"
  by (simp add: merkle_def demo_blocks_def leaf_node_make_leaf)

lemma demo_object_content: "object_content demo_externs (demo_object d) = Ok (demo_file d)"
  by (simp add: demo_object_def merkle_object [OF merkle_demo] demo_file_def)

lemma demo_blocks_honest: "\<forall>b \<in> set (demo_blocks d). honest demo_externs b"
  by (simp add: demo_blocks_def)

lemma demo_blocks_collision_free: "collision_free demo_externs (set (demo_blocks d) \<union> set (demo_blocks d))"
  by (simp add: demo_blocks_def collision_free_def)


text \<open>The same blocks as a peer receives them, without cached identifiers.\<close>

definition received :: "Block list \<Rightarrow> Block list" where
  "received bs = map (\<lambda>b. set_key (block_key b) (plain b)) bs"

theorem root_id_binds_content_witness:
  "\<exists>c1 c2. object_content demo_externs \<lparr>obj_blocks = received (demo_blocks [7]), obj_deps = []\<rparr> = Ok c1
    \<and> object_content demo_externs (demo_object [7]) = Ok c2 \<and> c1 = c2"
proof -
  let ?ob = "\<lparr>obj_blocks = received (demo_blocks [7]), obj_deps = []\<rparr>"
  let ?i = "block_id demo_externs (last (demo_blocks [7]))"
  have same: "list_all2 (same_block demo_externs) (received (demo_blocks [7])) (demo_blocks [7])"
    by (simp add: received_def demo_blocks_def same_block_def honest_id)
  have key: "block_key (last (received (demo_blocks [7]))) = block_key (last (demo_blocks [7]))"
    by (simp add: received_def demo_blocks_def)
  have "keyed (last (demo_blocks [7]))" by (simp add: demo_blocks_def)
  then have c1: "object_content demo_externs ?ob = Ok (demo_file [7])"
    using content_of_loaded(1) [OF merkle_demo [of "[7]"], of ?ob] same key
    by (simp add: demo_file_def keyed_def)
  have "demo_file [7] = demo_file [7]"
  proof (rule root_id_binds_content [OF _ _ _ _ _ c1 demo_object_content [of "[7]"], of ?i])
    show "object_id demo_externs ?ob = Ok ?i" "object_id demo_externs (demo_object [7]) = Ok ?i"
      "object_key ?ob = object_key (demo_object [7])"
      by (simp_all add: object_id_def object_key_def object_root_def demo_object_def received_def
          demo_blocks_def honest_id)
  qed (simp_all add: received_def demo_object_def demo_blocks_def collision_free_def)
  with c1 demo_object_content show ?thesis by blast
qed

theorem hashmap_save_load_roundtrip_witness:
  "\<exists>i k s1 ob1 s2. object_save demo_externs (hashmap_store demo_externs) (demo_object [7]) hashmap_new = (Ok (), s1)
    \<and> object_load demo_externs (hashmap_store demo_externs) 5 i (Some k) s1 = (Ok ob1, s2)
    \<and> object_content demo_externs ob1 = Ok (demo_file [7])"
  using hashmap_save_load_roundtrip [OF _ _ _ _ demo_object_new [of "[7]"], of hashmap_new 5]
  by (auto simp: demo_object_def demo_blocks_def collision_free_def) blast


text \<open>For the next witness the identifiers are the lengths of what is hashed.\<close>

definition length_externs :: externs where
  "length_externs = demo_externs\<lparr>blake3_hash := \<lambda>bs. fill32 (of_nat (length bs))\<rparr>"

lemma length_externs_laws [simp]:
  "stream_cipher length_externs" "block_content_codec length_externs" "content_tagged length_externs"
  using demo_stream_cipher demo_block_content_codec demo_content_tagged
  by (simp_all add: length_externs_def stream_cipher_def block_content_codec_def content_tagged_def)

definition nine_deps :: "ObjectId list" where
  "nine_deps = map demo_id [1, 2, 3, 4, 5, 6, 7, 8, 9]"

lemma length_nine_deps [simp]: "length nine_deps = 9"
  by (simp add: nine_deps_def)

lemma make_leaf_key:
  "block_key (make_leaf X ck d e c)
     = Some (ChaCha20Key (blake3_keyed_hash X ck (ser_block_content X (DataChunk c))))"
  by (simp add: make_leaf_def make_block_def Let_def)

lemma length_make_leaf_id:
  "block_id length_externs (make_leaf length_externs ck d e c) = Blake3Digest32 (fill32 (of_nat (length c + 3)))"
  by (simp add: make_leaf_def make_block_def block_new_def blockv0_new_def Let_def length_externs_def
      tag_block_def xor_cipher_def)

lemma nine_deps_make_deps:
  "\<exists>k. make_deps length_externs nine_deps 4072 demo_pubkey demo_secret
    = Ok (DepListRef \<lparr>ref_id = demo_id 36, ref_key = k\<rparr>)"
proof -
  have ser: "length (ser_object_content length_externs (ObjectContent.DepList (DepList.V0 nine_deps))) = 289"
    by (simp add: length_externs_def nine_deps_def)
  show ?thesis
    by (simp add: make_deps.simps [of _ nine_deps] object_new.simps make_deps_few make_blocks_def
        lofire_defs Let_def object_id_def object_key_def object_root_def length_make_leaf_id demo_id_def
        make_leaf_key ser)
qed

theorem many_deps_object_not_loadable_witness:
  "\<exists>ob i s1 s2. object_new length_externs (demo_file [7]) nine_deps None 4072 demo_pubkey demo_secret
      = (Ok ob :: (Object, StorageError) result)
    \<and> object_save length_externs (hashmap_store length_externs) ob hashmap_new = (Ok (), s1)
    \<and> object_load length_externs (hashmap_store length_externs) 2 i None s1 = (Err (MissingBlocks [demo_id 36]), s2)"
proof -
  from nine_deps_make_deps [where ?'a = StorageError] obtain k where
    k: "make_deps length_externs nine_deps 4072 demo_pubkey demo_secret
      = (Ok (DepListRef \<lparr>ref_id = demo_id 36, ref_key = k\<rparr>) :: (ObjectDeps, StorageError) result)" by blast
  let ?b = "make_leaf length_externs (convergence_key length_externs demo_pubkey demo_secret)
    (DepListRef \<lparr>ref_id = demo_id 36, ref_key = k\<rparr>) None [2, 7]"
  have new: "object_new length_externs (demo_file [7]) nine_deps None 4072 demo_pubkey demo_secret
      = (Ok \<lparr>obj_blocks = [?b], obj_deps = nine_deps\<rparr> :: (Object, StorageError) result)"
    using k by (simp add: object_new.simps make_blocks_def lofire_defs Let_def)
       (simp add: length_externs_def demo_file_def)
  have "\<exists>i s1 s2. object_id length_externs \<lparr>obj_blocks = [?b], obj_deps = nine_deps\<rparr> = (Ok i :: (ObjectId, StorageError) result)
      \<and> object_save length_externs (hashmap_store length_externs) \<lparr>obj_blocks = [?b], obj_deps = nine_deps\<rparr> hashmap_new = (Ok (), s1)
      \<and> object_load length_externs (hashmap_store length_externs) 2 i None s1 = (Err (MissingBlocks [demo_id 36]), s2)"
    using many_deps_object_not_loadable [OF length_externs_laws new, of 2 "\<lparr>ref_id = demo_id 36, ref_key = k\<rparr>" None]
    by (simp add: collision_free_def length_make_leaf_id demo_id_def)
  with new show ?thesis by blast
qed

end
