(* ===== verification/Lofire_Refine.thy ===== *)
theory Lofire_Refine
  imports Lofire_Object_Store
begin

text \<open>
  The reference store: a finite map from identifiers to plain blocks. Every store with the
  \<open>repo_store\<close> laws behaves, for the code that reads objects, like the map it stands for; the
  properties of that code are proved once over the map. The section on acyclic stores shows
  when loading an object ends.
\<close>

section \<open>The reference store\<close>

fun map_get :: "(BlockId \<rightharpoonup> Block) \<Rightarrow> BlockId \<Rightarrow> (Block, StorageError, BlockId \<rightharpoonup> Block) op" where
  "map_get m i = (case m i of
      Some (Block.V0 b) \<Rightarrow> (Ok (Block.V0 (b\<lparr>blk_id := Some i, blk_key := None\<rparr>)), m)
    | None \<Rightarrow> (Err StorageError.NotFound, m))"

definition map_put ::
  "'x externs_scheme \<Rightarrow> (BlockId \<rightharpoonup> Block) \<Rightarrow> Block \<Rightarrow> (BlockId, StorageError, BlockId \<rightharpoonup> Block) op" where
  "map_put X m b = (Ok (block_id X b), m(block_id X b \<mapsto> plain b))"

definition map_del ::
  "(BlockId \<rightharpoonup> Block) \<Rightarrow> BlockId \<Rightarrow> (Block \<times> usize, StorageError, BlockId \<rightharpoonup> Block) op" where
  "map_del m i = (case m i of Some b \<Rightarrow> (Ok (b, 0), m(i := None)) | None \<Rightarrow> (Err StorageError.NotFound, m))"

definition map_store :: "'x externs_scheme \<Rightarrow> (BlockId \<rightharpoonup> Block) RepoStore" where
  "map_store X = \<lparr>rs_get = map_get, rs_put = map_put X, rs_del = map_del\<rparr>"

definition plain_map :: "(BlockId \<rightharpoonup> Block) \<Rightarrow> bool" where
  "plain_map m \<longleftrightarrow> (\<forall>i b. m i = Some b \<longrightarrow> plain b = b)"

interpretation mp: repo_store X "map_store X" plain_map "\<lambda>m. m" for X
proof (unfold_locales, goal_cases)
  case (1 s i b)
  then have "plain b = b" by (simp add: plain_map_def)
  with 1 show ?case by (cases b) (auto simp: map_store_def)
qed (auto simp: map_store_def map_put_def map_del_def plain_map_def split: if_splits)

section \<open>Every store reads like its map\<close>

definition alike :: "'x externs_scheme \<Rightarrow> Block \<Rightarrow> Block \<Rightarrow> bool" where
  "alike X a b \<longleftrightarrow> same_block X a b \<and> block_key a = block_key b"

lemma alike_list_same: "list_all2 (alike X) A B \<Longrightarrow> list_all2 (same_block X) A B"
  by (simp add: list_all2_conv_all_nth alike_def)

lemma alike_last: "list_all2 (alike X) A B \<Longrightarrow> B \<noteq> [] \<Longrightarrow> A \<noteq> [] \<and> alike X (last A) (last B)"
  by (cases "A = []") (simp_all add: list_all2_conv_all_nth last_conv_nth)

lemma alike_butlast: "list_all2 (alike X) A B \<Longrightarrow> list_all2 (alike X) (butlast A) (butlast B)"
  by (simp add: list_all2_conv_all_nth nth_butlast)

lemma object_content_alike:
  assumes "list_all2 (alike X) (obj_blocks a) (obj_blocks b)"
  shows "object_content X a = object_content X b"
proof (cases "obj_blocks b = []")
  case True
  with assms show ?thesis by (simp add: object_content_def object_key_def object_root_def)
next
  case False
  from alike_last [OF assms False] have ne: "obj_blocks a \<noteq> []"
    and l: "block_id X (last (obj_blocks a)) = block_id X (last (obj_blocks b))"
      "block_key (last (obj_blocks a)) = block_key (last (obj_blocks b))"
    by (auto simp: alike_def same_block_def)
  with False list_all2_lengthD [OF assms] collect_leaves_same [OF alike_list_same [OF assms]]
  show ?thesis
    by (simp add: object_content_def object_key_def object_id_def object_root_def split: option.split)
qed

lemma object_id_alike:
  assumes "list_all2 (alike X) (obj_blocks a) (obj_blocks b)"
  shows "object_id X a = object_id X b"
  using alike_last [OF assms] assms
  by (cases "obj_blocks b = []") (auto simp: object_id_def object_root_def alike_def same_block_def)

text \<open>Outcomes that agree but for cached identifiers.\<close>

definition alike_objects :: "'x externs_scheme \<Rightarrow> Object \<Rightarrow> Object \<Rightarrow> bool" where
  "alike_objects X a b \<longleftrightarrow> list_all2 (alike X) (obj_blocks a) (obj_blocks b) \<and> obj_deps a = obj_deps b"

text \<open>The two halves of \<^verbatim>\<open>Object::load\<close>: the tree, and then the dependencies.\<close>

definition with_key :: "SymKey option \<Rightarrow> Block \<Rightarrow> Block" where
  "with_key key b = (if key \<noteq> None then set_key key b else b)"

definition load_deps ::
  "'x externs_scheme \<Rightarrow> 's RepoStore \<Rightarrow> nat \<Rightarrow> Block list \<Rightarrow> Block \<Rightarrow> 's \<Rightarrow> (Object, ObjectParseError, 's) op" where
  "load_deps X S n blocks rt st = (case block_deps rt of
       ObjectIdList ds \<Rightarrow> (Ok \<lparr>obj_blocks = blocks, obj_deps = ds\<rparr>, st)
     | DepListRef r \<Rightarrow> op_then (object_load X S n (ref_id r) (Some (ref_key r)) st)
         (\<lambda>obj st. case object_content X obj of
              Ok (ObjectContent.DepList (DepList.V0 ds)) \<Rightarrow> (Ok \<lparr>obj_blocks = blocks, obj_deps = ds\<rparr>, st)
            | Ok _ \<Rightarrow> (Err InvalidDeps, st) | Err e \<Rightarrow> (Err e, st) | Panic \<Rightarrow> (Panic, st) | Hang \<Rightarrow> (Hang, st)))"

lemma object_load_Suc:
  "object_load X S (Suc n) i k s = op_then (load_tree S (Suc n) [i] s [] []) (\<lambda>(blocks, missing) st.
     if missing \<noteq> [] then (Err (MissingBlocks missing), st)
     else if blocks = [] then (Panic, st)
     else load_deps X S n (butlast blocks @ [with_key k (last blocks)]) (with_key k (last blocks)) st)"
  by (simp only: object_load.simps with_key_def load_deps_def Let_def)

declare object_load.simps(2) [simp del] load_tree.simps(2) [simp del]

context repo_store
begin

lemma load_level_sim:
  assumes "invar s" "list_all2 (alike X) bl bl'"
  shows "\<exists>ch' B B' ms' s'. load_level S ps s ch bl ms = (Ok (ch', B, ms'), s')
    \<and> load_level (map_store X) ps (\<alpha> s) ch bl' ms = (Ok (ch', B', ms'), \<alpha> s)
    \<and> list_all2 (alike X) B B' \<and> invar s' \<and> \<alpha> s' = \<alpha> s"
  using assms
proof (induction ps arbitrary: s ch bl bl' ms)
  case (Cons i ps)
  from Cons.prems(1) show ?case
  proof (cases rule: get_cases [of s i])
    case (found b s1)
    obtain v where v: "plain b = Block.V0 v" by (cases "plain b")
    let ?b = "Block.V0 (v\<lparr>blk_id := Some i, blk_key := None\<rparr>)"
    have m: "map_get (\<alpha> s) i = (Ok ?b, \<alpha> s)" using found v by simp
    have al: "alike X b ?b"
      using found v by (cases b) (auto simp: alike_def same_block_def)
    then have ch: "block_children ?b = block_children b"
      by (auto simp only: alike_def same_block_def dest: plain_eqD(2))
    from m have step: "load_level (map_store X) (i # ps) (\<alpha> s) ch bl' ms
        = load_level (map_store X) ps (\<alpha> s) (ch @ rev (block_children b)) (?b # bl') ms"
      by (simp add: map_store_def ch del: map_get.simps block_children.simps)
    from Cons.IH [OF found(5), of "b # bl" "?b # bl'" "ch @ rev (block_children b)" ms] Cons.prems(2) al found(6)
    show ?thesis unfolding step using found(1) by simp
  next
    case (missing s1)
    have m: "map_get (\<alpha> s) i = (Err StorageError.NotFound, \<alpha> s)" using missing by simp
    with Cons.IH [OF missing(3), of bl bl' ch "ms @ [i]"] Cons.prems missing
    show ?thesis by (simp add: map_store_def del: map_get.simps)
  qed
qed simp

lemma load_tree_sim:
  assumes "invar s" "list_all2 (alike X) bl bl'"
  shows "\<exists>s'. invar s' \<and> \<alpha> s' = \<alpha> s \<and>
    (load_tree S n ps s bl ms = (Hang, s') \<and> load_tree (map_store X) n ps (\<alpha> s) bl' ms = (Hang, \<alpha> s)
     \<or> (\<exists>B B' ms'. load_tree S n ps s bl ms = (Ok (B, ms'), s')
        \<and> load_tree (map_store X) n ps (\<alpha> s) bl' ms = (Ok (B', ms'), \<alpha> s) \<and> list_all2 (alike X) B B'))"
  using assms
proof (induction n arbitrary: ps s bl bl' ms)
  case (Suc n)
  from load_level_sim [OF Suc.prems, of ps "[]" ms] obtain ch' B B' ms' s' where
    l: "load_level S ps s [] bl ms = (Ok (ch', B, ms'), s')"
      "load_level (map_store X) ps (\<alpha> s) [] bl' ms = (Ok (ch', B', ms'), \<alpha> s)"
      "list_all2 (alike X) B B'" "invar s'" "\<alpha> s' = \<alpha> s" by blast
  with Suc.IH [OF l(4,3), of ch' ms'] show ?case
    by (cases "ch' = []") (auto simp: load_tree.simps(2))
qed auto

lemma load_deps_sim:
  assumes IH: "\<And>i k s. invar s \<Longrightarrow> \<exists>s' r r'. object_load X S n i k s = (r, s')
      \<and> object_load X (map_store X) n i k (\<alpha> s) = (r', \<alpha> s)
      \<and> rel_result (alike_objects X) (=) r r' \<and> invar s' \<and> \<alpha> s' = \<alpha> s"
    and s: "invar s" and blocks: "list_all2 (alike X) B B'" and deps: "block_deps b = block_deps b'"
  shows "\<exists>s' r r'. load_deps X S n B b s = (r, s') \<and> load_deps X (map_store X) n B' b' (\<alpha> s) = (r', \<alpha> s)
    \<and> rel_result (alike_objects X) (=) r r' \<and> invar s' \<and> \<alpha> s' = \<alpha> s"
proof (cases "block_deps b'")
  case (ObjectIdList ds)
  with blocks s deps show ?thesis by (simp add: load_deps_def alike_objects_def)
next
  case (DepListRef r)
  from IH [OF s, of "ref_id r" "Some (ref_key r)"] obtain s2 q q' where
    q: "object_load X S n (ref_id r) (Some (ref_key r)) s = (q, s2)"
      "object_load X (map_store X) n (ref_id r) (Some (ref_key r)) (\<alpha> s) = (q', \<alpha> s)"
      "rel_result (alike_objects X) (=) q q'" "invar s2" "\<alpha> s2 = \<alpha> s" by auto
  from q(3) show ?thesis
  proof (cases rule: result.rel_cases)
    case (Ok a c)
    then have "object_content X a = object_content X c"
      by (simp add: alike_objects_def object_content_alike)
    with DepListRef q(1,2,4,5) Ok(1,2) blocks deps show ?thesis
      by (cases "object_content X c")
         (auto simp: load_deps_def alike_objects_def split: ObjectContent.split DepList.split)
  qed (use DepListRef q deps in \<open>simp_all add: load_deps_def\<close>)
qed

lemma object_load_sim:
  assumes "invar s"
  shows "\<exists>s' r r'. object_load X S n i k s = (r, s') \<and> object_load X (map_store X) n i k (\<alpha> s) = (r', \<alpha> s)
    \<and> rel_result (alike_objects X) (=) r r' \<and> invar s' \<and> \<alpha> s' = \<alpha> s"
  using assms
proof (induction n arbitrary: i k s)
  case (Suc n)
  from load_tree_sim [OF Suc.prems, of "[]" "[]" "Suc n" "[i]" "[]"] obtain s1 where
    s1: "invar s1" "\<alpha> s1 = \<alpha> s" and
    "load_tree S (Suc n) [i] s [] [] = (Hang, s1) \<and> load_tree (map_store X) (Suc n) [i] (\<alpha> s) [] [] = (Hang, \<alpha> s)
     \<or> (\<exists>B B' ms'. load_tree S (Suc n) [i] s [] [] = (Ok (B, ms'), s1)
        \<and> load_tree (map_store X) (Suc n) [i] (\<alpha> s) [] [] = (Ok (B', ms'), \<alpha> s) \<and> list_all2 (alike X) B B')"
    by auto
  then consider (hang) "load_tree S (Suc n) [i] s [] [] = (Hang, s1)"
      "load_tree (map_store X) (Suc n) [i] (\<alpha> s) [] [] = (Hang, \<alpha> s)"
    | (ok) B B' ms' where "load_tree S (Suc n) [i] s [] [] = (Ok (B, ms'), s1)"
        "load_tree (map_store X) (Suc n) [i] (\<alpha> s) [] [] = (Ok (B', ms'), \<alpha> s)" "list_all2 (alike X) B B'"
    by blast
  then show ?case
  proof cases
    case hang
    with s1 show ?thesis by (simp add: object_load_Suc)
  next
    case (ok B B' ms')
    show ?thesis
    proof (cases "ms' \<noteq> [] \<or> B' = []")
      case True
      with ok s1 show ?thesis by (auto simp: object_load_Suc)
    next
      case False
      with ok(3) have ne: "B \<noteq> []" "B' \<noteq> []" by auto
      have "alike X (with_key k (last B)) (with_key k (last B'))"
        using alike_last [OF ok(3) ne(2)] by (auto simp: with_key_def alike_def same_block_def)
      then have "list_all2 (alike X) (butlast B @ [with_key k (last B)]) (butlast B' @ [with_key k (last B')])"
        "block_deps (with_key k (last B)) = block_deps (with_key k (last B'))"
        using alike_butlast [OF ok(3)]
        by (auto simp: alike_def same_block_def intro: list_all2_appendI dest: plain_eqD(3))
      from load_deps_sim [OF Suc.IH s1(1) this] s1(2) False ok ne show ?thesis
        by (simp add: object_load_Suc)
    qed
  qed
qed auto

end

section \<open>Parsing never panics\<close>

lemma collect_block_no_panic: "collect_block X b p acc \<noteq> Panic" "collect_block X b p acc \<noteq> Hang"
  by (cases p; cases acc; auto split: option.splits BlockContentV0.splits)+

lemma collect_level_no_panic:
  "i + length ps \<le> length bs \<Longrightarrow> collect_level X bs ps i acc \<noteq> Panic \<and> collect_level X bs ps i acc \<noteq> Hang"
proof (induction ps arbitrary: i acc)
  case (Cons p ps)
  then show ?case using collect_block_no_panic [of X "bs ! i" p acc]
    by (cases "collect_block X (bs ! i) p acc") auto
qed simp

lemma collect_leaves_no_panic:
  "i + length ps \<le> length bs \<Longrightarrow>
   collect_leaves X bs ps i lv c \<noteq> Panic \<and> collect_leaves X bs ps i lv c \<noteq> Hang"
proof (induction X bs ps i lv c rule: collect_leaves.induct)
  case (1 X bs ps i lv c)
  show ?case
  proof (cases "collect_level X bs ps i ([], lv, c)")
    case (Ok r)
    obtain ch lv' c' where r: "r = (ch, lv', c')" by (cases r)
    show ?thesis
    proof (cases "ch = [] \<or> i < length ch")
      case True
      with Ok r show ?thesis by (auto simp: collect_leaves.simps [of X bs ps])
    next
      case False
      then have "collect_leaves X bs ch (i - length ch) lv' c' \<noteq> Panic \<and>
          collect_leaves X bs ch (i - length ch) lv' c' \<noteq> Hang"
        using 1(2) by (intro 1(1)) auto
      with False Ok r show ?thesis by (simp add: collect_leaves.simps [of X bs ps i])
    qed
  qed (use collect_level_no_panic [OF 1(2), of X "([], lv, c)"] in \<open>auto simp: collect_leaves.simps [of X bs ps]\<close>)
qed

lemma collect_block_Some:
  "collect_block X b p (ch, lv, Some c) = Ok (ch', lv', c') \<Longrightarrow> \<exists>d. c' = Some d"
  by (cases p) (auto split: if_splits option.splits BlockContentV0.splits)

lemma collect_level_Some:
  "collect_level X bs ps i (ch, lv, Some c) = Ok (ch', lv', c') \<Longrightarrow> \<exists>d. c' = Some d"
proof (induction ps arbitrary: i ch lv c)
  case (Cons p ps)
  then show ?case
    by (auto simp: res_simps split: if_splits simp del: collect_block.simps dest!: collect_block_Some)
qed auto

lemma collect_leaves_Some:
  "collect_leaves X bs ps i lv (Some c) = Ok (lv', c') \<Longrightarrow> \<exists>d. c' = Some d"
proof (induction i arbitrary: ps lv c rule: less_induct)
  case (less i)
  from less.prems obtain ch lv1 c1 where
    lev: "collect_level X bs ps i ([], lv, Some c) = Ok (ch, lv1, c1)"
    by (auto simp: collect_leaves.simps [of X bs ps] res_simps)
  from collect_level_Some [OF this] obtain d where "c1 = Some d" by blast
  with lev less.prems less.IH [of "i - length ch" ch lv1 d] show ?case
    by (auto simp: collect_leaves.simps [of X bs ps] split: if_splits simp flip: length_greater_0_conv)
qed

lemma object_content_total:
  assumes "obj_blocks ob \<noteq> []"
  shows "object_content X ob \<noteq> Panic" "object_content X ob \<noteq> Hang"
proof -
  let ?b = "last (obj_blocks ob)"
  have r: "object_content X ob = (case block_key ?b of None \<Rightarrow> Err MissingRootKey
      | Some k \<Rightarrow> and_then (collect_leaves X (obj_blocks ob) [(block_id X ?b, k)] (length (obj_blocks ob) - 1) None (Some []))
          (\<lambda>(_, c). and_then (unwrap c) (\<lambda>c. ok_or ObjectDeserializeError (de_object_content X c))))"
    using assms by (simp add: object_content_def object_key_def object_id_def object_root_def split: option.split)
  have "object_content X ob \<noteq> Panic \<and> object_content X ob \<noteq> Hang"
  proof (cases "block_key ?b")
    case (Some k)
    let ?r = "collect_leaves X (obj_blocks ob) [(block_id X ?b, k)] (length (obj_blocks ob) - 1) None (Some [])"
    have "?r \<noteq> Panic \<and> ?r \<noteq> Hang"
      using assms by (intro collect_leaves_no_panic) (simp add: Suc_leI)
    then consider e where "?r = Err e" | lv c where "?r = Ok (lv, c)" by (cases ?r) auto
    then show ?thesis
    proof cases
      case (2 lv c)
      from collect_leaves_Some [OF this] obtain d where "c = Some d" by blast
      with 2 Some r show ?thesis by (cases "de_object_content X d") simp_all
    qed (simp add: r Some)
  qed (simp add: r)
  then show "object_content X ob \<noteq> Panic" "object_content X ob \<noteq> Hang" by auto
qed

section \<open>Loading ends on stores without cycles\<close>

definition ranked :: "(BlockId \<Rightarrow> nat) \<Rightarrow> (BlockId \<rightharpoonup> Block) \<Rightarrow> bool" where
  "ranked rank m \<longleftrightarrow> (\<forall>i b. m i = Some b \<longrightarrow> (\<forall>j \<in> set (block_children b). rank j < rank i)
     \<and> (\<forall>r. block_deps b = DepListRef r \<longrightarrow> rank (ref_id r) < rank i))"

context repo_store
begin

lemma load_level_ranked:
  assumes "invar s" "ranked rank (\<alpha> s)" "\<forall>i \<in> set ps. rank i \<le> n" "\<forall>i \<in> set ch. rank i < n"
    and "\<forall>b \<in> set bl. \<forall>r. block_deps b = DepListRef r \<longrightarrow> rank (ref_id r) < k" "n \<le> k"
  shows "\<exists>ch' bl' ms' s'. load_level S ps s ch bl ms = (Ok (ch', bl', ms'), s') \<and> invar s' \<and> \<alpha> s' = \<alpha> s
    \<and> (\<forall>i \<in> set ch'. rank i < n) \<and> (\<forall>b \<in> set bl'. \<forall>r. block_deps b = DepListRef r \<longrightarrow> rank (ref_id r) < k)
    \<and> length bl' + length ms' = length ps + length bl + length ms"
  using assms
proof (induction ps arbitrary: s ch bl ms)
  case (Cons i ps)
  from Cons.prems(1) show ?case
  proof (cases rule: get_cases [of s i])
    case (found b s1)
    from found(2) Cons.prems(2) have "\<forall>j \<in> set (block_children b). rank j < rank i"
      "\<forall>r. block_deps b = DepListRef r \<longrightarrow> rank (ref_id r) < rank i"
      unfolding ranked_def by (metis plain_fields(2), metis plain_fields(3))
    with Cons.IH [OF found(5), of "ch @ rev (block_children b)" "b # bl" ms] Cons.prems found
    show ?thesis by fastforce
  next
    case (missing s1)
    with Cons.IH [OF missing(3), of ch bl "ms @ [i]"] Cons.prems show ?thesis by fastforce
  qed
qed auto

lemma load_tree_ranked:
  assumes "invar s" "ranked rank (\<alpha> s)" "\<forall>i \<in> set ps. rank i < n" "n \<le> Suc k"
    and "\<forall>b \<in> set bl. \<forall>r. block_deps b = DepListRef r \<longrightarrow> rank (ref_id r) < k" "0 < n"
  shows "\<exists>bl' ms' s'. load_tree S n ps s bl ms = (Ok (bl', ms'), s') \<and> invar s' \<and> \<alpha> s' = \<alpha> s
    \<and> (\<forall>b \<in> set bl'. \<forall>r. block_deps b = DepListRef r \<longrightarrow> rank (ref_id r) < k)
    \<and> length ps + length bl + length ms \<le> length bl' + length ms'"
  using assms
proof (induction n arbitrary: ps s bl ms)
  case (Suc n)
  from load_level_ranked [OF Suc.prems(1,2), of ps n "[]" bl k ms] Suc.prems obtain ch' bl' ms' s' where
    l: "load_level S ps s [] bl ms = (Ok (ch', bl', ms'), s')" "invar s'" "\<alpha> s' = \<alpha> s"
      "\<forall>i \<in> set ch'. rank i < n"
      "\<forall>b \<in> set bl'. \<forall>r. block_deps b = DepListRef r \<longrightarrow> rank (ref_id r) < k"
      "length bl' + length ms' = length ps + length bl + length ms" by (auto simp: less_Suc_eq_le)
  show ?case
  proof (cases "ch' = []")
    case False
    then have "0 < n" using l(4) by (cases ch') auto
    with Suc.IH [OF l(2), of ch' bl' ms'] l Suc.prems False show ?thesis
      by (fastforce simp: load_tree.simps(2))
  qed (use l in \<open>auto simp: load_tree.simps(2)\<close>)
qed simp

lemma object_load_ranked:
  assumes "invar s" "ranked rank (\<alpha> s)" "rank i < n"
  shows "\<exists>s'. invar s' \<and> \<alpha> s' = \<alpha> s \<and> ((\<exists>ob. object_load X S n i k s = (Ok ob, s') \<and> obj_blocks ob \<noteq> [])
    \<or> (\<exists>e. object_load X S n i k s = (Err e, s')))"
  using assms
proof (induction n arbitrary: i k s)
  case (Suc n)
  from load_tree_ranked [OF Suc.prems(1,2), of "[i]" "Suc n" n "[]" "[]"] Suc.prems(3) obtain bl ms s1 where
    t: "load_tree S (Suc n) [i] s [] [] = (Ok (bl, ms), s1)" "invar s1" "\<alpha> s1 = \<alpha> s"
      "\<forall>b \<in> set bl. \<forall>r. block_deps b = DepListRef r \<longrightarrow> rank (ref_id r) < n" "1 \<le> length bl + length ms"
    by auto
  show ?case
  proof (cases "ms = []")
    case True
    with t(5) have ne: "bl \<noteq> []" by auto
    show ?thesis
    proof (cases "block_deps (last bl)")
      case (ObjectIdList ds)
      with t True ne show ?thesis by (simp add: object_load_Suc load_deps_def with_key_def)
    next
      case (DepListRef r)
      with t(4) ne have "rank (ref_id r) < n" using last_in_set by blast
      from Suc.IH [OF t(2) _ this, of "Some (ref_key r)"] Suc.prems(2) t(3) obtain s2 where
        s2: "invar s2" "\<alpha> s2 = \<alpha> s" and
        ol: "(\<exists>ob. object_load X S n (ref_id r) (Some (ref_key r)) s1 = (Ok ob, s2) \<and> obj_blocks ob \<noteq> [])
          \<or> (\<exists>e. object_load X S n (ref_id r) (Some (ref_key r)) s1 = (Err e, s2))" by auto
      show ?thesis using ol
      proof (elim disjE exE conjE)
        fix ob assume "object_load X S n (ref_id r) (Some (ref_key r)) s1 = (Ok ob, s2)" "obj_blocks ob \<noteq> []"
        with t True ne DepListRef s2 object_content_total [of ob X] show ?thesis
          by (cases "object_content X ob")
             (auto simp: object_load_Suc load_deps_def with_key_def split: ObjectContent.split DepList.split)
      qed (use t True ne DepListRef s2 in \<open>simp add: object_load_Suc load_deps_def with_key_def\<close>)
    qed
  qed (use t in \<open>simp add: object_load_Suc\<close>)
qed simp

end


section \<open>The HashMap store against the reference store\<close>

text \<open>Sequences of calls and what a caller sees of their answers: blocks up to the skipped fields.\<close>

datatype store_call = CallGet BlockId | CallPut Block | CallDel BlockId

datatype store_answer = Got "(Block, StorageError) result" | Stored "(BlockId, StorageError) result"
  | Deleted "(Block, StorageError) result"

fun store_call_ok :: "'x externs_scheme \<Rightarrow> store_call \<Rightarrow> bool" where
  "store_call_ok X (CallPut b) \<longleftrightarrow> honest X b"
| "store_call_ok X _ \<longleftrightarrow> True"

fun store_step :: "'s RepoStore \<Rightarrow> store_call \<Rightarrow> 's \<Rightarrow> store_answer \<times> 's" where
  "store_step S (CallGet i) s = (case rs_get S s i of (r, s') \<Rightarrow> (Got (map_result plain (\<lambda>e. e) r), s'))"
| "store_step S (CallPut b) s = (case rs_put S s b of (r, s') \<Rightarrow> (Stored r, s'))"
| "store_step S (CallDel i) s =
     (case rs_del S s i of (r, s') \<Rightarrow> (Deleted (map_result (\<lambda>(b, n). plain b) (\<lambda>e. e) r), s'))"

fun store_run :: "'s RepoStore \<Rightarrow> store_call list \<Rightarrow> 's \<Rightarrow> store_answer list" where
  "store_run S [] s = []"
| "store_run S (c # cs) s = (case store_step S c s of (a, s') \<Rightarrow> a # store_run S cs s')"

fun map_answer :: "'x externs_scheme \<Rightarrow> (BlockId \<rightharpoonup> Block) \<Rightarrow> store_call \<Rightarrow> store_answer" where
  "map_answer X m (CallGet i) = Got (ok_or StorageError.NotFound (m i))"
| "map_answer X m (CallPut b) = Stored (Ok (block_id X b))"
| "map_answer X m (CallDel i) = Deleted (ok_or StorageError.NotFound (m i))"

fun map_next :: "'x externs_scheme \<Rightarrow> (BlockId \<rightharpoonup> Block) \<Rightarrow> store_call \<Rightarrow> BlockId \<rightharpoonup> Block" where
  "map_next X m (CallGet i) = m"
| "map_next X m (CallPut b) = m(block_id X b \<mapsto> plain b)"
| "map_next X m (CallDel i) = m(i := None)"

context repo_store
begin

lemma store_step_answer:
  assumes "invar s" "store_call_ok X c"
  shows "\<exists>s'. store_step S c s = (map_answer X (\<alpha> s) c, s') \<and> invar s' \<and> \<alpha> s' = map_next X (\<alpha> s) c"
proof (cases c)
  case (CallGet i)
  with get_found [OF assms(1), of i] get_missing [OF assms(1), of i] show ?thesis
    by (cases "\<alpha> s i") auto
next
  case (CallPut b)
  with put_stores [OF assms(1), of b] assms(2) show ?thesis by auto
next
  case (CallDel i)
  with del_found [OF assms(1), of i] del_missing [OF assms(1), of i] show ?thesis
    by (cases "\<alpha> s i") (auto simp: fun_upd_idem)
qed

end

lemma store_run_sim:
  assumes "repo_store X S invar \<alpha>" "repo_store X T invar' \<beta>"
    and "invar s" "invar' t" "\<alpha> s = \<beta> t" "list_all (store_call_ok X) cs"
  shows "store_run S cs s = store_run T cs t"
  using assms(3-)
proof (induction cs arbitrary: s t)
  case (Cons c cs)
  from Cons.prems(4) have ok: "store_call_ok X c" by simp
  from repo_store.store_step_answer [OF assms(1) Cons.prems(1) ok]
    repo_store.store_step_answer [OF assms(2) Cons.prems(2) ok] Cons.prems(3)
  obtain s' t' where "store_step S c s = (map_answer X (\<beta> t) c, s')"
    "store_step T c t = (map_answer X (\<beta> t) c, t')" "invar s'" "invar' t'" "\<alpha> s' = \<beta> t'" by auto
  with Cons show ?case by simp
qed simp

text \<open>
  C22. The HashMap store refines a finite map: any sequence of \<^verbatim>\<open>get\<close>, \<^verbatim>\<open>put\<close> and \<^verbatim>\<open>del\<close> calls, with
  blocks whose cached identifier is their hash, gets from a new HashMap store the answers the
  reference store gives, errors included.
\<close>

theorem hashmap_refines_map:
  assumes "list_all (store_call_ok X) calls"
  shows "store_run (hashmap_store X) calls hashmap_new = store_run (map_store X) calls Map.empty"
  by (rule store_run_sim [OF hm.repo_store_axioms mp.repo_store_axioms])
     (simp_all add: plain_map_def assms)

theorem hashmap_refines_map_witness:
  "store_run (hashmap_store demo_externs) (map CallPut (demo_blocks [7]) @ [CallDel (demo_id 1)]) hashmap_new
    = store_run (map_store demo_externs) (map CallPut (demo_blocks [7]) @ [CallDel (demo_id 1)]) Map.empty"
  by (rule hashmap_refines_map) (simp add: demo_blocks_def)

section \<open>Properties of parsing and loading\<close>

text \<open>
  C25. Parsing is total: whatever blocks an object has, as long as it has one, \<^verbatim>\<open>content()\<close> returns a
  content or an error. No index into the blocks is ever out of range, no recursion is endless,
  so blocks crafted by a peer cannot crash the parser.
\<close>

theorem content_never_panics:
  assumes "obj_blocks ob \<noteq> []"
  shows "(\<exists>c. object_content X ob = Ok c) \<or> (\<exists>e. object_content X ob = Err e)"
  using object_content_total [OF assms, of X] by (cases "object_content X ob") auto

theorem content_never_panics_witness:
  "(\<exists>c. object_content demo_externs (demo_object [7]) = Ok c)
    \<or> (\<exists>e. object_content demo_externs (demo_object [7]) = Err e)"
  by (rule content_never_panics) (simp add: demo_object_def demo_blocks_def)



end
