(* ===== verification/Lofire_Object_Sizes.thy ===== *)
theory Lofire_Object_Sizes
  imports Lofire_Refine
begin

text \<open>
  Two more properties of objects: every block that \<^verbatim>\<open>Object::new\<close> makes fits, serialized, in the
  value size the store asked for; and \<^verbatim>\<open>copy\<close> keeps the content and the dependencies.
\<close>

section \<open>The sizes of serialized blocks\<close>

text \<open>
  The lengths BARE gives the serialized forms: an enum tag is one byte, a sequence is preceded by
  its length as a variable-length integer of seven bits a byte, a digest or key is 33 bytes.
\<close>

fun varint_len :: "nat \<Rightarrow> nat" where
  "varint_len n = (if n < 128 then 1 else 1 + varint_len (n div 128))"

declare varint_len.simps [simp del]

fun deps_len :: "ObjectDeps \<Rightarrow> nat" where
  "deps_len (ObjectIdList ds) = 1 + varint_len (length ds) + BLOCK_ID_SIZE * length ds"
| "deps_len (DepListRef r) = 1 + BLOCK_ID_SIZE + BLOCK_KEY_SIZE"

definition expiry_len :: "Timestamp option \<Rightarrow> nat" where
  "expiry_len e = (if e = None then 1 else 5)"

definition block_len :: "BlockId list \<Rightarrow> ObjectDeps \<Rightarrow> Timestamp option \<Rightarrow> bytes \<Rightarrow> nat" where
  "block_len children deps expiry content =
     1 + (varint_len (length children) + BLOCK_ID_SIZE * length children) + deps_len deps + expiry_len expiry
       + (varint_len (length content) + length content)"

primrec content_len :: "BlockContentV0 \<Rightarrow> nat" where
  "content_len (InternalNode ks) = 1 + varint_len (length ks) + BLOCK_KEY_SIZE * length ks"
| "content_len (DataChunk d) = 1 + varint_len (length d) + length d"

definition bare_lengths :: "'x externs_scheme \<Rightarrow> bool" where
  "bare_lengths X \<longleftrightarrow> (\<forall>ch d e c. length (ser_block X ch d e c) = block_len ch d e c)
     \<and> (\<forall>c. length (ser_block_content X c) = content_len c)"

definition cipher_keeps_length :: "'x externs_scheme \<Rightarrow> bool" where
  "cipher_keeps_length X \<longleftrightarrow> (\<forall>k n d. length (chacha20 X k n d) = length d)"

fun serialized_size :: "'x externs_scheme \<Rightarrow> Block \<Rightarrow> nat" where
  "serialized_size X (Block.V0 b) =
     length (ser_block X (blk_children b) (blk_deps b) (blk_expiry b) (blk_content b))"

lemma varint_len_1: "n < 128 \<Longrightarrow> varint_len n = 1"
  by (simp add: varint_len.simps)

lemma varint_len_3:
  assumes "n < 2 ^ 21"
  shows "varint_len n \<le> 3"
proof -
  have "n div 128 div 128 < 128" using assms by simp
  then have "varint_len (n div 128 div 128) = 1" by (rule varint_len_1)
  then show ?thesis by (simp add: varint_len.simps [of n] varint_len.simps [of "n div 128"])
qed

lemma expiry_len_5: "expiry_len e \<le> 5"
  by (simp add: expiry_len_def)

lemma serialized_size_make_block:
  assumes "bare_lengths X" "cipher_keeps_length X"
  shows "serialized_size X (make_block X (ser_block_content X bc) ck ch d e)
    = 1 + (varint_len (length ch) + BLOCK_ID_SIZE * length ch) + deps_len d + expiry_len e
      + (varint_len (content_len bc) + content_len bc)"
  using assms
  by (simp add: make_block_def block_new_def blockv0_new_def Let_def bare_lengths_def block_len_def
      cipher_keeps_length_def)

lemma leaf_size:
  assumes "bare_lengths X" "cipher_keeps_length X" "length p < 2 ^ 21 - 4"
  shows "serialized_size X (make_leaf X ck d e p) \<le> 14 + deps_len d + length p"
proof -
  have c: "content_len (DataChunk p) \<le> 4 + length p"
    using varint_len_3 [of "length p"] assms(3) by simp
  then have "varint_len (content_len (DataChunk p)) \<le> 3" using assms(3) by (intro varint_len_3) simp
  with c expiry_len_5 [of e] show ?thesis
    by (simp add: make_leaf_def serialized_size_make_block [OF assms(1,2)] varint_len_1)
qed

lemma parent_size:
  assumes "bare_lengths X" "cipher_keeps_length X" "length g \<le> 40000"
  shows "serialized_size X (parent_block X ck e d g) \<le> 16 + deps_len d + 66 * length g"
proof -
  have v: "varint_len (length g) \<le> 3" using assms(3) by (intro varint_len_3) simp
  then have c: "content_len (InternalNode (map (the \<circ> block_key) g)) \<le> 4 + 33 * length g"
    by (simp add: lofire_defs)
  then have "varint_len (content_len (InternalNode (map (the \<circ> block_key) g))) \<le> 3"
    using assms(3) by (intro varint_len_3) simp
  with c v expiry_len_5 [of e] show ?thesis
    by (simp add: parent_block_def serialized_size_make_block [OF assms(1,2)] lofire_defs)
qed

text \<open>What \<^verbatim>\<open>make_deps\<close> returns is never longer than the list would be, nor than eight entries.\<close>

lemma make_deps_len:
  assumes "make_deps X deps v pk sk = (Ok d :: (ObjectDeps, 'e) result)"
  shows "deps_len d \<le> 2 + 33 * length deps" "deps_len d \<le> 2 + MAX_DEPS_SIZE"
proof -
  from assms have "(d = ObjectIdList deps \<and> length deps \<le> 8) \<or> (8 < length deps \<and> (\<exists>r. d = DepListRef r))"
    by (auto simp: make_deps.simps [of X deps] res_simps split: if_splits)
  then show "deps_len d \<le> 2 + 33 * length deps" "deps_len d \<le> 2 + MAX_DEPS_SIZE"
    by (auto simp: lofire_defs varint_len_1)
qed

lemma make_blocks_shape:
  assumes "make_blocks X c n e v ck d = (Ok bs :: (Block list, 'e) result)" "4072 \<le> v" "b \<in> set bs"
  shows "(b = make_leaf X ck d e c \<and> 16 + 33 * n + length c \<le> v)
    \<or> (\<exists>p. b = make_leaf X ck (ObjectIdList []) e p \<and> length p \<le> v - 16)
    \<or> tree_block X ck d e (tree_arity v) b"
proof (cases "16 + 33 * n + length c \<le> v")
  case True
  with assms show ?thesis by (auto simp: make_blocks_def lofire_defs)
next
  case False
  let ?K = "map (make_leaf X ck (ObjectIdList []) e) (chunks (v - 16) c)"
  have n: "2 \<le> tree_arity v" using assms(2) by (auto simp: tree_arity_def lofire_defs)
  have r: "and_then (make_tree X ?K ck d e (tree_arity v)) (\<lambda>ps. Ok (?K @ ps)) = (Ok bs :: (Block list, 'e) result)"
    using assms(1,2) False by (simp add: make_blocks_def lofire_defs Let_def split: if_splits)
  show ?thesis
  proof (cases "b \<in> set ?K")
    case True
    then show ?thesis using chunks_elem by fastforce
  next
    case F: False
    show ?thesis
    proof (cases "chunks (v - 16) c = []")
      case True
      with r n F assms(3) show ?thesis by (simp add: make_tree.simps [of X "[]"])
    next
      case False
      with r F assms(3) make_tree_blocks [OF n, where 'e = 'e, of ?K X ck d e] show ?thesis
        by (auto simp: res_simps list_all_length)
    qed
  qed
qed

lemma new_blocks_fit:
  assumes "bare_lengths X" "cipher_keeps_length X"
    and "object_new X c deps e sz pk sk = (Ok ob :: (Object, 'e) result)"
  shows "\<exists>v. store_valid_value_size sz = (Ok v :: (usize, 'e) result) \<and> (\<forall>b \<in> set (obj_blocks ob). serialized_size X b \<le> v)"
proof -
  from assms(3) obtain v d where v: "store_valid_value_size sz = (Ok v :: (usize, 'e) result)"
    and d: "make_deps X deps v pk sk = (Ok d :: (ObjectDeps, 'e) result)"
    and bs: "make_blocks X (ser_object_content X c) (length deps) e v (convergence_key X pk sk) d
      = (Ok (obj_blocks ob) :: (Block list, 'e) result)"
    by (auto simp: object_new.simps res_simps Let_def)
  have b: "4072 \<le> v" "v \<le> 2097128"
    using valid_value_size_bounds [OF store_valid_value_size_Ok [OF v]]
    by (simp_all add: lofire_defs store_max_value_size_def)
  have "serialized_size X b \<le> v" if "b \<in> set (obj_blocks ob)" for b
    using make_blocks_shape [OF bs b(1) that]
  proof (elim disjE exE conjE)
    assume "b = make_leaf X (convergence_key X pk sk) d e (ser_object_content X c)"
      "16 + 33 * length deps + length (ser_object_content X c) \<le> v"
    moreover from this b have "length (ser_object_content X c) < 2 ^ 21 - 4" by simp
    from leaf_size [OF assms(1,2) this]
    have "serialized_size X (make_leaf X (convergence_key X pk sk) d e (ser_object_content X c))
        \<le> 14 + deps_len d + length (ser_object_content X c)" .
    ultimately show ?thesis using make_deps_len(1) [OF d] by simp
  next
    fix p assume "b = make_leaf X (convergence_key X pk sk) (ObjectIdList []) e p" "length p \<le> v - 16"
    moreover from this b have "length p < 2 ^ 21 - 4" by simp
    from leaf_size [OF assms(1,2) this, of "convergence_key X pk sk" "ObjectIdList []" e]
    have "serialized_size X (make_leaf X (convergence_key X pk sk) (ObjectIdList []) e p) \<le> 16 + length p"
      by (simp add: varint_len_1)
    ultimately show ?thesis using b by simp
  next
    assume "tree_block X (convergence_key X pk sk) d e (tree_arity v) b"
    then obtain g d' where g: "b = parent_block X (convergence_key X pk sk) e d' g" "length g \<le> tree_arity v"
      "d' \<in> {d, ObjectIdList []}" by (auto simp: tree_block_def)
    have "66 * length g \<le> v - 282" using g(2) by (simp add: tree_arity_def lofire_defs)
    moreover have "deps_len d' \<le> 266" using g(3) make_deps_len(2) [OF d] by (auto simp: varint_len_1 lofire_defs)
    moreover have "length g \<le> 40000" using \<open>66 * length g \<le> v - 282\<close> b by simp
    ultimately show ?thesis using parent_size [OF assms(1,2), of g "convergence_key X pk sk" e d'] g(1) b by simp
  qed
  with v show ?thesis by blast
qed

text \<open>
  C23. Every block of an object made for block size \<open>sz\<close> serializes to at most
  \<^verbatim>\<open>store_valid_value_size(sz)\<close> bytes, leaves, inner nodes and root alike, with or without an
  expiry and with any number of dependencies: the reserves in the constants of \<^verbatim>\<open>object.rs\<close> are
  enough.
\<close>

theorem blocks_fit_value_size:
  assumes "bare_lengths X" "cipher_keeps_length X"
    and "object_new X c deps e sz pk sk = (Ok ob :: (Object, 'e) result)"
  shows "\<exists>v. store_valid_value_size sz = (Ok v :: (usize, 'e) result) \<and> (\<forall>b \<in> set (obj_blocks ob). serialized_size X b \<le> v)"
  by (rule new_blocks_fit [OF assms])


text \<open>An instance with BARE's lengths, for a concrete object.\<close>

definition sized_externs :: externs where
  "sized_externs = demo_externs\<lparr>
     ser_block := (\<lambda>ch d e c. replicate (block_len ch d e c) 0),
     ser_block_content := (\<lambda>c. replicate (content_len c) 0)\<rparr>"

theorem blocks_fit_value_size_witness:
  "\<exists>ob v. object_new sized_externs (demo_file [7]) [] None 4072 demo_pubkey demo_secret
      = (Ok ob :: (Object, StorageError) result)
    \<and> store_valid_value_size 4072 = (Ok v :: (usize, StorageError) result)
    \<and> obj_blocks ob \<noteq> [] \<and> (\<forall>b \<in> set (obj_blocks ob). serialized_size sized_externs b \<le> v)"
proof -
  have laws: "bare_lengths sized_externs" "cipher_keeps_length sized_externs"
    by (simp_all add: bare_lengths_def cipher_keeps_length_def sized_externs_def xor_cipher_def)
  have "\<exists>ob. object_new sized_externs (demo_file [7]) [] None 4072 demo_pubkey demo_secret
      = (Ok ob :: (Object, StorageError) result) \<and> obj_blocks ob \<noteq> []"
    by (simp add: object_new.simps make_deps_few make_blocks_def lofire_defs Let_def sized_externs_def
        demo_file_def)
  with blocks_fit_value_size [OF laws, where 'e = StorageError] show ?thesis by blast
qed

section \<open>Copying\<close>

lemma object_eta [simp]: "\<lparr>obj_blocks = obj_blocks ob, obj_deps = obj_deps ob\<rparr> = (ob :: Object)"
  by (cases ob) simp

lemma set_expiry_leaf: "leaf_node X b d \<Longrightarrow> leaf_node X (set_expiry e b) d"
  by (simp add: leaf_node_def keyed_def opened_def)

lemma copy_merkle:
  fixes ob :: Object
  assumes X: "stream_cipher X" "block_content_codec X"
    and m: "merkle X (obj_blocks ob) K ds"
    and len: "length (block_content (hd K)) + HEADER < 2 ^ 64"
  shows "\<exists>ob'. object_copy X ob e pk sk = Ok ob' \<and> merkle X (obj_blocks ob') (map (set_expiry e) K) ds
    \<and> obj_deps ob' = obj_deps ob \<and> block_deps (last (obj_blocks ob')) = block_deps (last (obj_blocks ob))
    \<and> (\<forall>b \<in> set (obj_blocks ob'). block_expiry b = e \<and> honest X b)"
proof -
  let ?K = "map (set_expiry e) K" and ?ck = "convergence_key X pk sk"
    and ?rd = "block_deps (last (obj_blocks ob))"
  from m have K: "K \<noteq> []" "list_all2 (leaf_node X) K ds" by (auto simp: merkle_def)
  then have K': "list_all2 (leaf_node X) ?K ds"
    by (auto simp: list_all2_map1 intro: list_all2_mono set_expiry_leaf)
  then have keyed: "list_all keyed ?K"
    by (auto simp: list_all2_conv_all_nth list_all_length leaf_node_def)
  from len obtain v where v: "store_valid_value_size (length (block_content (hd K)))
      = (Ok v :: (usize, ObjectCopyError) result)"
    by (simp add: store_valid_value_size_eq)
  have n: "2 \<le> tree_arity v"
    using valid_value_size_bounds [OF store_valid_value_size_Ok [OF v]]
    by (auto simp: tree_arity_def lofire_defs)
  from make_tree_tower [OF X n keyed, where 'e = ObjectCopyError, of ?ck ?rd e] K(1) obtain Ls where
    Ls: "make_tree X ?K ?ck ?rd e (tree_arity v) = (Ok (concat Ls) :: (Block list, ObjectCopyError) result)"
      "tower X ?K Ls" by auto
  with make_tree_blocks [OF n keyed, where 'e = ObjectCopyError, of X ?ck ?rd e] K(1) have
    bl: "concat Ls \<noteq> []" "block_deps (last (concat Ls)) = ?rd"
      "\<forall>b \<in> set (concat Ls). tree_block X ?ck ?rd e (tree_arity v) b" by auto
  have "object_leaves X ob = Ok K" using merkle_object(4) [OF m, of "obj_deps ob"] by simp
  then have "object_copy X ob e pk sk = Ok \<lparr>obj_blocks = ?K @ concat Ls, obj_deps = obj_deps ob\<rparr>"
    using K(1) v Ls(1) merkle_nonempty [OF m] by (simp add: object_copy_def object_root_def Let_def)
  moreover have "merkle X (?K @ concat Ls) ?K ds" using K K' Ls(2) by (auto simp: merkle_def)
  moreover have "\<forall>b \<in> set (concat Ls). block_expiry b = e \<and> honest X b"
    using bl(3) by (auto simp: tree_block_def parent_block_def simp del: set_concat)
  ultimately show ?thesis using bl by (auto simp del: set_concat concat_eq_Nil_conv)
qed

text \<open>
  C27. \<^verbatim>\<open>copy\<close> of an object made by \<^verbatim>\<open>Object::new\<close>, to any repository and with any expiry, succeeds;
  the copy has the same content and dependencies, and the new expiry is on every block.
\<close>

theorem copy_keeps_content:
  assumes "stream_cipher X" "block_content_codec X" "content_tagged X" "object_content_codec X c"
    and "object_new X c deps e sz pk sk = (Ok ob :: (Object, 'e) result)"
    and "\<forall>b \<in> set (obj_blocks ob). length (block_content b) + HEADER < 2 ^ 64"
  shows "\<exists>ob'. object_copy X ob e' pk' sk' = Ok ob' \<and> object_content X ob' = Ok c \<and> obj_deps ob' = deps
    \<and> (\<forall>b \<in> set (obj_blocks ob'). block_expiry b = e')"
proof -
  from object_new_facts [OF assms(1-3,5)] obtain K ds where
    m: "merkle X (obj_blocks ob) K ds" "concat ds = ser_object_content X c" "obj_deps ob = deps" by blast
  then have "hd K \<in> set (obj_blocks ob)" by (auto simp: merkle_def)
  with assms(6) have "length (block_content (hd K)) + HEADER < 2 ^ 64" by blast
  from copy_merkle [OF assms(1,2) m(1) this, of e' pk' sk'] obtain ob' where
    c: "object_copy X ob e' pk' sk' = Ok ob'" "merkle X (obj_blocks ob') (map (set_expiry e') K) ds"
      "obj_deps ob' = deps" "\<forall>b \<in> set (obj_blocks ob'). block_expiry b = e'"
    using m(3) by auto
  have "object_content X ob' = Ok c"
    using merkle_object(3) [OF c(2), of "obj_deps ob'"] m(2) assms(4) by (simp add: object_content_codec_def)
  with c show ?thesis by blast
qed

theorem copy_keeps_content_witness:
  "\<exists>ob'. object_copy demo_externs (demo_object [7]) (Some 60) (Ed25519PubKey (fill32 8)) demo_secret = Ok ob'
    \<and> object_content demo_externs ob' = Ok (demo_file [7]) \<and> (\<forall>b \<in> set (obj_blocks ob'). block_expiry b = Some 60)"
proof -
  have "object_new demo_externs (demo_file [7]) [] None 4072 demo_pubkey demo_secret
      = (Ok (demo_object [7]) :: (Object, StorageError) result)" by (simp add: demo_object_new)
  moreover have "\<forall>b \<in> set (obj_blocks (demo_object [7])). length (block_content b) + HEADER < 2 ^ 64"
    by (simp add: demo_object_def demo_blocks_def make_leaf_def make_block_def Let_def xor_cipher_def lofire_defs)
  ultimately show ?thesis
    using copy_keeps_content [OF demo_stream_cipher demo_block_content_codec demo_content_tagged demo_file_codec]
    by blast
qed

end
