(* ===== verification/Lofire_Branch.thy ===== *)
theory Lofire_Branch
  imports Lofire_Object_Sizes
begin

text \<open>
  \<^verbatim>\<open>src/lofire/src/branch.rs\<close>: members and branches, and the answer to a branch synchronization
  request. \<^verbatim>\<open>sync_req\<close> walks the commit objects from our heads and from theirs; the lemmas show
  that each walk visits exactly the objects reachable in the dependency graph, so the answer is
  the difference of two reachable sets less what the Bloom filter claims the peer has.
\<close>

section \<open>Members and branches\<close>

definition memberv0_new :: "PubKey \<Rightarrow> CommitType list \<Rightarrow> bytes \<Rightarrow> MemberV0" where
  "memberv0_new i commit_types metadata =
     \<lparr>mem_id = i, mem_commit_types = commit_types, mem_metadata = metadata\<rparr>"

definition memberv0_has_perm :: "MemberV0 \<Rightarrow> CommitType \<Rightarrow> bool" where
  "memberv0_has_perm m commit_type \<longleftrightarrow> commit_type \<in> set (mem_commit_types m)"

definition member_new :: "PubKey \<Rightarrow> CommitType list \<Rightarrow> bytes \<Rightarrow> Member" where
  "member_new i commit_types metadata = Member.V0 (memberv0_new i commit_types metadata)"

fun member_has_perm :: "Member \<Rightarrow> CommitType \<Rightarrow> bool" where
  "member_has_perm (Member.V0 m) commit_type = memberv0_has_perm m commit_type"

definition branchv0_new ::
  "PubKey \<Rightarrow> PubKey \<Rightarrow> SymKey \<Rightarrow> MemberV0 list \<Rightarrow> (CommitType \<rightharpoonup> u32) \<Rightarrow> RelTime \<Rightarrow> bytes \<Rightarrow> bytes \<Rightarrow> BranchV0" where
  "branchv0_new i topic secret members quorum ack_delay tags metadata =
     \<lparr>br_id = i, br_topic = topic, br_secret = secret, br_members = members, br_quorum = quorum,
      br_ack_delay = ack_delay, br_tags = tags, br_metadata = metadata\<rparr>"

definition branch_new ::
  "PubKey \<Rightarrow> PubKey \<Rightarrow> SymKey \<Rightarrow> MemberV0 list \<Rightarrow> (CommitType \<rightharpoonup> u32) \<Rightarrow> RelTime \<Rightarrow> bytes \<Rightarrow> bytes \<Rightarrow> Branch" where
  "branch_new i topic secret members quorum ack_delay tags metadata =
     Branch.V0 (branchv0_new i topic secret members quorum ack_delay tags metadata)"

text \<open>The first member with the identifier.\<close>

fun get_member :: "Branch \<Rightarrow> PubKey \<Rightarrow> MemberV0 option" where
  "get_member (Branch.V0 b) i = List.find (\<lambda>m. mem_id m = i) (br_members b)"

section \<open>Branch synchronization\<close>

text \<open>
  \<^verbatim>\<open>HashSet\<close>s are sets; \<^verbatim>\<open>Vec::from_iter\<close> lists one in an order Rust leaves open, here the order of the
  digests. \<open>sync_deps\<close> is the loop over \<^verbatim>\<open>cobj.deps()\<close>, given the recursive call; \<open>n\<close> is the fuel of
  the object loads, \<open>fuel\<close> that of the recursion of \<^verbatim>\<open>load_branch\<close>.
\<close>

type_synonym id_set = "ObjectId set"

fun sync_deps ::
  "(Object \<Rightarrow> 's \<Rightarrow> id_set \<Rightarrow> id_set \<Rightarrow> (bool \<times> id_set \<times> id_set, ObjectParseError, 's) op) \<Rightarrow>
   'x externs_scheme \<Rightarrow> 's RepoStore \<Rightarrow> nat \<Rightarrow> ObjectId list \<Rightarrow> 's \<Rightarrow> bool \<Rightarrow> id_set \<Rightarrow> id_set
   \<Rightarrow> (bool \<times> id_set \<times> id_set, ObjectParseError, 's) op" where
  "sync_deps rec X S n [] st found visited missing = (Ok (found, visited, missing), st)"
| "sync_deps rec X S n (i # deps) st found visited missing =
     (case object_load X S n i None st of
        (Ok ob, st) \<Rightarrow>
          if i \<notin> visited then
            op_then (rec ob st visited missing) (\<lambda>(f, visited, missing) st.
              sync_deps rec X S n deps st (f \<or> found) visited missing)
          else sync_deps rec X S n deps st found visited missing
      | (Err (MissingBlocks m), st) \<Rightarrow> sync_deps rec X S n deps st found visited (missing \<union> set m)
      | (Err e, st) \<Rightarrow> (Err e, st)
      | (Panic, st) \<Rightarrow> (Panic, st)
      | (Hang, st) \<Rightarrow> (Hang, st))"

fun sync_load_branch ::
  "'x externs_scheme \<Rightarrow> 's RepoStore \<Rightarrow> nat \<Rightarrow> ObjectId list \<Rightarrow> nat \<Rightarrow> Object \<Rightarrow> 's \<Rightarrow> id_set \<Rightarrow> id_set
   \<Rightarrow> (bool \<times> id_set \<times> id_set, ObjectParseError, 's) op" where
  "sync_load_branch X S n their_heads 0 cobj st visited missing = (Hang, st)"
| "sync_load_branch X S n their_heads (Suc fuel) cobj st visited missing =
     op_then (object_id X cobj, st) (\<lambda>i st.
       let is_root = (length (obj_deps cobj) = 0);
           their_head_found = (i \<in> set their_heads)
       in if \<not> is_root \<and> \<not> their_head_found then
            sync_deps (\<lambda>ob st visited missing. sync_load_branch X S n their_heads fuel ob st visited missing)
              X S n (obj_deps cobj) st their_head_found (insert i visited) missing
          else (Ok (their_head_found, visited, missing), st))"

text \<open>The two loops of \<^verbatim>\<open>sync_req\<close> over heads: load the head, walk from it, collect what was visited.\<close>

fun sync_heads ::
  "'x externs_scheme \<Rightarrow> 's RepoStore \<Rightarrow> nat \<Rightarrow> nat \<Rightarrow> ObjectId list \<Rightarrow> ObjectId list \<Rightarrow> 's \<Rightarrow> id_set \<Rightarrow> id_set
   \<Rightarrow> (id_set \<times> id_set, ObjectParseError, 's) op" where
  "sync_heads X S n fuel stop [] st acc missing = (Ok (acc, missing), st)"
| "sync_heads X S n fuel stop (i # heads) st acc missing =
     op_then (object_load X S n i None st) (\<lambda>cobj st.
       op_then (sync_load_branch X S n stop fuel cobj st {} missing) (\<lambda>(_, visited, missing) st.
         sync_heads X S n fuel stop heads st (acc \<union> visited) missing))"

definition bloom_has :: "'x externs_scheme \<Rightarrow> BloomFilter \<Rightarrow> ObjectId \<Rightarrow> bool" where
  "bloom_has X bf i = (case i of Blake3Digest32 d \<Rightarrow> bloom_contains X (bf_f bf) (bf_k bf) d)"

definition sync_req ::
  "'x externs_scheme \<Rightarrow> 's RepoStore \<Rightarrow> nat \<Rightarrow> nat \<Rightarrow> ObjectId list \<Rightarrow> ObjectId list \<Rightarrow> BloomFilter \<Rightarrow> 's
   \<Rightarrow> (ObjectId list, ObjectParseError, 's) op" where
  "sync_req X S n fuel our_heads their_heads their_filter st =
     op_then (sync_heads X S n fuel their_heads our_heads st {} {}) (\<lambda>(ours, missing) st.
       op_then (sync_heads X S n fuel [] their_heads st {} missing) (\<lambda>(theirs, missing) st.
         (Ok (sorted_list_of_set (Set.filter (\<lambda>i. \<not> bloom_has X their_filter i) (ours - theirs))), st)))"

section \<open>The dependency graph of a store\<close>

text \<open>The dependencies of the object a store holds under an identifier, if it loads.\<close>

definition dep_graph :: "'x externs_scheme \<Rightarrow> nat \<Rightarrow> (BlockId \<rightharpoonup> Block) \<Rightarrow> ObjectId \<Rightarrow> ObjectId list option" where
  "dep_graph X n m i =
     (case fst (object_load X (map_store X) n i None m) of Ok ob \<Rightarrow> Some (obj_deps ob) | _ \<Rightarrow> None)"

text \<open>An object a walk expands: it loads, it is not the root and it is not one to stop at.\<close>

definition expandable :: "(ObjectId \<Rightarrow> ObjectId list option) \<Rightarrow> ObjectId set \<Rightarrow> ObjectId \<Rightarrow> bool" where
  "expandable G T i \<longleftrightarrow> i \<notin> T \<and> (case G i of None \<Rightarrow> False | Some ds \<Rightarrow> ds \<noteq> [])"

inductive sync_reach :: "(ObjectId \<Rightarrow> ObjectId list option) \<Rightarrow> ObjectId set \<Rightarrow> ObjectId \<Rightarrow> ObjectId \<Rightarrow> bool"
  for G T h where
  start: "expandable G T h \<Longrightarrow> sync_reach G T h h"
| step: "sync_reach G T h i \<Longrightarrow> G i = Some ds \<Longrightarrow> j \<in> set ds \<Longrightarrow> expandable G T j \<Longrightarrow> sync_reach G T h j"

lemma sync_reach_trans:
  assumes "sync_reach G T i k" "sync_reach G T h i"
  shows "sync_reach G T h k"
  using assms by (induction rule: sync_reach.induct) (auto intro: sync_reach.step)

text \<open>What a walk from \<open>is\<close> that turned the visited set \<open>v\<close> into \<open>v'\<close> has done.\<close>

definition walked ::
  "(ObjectId \<Rightarrow> ObjectId list option) \<Rightarrow> ObjectId set \<Rightarrow> ObjectId list \<Rightarrow> ObjectId set \<Rightarrow> ObjectId set \<Rightarrow> bool" where
  "walked G T hs v v' \<longleftrightarrow> v \<subseteq> v' \<and> v' \<subseteq> v \<union> {j. \<exists>h \<in> set hs. sync_reach G T h j}
     \<and> (\<forall>h \<in> set hs. expandable G T h \<longrightarrow> h \<in> v')
     \<and> (\<forall>j \<in> v' - v. \<forall>ds. G j = Some ds \<longrightarrow> (\<forall>k \<in> set ds. expandable G T k \<longrightarrow> k \<in> v'))"

lemma walked_Nil: "walked G T [] v v"
  by (simp add: walked_def)

lemma walked_Cons: "walked G T [h] v v1 \<Longrightarrow> walked G T hs v1 v2 \<Longrightarrow> walked G T (h # hs) v v2"
  unfolding walked_def by (simp add: subset_iff) blast

lemma walked_skip: "h \<in> v \<or> \<not> expandable G T h \<Longrightarrow> walked G T [h] v v"
  by (auto simp: walked_def)

lemma walked_expand:
  assumes "expandable G T h" "G h = Some ds" "walked G T ds (insert h v) v'"
  shows "walked G T [h] v v'"
proof -
  have h: "sync_reach G T h h" using assms(1) by (rule sync_reach.start)
  have "sync_reach G T h j" if "d \<in> set ds" "sync_reach G T d j" for d j
  proof -
    from that(2) have "expandable G T d" by (induction rule: sync_reach.induct) auto
    from sync_reach.step [OF h assms(2) that(1) this] that(2) show ?thesis by (rule sync_reach_trans [rotated])
  qed
  then have reach: "sync_reach G T h j" if "j \<in> v'" "j \<notin> v" for j
  proof (cases "j = h")
    case False
    with that assms(3) obtain d where "d \<in> set ds" "sync_reach G T d j" unfolding walked_def by blast
    with \<open>\<And>j d. d \<in> set ds \<Longrightarrow> sync_reach G T d j \<Longrightarrow> sync_reach G T h j\<close> show ?thesis by blast
  qed (simp add: h)
  have closed: "k \<in> v'" if "j \<in> v'" "j \<notin> v" "G j = Some es" "k \<in> set es" "expandable G T k" for j es k
  proof (cases "j = h")
    case True
    with that(3,4) assms(2) have "k \<in> set ds" by simp
    with assms(3) that(5) show ?thesis unfolding walked_def by blast
  next
    case False
    with that have "j \<in> v' - insert h v" by simp
    with assms(3) that(3-5) show ?thesis unfolding walked_def by blast
  qed
  from assms(3) have "insert h v \<subseteq> v'" by (simp add: walked_def)
  with reach closed show ?thesis unfolding walked_def by simp blast
qed

lemma walked_all:
  assumes "walked G T [h] {} v"
  shows "v = {j. sync_reach G T h j}"
proof
  show "v \<subseteq> {j. sync_reach G T h j}" using assms by (auto simp: walked_def)
  have "j \<in> v" if "sync_reach G T h j" for j
    using that assms by induction (auto simp: walked_def)
  then show "{j. sync_reach G T h j} \<subseteq> v" by blast
qed

section \<open>The walks are correct\<close>

lemma load_deps_Ok: "load_deps X S n bl b s = (Ok ob, s') \<Longrightarrow> obj_blocks ob = bl"
proof (cases "block_deps b")
  case (DepListRef r)
  assume "load_deps X S n bl b s = (Ok ob, s')"
  with DepListRef obtain d s1 where "(case object_content X d of
        Ok (ObjectContent.DepList (DepList.V0 ds)) \<Rightarrow> (Ok \<lparr>obj_blocks = bl, obj_deps = ds\<rparr>, s1)
      | Ok _ \<Rightarrow> (Err InvalidDeps, s1) | Err e \<Rightarrow> (Err e, s1) | Panic \<Rightarrow> (Panic, s1) | Hang \<Rightarrow> (Hang, s1)) = (Ok ob, s')"
    by (auto simp: load_deps_def res_simps)
  then show ?thesis
    by (cases "object_content X d") (auto split: ObjectContent.splits DepList.splits)
qed (auto simp: load_deps_def)

lemma load_level_last: "load_level S ps s ch bl ms = (Ok (ch', bl', ms'), s') \<Longrightarrow> bl \<noteq> [] \<Longrightarrow> bl' \<noteq> [] \<and> last bl' = last bl"
proof (induction ps arbitrary: s ch bl ms)
  case (Cons i ps)
  from Cons.prems(1) Cons.IH [of _ _ "_ # bl"] Cons.IH [of _ ch bl] Cons.prems(2) show ?case
    by (auto split: prod.splits result.splits)
qed auto

lemma load_tree_last: "load_tree S n ps s bl ms = (Ok (bl', ms'), s') \<Longrightarrow> bl \<noteq> [] \<Longrightarrow> bl' \<noteq> [] \<and> last bl' = last bl"
proof (induction n arbitrary: ps s bl ms)
  case (Suc n)
  from Suc.prems(1) obtain ch1 bl1 ms1 s1 where "load_level S ps s [] bl ms = (Ok (ch1, bl1, ms1), s1)"
    "(if ch1 = [] then (Ok (bl1, ms1), s1) else load_tree S n ch1 s1 bl1 ms1) = (Ok (bl', ms'), s')"
    by (auto simp: load_tree.simps(2) res_simps)
  with Suc.IH [of ch1 s1 bl1 ms1] load_level_last [of S ps s "[]" bl ms ch1 bl1 ms1 s1] Suc.prems(2)
  show ?case by (auto split: if_splits)
qed simp

context repo_store
begin

text \<open>The root of a loaded object has the identifier it was loaded by.\<close>

lemma object_load_id:
  assumes "invar s" "object_load X S n i k s = (Ok ob, s')"
  shows "object_id X ob = Ok i" "obj_blocks ob \<noteq> []"
proof -
  from assms(2) obtain n' where n: "n = Suc n'" by (cases n) auto
  from assms(2) obtain bl s1 where t: "load_tree S n [i] s [] [] = (Ok (bl, []), s1)" "bl \<noteq> []"
    and ob: "obj_blocks ob = butlast bl @ [with_key k (last bl)]"
    unfolding n
    by (auto simp: object_load_Suc res_simps dest: load_deps_Ok split: if_splits)
  have "block_id X (last bl) = i"
  proof (cases rule: get_cases [OF assms(1), of i])
    case (1 b s2)
    show ?thesis
    proof (cases "rev (block_children b) = []")
      case True
      with t(1) 1 show ?thesis unfolding n by (auto simp: load_tree.simps(2))
    next
      case False
      with t(1) 1 have "load_tree S n' (rev (block_children b)) s2 [b] [] = (Ok (bl, []), s1)"
        unfolding n by (simp add: load_tree.simps(2))
      from load_tree_last [OF this] 1(3) show ?thesis by simp
    qed
  next
    case (2 s2)
    with t show ?thesis unfolding n by (simp add: load_tree.simps(2))
  qed
  then show "object_id X ob = Ok i" "obj_blocks ob \<noteq> []"
    using ob by (simp_all add: object_id_def object_root_def with_key_def)
qed

lemma load_for_graph:
  assumes "invar s"
  obtains (ok) ob s' where "object_load X S n i None s = (Ok ob, s')" "object_id X ob = (Ok i :: (_, ObjectParseError) result)"
      "dep_graph X n (\<alpha> s) i = Some (obj_deps ob)" "invar s'" "\<alpha> s' = \<alpha> s"
    | (err) e s' where "object_load X S n i None s = (Err e, s')" "dep_graph X n (\<alpha> s) i = None"
        "fst (object_load X (map_store X) n i None (\<alpha> s)) = Err e" "invar s'" "\<alpha> s' = \<alpha> s"
    | (panic) s' where "object_load X S n i None s = (Panic, s')"
        "fst (object_load X (map_store X) n i None (\<alpha> s)) = Panic"
    | (hang) s' where "object_load X S n i None s = (Hang, s')"
        "fst (object_load X (map_store X) n i None (\<alpha> s)) = Hang"
proof -
  from object_load_sim [OF assms, of n i None] obtain s' r r' where
    r: "object_load X S n i None s = (r, s')" "object_load X (map_store X) n i None (\<alpha> s) = (r', \<alpha> s)"
      "rel_result (alike_objects X) (=) r r'" "invar s'" "\<alpha> s' = \<alpha> s" by blast
  from r(3) show ?thesis
  proof (cases rule: result.rel_cases)
    case (Ok a b)
    with r object_load_id(1) [OF assms r(1) [unfolded Ok(1)]] that(1) show ?thesis
      by (simp add: dep_graph_def alike_objects_def)
  qed (use r that in \<open>simp_all add: dep_graph_def\<close>)
qed

lemma sync_deps_walked:
  assumes rec: "\<And>ob i s v ms f v' ms' s'. invar s \<Longrightarrow> \<alpha> s = m \<Longrightarrow> object_id X ob = (Ok i :: (_, ObjectParseError) result) \<Longrightarrow>
      dep_graph X n m i = Some (obj_deps ob) \<Longrightarrow> rec ob s v ms = (Ok (f, v', ms'), s') \<Longrightarrow>
      walked (dep_graph X n m) T [i] v v' \<and> invar s' \<and> \<alpha> s' = m"
    and "invar s" "\<alpha> s = m" "sync_deps rec X S n ds s f v ms = (Ok (f', v', ms'), s')"
  shows "walked (dep_graph X n m) T ds v v' \<and> invar s' \<and> \<alpha> s' = m"
  using assms(2-)
proof (induction ds arbitrary: s f v ms)
  case (Cons i ds)
  from Cons.prems(1) show ?case
  proof (cases rule: load_for_graph [of s n i])
    case (ok ob s1)
    show ?thesis
    proof (cases "i \<in> v")
      case True
      with Cons ok show ?thesis by (auto intro: walked_Cons [OF walked_skip])
    next
      case False
      with ok Cons.prems(3) obtain f1 v1 ms1 s2 where
        r: "rec ob s1 v ms = (Ok (f1, v1, ms1), s2)" "sync_deps rec X S n ds s2 (f1 \<or> f) v1 ms1 = (Ok (f', v', ms'), s')"
        by (auto simp: res_simps)
      with rec [of s1 ob i, OF ok(4) _ ok(2) _ r(1)] ok Cons.prems(2) have
        "walked (dep_graph X n m) T [i] v v1" "invar s2" "\<alpha> s2 = m" by auto
      with Cons.IH [OF _ _ r(2)] show ?thesis by (blast intro: walked_Cons)
    qed
  next
    case (err e s1)
    with Cons.prems(2,3) obtain b where "e = MissingBlocks b"
      "sync_deps rec X S n ds s1 f v (ms \<union> set b) = (Ok (f', v', ms'), s')"
      by (cases e) auto
    moreover have "walked (dep_graph X n m) T [i] v v"
      using err Cons.prems(2) by (intro walked_skip) (simp add: expandable_def)
    ultimately show ?thesis using Cons.IH [of s1] err Cons.prems(2) by (blast intro: walked_Cons)
  qed (use Cons.prems(3) in auto)
qed (simp add: walked_Nil)

lemma sync_load_branch_walked:
  assumes "invar s" "\<alpha> s = m" "object_id X ob = (Ok i :: (_, ObjectParseError) result)" "dep_graph X n m i = Some (obj_deps ob)"
    and "sync_load_branch X S n th fuel ob s v ms = (Ok (f, v', ms'), s')"
  shows "walked (dep_graph X n m) (set th) [i] v v' \<and> invar s' \<and> \<alpha> s' = m"
  using assms
proof (induction fuel arbitrary: ob i s v ms f v' ms' s')
  case (Suc fuel)
  show ?case
  proof (cases "obj_deps ob \<noteq> [] \<and> i \<notin> set th")
    case True
    with Suc.prems(3,5) have "sync_deps (sync_load_branch X S n th fuel) X S n (obj_deps ob) s False (insert i v) ms
        = (Ok (f, v', ms'), s')" by (simp add: Let_def)
    then have "walked (dep_graph X n m) (set th) (obj_deps ob) (insert i v) v' \<and> invar s' \<and> \<alpha> s' = m"
      by (rule sync_deps_walked [OF _ Suc.prems(1,2), rotated]) (rule Suc.IH)
    with True Suc.prems(4) show ?thesis by (auto intro!: walked_expand simp: expandable_def)
  next
    case False
    with Suc.prems show ?thesis
      by (auto simp: Let_def expandable_def intro!: walked_skip)
  qed
qed simp

lemma sync_heads_reach:
  assumes "invar s" "\<alpha> s = m" "sync_heads X S n fuel th hs s acc ms = (Ok (acc', ms'), s')"
  shows "acc' = acc \<union> {j. \<exists>h \<in> set hs. sync_reach (dep_graph X n m) (set th) h j} \<and> invar s' \<and> \<alpha> s' = m"
  using assms
proof (induction hs arbitrary: s acc ms)
  case (Cons i hs)
  from Cons.prems(1) show ?case
  proof (cases rule: load_for_graph [of s n i])
    case (ok ob s1)
    with Cons.prems(3) obtain f v ms1 s2 where
      r: "sync_load_branch X S n th fuel ob s1 {} ms = (Ok (f, v, ms1), s2)"
        "sync_heads X S n fuel th hs s2 (acc \<union> v) ms1 = (Ok (acc', ms'), s')"
      by (auto simp: res_simps)
    from sync_load_branch_walked [OF ok(4) _ ok(2) _ r(1)] ok Cons.prems(2) have
      "walked (dep_graph X n m) (set th) [i] {} v" "invar s2" "\<alpha> s2 = m" by auto
    with Cons.IH [OF _ _ r(2)] walked_all show ?thesis by fastforce
  qed (use Cons.prems(3) in auto)
qed auto

lemma dep_graph_dom:
  assumes "invar s" "dep_graph X n (\<alpha> s) i = Some ds"
  shows "i \<in> dom (\<alpha> s)"
proof (rule ccontr)
  assume "i \<notin> dom (\<alpha> s)"
  then have "map_get (\<alpha> s) i = (Err StorageError.NotFound, \<alpha> s)" by (simp add: domIff)
  then have "fst (object_load X (map_store X) n i None (\<alpha> s)) \<in> {Hang, Err (MissingBlocks [i])}"
    by (cases n) (simp_all add: object_load_Suc load_tree.simps(2) map_store_def del: map_get.simps)
  with assms(2) show False by (auto simp: dep_graph_def)
qed

end

section \<open>The walks end\<close>

definition loads_or_misses :: "'x externs_scheme \<Rightarrow> nat \<Rightarrow> (BlockId \<rightharpoonup> Block) \<Rightarrow> bool" where
  "loads_or_misses X n m \<longleftrightarrow> (\<forall>i. case fst (object_load X (map_store X) n i None m) of
       Ok ob \<Rightarrow> True | Err (MissingBlocks b) \<Rightarrow> True | _ \<Rightarrow> False)"

context repo_store
begin

lemma load_for_walk:
  assumes "invar s" "loads_or_misses X n (\<alpha> s)"
  obtains (ok) ob s' where "object_load X S n i None s = (Ok ob, s')"
      "object_id X ob = (Ok i :: (_, ObjectParseError) result)"
      "dep_graph X n (\<alpha> s) i = Some (obj_deps ob)" "invar s'" "\<alpha> s' = \<alpha> s"
    | (missing) b s' where "object_load X S n i None s = (Err (MissingBlocks b), s')"
        "dep_graph X n (\<alpha> s) i = None" "invar s'" "\<alpha> s' = \<alpha> s"
  using assms(1)
proof (cases rule: load_for_graph [of s n i])
  case (err e s')
  from assms(2) have "case fst (object_load X (map_store X) n i None (\<alpha> s)) of
       Ok ob \<Rightarrow> True | Err (MissingBlocks b) \<Rightarrow> True | _ \<Rightarrow> False" unfolding loads_or_misses_def by blast
  with err(3) obtain b where "e = MissingBlocks b" by (cases e) auto
  with err missing show ?thesis by blast
next
  case (panic s')
  with assms(2) spec [OF assms(2) [unfolded loads_or_misses_def], of i] show ?thesis by simp
next
  case (hang s')
  with assms(2) spec [OF assms(2) [unfolded loads_or_misses_def], of i] show ?thesis by simp
qed (rule ok)

lemma sync_deps_returns:
  assumes rec: "\<And>ob i s v ms. invar s \<Longrightarrow> \<alpha> s = m \<Longrightarrow> object_id X ob = (Ok i :: (_, ObjectParseError) result) \<Longrightarrow>
      dep_graph X n m i = Some (obj_deps ob) \<Longrightarrow> i \<notin> v \<Longrightarrow> v0 \<subseteq> v \<Longrightarrow>
      \<exists>f v' ms' s'. rec ob s v ms = (Ok (f, v', ms'), s') \<and> v \<subseteq> v' \<and> invar s' \<and> \<alpha> s' = m"
    and m: "loads_or_misses X n m"
    and s: "invar s" "\<alpha> s = m" "v0 \<subseteq> v"
  shows "\<exists>f' v' ms' s'. sync_deps rec X S n ds s f v ms = (Ok (f', v', ms'), s') \<and> v \<subseteq> v' \<and> invar s' \<and> \<alpha> s' = m"
  using s
proof (induction ds arbitrary: s f v ms)
  case (Cons i ds)
  show ?case
  proof (cases rule: load_for_walk [OF Cons.prems(1), of n i])
    case 1
    then show ?case using m Cons.prems(2) by simp
  next
    case (2 ob s1)
    show ?thesis
    proof (cases "i \<in> v")
      case False
      with rec [of s1 ob i v ms] 2 Cons.prems obtain f1 v1 ms1 s2 where
        r: "rec ob s1 v ms = (Ok (f1, v1, ms1), s2)" "v \<subseteq> v1" "invar s2" "\<alpha> s2 = m" by auto
      from r(2) Cons.prems(3) have "v0 \<subseteq> v1" by blast
      from Cons.IH [OF r(3,4) this, of "f1 \<or> f" ms1] obtain f' v' ms' s' where
        "sync_deps rec X S n ds s2 (f1 \<or> f) v1 ms1 = (Ok (f', v', ms'), s')" "v1 \<subseteq> v'" "invar s'" "\<alpha> s' = m"
        by blast
      with r 2 False show ?thesis by auto
    qed (use Cons.IH [of s1 v f ms] 2 Cons.prems in auto)
  next
    case (3 b s1)
    with Cons.IH [of s1 v f "ms \<union> set b"] Cons.prems show ?thesis by auto
  qed
qed auto

lemma sync_load_branch_returns:
  assumes m: "loads_or_misses X n m" "finite (dom m)"
    and "invar s" "\<alpha> s = m" "object_id X ob = (Ok i :: (_, ObjectParseError) result)"
      "dep_graph X n m i = Some (obj_deps ob)" "i \<notin> v" "card (dom m - v) < fuel"
  shows "\<exists>f v' ms' s'. sync_load_branch X S n th fuel ob s v ms = (Ok (f, v', ms'), s') \<and> v \<subseteq> v'
    \<and> invar s' \<and> \<alpha> s' = m"
  using assms(3-)
proof (induction fuel arbitrary: ob i s v ms)
  case (Suc fuel)
  show ?case
  proof (cases "obj_deps ob \<noteq> [] \<and> i \<notin> set th")
    case True
    have "i \<in> dom m" using dep_graph_dom Suc.prems(1,2,4) by blast
    with Suc.prems(5,6) m(2) have lt: "card (dom m - insert i v) < fuel"
      by (metis Diff_insert card_Suc_Diff1 DiffI finite_Diff less_Suc_eq_le Suc_le_eq)
    have "\<exists>f' v' ms' s'. sync_deps (sync_load_branch X S n th fuel) X S n (obj_deps ob) s False (insert i v) ms
        = (Ok (f', v', ms'), s') \<and> insert i v \<subseteq> v' \<and> invar s' \<and> \<alpha> s' = m"
    proof (rule sync_deps_returns [OF _ m(1) Suc.prems(1,2) subset_refl])
      fix ob j s w ms
      assume a: "invar s" "\<alpha> s = m" "object_id X ob = (Ok j :: (_, ObjectParseError) result)"
        "dep_graph X n m j = Some (obj_deps ob)" "j \<notin> w" "insert i v \<subseteq> w"
      have "card (dom m - w) \<le> card (dom m - insert i v)" using a(6) m(2) by (intro card_mono) auto
      with lt Suc.IH [OF a(1-5)] show "\<exists>f v' ms' s'. sync_load_branch X S n th fuel ob s w ms = (Ok (f, v', ms'), s')
          \<and> w \<subseteq> v' \<and> invar s' \<and> \<alpha> s' = m" by simp
    qed
    with True Suc.prems(3) show ?thesis by (auto simp: Let_def)
  qed (use Suc.prems in \<open>auto simp: Let_def\<close>)
qed simp

lemma sync_heads_returns:
  assumes m: "loads_or_misses X n m" "finite (dom m)" "card (dom m) < fuel"
    and "invar s" "\<alpha> s = m" "\<forall>h \<in> set hs. dep_graph X n m h \<noteq> None"
  shows "\<exists>acc' ms' s'. sync_heads X S n fuel th hs s acc ms = (Ok (acc', ms'), s') \<and> invar s' \<and> \<alpha> s' = m"
  using assms(4-)
proof (induction hs arbitrary: s acc ms)
  case (Cons i hs)
  show ?case
  proof (cases rule: load_for_walk [OF Cons.prems(1), of n i])
    case 1
    then show ?case using m Cons.prems(2) by simp
  next
    case (2 ob s1)
    with sync_load_branch_returns [OF m(1,2), of s1 ob i "{}" fuel th ms] m(3) Cons.prems(2) obtain f v ms1 s2 where
      "sync_load_branch X S n th fuel ob s1 {} ms = (Ok (f, v, ms1), s2)" "invar s2" "\<alpha> s2 = m" by auto
    with Cons.IH [of s2 "acc \<union> v" ms1] Cons.prems(3) 2 show ?thesis by simp
  qed (use Cons.prems in auto)
qed auto

lemma sync_req_returns:
  assumes m: "loads_or_misses X n (\<alpha> s)" "finite (dom (\<alpha> s))" "card (dom (\<alpha> s)) < fuel"
    and s: "invar s"
    and heads: "\<forall>h \<in> set our \<union> set their. dep_graph X n (\<alpha> s) h \<noteq> None"
  shows "\<exists>res s'. sync_req X S n fuel our their bf s = (Ok res, s') \<and> distinct res
    \<and> set res = {i. (\<exists>h \<in> set our. sync_reach (dep_graph X n (\<alpha> s)) (set their) h i)
        \<and> \<not> (\<exists>h \<in> set their. sync_reach (dep_graph X n (\<alpha> s)) {} h i) \<and> \<not> bloom_has X bf i}"
proof -
  from sync_heads_returns [OF m s refl, of our their "{}" "{}"] heads obtain o' ms s1 where
    h1: "sync_heads X S n fuel their our s {} {} = (Ok (o', ms), s1)" "invar s1" "\<alpha> s1 = \<alpha> s" by auto
  from sync_heads_returns [OF m h1(2,3), of their "[]" "{}" ms] heads obtain t ms2 s2 where
    h2: "sync_heads X S n fuel [] their s1 {} ms = (Ok (t, ms2), s2)" by auto
  from sync_heads_reach [OF s refl h1(1)]
  have o': "o' = {j. \<exists>h \<in> set our. sync_reach (dep_graph X n (\<alpha> s)) (set their) h j}" by simp
  from sync_heads_reach [OF h1(2,3) h2]
  have t: "t = {j. \<exists>h \<in> set their. sync_reach (dep_graph X n (\<alpha> s)) {} h j}" by simp
  have "i \<in> dom (\<alpha> s)" if "sync_reach (dep_graph X n (\<alpha> s)) T h i" for T h i
    using that by cases (auto simp: expandable_def dest!: dep_graph_dom [OF s] split: option.splits)
  then have "finite o'" unfolding o' by (intro finite_subset [OF _ m(2)]) blast
  with h1(1) h2 show ?thesis by (auto simp: sync_req_def o' t)
qed

end

section \<open>Synchronization over the HashMap store\<close>

text \<open>
  C4. \<^verbatim>\<open>sync_req\<close> returns, and sends exactly the right objects: those reachable from our heads
  without passing one of the peer's heads, less those reachable from the peer's heads, less those
  the peer's Bloom filter contains, each once. (\<open>sync_reach\<close> goes through objects that load and
  have dependencies: the root of the branch is neither expanded nor sent.) It holds for any graph,
  cyclic ones included, when every load answers an object or missing blocks, the heads load, and
  the recursion may go as deep as there are blocks.
\<close>

theorem sync_req_sends_difference:
  assumes "hashmap_invar X s" "loads_or_misses X n (hashmap_abs s)" "card (dom (hashmap_abs s)) < fuel"
    and "\<forall>h \<in> set our_heads \<union> set their_heads. dep_graph X n (hashmap_abs s) h \<noteq> None"
  shows "\<exists>res s'. sync_req X (hashmap_store X) n fuel our_heads their_heads their_filter s = (Ok res, s')
    \<and> distinct res
    \<and> set res = {i. (\<exists>h \<in> set our_heads. sync_reach (dep_graph X n (hashmap_abs s)) (set their_heads) h i)
        \<and> \<not> (\<exists>h \<in> set their_heads. sync_reach (dep_graph X n (hashmap_abs s)) {} h i)
        \<and> \<not> bloom_has X their_filter i}"
proof -
  have "finite (dom (hashmap_abs s))"
    by (rule finite_subset [OF _ finite_dom_map_of [of "hm_blocks s"]]) (auto simp: hashmap_abs_def)
  from hm.sync_req_returns [OF assms(2) this assms(3,1,4)] show ?thesis .
qed

text \<open>A store with a root object, a commit on it and a second commit on the first.\<close>

definition demo_node :: "u8 \<Rightarrow> ObjectId list \<Rightarrow> ObjectId \<times> Block" where
  "demo_node v ds = (demo_id v, Block.V0 \<lparr>blk_id = Some (demo_id v), blk_key = None, blk_children = [],
     blk_deps = ObjectIdList ds, blk_expiry = None, blk_content = []\<rparr>)"

definition demo_branch :: HashMapRepoStore where
  "demo_branch = \<lparr>hm_blocks = [demo_node 1 [], demo_node 2 [demo_id 1], demo_node 3 [demo_id 2]]\<rparr>"

lemma demo_id_eq [simp]: "demo_id a = demo_id b \<longleftrightarrow> a = b"
  by (simp add: demo_id_def)

lemma demo_branch_load:
  "fst (object_load X (map_store X) (Suc 0) i None (hashmap_abs demo_branch))
    = (case map_of (hm_blocks demo_branch) i of None \<Rightarrow> Err (MissingBlocks [i])
       | Some b \<Rightarrow> Ok \<lparr>obj_blocks = [b], obj_deps = (case block_deps b of ObjectIdList ds \<Rightarrow> ds | _ \<Rightarrow> [])\<rparr>)"
  by (auto simp: object_load_Suc load_tree.simps(2) map_store_def hashmap_abs_def demo_branch_def demo_node_def
      load_deps_def with_key_def)

lemma demo_branch_graph:
  "dep_graph X (Suc 0) (hashmap_abs demo_branch)
     = [demo_id 1 \<mapsto> [], demo_id 2 \<mapsto> [demo_id 1], demo_id 3 \<mapsto> [demo_id 2]]"
  by (rule ext) (simp add: dep_graph_def demo_branch_load, simp add: demo_branch_def demo_node_def)

theorem sync_req_sends_difference_witness:
  "\<exists>res s'. sync_req demo_externs (hashmap_store demo_externs) 1 4 [demo_id 3] [demo_id 2]
      \<lparr>bf_k = 1, bf_f = []\<rparr> demo_branch = (Ok res, s') \<and> set res = {demo_id 3}"
proof -
  let ?G = "dep_graph demo_externs (Suc 0) (hashmap_abs demo_branch)"
  have exp: "expandable ?G T i \<longleftrightarrow> i \<in> {demo_id 2, demo_id 3} - T" for T i
    by (auto simp: expandable_def demo_branch_graph split: if_splits)
  have G: "?G (demo_id 2) = Some [demo_id 1]" "?G (demo_id 3) = Some [demo_id 2]"
    by (simp_all add: demo_branch_graph)
  have "sync_reach ?G {demo_id 2} (demo_id 3) i \<longleftrightarrow> i = demo_id 3" for i
  proof
    show "sync_reach ?G {demo_id 2} (demo_id 3) i \<Longrightarrow> i = demo_id 3"
      by (induction rule: sync_reach.induct) (auto simp: exp G)
  qed (auto simp: exp intro: sync_reach.start)
  moreover have "\<not> sync_reach ?G {} (demo_id 2) (demo_id 3)"
  proof -
    have "sync_reach ?G {} (demo_id 2) i \<Longrightarrow> i = demo_id 2" for i
      by (induction rule: sync_reach.induct) (auto simp: exp G)
    then show ?thesis by force
  qed
  moreover have "hashmap_invar demo_externs demo_branch"
    by (simp add: hashmap_invar_def demo_branch_def demo_node_def)
  moreover have "loads_or_misses demo_externs (Suc 0) (hashmap_abs demo_branch)"
    by (simp add: loads_or_misses_def demo_branch_load split: option.split)
  moreover have "card (dom (hashmap_abs demo_branch)) < 4"
  proof -
    have "dom (hashmap_abs demo_branch) = {demo_id 1, demo_id 2, demo_id 3}"
      by (auto simp: hashmap_abs_def demo_branch_def demo_node_def split: if_splits)
    then show ?thesis by simp
  qed
  ultimately show ?thesis
    using sync_req_sends_difference [of demo_externs demo_branch "Suc 0" 4 "[demo_id 3]" "[demo_id 2]" "\<lparr>bf_k = 1, bf_f = []\<rparr>"]
    by (auto simp: demo_branch_graph bloom_has_def demo_id_def)
qed

end
