(* ===== verification/Lofire_Commit.thy ===== *)
theory Lofire_Commit
  imports Lofire_Branch
begin

text \<open>
  \<^verbatim>\<open>src/lofire/src/commit.rs\<close>, with the signing helpers of \<^verbatim>\<open>src/lofire/src/utils.rs\<close>, the errors of
  \<^verbatim>\<open>src/lofire/src/errors.rs\<close> and the constructors of \<^verbatim>\<open>src/lofire/src/repo.rs\<close>: making, signing, loading and
  verifying commits. \<^verbatim>\<open>verify_deps\<close> walks the dependencies and acknowledgements of a commit down to
  the branch definition. The properties are in \<open>Lofire_Verify\<close>.
\<close>

section \<open>Repositories\<close>

definition repositoryv0_new :: "PubKey \<Rightarrow> ObjectRef list \<Rightarrow> bool \<Rightarrow> bytes \<Rightarrow> RepositoryV0" where
  "repositoryv0_new i branches allow_ext_requests metadata =
     \<lparr>repo_id = i, repo_branches = branches, repo_allow_ext_requests = allow_ext_requests,
      repo_metadata = metadata\<rparr>"

definition repository_new :: "PubKey \<Rightarrow> ObjectRef list \<Rightarrow> bool \<Rightarrow> bytes \<Rightarrow> Repository" where
  "repository_new i branches allow_ext_requests metadata =
     Repository.V0 (repositoryv0_new i branches allow_ext_requests metadata)"

section \<open>Signatures and time\<close>

datatype LofireError = InvalidSignature | SerializationError

definition sign :: "'x externs_scheme \<Rightarrow> PrivKey \<Rightarrow> PubKey \<Rightarrow> bytes \<Rightarrow> (Sig, LofireError) result" where
  "sign X author_privkey author_pubkey content =
     (case (author_privkey, author_pubkey) of (Ed25519PrivKey sk, Ed25519PubKey pk) \<Rightarrow>
        (case ed25519_sign X sk pk content of
           None \<Rightarrow> Err LofireError.InvalidSignature
         | Some ss \<Rightarrow> Ok (Ed25519Sig ss)))"

definition verify :: "'x externs_scheme \<Rightarrow> bytes \<Rightarrow> Sig \<Rightarrow> PubKey \<Rightarrow> (unit, LofireError) result" where
  "verify X content sig pub_key =
     (case (sig, pub_key) of (Ed25519Sig ss, Ed25519PubKey pk) \<Rightarrow>
        if ed25519_verify X pk content ss then Ok () else Err LofireError.InvalidSignature)"

text \<open>
  \<^verbatim>\<open>now_timestamp\<close>, given the seconds since the Unix epoch: the subtraction panics before the
  LoFiRe epoch, \<^verbatim>\<open>try_into().unwrap()\<close> when the minutes do not fit 32 bits.
\<close>

definition now_timestamp :: "u64 \<Rightarrow> (Timestamp, 'e) result" where
  "now_timestamp unix_secs =
     (if unix_secs < EPOCH_AS_UNIX_TIMESTAMP then Panic
      else let mins = (unix_secs - EPOCH_AS_UNIX_TIMESTAMP) div 60
           in if unat mins < 2 ^ 32 then Ok (ucast mins) else Panic)"

section \<open>Commits\<close>

datatype CommitLoadError = MissingBlocks "BlockId list" | ObjectParseError | DeserializeError

datatype CommitVerifyError =
    InvalidSignature
  | PermissionDenied
  | BodyLoadError CommitLoadError
  | DepLoadError CommitLoadError

primrec to_type :: "CommitBody \<Rightarrow> CommitType" where
  "to_type (CommitBody.Ack _) = CommitType.Ack"
| "to_type (CommitBody.AddBranch _) = CommitType.AddBranch"
| "to_type (CommitBody.AddMembers _) = CommitType.AddMembers"
| "to_type (CommitBody.Branch _) = CommitType.Branch"
| "to_type (CommitBody.EndOfBranch _) = CommitType.EndOfBranch"
| "to_type (CommitBody.RemoveBranch _) = CommitType.RemoveBranch"
| "to_type (CommitBody.Repository _) = CommitType.Repository"
| "to_type (CommitBody.Snapshot _) = CommitType.Snapshot"
| "to_type (CommitBody.Transaction _) = CommitType.Transaction"

definition commitv0_new ::
  "'x externs_scheme \<Rightarrow> PrivKey \<Rightarrow> PubKey \<Rightarrow> u32 \<Rightarrow> ObjectRef \<Rightarrow> ObjectRef list \<Rightarrow> ObjectRef list
   \<Rightarrow> ObjectRef list \<Rightarrow> bytes \<Rightarrow> ObjectRef \<Rightarrow> Timestamp option \<Rightarrow> (CommitV0, unit) result" where
  "commitv0_new X author_privkey author_pubkey seq branch deps acks rfs metadata body expiry =
     (let content = \<lparr>cc_author = author_pubkey, cc_seq = seq, cc_branch = branch, cc_deps = deps,
            cc_acks = acks, cc_refs = rfs, cc_metadata = metadata, cc_body = body, cc_expiry = expiry\<rparr>;
          content_ser = ser_commit_content X content
      in case (author_privkey, author_pubkey) of (Ed25519PrivKey sk, Ed25519PubKey pk) \<Rightarrow>
        (case ed25519_sign X sk pk content_ser of
           None \<Rightarrow> Err ()
         | Some ss \<Rightarrow> Ok \<lparr>com_id = None, com_key = None, com_content = content, com_sig = Ed25519Sig ss\<rparr>))"

definition commit_new ::
  "'x externs_scheme \<Rightarrow> PrivKey \<Rightarrow> PubKey \<Rightarrow> u32 \<Rightarrow> ObjectRef \<Rightarrow> ObjectRef list \<Rightarrow> ObjectRef list
   \<Rightarrow> ObjectRef list \<Rightarrow> bytes \<Rightarrow> ObjectRef \<Rightarrow> Timestamp option \<Rightarrow> (Commit, unit) result" where
  "commit_new X author_privkey author_pubkey seq branch deps acks rfs metadata body expiry =
     and_then (commitv0_new X author_privkey author_pubkey seq branch deps acks rfs metadata body expiry)
       (\<lambda>c. Ok (Commit.V0 c))"

fun commit_id :: "Commit \<Rightarrow> ObjectId option" where
  "commit_id (Commit.V0 c) = com_id c"

fun commit_set_id :: "ObjectId \<Rightarrow> Commit \<Rightarrow> Commit" where
  "commit_set_id i (Commit.V0 c) = Commit.V0 (c\<lparr>com_id := Some i\<rparr>)"

fun commit_key :: "Commit \<Rightarrow> SymKey option" where
  "commit_key (Commit.V0 c) = com_key c"

fun commit_set_key :: "SymKey \<Rightarrow> Commit \<Rightarrow> Commit" where
  "commit_set_key k (Commit.V0 c) = Commit.V0 (c\<lparr>com_key := Some k\<rparr>)"

fun commit_sig :: "Commit \<Rightarrow> Sig" where
  "commit_sig (Commit.V0 c) = com_sig c"

fun commit_content :: "Commit \<Rightarrow> CommitContentV0" where
  "commit_content (Commit.V0 c) = com_content c"

fun commit_acks :: "Commit \<Rightarrow> ObjectRef list" where
  "commit_acks (Commit.V0 c) = cc_acks (com_content c)"

fun commit_deps :: "Commit \<Rightarrow> ObjectRef list" where
  "commit_deps (Commit.V0 c) = cc_deps (com_content c)"

fun deps_acks :: "Commit \<Rightarrow> ObjectRef list" where
  "deps_acks (Commit.V0 c) = cc_acks (com_content c) @ cc_deps (com_content c)"

fun commit_seq :: "Commit \<Rightarrow> u32" where
  "commit_seq (Commit.V0 c) = cc_seq (com_content c)"

text \<open>\<^verbatim>\<open>Commit::load\<close> and \<^verbatim>\<open>load_body\<close>; \<open>n\<close> is the fuel of the object load.\<close>

definition commit_load ::
  "'x externs_scheme \<Rightarrow> 's RepoStore \<Rightarrow> nat \<Rightarrow> ObjectRef \<Rightarrow> 's \<Rightarrow> (Commit, CommitLoadError, 's) op" where
  "commit_load X S n commit_ref st =
     (case object_load X S n (ref_id commit_ref) (Some (ref_key commit_ref)) st of
        (Ok obj, st) \<Rightarrow>
          (and_then (map_err (\<lambda>_. CommitLoadError.ObjectParseError) (object_content X obj)) (\<lambda>content.
             case content of
               ObjectContent.Commit c \<Rightarrow> Ok (commit_set_key (ref_key commit_ref) (commit_set_id (ref_id commit_ref) c))
             | _ \<Rightarrow> Err DeserializeError), st)
      | (Err (ObjectParseError.MissingBlocks missing), st) \<Rightarrow> (Err (CommitLoadError.MissingBlocks missing), st)
      | (Err _, st) \<Rightarrow> (Err CommitLoadError.ObjectParseError, st)
      | (Panic, st) \<Rightarrow> (Panic, st)
      | (Hang, st) \<Rightarrow> (Hang, st))"

fun load_error :: "ObjectParseError \<Rightarrow> CommitLoadError" where
  "load_error (ObjectParseError.MissingBlocks missing) = CommitLoadError.MissingBlocks missing"
| "load_error _ = CommitLoadError.ObjectParseError"

definition load_body ::
  "'x externs_scheme \<Rightarrow> 's RepoStore \<Rightarrow> nat \<Rightarrow> Commit \<Rightarrow> 's \<Rightarrow> (CommitBody, CommitLoadError, 's) op" where
  "load_body X S n commit st =
     (let body = cc_body (commit_content commit) in
      case object_load X S n (ref_id body) (Some (ref_key body)) st of (r, st) \<Rightarrow>
        (and_then (map_err load_error r) (\<lambda>obj.
           and_then (map_err (\<lambda>_. CommitLoadError.ObjectParseError) (object_content X obj)) (\<lambda>content.
             case content of
               ObjectContent.CommitBody body \<Rightarrow> Ok body
             | _ \<Rightarrow> Err DeserializeError)), st))"

fun verify_sig :: "'x externs_scheme \<Rightarrow> Commit \<Rightarrow> (unit, unit) result" where
  "verify_sig X (Commit.V0 c) =
     (case (cc_author (com_content c), com_sig c) of (Ed25519PubKey pubkey, Ed25519Sig ss) \<Rightarrow>
        if ed25519_verify X pubkey (ser_commit_content X (com_content c)) ss then Ok () else Err ())"

definition verify_perm :: "Commit \<Rightarrow> CommitBody \<Rightarrow> Branch \<Rightarrow> (unit, CommitVerifyError) result" where
  "verify_perm commit body branch =
     (case get_member branch (cc_author (commit_content commit)) of
        Some m \<Rightarrow> if memberv0_has_perm m (to_type body) then Ok () else Err PermissionDenied
      | None \<Rightarrow> Err PermissionDenied)"

section \<open>Dependencies\<close>

text \<open>The loop over \<^verbatim>\<open>commit.deps_acks()\<close>, given the recursive call, and \<^verbatim>\<open>load_branch\<close>.\<close>

fun verify_deps_loop ::
  "(Commit \<Rightarrow> 's \<Rightarrow> id_set \<Rightarrow> id_set \<Rightarrow> (id_set \<times> id_set, CommitLoadError, 's) op) \<Rightarrow>
   'x externs_scheme \<Rightarrow> 's RepoStore \<Rightarrow> nat \<Rightarrow> ObjectRef list \<Rightarrow> 's \<Rightarrow> id_set \<Rightarrow> id_set
   \<Rightarrow> (id_set \<times> id_set, CommitLoadError, 's) op" where
  "verify_deps_loop rec X S n [] st visited missing = (Ok (visited, missing), st)"
| "verify_deps_loop rec X S n (dep # deps) st visited missing =
     (case commit_load X S n dep st of
        (Ok c, st) \<Rightarrow> op_then (rec c st visited missing)
          (\<lambda>(visited, missing) st. verify_deps_loop rec X S n deps st visited missing)
      | (Err (CommitLoadError.MissingBlocks m), st) \<Rightarrow>
          verify_deps_loop rec X S n deps st visited (missing \<union> set m)
      | (Err e, st) \<Rightarrow> (Err e, st)
      | (Panic, st) \<Rightarrow> (Panic, st)
      | (Hang, st) \<Rightarrow> (Hang, st))"

text \<open>The part of \<^verbatim>\<open>load_branch\<close> after the check of the visited set.\<close>

definition verify_deps_visit ::
  "(Commit \<Rightarrow> 's \<Rightarrow> id_set \<Rightarrow> id_set \<Rightarrow> (id_set \<times> id_set, CommitLoadError, 's) op) \<Rightarrow>
   'x externs_scheme \<Rightarrow> 's RepoStore \<Rightarrow> nat \<Rightarrow> Commit \<Rightarrow> 's \<Rightarrow> id_set \<Rightarrow> id_set
   \<Rightarrow> (id_set \<times> id_set, CommitLoadError, 's) op" where
  "verify_deps_visit rec X S n commit st visited missing =
     (case load_body X S n commit st of
        (Ok body, st) \<Rightarrow>
          if to_type body = CommitType.Branch then (Ok (visited, missing), st)
          else verify_deps_loop rec X S n (deps_acks commit) st visited missing
      | (Err (CommitLoadError.MissingBlocks m), st) \<Rightarrow>
          verify_deps_loop rec X S n (deps_acks commit) st visited (missing \<union> set m)
      | (Err e, st) \<Rightarrow> (Err e, st)
      | (Panic, st) \<Rightarrow> (Panic, st)
      | (Hang, st) \<Rightarrow> (Hang, st))"

fun verify_load_branch ::
  "'x externs_scheme \<Rightarrow> 's RepoStore \<Rightarrow> nat \<Rightarrow> nat \<Rightarrow> Commit \<Rightarrow> 's \<Rightarrow> id_set \<Rightarrow> id_set
   \<Rightarrow> (id_set \<times> id_set, CommitLoadError, 's) op" where
  "verify_load_branch X S n 0 commit st visited missing = (Hang, st)"
| "verify_load_branch X S n (Suc fuel) commit st visited missing =
     (case commit_id commit of
        Some i \<Rightarrow>
          if i \<in> visited then (Ok (visited, missing), st)
          else verify_deps_visit (\<lambda>c st v m. verify_load_branch X S n fuel c st v m)
                 X S n commit st (insert i visited) missing
      | None \<Rightarrow> verify_deps_visit (\<lambda>c st v m. verify_load_branch X S n fuel c st v m)
                 X S n commit st visited missing)"

definition verify_deps ::
  "'x externs_scheme \<Rightarrow> 's RepoStore \<Rightarrow> nat \<Rightarrow> nat \<Rightarrow> Commit \<Rightarrow> 's \<Rightarrow> (ObjectId list, CommitLoadError, 's) op" where
  "verify_deps X S n fuel commit st =
     op_then (verify_load_branch X S n fuel commit st {} {}) (\<lambda>(visited, missing) st.
       if missing \<noteq> {} then (Err (CommitLoadError.MissingBlocks (sorted_list_of_set missing)), st)
       else (Ok (sorted_list_of_set visited), st))"

text \<open>\<^verbatim>\<open>Commit::verify\<close>: signature, body, permission, dependencies, in this order.\<close>

definition map_op_err :: "('e \<Rightarrow> 'f) \<Rightarrow> ('a, 'e, 's) op \<Rightarrow> ('a, 'f, 's) op" where
  "map_op_err g p = (map_err g (fst p), snd p)"

lemma map_op_err_eq_Ok_iff [res_simps]: "map_op_err g p = (Ok x, s) \<longleftrightarrow> p = (Ok x, s)"
  by (cases p) (simp add: map_op_err_def res_simps)

definition commit_verify ::
  "'x externs_scheme \<Rightarrow> 's RepoStore \<Rightarrow> nat \<Rightarrow> nat \<Rightarrow> Commit \<Rightarrow> Branch \<Rightarrow> 's \<Rightarrow> (unit, CommitVerifyError, 's) op" where
  "commit_verify X S n fuel commit branch st =
     op_then (map_err (\<lambda>_. CommitVerifyError.InvalidSignature) (verify_sig X commit), st) (\<lambda>_ st.
       op_then (map_op_err BodyLoadError (load_body X S n commit st)) (\<lambda>body st.
         op_then (verify_perm commit body branch, st) (\<lambda>_ st.
           op_then (map_op_err DepLoadError (verify_deps X S n fuel commit st)) (\<lambda>_ st. (Ok (), st)))))"

end
