(* ===== verification/Lofire_Net.thy ===== *)
theory Lofire_Net
  imports Lofire_Net_Types Lofire_Commit
begin

text \<open>
  The accessors of the network messages (\<^verbatim>\<open>src/lofire-net/src/types.rs\<close>) and the protocol errors
  with their wire codes and conversions (\<^verbatim>\<open>src/lofire-net/src/errors.rs\<close>). A function is named
  after its type and method, \<^verbatim>\<open>BlockGet::id\<close> being \<open>block_get_id\<close>.
\<close>

section \<open>Accessors\<close>

fun branch_sync_req_heads :: "BranchSyncReq \<Rightarrow> ObjectId list" where
  "branch_sync_req_heads (BranchSyncReq.V0 o') = bsy_heads o'"

fun branch_sync_req_known_heads :: "BranchSyncReq \<Rightarrow> ObjectId list" where
  "branch_sync_req_known_heads (BranchSyncReq.V0 o') = bsy_known_heads o'"

fun branch_sync_req_known_commits :: "BranchSyncReq \<Rightarrow> BloomFilter" where
  "branch_sync_req_known_commits (BranchSyncReq.V0 o') = bsy_known_commits o'"

fun peer_advert_version :: "PeerAdvert \<Rightarrow> u32" where
  "peer_advert_version (PeerAdvert.V0 o') = pac_version (pad_content o')"

fun peer_advert_peer :: "PeerAdvert \<Rightarrow> PeerId" where
  "peer_advert_peer (PeerAdvert.V0 o') = pac_peer (pad_content o')"

fun add_user_content_v0 :: "AddUser \<Rightarrow> AddUserContentV0" where
  "add_user_content_v0 (AddUser.V0 o') = au_content o'"

fun add_user_sig :: "AddUser \<Rightarrow> Sig" where
  "add_user_sig (AddUser.V0 o') = au_sig o'"

fun add_user_user :: "AddUser \<Rightarrow> PubKey" where
  "add_user_user (AddUser.V0 o') = auc_user (au_content o')"

fun del_user_content_v0 :: "DelUser \<Rightarrow> DelUserContentV0" where
  "del_user_content_v0 (DelUser.V0 o') = du_content o'"

fun del_user_sig :: "DelUser \<Rightarrow> Sig" where
  "del_user_sig (DelUser.V0 o') = du_sig o'"

fun del_user_user :: "DelUser \<Rightarrow> PubKey" where
  "del_user_user (DelUser.V0 o') = duc_user (du_content o')"

fun add_client_content_v0 :: "AddClient \<Rightarrow> AddClientContentV0" where
  "add_client_content_v0 (AddClient.V0 o') = ac_content o'"

fun add_client_sig :: "AddClient \<Rightarrow> Sig" where
  "add_client_sig (AddClient.V0 o') = ac_sig o'"

fun add_client_client :: "AddClient \<Rightarrow> PubKey" where
  "add_client_client (AddClient.V0 o') = acc_client (ac_content o')"

fun del_client_content_v0 :: "DelClient \<Rightarrow> DelClientContentV0" where
  "del_client_content_v0 (DelClient.V0 o') = dc_content o'"

fun del_client_sig :: "DelClient \<Rightarrow> Sig" where
  "del_client_sig (DelClient.V0 o') = dc_sig o'"

fun del_client_client :: "DelClient \<Rightarrow> PubKey" where
  "del_client_client (DelClient.V0 o') = dcc_client (dc_content o')"

fun broker_request_id :: "BrokerRequest \<Rightarrow> u64" where
  "broker_request_id (BrokerRequest.V0 o') = brq_id o'"

fun broker_request_content_v0 :: "BrokerRequest \<Rightarrow> BrokerRequestContentV0" where
  "broker_request_content_v0 (BrokerRequest.V0 o') = brq_content o'"

fun broker_response_id :: "BrokerResponse \<Rightarrow> u64" where
  "broker_response_id (BrokerResponse.V0 o') = brs_id o'"

fun broker_response_result :: "BrokerResponse \<Rightarrow> u16" where
  "broker_response_result (BrokerResponse.V0 o') = brs_result o'"

fun overlay_join_repo_pubkey :: "OverlayJoin \<Rightarrow> PubKey option" where
  "overlay_join_repo_pubkey (OverlayJoin.V0 o') = oj_repo_pubkey o'"

fun overlay_join_secret :: "OverlayJoin \<Rightarrow> SymKey" where
  "overlay_join_secret (OverlayJoin.V0 o') = oj_secret o'"

fun overlay_join_peers :: "OverlayJoin \<Rightarrow> PeerAdvert list" where
  "overlay_join_peers (OverlayJoin.V0 o') = oj_peers o'"

fun block_get_id :: "BlockGet \<Rightarrow> BlockId" where
  "block_get_id (BlockGet.V0 o') = bg_id o'"

fun block_get_include_children :: "BlockGet \<Rightarrow> bool" where
  "block_get_include_children (BlockGet.V0 o') = bg_include_children o'"

fun block_get_topic :: "BlockGet \<Rightarrow> PubKey option" where
  "block_get_topic (BlockGet.V0 o') = bg_topic o'"

fun object_pin_id :: "ObjectPin \<Rightarrow> ObjectId" where
  "object_pin_id (ObjectPin.V0 o') = opn_id o'"

fun object_unpin_id :: "ObjectUnpin \<Rightarrow> ObjectId" where
  "object_unpin_id (ObjectUnpin.V0 o') = oun_id o'"

fun object_copy_id :: "ObjectCopy \<Rightarrow> ObjectId" where
  "object_copy_id (ObjectCopy.V0 o') = ocp_id o'"

fun object_copy_expiry :: "ObjectCopy \<Rightarrow> Timestamp option" where
  "object_copy_expiry (ObjectCopy.V0 o') = ocp_expiry o'"

fun object_del_id :: "ObjectDel \<Rightarrow> ObjectId" where
  "object_del_id (ObjectDel.V0 o') = odl_id o'"

fun broker_overlay_request_id :: "BrokerOverlayRequest \<Rightarrow> u64" where
  "broker_overlay_request_id (BrokerOverlayRequest.V0 o') = borq_id o'"

fun broker_overlay_request_content_v0 :: "BrokerOverlayRequest \<Rightarrow> BrokerOverlayRequestContentV0" where
  "broker_overlay_request_content_v0 (BrokerOverlayRequest.V0 o') = borq_content o'"

fun broker_overlay_response_id :: "BrokerOverlayResponse \<Rightarrow> u64" where
  "broker_overlay_response_id (BrokerOverlayResponse.V0 o') = bors_id o'"

fun broker_overlay_response_result :: "BrokerOverlayResponse \<Rightarrow> u16" where
  "broker_overlay_response_result (BrokerOverlayResponse.V0 o') = bors_result o'"

fun broker_overlay_message_content_v0 :: "BrokerOverlayMessage \<Rightarrow> BrokerOverlayMessageContentV0" where
  "broker_overlay_message_content_v0 (BrokerOverlayMessage.V0 o') = bom_content o'"

fun broker_overlay_message_overlay_id :: "BrokerOverlayMessage \<Rightarrow> OverlayId" where
  "broker_overlay_message_overlay_id (BrokerOverlayMessage.V0 o') = bom_overlay o'"

fun server_hello_nonce :: "ServerHello \<Rightarrow> bytes" where
  "server_hello_nonce (ServerHello.V0 o') = sh_nonce o'"

fun client_auth_content_v0 :: "ClientAuth \<Rightarrow> ClientAuthContentV0" where
  "client_auth_content_v0 (ClientAuth.V0 o') = ca_content o'"

fun client_auth_sig :: "ClientAuth \<Rightarrow> Sig" where
  "client_auth_sig (ClientAuth.V0 o') = ca_sig o'"

fun client_auth_user :: "ClientAuth \<Rightarrow> PubKey" where
  "client_auth_user (ClientAuth.V0 o') = cac_user (ca_content o')"

fun client_auth_client :: "ClientAuth \<Rightarrow> PubKey" where
  "client_auth_client (ClientAuth.V0 o') = cac_client (ca_content o')"

fun client_auth_nonce :: "ClientAuth \<Rightarrow> bytes" where
  "client_auth_nonce (ClientAuth.V0 o') = cac_nonce (ca_content o')"

fun auth_result_result :: "AuthResult \<Rightarrow> u16" where
  "auth_result_result (AuthResult.V0 o') = ar_result o'"

fun auth_result_metadata :: "AuthResult \<Rightarrow> bytes" where
  "auth_result_metadata (AuthResult.V0 o') = ar_metadata o'"

fun repo_link_id :: "RepoLink \<Rightarrow> PubKey" where
  "repo_link_id (RepoLink.V0 o') = rl_id o'"

fun repo_link_secret :: "RepoLink \<Rightarrow> SymKey" where
  "repo_link_secret (RepoLink.V0 o') = rl_secret o'"

fun repo_link_peers :: "RepoLink \<Rightarrow> PeerAdvert list" where
  "repo_link_peers (RepoLink.V0 o') = rl_peers o'"

text \<open>\<^verbatim>\<open>BlockPut::block\<close>.\<close>

fun block_put_block :: "BlockPut \<Rightarrow> Block" where
  "block_put_block (BlockPut.V0 o') = o'"

section \<open>Accessors that panic\<close>

text \<open>The \<^verbatim>\<open>panic!\<close> calls are the outcome \<^const>\<open>Panic\<close>.\<close>

fun broker_overlay_response_block :: "BrokerOverlayResponse \<Rightarrow> (Block option, 'e) result" where
  "broker_overlay_response_block (BrokerOverlayResponse.V0 o') =
     (case bors_content o' of
        Some (BrokerOverlayResponseContentV0.Block b) \<Rightarrow> Ok (Some b)
      | Some _ \<Rightarrow> Panic
      | None \<Rightarrow> Ok None)"

fun broker_overlay_response_object_id :: "BrokerOverlayResponse \<Rightarrow> (ObjectId, 'e) result" where
  "broker_overlay_response_object_id (BrokerOverlayResponse.V0 o') =
     (case bors_content o' of
        Some (BrokerOverlayResponseContentV0.ObjectId i) \<Rightarrow> Ok i
      | Some _ \<Rightarrow> Panic
      | None \<Rightarrow> Panic)"

fun broker_overlay_message_overlay_request :: "BrokerOverlayMessage \<Rightarrow> (BrokerOverlayRequest, 'e) result" where
  "broker_overlay_message_overlay_request (BrokerOverlayMessage.V0 o') =
     (case bom_content o' of
        BrokerOverlayMessageContentV0.BrokerOverlayRequest r \<Rightarrow> Ok r
      | _ \<Rightarrow> Panic)"

fun broker_overlay_message_is_request :: "BrokerOverlayMessage \<Rightarrow> bool" where
  "broker_overlay_message_is_request (BrokerOverlayMessage.V0 o') =
     (case bom_content o' of BrokerOverlayMessageContentV0.BrokerOverlayRequest _ \<Rightarrow> True | _ \<Rightarrow> False)"

fun broker_overlay_message_is_response :: "BrokerOverlayMessage \<Rightarrow> bool" where
  "broker_overlay_message_is_response (BrokerOverlayMessage.V0 o') =
     (case bom_content o' of BrokerOverlayMessageContentV0.BrokerOverlayResponse _ \<Rightarrow> True | _ \<Rightarrow> False)"

fun broker_overlay_message_id :: "BrokerOverlayMessage \<Rightarrow> (u64, 'e) result" where
  "broker_overlay_message_id (BrokerOverlayMessage.V0 o') =
     (case bom_content o' of
        BrokerOverlayMessageContentV0.BrokerOverlayResponse r \<Rightarrow> Ok (broker_overlay_response_id r)
      | BrokerOverlayMessageContentV0.BrokerOverlayRequest r \<Rightarrow> Ok (broker_overlay_request_id r)
      | BrokerOverlayMessageContentV0.Event _ \<Rightarrow> Panic)"

fun broker_overlay_message_result :: "BrokerOverlayMessage \<Rightarrow> (u16, 'e) result" where
  "broker_overlay_message_result (BrokerOverlayMessage.V0 o') =
     (case bom_content o' of
        BrokerOverlayMessageContentV0.BrokerOverlayResponse r \<Rightarrow> Ok (broker_overlay_response_result r)
      | _ \<Rightarrow> Panic)"

fun broker_overlay_message_block :: "BrokerOverlayMessage \<Rightarrow> (Block option, 'e) result" where
  "broker_overlay_message_block (BrokerOverlayMessage.V0 o') =
     (case bom_content o' of
        BrokerOverlayMessageContentV0.BrokerOverlayResponse r \<Rightarrow> broker_overlay_response_block r
      | _ \<Rightarrow> Panic)"

fun broker_overlay_message_object_id :: "BrokerOverlayMessage \<Rightarrow> (ObjectId, 'e) result" where
  "broker_overlay_message_object_id (BrokerOverlayMessage.V0 o') =
     (case bom_content o' of
        BrokerOverlayMessageContentV0.BrokerOverlayResponse r \<Rightarrow> broker_overlay_response_object_id r
      | _ \<Rightarrow> Panic)"

fun is_close :: "BrokerMessage \<Rightarrow> bool" where
  "is_close (BrokerMessage.V0 _) = False"
| "is_close BrokerMessage.Close = True"

fun broker_message_content :: "BrokerMessage \<Rightarrow> (BrokerMessageContentV0, 'e) result" where
  "broker_message_content (BrokerMessage.V0 o') = Ok (bm_content o')"
| "broker_message_content BrokerMessage.Close = Panic"

fun is_request :: "BrokerMessage \<Rightarrow> (bool, 'e) result" where
  "is_request (BrokerMessage.V0 o') =
     (case bm_content o' of
        BrokerMessageContentV0.BrokerOverlayMessage p \<Rightarrow> Ok (broker_overlay_message_is_request p)
      | BrokerMessageContentV0.BrokerResponse _ \<Rightarrow> Ok False
      | BrokerMessageContentV0.BrokerRequest _ \<Rightarrow> Ok True)"
| "is_request BrokerMessage.Close = Panic"

fun is_response :: "BrokerMessage \<Rightarrow> (bool, 'e) result" where
  "is_response (BrokerMessage.V0 o') =
     (case bm_content o' of
        BrokerMessageContentV0.BrokerOverlayMessage p \<Rightarrow> Ok (broker_overlay_message_is_response p)
      | BrokerMessageContentV0.BrokerResponse _ \<Rightarrow> Ok True
      | BrokerMessageContentV0.BrokerRequest _ \<Rightarrow> Ok False)"
| "is_response BrokerMessage.Close = Panic"

fun broker_message_id :: "BrokerMessage \<Rightarrow> (u64, 'e) result" where
  "broker_message_id (BrokerMessage.V0 o') =
     (case bm_content o' of
        BrokerMessageContentV0.BrokerOverlayMessage p \<Rightarrow> broker_overlay_message_id p
      | BrokerMessageContentV0.BrokerResponse r \<Rightarrow> Ok (broker_response_id r)
      | BrokerMessageContentV0.BrokerRequest r \<Rightarrow> Ok (broker_request_id r))"
| "broker_message_id BrokerMessage.Close = Panic"

fun broker_message_result :: "BrokerMessage \<Rightarrow> (u16, 'e) result" where
  "broker_message_result (BrokerMessage.V0 o') =
     (case bm_content o' of
        BrokerMessageContentV0.BrokerOverlayMessage p \<Rightarrow> broker_overlay_message_result p
      | BrokerMessageContentV0.BrokerResponse r \<Rightarrow> Ok (broker_response_result r)
      | BrokerMessageContentV0.BrokerRequest _ \<Rightarrow> Panic)"
| "broker_message_result BrokerMessage.Close = Panic"

fun is_overlay :: "BrokerMessage \<Rightarrow> (bool, 'e) result" where
  "is_overlay (BrokerMessage.V0 o') =
     (case bm_content o' of
        BrokerMessageContentV0.BrokerOverlayMessage _ \<Rightarrow> Ok True
      | BrokerMessageContentV0.BrokerResponse _ \<Rightarrow> Ok False
      | BrokerMessageContentV0.BrokerRequest _ \<Rightarrow> Ok False)"
| "is_overlay BrokerMessage.Close = Panic"

fun response_block :: "BrokerMessage \<Rightarrow> (Block option, 'e) result" where
  "response_block (BrokerMessage.V0 o') =
     (case bm_content o' of
        BrokerMessageContentV0.BrokerOverlayMessage p \<Rightarrow> broker_overlay_message_block p
      | BrokerMessageContentV0.BrokerResponse _ \<Rightarrow> Panic
      | BrokerMessageContentV0.BrokerRequest _ \<Rightarrow> Panic)"
| "response_block BrokerMessage.Close = Panic"

fun response_object_id :: "BrokerMessage \<Rightarrow> (ObjectId, 'e) result" where
  "response_object_id (BrokerMessage.V0 o') =
     (case bm_content o' of
        BrokerMessageContentV0.BrokerOverlayMessage p \<Rightarrow> broker_overlay_message_object_id p
      | BrokerMessageContentV0.BrokerResponse _ \<Rightarrow> Panic
      | BrokerMessageContentV0.BrokerRequest _ \<Rightarrow> Panic)"
| "response_object_id BrokerMessage.Close = Panic"

section \<open>Protocol errors\<close>

text \<open>\<^verbatim>\<open>#[repr(u16)]\<close>: the discriminants count from 1, in the order of the declaration.\<close>

datatype ProtocolError =
    WriteError
  | ActorError
  | InvalidState
  | SignatureError
  | InvalidSignature
  | SerializationError
  | PartialContent
  | AccessDenied
  | OverlayNotJoined
  | OverlayNotFound
  | BrokerError
  | NotFound
  | EndOfStream
  | StoreError
  | MissingBlocks
  | ObjectParseError
  | InvalidValue
  | UserAlreadyExists
  | RepoIdRequired
  | Closing

definition protocol_errors :: "ProtocolError list" where
  "protocol_errors = [WriteError, ActorError, InvalidState, SignatureError, InvalidSignature,
     SerializationError, PartialContent, AccessDenied, OverlayNotJoined, OverlayNotFound, BrokerError,
     ProtocolError.NotFound, EndOfStream, StoreError, MissingBlocks, ObjectParseError, InvalidValue,
     UserAlreadyExists, RepoIdRequired, Closing]"

text \<open>\<^verbatim>\<open>IntoPrimitive\<close> and \<^verbatim>\<open>TryFromPrimitive\<close> of num_enum.\<close>

primrec error_code :: "ProtocolError \<Rightarrow> u16" where
  "error_code WriteError = 1"
| "error_code ActorError = 2"
| "error_code InvalidState = 3"
| "error_code SignatureError = 4"
| "error_code InvalidSignature = 5"
| "error_code SerializationError = 6"
| "error_code PartialContent = 7"
| "error_code AccessDenied = 8"
| "error_code OverlayNotJoined = 9"
| "error_code OverlayNotFound = 10"
| "error_code BrokerError = 11"
| "error_code ProtocolError.NotFound = 12"
| "error_code EndOfStream = 13"
| "error_code StoreError = 14"
| "error_code MissingBlocks = 15"
| "error_code ObjectParseError = 16"
| "error_code InvalidValue = 17"
| "error_code UserAlreadyExists = 18"
| "error_code RepoIdRequired = 19"
| "error_code Closing = 20"

definition try_from_code :: "u16 \<Rightarrow> ProtocolError option" where
  "try_from_code c = List.find (\<lambda>e. error_code e = c) protocol_errors"

definition is_stream :: "ProtocolError \<Rightarrow> bool" where
  "is_stream e \<longleftrightarrow> e = PartialContent \<or> e = EndOfStream"

text \<open>The \<^verbatim>\<open>From\<close> instances of \<^verbatim>\<open>ProtocolError\<close>.\<close>

primrec from_lofire_error :: "LofireError \<Rightarrow> ProtocolError" where
  "from_lofire_error LofireError.InvalidSignature = InvalidSignature"
| "from_lofire_error LofireError.SerializationError = SerializationError"

definition from_object_parse_error :: "ObjectParseError \<Rightarrow> ProtocolError" where
  "from_object_parse_error e = ObjectParseError"

fun from_storage_error :: "StorageError \<Rightarrow> ProtocolError" where
  "from_storage_error StorageError.NotFound = ProtocolError.NotFound"
| "from_storage_error StorageError.InvalidValue = InvalidValue"
| "from_storage_error _ = StoreError"

section \<open>Reading a response\<close>

text \<open>\<^verbatim>\<open>ProtocolError::try_from(err).unwrap()\<close>.\<close>

definition code_error :: "u16 \<Rightarrow> (ProtocolError, 'e) result" where
  "code_error c = unwrap (try_from_code c)"

text \<open>\<^verbatim>\<open>From<BrokerMessage> for Result<(), ProtocolError>\<close>, and for \<^verbatim>\<open>ObjectId\<close>.\<close>

definition unit_of_message :: "BrokerMessage \<Rightarrow> (unit, ProtocolError) result" where
  "unit_of_message msg =
     and_then (is_response msg) (\<lambda>resp. if \<not> resp then Panic
       else and_then (broker_message_result msg) (\<lambda>res.
         if res = 0 then Ok () else and_then (code_error res) Err))"

definition object_id_of_message :: "BrokerMessage \<Rightarrow> (ObjectId, ProtocolError) result" where
  "object_id_of_message msg =
     and_then (is_response msg) (\<lambda>resp. if \<not> resp then Panic
       else and_then (broker_message_result msg) (\<lambda>res.
         if res = 0 then response_object_id msg else and_then (code_error res) Err))"

text \<open>\<^verbatim>\<open>Result<Option<u16>, ProtocolError>\<close> and \<^verbatim>\<open>Result<Option<Block>, ProtocolError>\<close>.\<close>

definition stream_result :: "u16 \<Rightarrow> (bool, 'e) result" where
  "stream_result res = (if res = 0 then Ok True else and_then (code_error res) (\<lambda>e. Ok (is_stream e)))"

definition option_code_of_message :: "BrokerMessage \<Rightarrow> (u16 option, ProtocolError) result" where
  "option_code_of_message msg =
     and_then (is_response msg) (\<lambda>resp. if \<not> resp then Panic
       else and_then (broker_message_result msg) (\<lambda>res.
         and_then (stream_result res) (\<lambda>ok.
           if ok then and_then (is_overlay msg) (\<lambda>ov.
             if ov then and_then (response_block msg) (\<lambda>b. case b of Some _ \<Rightarrow> Ok (Some res) | None \<Rightarrow> Ok None)
             else Ok None)
           else and_then (code_error res) Err)))"

definition option_block_of_message :: "BrokerMessage \<Rightarrow> (Block option, ProtocolError) result" where
  "option_block_of_message msg =
     and_then (is_response msg) (\<lambda>resp. if \<not> resp then Panic
       else and_then (broker_message_result msg) (\<lambda>res.
         and_then (stream_result res) (\<lambda>ok.
           if ok then and_then (is_overlay msg) (\<lambda>ov.
             if ov then and_then (response_block msg) (\<lambda>b. case b of Some b \<Rightarrow> Ok (Some b) | None \<Rightarrow> Ok None)
             else Ok None)
           else and_then (code_error res) Err)))"

section \<open>Lemmas\<close>

lemma error_code_nonzero [simp]: "error_code e \<noteq> 0"
  by (cases e) simp_all

lemma try_from_error_code [simp]: "try_from_code (error_code e) = Some e"
  by (cases e) (simp_all add: try_from_code_def protocol_errors_def)

lemma code_error_error_code [simp]: "code_error (error_code e) = Ok e"
  by (simp add: code_error_def)

text \<open>
  The wire codes of errors: no error has code 0, which means success; every error is read back from its
  code; and the codes that are read back are exactly 1 to 20.
\<close>

theorem protocol_error_codes:
  "error_code e \<noteq> 0 \<and> try_from_code (error_code e) = Some e
    \<and> ((\<exists>e'. try_from_code c = Some e') \<longleftrightarrow> 1 \<le> c \<and> c \<le> 20)
    \<and> (case try_from_code c of None \<Rightarrow> True | Some e' \<Rightarrow> error_code e' = c)"
proof -
  have code: "error_code e' = c" if "try_from_code c = Some e'" for e'
    using that by (auto simp: try_from_code_def find_Some_iff)
  have "1 \<le> error_code e' \<and> error_code e' \<le> 20" for e' by (cases e') simp_all
  with code have "1 \<le> c \<and> c \<le> 20" if "try_from_code c = Some e'" for e' using that by metis
  moreover have "\<exists>e'. try_from_code c = Some e'" if "1 \<le> c" "c \<le> 20"
  proof -
    from that have "unat c \<in> set [1..<21]" by (simp add: word_le_nat_alt)
    then have "of_nat (unat c) \<in> (of_nat ` set [1..<21] :: u16 set)" by (rule imageI)
    then have "c \<in> set (map of_nat [1..<21])" by simp
    then have "c \<in> set (map error_code protocol_errors)" by (simp add: upt_rec protocol_errors_def)
    then show ?thesis using try_from_error_code by auto
  qed
  ultimately show ?thesis using code by (auto split: option.split)
qed

text \<open>What a client reads from a response, by the kind of its content.\<close>

definition broker_reply :: "u64 \<Rightarrow> u16 \<Rightarrow> BrokerMessage" where
  "broker_reply i res = BrokerMessage.V0 \<lparr>bm_content = BrokerMessageContentV0.BrokerResponse
     (BrokerResponse.V0 \<lparr>brs_id = i, brs_result = res\<rparr>), bm_padding = []\<rparr>"

definition overlay_reply ::
  "OverlayId \<Rightarrow> u64 \<Rightarrow> u16 \<Rightarrow> BrokerOverlayResponseContentV0 option \<Rightarrow> BrokerMessage" where
  "overlay_reply ov i res c = BrokerMessage.V0 \<lparr>bm_content = BrokerMessageContentV0.BrokerOverlayMessage
     (BrokerOverlayMessage.V0 \<lparr>bom_overlay = ov, bom_content = BrokerOverlayMessageContentV0.BrokerOverlayResponse
        (BrokerOverlayResponse.V0 \<lparr>bors_id = i, bors_result = res, bors_content = c\<rparr>)\<rparr>), bm_padding = []\<rparr>"

lemma broker_reply_reads [simp]:
  "is_response (broker_reply i res) = Ok True" "is_overlay (broker_reply i res) = Ok False"
  "broker_message_result (broker_reply i res) = Ok res" "broker_message_id (broker_reply i res) = Ok i"
  by (simp_all add: broker_reply_def)

lemma overlay_reply_reads [simp]:
  "is_response (overlay_reply ov i res c) = Ok True" "is_overlay (overlay_reply ov i res c) = Ok True"
  "broker_message_result (overlay_reply ov i res c) = Ok res" "broker_message_id (overlay_reply ov i res c) = Ok i"
  "response_block (overlay_reply ov i res c) = (case c of
       Some (BrokerOverlayResponseContentV0.Block b) \<Rightarrow> Ok (Some b) | Some _ \<Rightarrow> Panic | None \<Rightarrow> Ok None)"
  "response_object_id (overlay_reply ov i res c) = (case c of
       Some (BrokerOverlayResponseContentV0.ObjectId j) \<Rightarrow> Ok j | Some _ \<Rightarrow> Panic | None \<Rightarrow> Panic)"
  by (simp_all add: overlay_reply_def)

end
