(* ===== verification/Lofire_Broker_Store.thy ===== *)
theory Lofire_Broker_Store
  imports Lofire_Net
begin

text \<open>
  The broker's property store: the trait of \<^verbatim>\<open>src/lofire/src/brokerstore.rs\<close> and its LMDB
  implementation, \<^verbatim>\<open>src/lofire-store-lmdb/src/brokerstore.rs\<close>. A property is named by a prefix, a key and
  an optional suffix, and has a set of values. The rkv database underneath is third-party code: its
  operations are the record \<open>Rkv\<close> and their documented behaviour the predicate \<open>rkv_laws\<close>. What
  the broker relies on is the locale \<open>broker_store\<close>, interpreted by the LMDB store over any lawful
  database.
\<close>

section \<open>The trait\<close>

record 'b BrokerStore =
  bs_get :: "'b \<Rightarrow> u8 \<Rightarrow> bytes \<Rightarrow> u8 option \<Rightarrow> (bytes, StorageError) result"
  bs_get_all :: "'b \<Rightarrow> u8 \<Rightarrow> bytes \<Rightarrow> u8 option \<Rightarrow> (bytes list, StorageError) result"
  bs_has_property_value :: "'b \<Rightarrow> u8 \<Rightarrow> bytes \<Rightarrow> u8 option \<Rightarrow> bytes \<Rightarrow> (unit, StorageError) result"
  bs_put :: "'b \<Rightarrow> u8 \<Rightarrow> bytes \<Rightarrow> u8 option \<Rightarrow> bytes \<Rightarrow> (unit, StorageError, 'b) op"
  bs_replace :: "'b \<Rightarrow> u8 \<Rightarrow> bytes \<Rightarrow> u8 option \<Rightarrow> bytes \<Rightarrow> (unit, StorageError, 'b) op"
  bs_del :: "'b \<Rightarrow> u8 \<Rightarrow> bytes \<Rightarrow> u8 option \<Rightarrow> (unit, StorageError, 'b) op"
  bs_del_all :: "'b \<Rightarrow> u8 \<Rightarrow> bytes \<Rightarrow> u8 list \<Rightarrow> (unit, StorageError, 'b) op"
  bs_del_property_value :: "'b \<Rightarrow> u8 \<Rightarrow> bytes \<Rightarrow> u8 option \<Rightarrow> bytes \<Rightarrow> (unit, StorageError, 'b) op"

text \<open>\<^verbatim>\<open>compute_property\<close>: the bytes a property is stored under.\<close>

definition compute_property :: "u8 \<Rightarrow> bytes \<Rightarrow> u8 option \<Rightarrow> bytes" where
  "compute_property prefix key suffix =
     prefix # key @ (case suffix of Some x \<Rightarrow> [x] | None \<Rightarrow> [])"

lemma compute_property_eq:
  assumes "length key = length key'"
  shows "compute_property p key (Some x) = compute_property p' key' (Some x') \<longleftrightarrow> p = p' \<and> key = key' \<and> x = x'"
  using assms by (auto simp: compute_property_def)

lemma compute_property_prefix:
  "p \<noteq> p' \<Longrightarrow> compute_property p key x \<noteq> compute_property p' key' x'"
  by (simp add: compute_property_def)

section \<open>The database\<close>

text \<open>
  An rkv environment with one \<^verbatim>\<open>MultiStore\<close>: reads of a snapshot, the operations of a write
  transaction on the transaction's own state, and its commit, which answers \<open>None\<close> when it fails. A
  transaction that is dropped leaves the environment as it was.
\<close>

record 'd Rkv =
  rk_get :: "'d \<Rightarrow> bytes \<Rightarrow> ((bytes, unit) result list, unit) result"
  rk_get_key_value :: "'d \<Rightarrow> bytes \<Rightarrow> bytes \<Rightarrow> (bool, unit) result"
  rk_put :: "'d \<Rightarrow> bytes \<Rightarrow> bytes \<Rightarrow> (unit, unit, 'd) op"
  rk_delete :: "'d \<Rightarrow> bytes \<Rightarrow> bytes \<Rightarrow> (unit, unit, 'd) op"
  rk_delete_all :: "'d \<Rightarrow> bytes \<Rightarrow> (unit, unit, 'd) op"
  rk_commit :: "'d \<Rightarrow> 'd option"

text \<open>
  A lawful database keeps a finite set of values for each key and lists it without repetition.
  Deleting what is not there may succeed or report an error, as LMDB does; either way nothing changes.
\<close>

definition rkv_laws :: "'d Rkv \<Rightarrow> ('d \<Rightarrow> bool) \<Rightarrow> ('d \<Rightarrow> bytes \<Rightarrow> bytes set) \<Rightarrow> bool" where
  "rkv_laws R good vals \<longleftrightarrow> (\<forall>d. good d \<longrightarrow>
     (\<forall>k. \<exists>vs. rk_get R d k = Ok (map Ok vs) \<and> set vs = vals d k \<and> distinct vs)
     \<and> (\<forall>k v. rk_get_key_value R d k v = Ok (v \<in> vals d k))
     \<and> (\<forall>k v. \<exists>d'. rk_put R d k v = (Ok (), d') \<and> good d' \<and> vals d' = (vals d)(k := insert v (vals d k)))
     \<and> (\<forall>k v. \<exists>r d'. rk_delete R d k v = (r, d') \<and> (r = Ok () \<or> v \<notin> vals d k \<and> r = Err ())
          \<and> good d' \<and> vals d' = (vals d)(k := vals d k - {v}))
     \<and> (\<forall>k. \<exists>r d'. rk_delete_all R d k = (r, d') \<and> (r = Ok () \<or> vals d k = {} \<and> r = Err ())
          \<and> good d' \<and> vals d' = (vals d)(k := {}))
     \<and> (\<exists>d'. rk_commit R d = Some d' \<and> good d' \<and> vals d' = vals d))"

section \<open>The LMDB store\<close>

text \<open>\<^verbatim>\<open>writer.commit().unwrap()\<close>; \<open>old\<close> is the environment the transaction started from.\<close>

definition commit_unwrap :: "'d Rkv \<Rightarrow> 'd \<Rightarrow> 'd \<Rightarrow> (unit, StorageError, 'd) op" where
  "commit_unwrap R old w = (case rk_commit R w of Some d \<Rightarrow> (Ok (), d) | None \<Rightarrow> (Panic, old))"

text \<open>\<^verbatim>\<open>.map_err(|e| StorageError::BackendError)?\<close> on a step of a transaction.\<close>

fun txn_step :: "'d \<Rightarrow> (unit, unit, 'd) op \<Rightarrow> ('d \<Rightarrow> (unit, StorageError, 'd) op) \<Rightarrow> (unit, StorageError, 'd) op" where
  "txn_step old (Ok _, w) f = f w"
| "txn_step old (Err _, w) f = (Err BackendError, old)"
| "txn_step old (Panic, w) f = (Panic, old)"
| "txn_step old (Hang, w) f = (Hang, old)"

definition lmdb_get :: "'d Rkv \<Rightarrow> 'd \<Rightarrow> u8 \<Rightarrow> bytes \<Rightarrow> u8 option \<Rightarrow> (bytes, StorageError) result" where
  "lmdb_get R d prefix key suffix =
     and_then (map_err (\<lambda>_. BackendError) (rk_get R d (compute_property prefix key suffix))) (\<lambda>iter.
       case iter of
         Ok val # _ \<Rightarrow> Ok val
       | _ # _ \<Rightarrow> Err BackendError
       | [] \<Rightarrow> Err StorageError.NotFound)"

fun collect_values :: "(bytes, unit) result list \<Rightarrow> bytes list \<Rightarrow> (bytes list, StorageError) result" where
  "collect_values [] vector = Ok vector"
| "collect_values (Ok val # iter) vector = collect_values iter (vector @ [val])"
| "collect_values (_ # iter) vector = Err BackendError"

definition lmdb_get_all :: "'d Rkv \<Rightarrow> 'd \<Rightarrow> u8 \<Rightarrow> bytes \<Rightarrow> u8 option \<Rightarrow> (bytes list, StorageError) result" where
  "lmdb_get_all R d prefix key suffix =
     and_then (map_err (\<lambda>_. BackendError) (rk_get R d (compute_property prefix key suffix)))
       (\<lambda>iter. collect_values iter [])"

definition lmdb_has_property_value ::
  "'d Rkv \<Rightarrow> 'd \<Rightarrow> u8 \<Rightarrow> bytes \<Rightarrow> u8 option \<Rightarrow> bytes \<Rightarrow> (unit, StorageError) result" where
  "lmdb_has_property_value R d prefix key suffix value =
     and_then (map_err (\<lambda>_. BackendError) (rk_get_key_value R d (compute_property prefix key suffix) value))
       (\<lambda>exists. if exists then Ok () else Err StorageError.NotFound)"

definition lmdb_put :: "'d Rkv \<Rightarrow> 'd \<Rightarrow> u8 \<Rightarrow> bytes \<Rightarrow> u8 option \<Rightarrow> bytes \<Rightarrow> (unit, StorageError, 'd) op" where
  "lmdb_put R d prefix key suffix value =
     txn_step d (rk_put R d (compute_property prefix key suffix) value) (commit_unwrap R d)"

definition lmdb_replace :: "'d Rkv \<Rightarrow> 'd \<Rightarrow> u8 \<Rightarrow> bytes \<Rightarrow> u8 option \<Rightarrow> bytes \<Rightarrow> (unit, StorageError, 'd) op" where
  "lmdb_replace R d prefix key suffix value =
     (let property = compute_property prefix key suffix in
      txn_step d (rk_delete_all R d property) (\<lambda>w.
        txn_step d (rk_put R w property value) (commit_unwrap R d)))"

definition lmdb_del :: "'d Rkv \<Rightarrow> 'd \<Rightarrow> u8 \<Rightarrow> bytes \<Rightarrow> u8 option \<Rightarrow> (unit, StorageError, 'd) op" where
  "lmdb_del R d prefix key suffix =
     txn_step d (rk_delete_all R d (compute_property prefix key suffix)) (commit_unwrap R d)"

definition lmdb_del_property_value ::
  "'d Rkv \<Rightarrow> 'd \<Rightarrow> u8 \<Rightarrow> bytes \<Rightarrow> u8 option \<Rightarrow> bytes \<Rightarrow> (unit, StorageError, 'd) op" where
  "lmdb_del_property_value R d prefix key suffix value =
     txn_step d (rk_delete R d (compute_property prefix key suffix) value) (commit_unwrap R d)"

fun lmdb_del_suffixes :: "'d Rkv \<Rightarrow> 'd \<Rightarrow> u8 \<Rightarrow> bytes \<Rightarrow> u8 list \<Rightarrow> (unit, StorageError, 'd) op" where
  "lmdb_del_suffixes R d prefix key [] = (Ok (), d)"
| "lmdb_del_suffixes R d prefix key (suffix # suffixes) =
     op_then (lmdb_del R d prefix key (Some suffix)) (\<lambda>_ d. lmdb_del_suffixes R d prefix key suffixes)"

definition lmdb_del_all :: "'d Rkv \<Rightarrow> 'd \<Rightarrow> u8 \<Rightarrow> bytes \<Rightarrow> u8 list \<Rightarrow> (unit, StorageError, 'd) op" where
  "lmdb_del_all R d prefix key all_suffixes =
     op_then (lmdb_del_suffixes R d prefix key all_suffixes) (\<lambda>_ d.
       if all_suffixes = [] then op_then (lmdb_del R d prefix key None) (\<lambda>_ d. (Ok (), d)) else (Ok (), d))"

definition lmdb_broker :: "'d Rkv \<Rightarrow> 'd BrokerStore" where
  "lmdb_broker R = \<lparr>bs_get = lmdb_get R, bs_get_all = lmdb_get_all R,
     bs_has_property_value = lmdb_has_property_value R, bs_put = lmdb_put R, bs_replace = lmdb_replace R,
     bs_del = lmdb_del R, bs_del_all = lmdb_del_all R, bs_del_property_value = lmdb_del_property_value R\<rparr>"

section \<open>What the broker relies on\<close>

locale broker_store =
  fixes B :: "'b BrokerStore"
    and invar :: "'b \<Rightarrow> bool"
    and vals :: "'b \<Rightarrow> bytes \<Rightarrow> bytes set"
  assumes get_some: "invar s \<Longrightarrow> vals s (compute_property p k x) \<noteq> {} \<Longrightarrow>
      \<exists>v \<in> vals s (compute_property p k x). bs_get B s p k x = Ok v"
    and get_none: "invar s \<Longrightarrow> vals s (compute_property p k x) = {} \<Longrightarrow>
      bs_get B s p k x = Err StorageError.NotFound"
    and get_all: "invar s \<Longrightarrow>
      \<exists>vs. bs_get_all B s p k x = Ok vs \<and> set vs = vals s (compute_property p k x) \<and> distinct vs"
    and has_value: "invar s \<Longrightarrow> bs_has_property_value B s p k x v
      = (if v \<in> vals s (compute_property p k x) then Ok () else Err StorageError.NotFound)"
    and put: "invar s \<Longrightarrow> \<exists>s'. bs_put B s p k x v = (Ok (), s') \<and> invar s'
      \<and> vals s' = (vals s)(compute_property p k x := insert v (vals s (compute_property p k x)))"
    and replace: "invar s \<Longrightarrow> vals s (compute_property p k x) \<noteq> {} \<Longrightarrow>
      \<exists>s'. bs_replace B s p k x v = (Ok (), s') \<and> invar s' \<and> vals s' = (vals s)(compute_property p k x := {v})"
    and del: "invar s \<Longrightarrow> \<exists>r s'. bs_del B s p k x = (r, s') \<and> invar s' \<and>
      (r = Ok () \<or> vals s (compute_property p k x) = {} \<and> r = Err BackendError)
      \<and> vals s' = (vals s)(compute_property p k x := {})"
    and del_value: "invar s \<Longrightarrow> \<exists>r s'. bs_del_property_value B s p k x v = (r, s') \<and> invar s' \<and>
      (r = Ok () \<or> v \<notin> vals s (compute_property p k x) \<and> r = Err BackendError)
      \<and> vals s' = (vals s)(compute_property p k x := vals s (compute_property p k x) - {v})"
    and del_all: "invar s \<Longrightarrow> xs \<noteq> [] \<Longrightarrow> distinct xs \<Longrightarrow> \<exists>r s'. bs_del_all B s p k xs = (r, s') \<and> invar s' \<and>
      (r = Ok () \<or> (\<exists>x \<in> set xs. vals s (compute_property p k (Some x)) = {}) \<and> r = Err BackendError)
      \<and> (\<forall>q. vals s' q = vals s q \<or> vals s' q = {} \<and> q \<in> (\<lambda>x. compute_property p k (Some x)) ` set xs)
      \<and> (r = Ok () \<longrightarrow> (\<forall>x \<in> set xs. vals s' (compute_property p k (Some x)) = {}))"
begin

lemma get_single:
  "invar s \<Longrightarrow> vals s (compute_property p k x) = {v} \<Longrightarrow> bs_get B s p k x = Ok v"
  using get_some [of s p k x] by auto

lemma get_ok_iff: "invar s \<Longrightarrow> is_ok (bs_get B s p k x) \<longleftrightarrow> vals s (compute_property p k x) \<noteq> {}"
  using get_some [of s p k x] get_none [of s p k x] by (auto simp: is_ok_iff)

end

section \<open>The LMDB store provides it\<close>

lemma txn_step_Ok [simp]: "txn_step old (Ok (), w) f = f w"
  by simp

lemma collect_values_Ok: "collect_values (map Ok vs) acc = Ok (acc @ vs)"
  by (induction vs arbitrary: acc) simp_all

definition lmdb_ok :: "'d Rkv \<Rightarrow> ('d \<Rightarrow> bool) \<Rightarrow> ('d \<Rightarrow> bytes \<Rightarrow> bytes set) \<Rightarrow> 'd \<Rightarrow> bool" where
  "lmdb_ok R good vals d \<longleftrightarrow> rkv_laws R good vals \<and> good d"

lemma lmdb_ok_laws:
  assumes "lmdb_ok R good vals d"
  shows lmdb_get_law: "\<exists>vs. rk_get R d k = Ok (map Ok vs) \<and> set vs = vals d k \<and> distinct vs"
    and lmdb_get_key_value_law: "rk_get_key_value R d k v = Ok (v \<in> vals d k)"
    and lmdb_put_law: "\<exists>d'. rk_put R d k v = (Ok (), d') \<and> lmdb_ok R good vals d' \<and> vals d' = (vals d)(k := insert v (vals d k))"
    and lmdb_delete_law: "\<exists>r d'. rk_delete R d k v = (r, d') \<and> (r = Ok () \<or> v \<notin> vals d k \<and> r = Err ())
          \<and> lmdb_ok R good vals d' \<and> vals d' = (vals d)(k := vals d k - {v})"
    and lmdb_delete_all_law: "\<exists>r d'. rk_delete_all R d k = (r, d') \<and> (r = Ok () \<or> vals d k = {} \<and> r = Err ())
          \<and> lmdb_ok R good vals d' \<and> vals d' = (vals d)(k := {})"
    and lmdb_commit_law: "\<exists>d'. commit_unwrap R old d = (Ok (), d') \<and> lmdb_ok R good vals d' \<and> vals d' = vals d"
  using assms unfolding lmdb_ok_def rkv_laws_def commit_unwrap_def by fastforce+

lemma lmdb_del_spec:
  assumes "lmdb_ok R good vals d"
  shows "\<exists>r d'. lmdb_del R d p k x = (r, d') \<and> lmdb_ok R good vals d' \<and>
      (r = Ok () \<or> vals d (compute_property p k x) = {} \<and> r = Err BackendError)
      \<and> vals d' = (vals d)(compute_property p k x := {})"
proof -
  let ?q = "compute_property p k x"
  from lmdb_delete_all_law [OF assms, of ?q] obtain r w where
    w: "rk_delete_all R d ?q = (r, w)" "r = Ok () \<or> vals d ?q = {} \<and> r = Err ()"
      "lmdb_ok R good vals w" "vals w = (vals d)(?q := {})" by blast
  from w(2) show ?thesis
  proof
    assume "r = Ok ()"
    with lmdb_commit_law [OF w(3), of d] w show ?thesis by (auto simp: lmdb_del_def)
  next
    assume "vals d ?q = {} \<and> r = Err ()"
    with w assms show ?thesis by (auto simp: lmdb_del_def fun_upd_idem)
  qed
qed

lemma lmdb_del_suffixes_spec:
  assumes "lmdb_ok R good vals d" "distinct xs"
  shows "\<exists>r d'. lmdb_del_suffixes R d p k xs = (r, d') \<and> lmdb_ok R good vals d' \<and>
      (r = Ok () \<or> (\<exists>x \<in> set xs. vals d (compute_property p k (Some x)) = {}) \<and> r = Err BackendError)
      \<and> (\<forall>q. vals d' q = vals d q \<or> vals d' q = {} \<and> q \<in> (\<lambda>x. compute_property p k (Some x)) ` set xs)
      \<and> (r = Ok () \<longrightarrow> (\<forall>x \<in> set xs. vals d' (compute_property p k (Some x)) = {}))"
  using assms
proof (induction xs arbitrary: d)
  case (Cons x xs)
  let ?q = "\<lambda>x. compute_property p k (Some x)"
  from lmdb_del_spec [OF Cons.prems(1), of p k "Some x"] obtain r d1 where
    d1: "lmdb_del R d p k (Some x) = (r, d1)" "lmdb_ok R good vals d1"
      "r = Ok () \<or> vals d (?q x) = {} \<and> r = Err BackendError" "vals d1 = (vals d)(?q x := {})" by blast
  from d1(3) show ?case
  proof
    assume ok: "r = Ok ()"
    from Cons.prems(2) have other: "vals d1 (?q y) = vals d (?q y)" if "y \<in> set xs" for y
      using that d1(4) by (auto simp: compute_property_eq)
    from Cons.IH [OF d1(2)] Cons.prems(2) obtain r2 d2 where
      d2: "lmdb_del_suffixes R d1 p k xs = (r2, d2)" "lmdb_ok R good vals d2"
        "r2 = Ok () \<or> (\<exists>x \<in> set xs. vals d1 (?q x) = {}) \<and> r2 = Err BackendError"
        "\<forall>q. vals d2 q = vals d1 q \<or> vals d2 q = {} \<and> q \<in> ?q ` set xs"
        "r2 = Ok () \<longrightarrow> (\<forall>x \<in> set xs. vals d2 (?q x) = {})" by auto
    have "lmdb_del_suffixes R d p k (x # xs) = (r2, d2)" using d1(1) d2(1) ok by simp
    moreover have "r2 = Ok () \<or> (\<exists>x \<in> set (x # xs). vals d (?q x) = {}) \<and> r2 = Err BackendError"
      using d2(3) other by auto
    moreover have "\<forall>q. vals d2 q = vals d q \<or> vals d2 q = {} \<and> q \<in> ?q ` set (x # xs)"
    proof
      fix q show "vals d2 q = vals d q \<or> vals d2 q = {} \<and> q \<in> ?q ` set (x # xs)"
        using d2(4) [rule_format, of q] d1(4) by (cases "q = ?q x") auto
    qed
    moreover have "vals d2 (?q x) = {}" using d2(4) [rule_format, of "?q x"] d1(4) by auto
    ultimately show ?thesis using d2(2,5) by auto
  next
    assume "vals d (?q x) = {} \<and> r = Err BackendError"
    with d1 show ?thesis by (auto simp: fun_upd_idem)
  qed
qed simp

interpretation lmdb: broker_store "lmdb_broker R" "lmdb_ok R good vals" vals for R good vals
proof (unfold_locales, goal_cases)
  case (1 s p k x)
  from lmdb_get_law [OF 1(1), of "compute_property p k x"] obtain vs where
    "rk_get R s (compute_property p k x) = Ok (map Ok vs)" "set vs = vals s (compute_property p k x)" by blast
  with 1(2) show ?case by (cases vs) (auto simp: lmdb_broker_def lmdb_get_def)
next
  case (2 s p k x)
  with lmdb_get_law [OF 2(1), of "compute_property p k x"] show ?case
    by (auto simp: lmdb_broker_def lmdb_get_def)
next
  case (3 s p k x)
  with lmdb_get_law [OF 3, of "compute_property p k x"] show ?case
    by (auto simp: lmdb_broker_def lmdb_get_all_def collect_values_Ok)
next
  case (4 s p k x v)
  then show ?case by (simp add: lmdb_broker_def lmdb_has_property_value_def lmdb_get_key_value_law)
next
  case (5 s p k x v)
  let ?q = "compute_property p k x"
  from lmdb_put_law [OF 5, of ?q v] obtain w where
    "rk_put R s ?q v = (Ok (), w)" "lmdb_ok R good vals w" "vals w = (vals s)(?q := insert v (vals s ?q))" by blast
  with lmdb_commit_law [of R good vals w s] show ?case by (auto simp: lmdb_broker_def lmdb_put_def)
next
  case (6 s p k x v)
  let ?q = "compute_property p k x"
  from lmdb_delete_all_law [OF 6(1), of ?q] 6(2) obtain w where
    w: "rk_delete_all R s ?q = (Ok (), w)" "lmdb_ok R good vals w" "vals w = (vals s)(?q := {})" by auto
  from lmdb_put_law [OF w(2), of ?q v] w(3) obtain w2 where
    "rk_put R w ?q v = (Ok (), w2)" "lmdb_ok R good vals w2" "vals w2 = (vals s)(?q := {v})" by auto
  with w(1) lmdb_commit_law [of R good vals w2 s] show ?case
    by (auto simp: lmdb_broker_def lmdb_replace_def Let_def)
next
  case (7 s p k x)
  then show ?case using lmdb_del_spec [of R good vals s p k x] by (simp add: lmdb_broker_def)
next
  case (8 s p k x v)
  let ?q = "compute_property p k x"
  from lmdb_delete_law [OF 8, of ?q v] obtain r w where
    w: "rk_delete R s ?q v = (r, w)" "r = Ok () \<or> v \<notin> vals s ?q \<and> r = Err ()"
      "lmdb_ok R good vals w" "vals w = (vals s)(?q := vals s ?q - {v})" by blast
  from w(2) show ?case
  proof
    assume "r = Ok ()"
    with w lmdb_commit_law [OF w(3), of s] show ?thesis by (auto simp: lmdb_broker_def lmdb_del_property_value_def)
  next
    assume "v \<notin> vals s ?q \<and> r = Err ()"
    with w 8 show ?thesis by (auto simp: lmdb_broker_def lmdb_del_property_value_def fun_upd_idem)
  qed
next
  case (9 s xs p k)
  from lmdb_del_suffixes_spec [OF 9(1,3), of p k] obtain r d' where
    d: "lmdb_del_suffixes R s p k xs = (r, d')" "lmdb_ok R good vals d'"
      "r = Ok () \<or> (\<exists>x \<in> set xs. vals s (compute_property p k (Some x)) = {}) \<and> r = Err BackendError"
      "\<forall>q. vals d' q = vals s q \<or> vals d' q = {} \<and> q \<in> (\<lambda>x. compute_property p k (Some x)) ` set xs"
      "r = Ok () \<longrightarrow> (\<forall>x \<in> set xs. vals d' (compute_property p k (Some x)) = {})" by blast
  have "lmdb_del_all R s p k xs = (r, d')" using d(1,3) 9(2) by (auto simp: lmdb_del_all_def)
  with d show ?case by (auto simp: lmdb_broker_def)
qed

section \<open>A concrete database\<close>

text \<open>A multimap of sorted lists that reports the deletion of what is not there, for the witnesses.\<close>

definition list_rkv :: "(bytes \<Rightarrow> bytes list) Rkv" where
  "list_rkv = \<lparr>rk_get = (\<lambda>d k. Ok (map Ok (d k))),
     rk_get_key_value = (\<lambda>d k v. Ok (v \<in> set (d k))),
     rk_put = (\<lambda>d k v. (Ok (), d(k := insort_insert v (d k)))),
     rk_delete = (\<lambda>d k v. if v \<in> set (d k) then (Ok (), d(k := remove1 v (d k))) else (Err (), d)),
     rk_delete_all = (\<lambda>d k. if d k = [] then (Err (), d) else (Ok (), d(k := []))),
     rk_commit = Some\<rparr>"

definition list_db_ok :: "(bytes \<Rightarrow> bytes list) \<Rightarrow> bool" where
  "list_db_ok d \<longleftrightarrow> (\<forall>k. sorted (d k) \<and> distinct (d k))"

definition list_vals :: "(bytes \<Rightarrow> bytes list) \<Rightarrow> bytes \<Rightarrow> bytes set" where
  "list_vals d k = set (d k)"

lemma list_rkv_laws [simp]: "rkv_laws list_rkv list_db_ok list_vals"
  unfolding rkv_laws_def
  by (auto simp: list_rkv_def list_db_ok_def list_vals_def sorted_insort_insert distinct_insort_insert
      set_insort_insert sorted_remove1 intro!: ext split: if_splits)

lemma list_rkv_ok [simp]: "lmdb_ok list_rkv list_db_ok list_vals d \<longleftrightarrow> list_db_ok d"
  by (simp add: lmdb_ok_def)

lemma list_db_ok_empty [simp]: "list_db_ok (\<lambda>_. [])"
  by (simp add: list_db_ok_def)

section \<open>Property\<close>

text \<open>
  The LMDB broker store keeps sets of values: a value that is put is there, once; deleting it takes
  away that value only; and properties of other prefixes, keys (of the same length) or suffixes are not
  touched by either.
\<close>

theorem lmdb_property_values:
  assumes "lmdb_ok R good vals d" "length key = length key'" "(p, key, x) \<noteq> (p', key', x')" "w \<noteq> v"
  shows "\<exists>d1 d2 vs. lmdb_put R d p key (Some x) v = (Ok (), d1)
    \<and> lmdb_has_property_value R d1 p key (Some x) v = Ok ()
    \<and> lmdb_get_all R d1 p key (Some x) = Ok vs \<and> v \<in> set vs \<and> distinct vs
    \<and> lmdb_del_property_value R d1 p key (Some x) v = (Ok (), d2)
    \<and> lmdb_has_property_value R d2 p key (Some x) v = Err StorageError.NotFound
    \<and> lmdb_has_property_value R d2 p key (Some x) w = lmdb_has_property_value R d p key (Some x) w
    \<and> lmdb_has_property_value R d1 p' key' (Some x') u = lmdb_has_property_value R d p' key' (Some x') u
    \<and> lmdb_has_property_value R d2 p' key' (Some x') u = lmdb_has_property_value R d p' key' (Some x') u"
proof -
  note defs = lmdb_broker_def BrokerStore.select_convs
  have other: "compute_property p' key' (Some x') \<noteq> compute_property p key (Some x)"
    using assms(2,3) by (auto simp: compute_property_eq)
  from lmdb.put [OF assms(1), of p key "Some x" v, unfolded defs] obtain d1 where
    d1: "lmdb_put R d p key (Some x) v = (Ok (), d1)" "lmdb_ok R good vals d1"
      "vals d1 = (vals d)(compute_property p key (Some x) := insert v (vals d (compute_property p key (Some x))))"
    by blast
  from lmdb.get_all [OF d1(2), of p key "Some x", unfolded defs] d1(3) obtain vs where
    vs: "lmdb_get_all R d1 p key (Some x) = Ok vs" "v \<in> set vs" "distinct vs" by auto
  from lmdb.del_value [OF d1(2), of p key "Some x" v, unfolded defs] d1(3) obtain d2 where
    d2: "lmdb_del_property_value R d1 p key (Some x) v = (Ok (), d2)" "lmdb_ok R good vals d2"
      "vals d2 = (vals d)(compute_property p key (Some x) := vals d (compute_property p key (Some x)) - {v})"
    by auto
  note has = lmdb.has_value [unfolded defs]
  show ?thesis
    using d1(1) d2(1) vs assms(4) other
    by (intro exI [of _ d1] exI [of _ d2] exI [of _ vs])
       (simp add: has [OF d1(2)] has [OF d2(2)] has [OF assms(1)] d1(3) d2(3))
qed

theorem lmdb_property_values_witness:
  "\<exists>d1 d2. lmdb_put list_rkv (\<lambda>_. []) 1 [2] (Some 3) [4] = (Ok (), d1)
    \<and> lmdb_has_property_value list_rkv d1 1 [2] (Some 3) [4] = Ok ()
    \<and> lmdb_del_property_value list_rkv d1 1 [2] (Some 3) [4] = (Ok (), d2)
    \<and> lmdb_has_property_value list_rkv d2 1 [2] (Some 3) [4] = Err StorageError.NotFound"
proof -
  have "lmdb_ok list_rkv list_db_ok list_vals (\<lambda>_. [])" by simp
  from lmdb_property_values [OF this, of "[2]" "[5]" 1 3 1 3 "[9]" "[4]" "[]"] show ?thesis
    by (simp, blast)
qed

end
