(* ===== verification/Lofire_Entities.thy ===== *)
theory Lofire_Entities
  imports Lofire_Broker_Store
begin

text \<open>
  What the broker keeps in its property store: user accounts, overlays, peers, topics, the keys of
  the repository stores and its configuration (\<^verbatim>\<open>account.rs\<close>, \<^verbatim>\<open>overlay.rs\<close>, \<^verbatim>\<open>peer.rs\<close>, \<^verbatim>\<open>topic.rs\<close>,
  \<^verbatim>\<open>repostoreinfo.rs\<close> and \<^verbatim>\<open>config.rs\<close> of \<^verbatim>\<open>src/lofire-broker/src\<close>). A struct with an identifier and a
  reference to the store is the record of its identifier; the store is an argument.
\<close>

section \<open>Serializers\<close>

record TopicMeta =
  tm_users :: u32

record OverlayMeta =
  ovm_users :: u32
  ovm_last_used :: Timestamp

datatype RepoStoreId = Overlay OverlayId | Repo PubKey

datatype ConfigMode = Local | Core

text \<open>\<^verbatim>\<open>to_vec\<close> and \<^verbatim>\<open>from_slice\<close> of serde_bare at the types the broker stores.\<close>

record net_externs = externs +
  ser_pubkey :: "PubKey \<Rightarrow> bytes"
  de_pubkey :: "bytes \<Rightarrow> PubKey option"
  ser_digest :: "Digest \<Rightarrow> bytes"
  ser_symkey :: "SymKey \<Rightarrow> bytes"
  de_symkey :: "bytes \<Rightarrow> SymKey option"
  ser_bool :: "bool \<Rightarrow> bytes"
  ser_u32 :: "u32 \<Rightarrow> bytes"
  de_u32 :: "bytes \<Rightarrow> u32 option"
  ser_overlay_meta :: "OverlayMeta \<Rightarrow> bytes"
  de_overlay_meta :: "bytes \<Rightarrow> OverlayMeta option"
  ser_topic_meta :: "TopicMeta \<Rightarrow> bytes"
  de_topic_meta :: "bytes \<Rightarrow> TopicMeta option"
  ser_peer_advert :: "PeerAdvert \<Rightarrow> bytes"
  de_peer_advert :: "bytes \<Rightarrow> PeerAdvert option"
  ser_repo_store_id :: "RepoStoreId \<Rightarrow> bytes"
  ser_config_mode :: "ConfigMode \<Rightarrow> bytes"
  de_config_mode :: "bytes \<Rightarrow> ConfigMode option"
  ser_config_key :: "bytes \<Rightarrow> bytes"

text \<open>Deserializing gives back what was serialized, and identifiers have one length per type.\<close>

definition net_codec :: "'x net_externs_scheme \<Rightarrow> bool" where
  "net_codec X \<longleftrightarrow> (\<forall>a. de_pubkey X (ser_pubkey X a) = Some a) \<and> inj (ser_digest X)
     \<and> (\<forall>a. de_symkey X (ser_symkey X a) = Some a) \<and> inj (ser_bool X)
     \<and> (\<forall>a. de_u32 X (ser_u32 X a) = Some a)
     \<and> (\<forall>a. de_overlay_meta X (ser_overlay_meta X a) = Some a)
     \<and> (\<forall>a. de_topic_meta X (ser_topic_meta X a) = Some a)
     \<and> (\<forall>a. de_peer_advert X (ser_peer_advert X a) = Some a)
     \<and> inj (ser_repo_store_id X)
     \<and> (\<forall>a. de_config_mode X (ser_config_mode X a) = Some a)
     \<and> (\<forall>a b. length (ser_pubkey X a) = length (ser_pubkey X b))
     \<and> (\<forall>a b. length (ser_digest X a) = length (ser_digest X b))
     \<and> (\<forall>a b. length (ser_repo_store_id X a) = length (ser_repo_store_id X b))"

text \<open>\<^verbatim>\<open>Ok(from_slice(&v)?)\<close> on the outcome of a read.\<close>

definition read_as :: "(bytes \<Rightarrow> 'a option) \<Rightarrow> (bytes, StorageError) result \<Rightarrow> ('a, StorageError) result" where
  "read_as de r = and_then r (\<lambda>v. ok_or StorageError.SerializationError (de v))"

section \<open>Accounts\<close>

definition ACCOUNT_PREFIX :: u8 where "ACCOUNT_PREFIX = 117"
definition ACCOUNT_CLIENT :: u8 where "ACCOUNT_CLIENT = 99"
definition ACCOUNT_ADMIN :: u8 where "ACCOUNT_ADMIN = 97"
definition ACCOUNT_OVERLAY :: u8 where "ACCOUNT_OVERLAY = 111"

lemmas account_consts [lofire_defs] = ACCOUNT_PREFIX_def ACCOUNT_CLIENT_def ACCOUNT_ADMIN_def ACCOUNT_OVERLAY_def

record Account =
  acc_id :: UserId

definition account_exists :: "'x net_externs_scheme \<Rightarrow> 'b BrokerStore \<Rightarrow> Account \<Rightarrow> 'b \<Rightarrow> bool" where
  "account_exists X B a s = is_ok (bs_get B s ACCOUNT_PREFIX (ser_pubkey X (acc_id a)) (Some ACCOUNT_ADMIN))"

definition account_open :: "'x net_externs_scheme \<Rightarrow> 'b BrokerStore \<Rightarrow> UserId \<Rightarrow> 'b \<Rightarrow> (Account, StorageError) result" where
  "account_open X B i s =
     (let opening = \<lparr>acc_id = i\<rparr> in
      if \<not> account_exists X B opening s then Err StorageError.NotFound else Ok opening)"

definition account_create ::
  "'x net_externs_scheme \<Rightarrow> 'b BrokerStore \<Rightarrow> UserId \<Rightarrow> bool \<Rightarrow> 'b \<Rightarrow> (Account, StorageError, 'b) op" where
  "account_create X B i admin s =
     (let acc = \<lparr>acc_id = i\<rparr> in
      if account_exists X B acc s then (Err BackendError, s)
      else op_then (bs_put B s ACCOUNT_PREFIX (ser_pubkey X i) (Some ACCOUNT_ADMIN) (ser_bool X admin))
             (\<lambda>_ s. (Ok acc, s)))"

definition account_add_client ::
  "'x net_externs_scheme \<Rightarrow> 'b BrokerStore \<Rightarrow> Account \<Rightarrow> ClientId \<Rightarrow> 'b \<Rightarrow> (unit, StorageError, 'b) op" where
  "account_add_client X B a client s =
     (if \<not> account_exists X B a s then (Err BackendError, s)
      else bs_put B s ACCOUNT_PREFIX (ser_pubkey X (acc_id a)) (Some ACCOUNT_CLIENT) (ser_pubkey X client))"

definition account_remove_client ::
  "'x net_externs_scheme \<Rightarrow> 'b BrokerStore \<Rightarrow> Account \<Rightarrow> ClientId \<Rightarrow> 'b \<Rightarrow> (unit, StorageError, 'b) op" where
  "account_remove_client X B a client s =
     bs_del_property_value B s ACCOUNT_PREFIX (ser_pubkey X (acc_id a)) (Some ACCOUNT_CLIENT) (ser_pubkey X client)"

definition account_has_client ::
  "'x net_externs_scheme \<Rightarrow> 'b BrokerStore \<Rightarrow> Account \<Rightarrow> ClientId \<Rightarrow> 'b \<Rightarrow> (unit, StorageError) result" where
  "account_has_client X B a client s =
     bs_has_property_value B s ACCOUNT_PREFIX (ser_pubkey X (acc_id a)) (Some ACCOUNT_CLIENT) (ser_pubkey X client)"

definition account_add_overlay ::
  "'x net_externs_scheme \<Rightarrow> 'b BrokerStore \<Rightarrow> Account \<Rightarrow> OverlayId \<Rightarrow> 'b \<Rightarrow> (unit, StorageError, 'b) op" where
  "account_add_overlay X B a overlay s =
     (if \<not> account_exists X B a s then (Err BackendError, s)
      else bs_put B s ACCOUNT_PREFIX (ser_pubkey X (acc_id a)) (Some ACCOUNT_OVERLAY) (ser_digest X overlay))"

definition account_remove_overlay ::
  "'x net_externs_scheme \<Rightarrow> 'b BrokerStore \<Rightarrow> Account \<Rightarrow> OverlayId \<Rightarrow> 'b \<Rightarrow> (unit, StorageError, 'b) op" where
  "account_remove_overlay X B a overlay s =
     bs_del_property_value B s ACCOUNT_PREFIX (ser_pubkey X (acc_id a)) (Some ACCOUNT_OVERLAY) (ser_digest X overlay)"

definition account_has_overlay ::
  "'x net_externs_scheme \<Rightarrow> 'b BrokerStore \<Rightarrow> Account \<Rightarrow> OverlayId \<Rightarrow> 'b \<Rightarrow> (unit, StorageError) result" where
  "account_has_overlay X B a overlay s =
     bs_has_property_value B s ACCOUNT_PREFIX (ser_pubkey X (acc_id a)) (Some ACCOUNT_OVERLAY) (ser_digest X overlay)"

definition account_is_admin ::
  "'x net_externs_scheme \<Rightarrow> 'b BrokerStore \<Rightarrow> Account \<Rightarrow> 'b \<Rightarrow> (bool, StorageError) result" where
  "account_is_admin X B a s =
     Ok (is_ok (bs_has_property_value B s ACCOUNT_PREFIX (ser_pubkey X (acc_id a)) (Some ACCOUNT_ADMIN) (ser_bool X True)))"

definition account_del ::
  "'x net_externs_scheme \<Rightarrow> 'b BrokerStore \<Rightarrow> Account \<Rightarrow> 'b \<Rightarrow> (unit, StorageError, 'b) op" where
  "account_del X B a s =
     bs_del_all B s ACCOUNT_PREFIX (ser_pubkey X (acc_id a)) [ACCOUNT_CLIENT, ACCOUNT_ADMIN, ACCOUNT_OVERLAY]"

section \<open>Overlays\<close>

definition OVERLAY_PREFIX :: u8 where "OVERLAY_PREFIX = 111"
definition OVERLAY_SECRET :: u8 where "OVERLAY_SECRET = 115"
definition OVERLAY_PEER :: u8 where "OVERLAY_PEER = 112"
definition OVERLAY_TOPIC :: u8 where "OVERLAY_TOPIC = 116"
definition OVERLAY_META :: u8 where "OVERLAY_META = 109"
definition OVERLAY_REPO :: u8 where "OVERLAY_REPO = 114"

lemmas overlay_consts [lofire_defs] = OVERLAY_PREFIX_def OVERLAY_SECRET_def OVERLAY_PEER_def OVERLAY_TOPIC_def
  OVERLAY_META_def OVERLAY_REPO_def

record Overlay =
  ovl_id :: OverlayId

definition overlay_exists :: "'x net_externs_scheme \<Rightarrow> 'b BrokerStore \<Rightarrow> Overlay \<Rightarrow> 'b \<Rightarrow> bool" where
  "overlay_exists X B o' s = is_ok (bs_get B s OVERLAY_PREFIX (ser_digest X (ovl_id o')) (Some OVERLAY_SECRET))"

definition overlay_open :: "'x net_externs_scheme \<Rightarrow> 'b BrokerStore \<Rightarrow> OverlayId \<Rightarrow> 'b \<Rightarrow> (Overlay, StorageError) result" where
  "overlay_open X B i s =
     (let opening = \<lparr>ovl_id = i\<rparr> in
      if \<not> overlay_exists X B opening s then Err StorageError.NotFound else Ok opening)"

text \<open>\<open>now\<close> is the system clock that \<^verbatim>\<open>now_timestamp\<close> reads.\<close>

definition overlay_create ::
  "'x net_externs_scheme \<Rightarrow> 'b BrokerStore \<Rightarrow> u64 \<Rightarrow> OverlayId \<Rightarrow> SymKey \<Rightarrow> PubKey option \<Rightarrow> 'b
   \<Rightarrow> (Overlay, StorageError, 'b) op" where
  "overlay_create X B now i secret repo s =
     (let acc = \<lparr>ovl_id = i\<rparr> in
      if overlay_exists X B acc s then (Err BackendError, s)
      else op_then (bs_put B s OVERLAY_PREFIX (ser_digest X i) (Some OVERLAY_SECRET) (ser_symkey X secret)) (\<lambda>_ s.
        op_then (case repo of
            Some r \<Rightarrow> bs_put B s OVERLAY_PREFIX (ser_digest X i) (Some OVERLAY_REPO) (ser_pubkey X r)
          | None \<Rightarrow> (Ok (), s)) (\<lambda>_ s.
            op_then (now_timestamp now, s) (\<lambda>t s.
              op_then (bs_put B s OVERLAY_PREFIX (ser_digest X i) (Some OVERLAY_META)
                  (ser_overlay_meta X \<lparr>ovm_users = 1, ovm_last_used = t\<rparr>)) (\<lambda>_ s. (Ok acc, s))))))"

definition overlay_add_peer ::
  "'x net_externs_scheme \<Rightarrow> 'b BrokerStore \<Rightarrow> Overlay \<Rightarrow> PeerId \<Rightarrow> 'b \<Rightarrow> (unit, StorageError, 'b) op" where
  "overlay_add_peer X B o' peer s =
     (if \<not> overlay_exists X B o' s then (Err BackendError, s)
      else bs_put B s OVERLAY_PREFIX (ser_digest X (ovl_id o')) (Some OVERLAY_PEER) (ser_pubkey X peer))"

definition overlay_remove_peer ::
  "'x net_externs_scheme \<Rightarrow> 'b BrokerStore \<Rightarrow> Overlay \<Rightarrow> PeerId \<Rightarrow> 'b \<Rightarrow> (unit, StorageError, 'b) op" where
  "overlay_remove_peer X B o' peer s =
     bs_del_property_value B s OVERLAY_PREFIX (ser_digest X (ovl_id o')) (Some OVERLAY_PEER) (ser_pubkey X peer)"

definition overlay_has_peer ::
  "'x net_externs_scheme \<Rightarrow> 'b BrokerStore \<Rightarrow> Overlay \<Rightarrow> PeerId \<Rightarrow> 'b \<Rightarrow> (unit, StorageError) result" where
  "overlay_has_peer X B o' peer s =
     bs_has_property_value B s OVERLAY_PREFIX (ser_digest X (ovl_id o')) (Some OVERLAY_PEER) (ser_pubkey X peer)"

definition overlay_add_topic ::
  "'x net_externs_scheme \<Rightarrow> 'b BrokerStore \<Rightarrow> Overlay \<Rightarrow> TopicId \<Rightarrow> 'b \<Rightarrow> (unit, StorageError, 'b) op" where
  "overlay_add_topic X B o' topic s =
     (if \<not> overlay_exists X B o' s then (Err BackendError, s)
      else bs_put B s OVERLAY_PREFIX (ser_digest X (ovl_id o')) (Some OVERLAY_TOPIC) (ser_pubkey X topic))"

definition overlay_remove_topic ::
  "'x net_externs_scheme \<Rightarrow> 'b BrokerStore \<Rightarrow> Overlay \<Rightarrow> TopicId \<Rightarrow> 'b \<Rightarrow> (unit, StorageError, 'b) op" where
  "overlay_remove_topic X B o' topic s =
     bs_del_property_value B s OVERLAY_PREFIX (ser_digest X (ovl_id o')) (Some OVERLAY_TOPIC) (ser_pubkey X topic)"

definition overlay_has_topic ::
  "'x net_externs_scheme \<Rightarrow> 'b BrokerStore \<Rightarrow> Overlay \<Rightarrow> TopicId \<Rightarrow> 'b \<Rightarrow> (unit, StorageError) result" where
  "overlay_has_topic X B o' topic s =
     bs_has_property_value B s OVERLAY_PREFIX (ser_digest X (ovl_id o')) (Some OVERLAY_TOPIC) (ser_pubkey X topic)"

definition overlay_secret ::
  "'x net_externs_scheme \<Rightarrow> 'b BrokerStore \<Rightarrow> Overlay \<Rightarrow> 'b \<Rightarrow> (SymKey, StorageError) result" where
  "overlay_secret X B o' s =
     read_as (de_symkey X) (bs_get B s OVERLAY_PREFIX (ser_digest X (ovl_id o')) (Some OVERLAY_SECRET))"

definition overlay_metadata ::
  "'x net_externs_scheme \<Rightarrow> 'b BrokerStore \<Rightarrow> Overlay \<Rightarrow> 'b \<Rightarrow> (OverlayMeta, StorageError) result" where
  "overlay_metadata X B o' s =
     read_as (de_overlay_meta X) (bs_get B s OVERLAY_PREFIX (ser_digest X (ovl_id o')) (Some OVERLAY_META))"

definition overlay_set_metadata ::
  "'x net_externs_scheme \<Rightarrow> 'b BrokerStore \<Rightarrow> Overlay \<Rightarrow> OverlayMeta \<Rightarrow> 'b \<Rightarrow> (unit, StorageError, 'b) op" where
  "overlay_set_metadata X B o' meta s =
     (if \<not> overlay_exists X B o' s then (Err BackendError, s)
      else bs_replace B s OVERLAY_PREFIX (ser_digest X (ovl_id o')) (Some OVERLAY_META) (ser_overlay_meta X meta))"

definition overlay_repo ::
  "'x net_externs_scheme \<Rightarrow> 'b BrokerStore \<Rightarrow> Overlay \<Rightarrow> 'b \<Rightarrow> (PubKey, StorageError) result" where
  "overlay_repo X B o' s =
     read_as (de_pubkey X) (bs_get B s OVERLAY_PREFIX (ser_digest X (ovl_id o')) (Some OVERLAY_REPO))"

definition overlay_del ::
  "'x net_externs_scheme \<Rightarrow> 'b BrokerStore \<Rightarrow> Overlay \<Rightarrow> 'b \<Rightarrow> (unit, StorageError, 'b) op" where
  "overlay_del X B o' s = bs_del_all B s OVERLAY_PREFIX (ser_digest X (ovl_id o'))
     [OVERLAY_SECRET, OVERLAY_PEER, OVERLAY_TOPIC, OVERLAY_META, OVERLAY_REPO]"

section \<open>Peers\<close>

definition PEER_PREFIX :: u8 where "PEER_PREFIX = 112"
definition PEER_VERSION :: u8 where "PEER_VERSION = 118"
definition PEER_ADVERT :: u8 where "PEER_ADVERT = 97"

lemmas peer_consts [lofire_defs] = PEER_PREFIX_def PEER_VERSION_def PEER_ADVERT_def

record Peer =
  peer_id :: PeerId

definition peer_exists :: "'x net_externs_scheme \<Rightarrow> 'b BrokerStore \<Rightarrow> Peer \<Rightarrow> 'b \<Rightarrow> bool" where
  "peer_exists X B p s = is_ok (bs_get B s PEER_PREFIX (ser_pubkey X (peer_id p)) (Some PEER_VERSION))"

definition peer_open :: "'x net_externs_scheme \<Rightarrow> 'b BrokerStore \<Rightarrow> PeerId \<Rightarrow> 'b \<Rightarrow> (Peer, StorageError) result" where
  "peer_open X B i s =
     (let opening = \<lparr>peer_id = i\<rparr> in
      if \<not> peer_exists X B opening s then Err StorageError.NotFound else Ok opening)"

definition peer_create ::
  "'x net_externs_scheme \<Rightarrow> 'b BrokerStore \<Rightarrow> PeerAdvert \<Rightarrow> 'b \<Rightarrow> (Peer, StorageError, 'b) op" where
  "peer_create X B advert s =
     (let i = peer_advert_peer advert; acc = \<lparr>peer_id = i\<rparr> in
      if peer_exists X B acc s then (Err BackendError, s)
      else op_then (bs_put B s PEER_PREFIX (ser_pubkey X i) (Some PEER_VERSION) (ser_u32 X (peer_advert_version advert)))
        (\<lambda>_ s. op_then (bs_put B s PEER_PREFIX (ser_pubkey X i) (Some PEER_ADVERT) (ser_peer_advert X advert))
          (\<lambda>_ s. (Ok acc, s))))"

definition peer_version ::
  "'x net_externs_scheme \<Rightarrow> 'b BrokerStore \<Rightarrow> Peer \<Rightarrow> 'b \<Rightarrow> (u32, StorageError) result" where
  "peer_version X B p s =
     read_as (de_u32 X) (bs_get B s PEER_PREFIX (ser_pubkey X (peer_id p)) (Some PEER_VERSION))"

definition peer_set_version ::
  "'x net_externs_scheme \<Rightarrow> 'b BrokerStore \<Rightarrow> Peer \<Rightarrow> u32 \<Rightarrow> 'b \<Rightarrow> (unit, StorageError, 'b) op" where
  "peer_set_version X B p version s =
     (if \<not> peer_exists X B p s then (Err BackendError, s)
      else bs_replace B s PEER_PREFIX (ser_pubkey X (peer_id p)) (Some PEER_VERSION) (ser_u32 X version))"

definition peer_advert ::
  "'x net_externs_scheme \<Rightarrow> 'b BrokerStore \<Rightarrow> Peer \<Rightarrow> 'b \<Rightarrow> (PeerAdvert, StorageError) result" where
  "peer_advert X B p s =
     read_as (de_peer_advert X) (bs_get B s PEER_PREFIX (ser_pubkey X (peer_id p)) (Some PEER_ADVERT))"

definition peer_update_advert ::
  "'x net_externs_scheme \<Rightarrow> 'b BrokerStore \<Rightarrow> Peer \<Rightarrow> PeerAdvert \<Rightarrow> 'b \<Rightarrow> (unit, StorageError, 'b) op" where
  "peer_update_advert X B p advert s =
     (if peer_advert_peer advert \<noteq> peer_id p then (Err StorageError.InvalidValue, s)
      else op_then (map_err (\<lambda>_. BackendError) (peer_advert X B p s), s) (\<lambda>current_advert s.
        if peer_advert_version advert \<le> peer_advert_version current_advert then (Ok (), s)
        else bs_replace B s PEER_PREFIX (ser_pubkey X (peer_id p)) (Some PEER_ADVERT) (ser_peer_advert X advert)))"

definition peer_set_advert ::
  "'x net_externs_scheme \<Rightarrow> 'b BrokerStore \<Rightarrow> Peer \<Rightarrow> PeerAdvert \<Rightarrow> 'b \<Rightarrow> (unit, StorageError, 'b) op" where
  "peer_set_advert X B p advert s =
     (if \<not> peer_exists X B p s then (Err BackendError, s)
      else bs_replace B s PEER_PREFIX (ser_pubkey X (peer_id p)) (Some PEER_ADVERT) (ser_peer_advert X advert))"

definition peer_update_or_create ::
  "'x net_externs_scheme \<Rightarrow> 'b BrokerStore \<Rightarrow> PeerAdvert \<Rightarrow> 'b \<Rightarrow> (Peer, StorageError, 'b) op" where
  "peer_update_or_create X B advert s =
     (case peer_open X B (peer_advert_peer advert) s of
        Err e \<Rightarrow> if e = StorageError.NotFound then peer_create X B advert s else (Err BackendError, s)
      | Ok p \<Rightarrow> op_then (peer_update_advert X B p advert s) (\<lambda>_ s. (Ok p, s))
      | Panic \<Rightarrow> (Panic, s)
      | Hang \<Rightarrow> (Hang, s))"

definition peer_del ::
  "'x net_externs_scheme \<Rightarrow> 'b BrokerStore \<Rightarrow> Peer \<Rightarrow> 'b \<Rightarrow> (unit, StorageError, 'b) op" where
  "peer_del X B p s = bs_del_all B s PEER_PREFIX (ser_pubkey X (peer_id p)) [PEER_VERSION, PEER_ADVERT]"

section \<open>Topics\<close>

definition TOPIC_PREFIX :: u8 where "TOPIC_PREFIX = 116"
definition TOPIC_ADVERT :: u8 where "TOPIC_ADVERT = 97"
definition TOPIC_HEAD :: u8 where "TOPIC_HEAD = 104"
definition TOPIC_META :: u8 where "TOPIC_META = 109"

lemmas topic_consts [lofire_defs] = TOPIC_PREFIX_def TOPIC_ADVERT_def TOPIC_HEAD_def TOPIC_META_def

record Topic =
  top_id :: TopicId

definition topic_exists :: "'x net_externs_scheme \<Rightarrow> 'b BrokerStore \<Rightarrow> Topic \<Rightarrow> 'b \<Rightarrow> bool" where
  "topic_exists X B t s = is_ok (bs_get B s TOPIC_PREFIX (ser_pubkey X (top_id t)) (Some TOPIC_META))"

definition topic_open :: "'x net_externs_scheme \<Rightarrow> 'b BrokerStore \<Rightarrow> TopicId \<Rightarrow> 'b \<Rightarrow> (Topic, StorageError) result" where
  "topic_open X B i s =
     (let opening = \<lparr>top_id = i\<rparr> in
      if \<not> topic_exists X B opening s then Err StorageError.NotFound else Ok opening)"

definition topic_create ::
  "'x net_externs_scheme \<Rightarrow> 'b BrokerStore \<Rightarrow> TopicId \<Rightarrow> 'b \<Rightarrow> (Topic, StorageError, 'b) op" where
  "topic_create X B i s =
     (let acc = \<lparr>top_id = i\<rparr> in
      if topic_exists X B acc s then (Err BackendError, s)
      else op_then (bs_put B s TOPIC_PREFIX (ser_pubkey X i) (Some TOPIC_META) (ser_topic_meta X \<lparr>tm_users = 0\<rparr>))
        (\<lambda>_ s. (Ok acc, s)))"

definition topic_add_head ::
  "'x net_externs_scheme \<Rightarrow> 'b BrokerStore \<Rightarrow> Topic \<Rightarrow> ObjectId \<Rightarrow> 'b \<Rightarrow> (unit, StorageError, 'b) op" where
  "topic_add_head X B t head s =
     (if \<not> topic_exists X B t s then (Err BackendError, s)
      else bs_put B s TOPIC_PREFIX (ser_pubkey X (top_id t)) (Some TOPIC_HEAD) (ser_digest X head))"

definition topic_remove_head ::
  "'x net_externs_scheme \<Rightarrow> 'b BrokerStore \<Rightarrow> Topic \<Rightarrow> ObjectId \<Rightarrow> 'b \<Rightarrow> (unit, StorageError, 'b) op" where
  "topic_remove_head X B t head s =
     bs_del_property_value B s TOPIC_PREFIX (ser_pubkey X (top_id t)) (Some TOPIC_HEAD) (ser_digest X head)"

definition topic_has_head ::
  "'x net_externs_scheme \<Rightarrow> 'b BrokerStore \<Rightarrow> Topic \<Rightarrow> ObjectId \<Rightarrow> 'b \<Rightarrow> (unit, StorageError) result" where
  "topic_has_head X B t head s =
     bs_has_property_value B s TOPIC_PREFIX (ser_pubkey X (top_id t)) (Some TOPIC_HEAD) (ser_digest X head)"

definition topic_metadata ::
  "'x net_externs_scheme \<Rightarrow> 'b BrokerStore \<Rightarrow> Topic \<Rightarrow> 'b \<Rightarrow> (TopicMeta, StorageError) result" where
  "topic_metadata X B t s =
     read_as (de_topic_meta X) (bs_get B s TOPIC_PREFIX (ser_pubkey X (top_id t)) (Some TOPIC_META))"

definition topic_set_metadata ::
  "'x net_externs_scheme \<Rightarrow> 'b BrokerStore \<Rightarrow> Topic \<Rightarrow> TopicMeta \<Rightarrow> 'b \<Rightarrow> (unit, StorageError, 'b) op" where
  "topic_set_metadata X B t meta s =
     (if \<not> topic_exists X B t s then (Err BackendError, s)
      else bs_replace B s TOPIC_PREFIX (ser_pubkey X (top_id t)) (Some TOPIC_META) (ser_topic_meta X meta))"

definition topic_del ::
  "'x net_externs_scheme \<Rightarrow> 'b BrokerStore \<Rightarrow> Topic \<Rightarrow> 'b \<Rightarrow> (unit, StorageError, 'b) op" where
  "topic_del X B t s =
     bs_del_all B s TOPIC_PREFIX (ser_pubkey X (top_id t)) [TOPIC_ADVERT, TOPIC_HEAD, TOPIC_META]"

section \<open>Keys of the repository stores\<close>

definition REPO_STORE_PREFIX :: u8 where "REPO_STORE_PREFIX = 114"
definition REPO_STORE_KEY :: u8 where "REPO_STORE_KEY = 107"

lemmas repo_store_consts [lofire_defs] = REPO_STORE_PREFIX_def REPO_STORE_KEY_def

record RepoStoreInfo =
  rsi_id :: RepoStoreId

definition repo_store_info_exists :: "'x net_externs_scheme \<Rightarrow> 'b BrokerStore \<Rightarrow> RepoStoreInfo \<Rightarrow> 'b \<Rightarrow> bool" where
  "repo_store_info_exists X B r s =
     is_ok (bs_get B s REPO_STORE_PREFIX (ser_repo_store_id X (rsi_id r)) (Some REPO_STORE_KEY))"

definition repo_store_info_open ::
  "'x net_externs_scheme \<Rightarrow> 'b BrokerStore \<Rightarrow> RepoStoreId \<Rightarrow> 'b \<Rightarrow> (RepoStoreInfo, StorageError) result" where
  "repo_store_info_open X B i s =
     (let opening = \<lparr>rsi_id = i\<rparr> in
      if \<not> repo_store_info_exists X B opening s then Err StorageError.NotFound else Ok opening)"

definition repo_store_info_create ::
  "'x net_externs_scheme \<Rightarrow> 'b BrokerStore \<Rightarrow> RepoStoreId \<Rightarrow> SymKey \<Rightarrow> 'b \<Rightarrow> (RepoStoreInfo, StorageError, 'b) op" where
  "repo_store_info_create X B i key s =
     (let acc = \<lparr>rsi_id = i\<rparr> in
      if repo_store_info_exists X B acc s then (Err BackendError, s)
      else op_then (bs_put B s REPO_STORE_PREFIX (ser_repo_store_id X i) (Some REPO_STORE_KEY) (ser_symkey X key))
        (\<lambda>_ s. (Ok acc, s)))"

definition repo_store_info_key ::
  "'x net_externs_scheme \<Rightarrow> 'b BrokerStore \<Rightarrow> RepoStoreInfo \<Rightarrow> 'b \<Rightarrow> (SymKey, StorageError) result" where
  "repo_store_info_key X B r s =
     read_as (de_symkey X) (bs_get B s REPO_STORE_PREFIX (ser_repo_store_id X (rsi_id r)) (Some REPO_STORE_KEY))"

definition repo_store_info_del ::
  "'x net_externs_scheme \<Rightarrow> 'b BrokerStore \<Rightarrow> RepoStoreInfo \<Rightarrow> 'b \<Rightarrow> (unit, StorageError, 'b) op" where
  "repo_store_info_del X B r s =
     bs_del_all B s REPO_STORE_PREFIX (ser_repo_store_id X (rsi_id r)) [REPO_STORE_KEY]"

section \<open>Configuration\<close>

definition CONFIG_PREFIX :: u8 where "CONFIG_PREFIX = 99"
definition CONFIG_KEY :: bytes where "CONFIG_KEY = [111, 110, 102, 105, 103]"
definition CONFIG_MODE :: u8 where "CONFIG_MODE = 109"

lemmas config_consts [lofire_defs] = CONFIG_PREFIX_def CONFIG_KEY_def CONFIG_MODE_def

definition config_exists :: "'x net_externs_scheme \<Rightarrow> 'b BrokerStore \<Rightarrow> 'b \<Rightarrow> bool" where
  "config_exists X B s = is_ok (bs_get B s CONFIG_PREFIX (ser_config_key X CONFIG_KEY) (Some CONFIG_MODE))"

definition config_open :: "'x net_externs_scheme \<Rightarrow> 'b BrokerStore \<Rightarrow> 'b \<Rightarrow> (unit, StorageError) result" where
  "config_open X B s = (if \<not> config_exists X B s then Err StorageError.NotFound else Ok ())"

definition config_create ::
  "'x net_externs_scheme \<Rightarrow> 'b BrokerStore \<Rightarrow> ConfigMode \<Rightarrow> 'b \<Rightarrow> (unit, StorageError, 'b) op" where
  "config_create X B mode s =
     (if config_exists X B s then (Err BackendError, s)
      else op_then (bs_put B s CONFIG_PREFIX (ser_config_key X CONFIG_KEY) (Some CONFIG_MODE) (ser_config_mode X mode))
        (\<lambda>_ s. (Ok (), s)))"

definition config_mode :: "'x net_externs_scheme \<Rightarrow> 'b BrokerStore \<Rightarrow> 'b \<Rightarrow> (ConfigMode, StorageError) result" where
  "config_mode X B s =
     read_as (de_config_mode X) (bs_get B s CONFIG_PREFIX (ser_config_key X CONFIG_KEY) (Some CONFIG_MODE))"

definition config_get_or_create ::
  "'x net_externs_scheme \<Rightarrow> 'b BrokerStore \<Rightarrow> ConfigMode \<Rightarrow> 'b \<Rightarrow> (unit, StorageError, 'b) op" where
  "config_get_or_create X B mode s =
     (case config_open X B s of
        Err e \<Rightarrow> if e = StorageError.NotFound then config_create X B mode s else (Err BackendError, s)
      | Ok p \<Rightarrow> op_then (unwrap_res (config_mode X B s), s) (\<lambda>m s.
          if m \<noteq> mode then (Err StorageError.InvalidValue, s) else (Ok p, s))
      | Panic \<Rightarrow> (Panic, s)
      | Hang \<Rightarrow> (Hang, s))"

end
