(* ===== verification/Lofire_Net_Instance.thy ===== *)
theory Lofire_Net_Instance
  imports Lofire_Entities
begin

text \<open>
  A concrete instance of the serializers of \<open>net_externs\<close>, for the witnesses: self-delimiting codecs
  for bytes, pairs and lists, carried to the types of the sources by their constructors. No property
  is about these functions.
\<close>

type_synonym 'a codec = "('a \<Rightarrow> bytes) \<times> (bytes \<Rightarrow> ('a \<times> bytes) option)"

definition good_codec :: "'a codec \<Rightarrow> bool" where
  "good_codec c \<longleftrightarrow> (\<forall>a rest. snd c (fst c a @ rest) = Some (a, rest))"

definition decode :: "'a codec \<Rightarrow> bytes \<Rightarrow> 'a option" where
  "decode c bs = map_option fst (snd c bs)"

definition map_codec :: "('b \<Rightarrow> 'a) \<Rightarrow> ('a \<Rightarrow> 'b) \<Rightarrow> 'a codec \<Rightarrow> 'b codec" where
  "map_codec f g c = (\<lambda>b. fst c (f b), \<lambda>bs. map_option (map_prod g (\<lambda>x. x)) (snd c bs))"

definition pair_codec :: "'a codec \<Rightarrow> 'b codec \<Rightarrow> ('a \<times> 'b) codec" where
  "pair_codec c d = (\<lambda>(a, b). fst c a @ fst d b,
     \<lambda>bs. case snd c bs of None \<Rightarrow> None
       | Some (a, bs) \<Rightarrow> map_option (\<lambda>(b, rest). ((a, b), rest)) (snd d bs))"

definition byte_codec :: "u8 codec" where
  "byte_codec = (\<lambda>b. [b], \<lambda>bs. case bs of [] \<Rightarrow> None | b # rest \<Rightarrow> Some (b, rest))"

fun encode_list :: "('a \<Rightarrow> bytes) \<Rightarrow> 'a list \<Rightarrow> bytes" where
  "encode_list e [] = [0]"
| "encode_list e (a # as) = 1 # e a @ encode_list e as"

fun decode_list :: "nat \<Rightarrow> (bytes \<Rightarrow> ('a \<times> bytes) option) \<Rightarrow> bytes \<Rightarrow> ('a list \<times> bytes) option" where
  "decode_list 0 d bs = None"
| "decode_list (Suc n) d [] = None"
| "decode_list (Suc n) d (b # bs) =
     (if b = 0 then Some ([], bs)
      else case d bs of None \<Rightarrow> None
        | Some (a, rest) \<Rightarrow> map_option (map_prod ((#) a) (\<lambda>x. x)) (decode_list n d rest))"

definition list_codec :: "'a codec \<Rightarrow> 'a list codec" where
  "list_codec c = (encode_list (fst c), \<lambda>bs. decode_list (length bs) (snd c) bs)"

lemma decode_encode [simp]: "good_codec c \<Longrightarrow> decode c (fst c a) = Some a"
  unfolding good_codec_def decode_def by (metis append_Nil2 fst_conv option.map(2))

lemma good_map [intro]: "good_codec c \<Longrightarrow> (\<And>b. g (f b) = b) \<Longrightarrow> good_codec (map_codec f g c)"
  by (simp add: good_codec_def map_codec_def)

lemma good_pair [intro]: "good_codec c \<Longrightarrow> good_codec d \<Longrightarrow> good_codec (pair_codec c d)"
  by (simp add: good_codec_def pair_codec_def)

lemma good_byte [intro]: "good_codec byte_codec"
  by (simp add: good_codec_def byte_codec_def)

lemma good_list [intro]:
  fixes c :: "'a codec"
  assumes "good_codec c"
  shows "good_codec (list_codec c)"
proof -
  have "decode_list n (snd c) (encode_list (fst c) xs @ rest) = Some (xs, rest)" if "length xs < n" for n xs rest
    using that
  proof (induction xs arbitrary: n)
    case Nil then show ?case by (cases n) simp_all
  next
    case (Cons x xs)
    with assms show ?case by (cases n) (simp_all add: good_codec_def)
  qed
  moreover have "length xs < length (encode_list e xs @ rest)" for xs :: "'a list" and e and rest :: bytes
    by (induction xs) (simp_all add: less_Suc_eq_le trans_le_add2)
  ultimately show ?thesis by (simp add: good_codec_def list_codec_def del: length_append)
qed

section \<open>The types of the sources\<close>

definition bool_codec :: "bool codec" where
  "bool_codec = map_codec (\<lambda>b. if b then 1 else 0) (\<lambda>b. b = 1) byte_codec"

definition word_codec :: "'w::len word codec" where
  "word_codec = map_codec (\<lambda>w. map (bit w) [0..<LENGTH('w)]) (horner_sum of_bool 2) (list_codec bool_codec)"

definition option_codec :: "'a codec \<Rightarrow> 'a option codec" where
  "option_codec c = map_codec (\<lambda>x. case x of None \<Rightarrow> [] | Some a \<Rightarrow> [a])
     (\<lambda>xs. case xs of [] \<Rightarrow> None | a # _ \<Rightarrow> Some a) (list_codec c)"

definition bytes32_codec :: "bytes32 codec" where
  "bytes32_codec = map_codec bytes_of bytes32_of (list_codec byte_codec)"

lemma good_bool [intro]: "good_codec bool_codec"
  unfolding bool_codec_def by (auto split: if_splits)

lemma good_word [intro]: "good_codec word_codec"
  unfolding word_codec_def by (rule good_map) (auto simp: horner_sum_bit_eq_take_bit)

lemma good_option [intro]: "good_codec c \<Longrightarrow> good_codec (option_codec c)"
  unfolding option_codec_def by (rule good_map) (auto split: option.splits)

lemma good_bytes32 [intro]: "good_codec bytes32_codec"
  unfolding bytes32_codec_def by (rule good_map) auto

lemma length_encode_bytes: "length (encode_list (fst byte_codec) bs) = 2 * length bs + 1"
  by (induction bs) (simp_all add: byte_codec_def)

lemma length_bytes32 [simp]: "length (fst bytes32_codec b) = 65"
  by (simp add: bytes32_codec_def map_codec_def list_codec_def length_encode_bytes)

definition pubkey_codec :: "PubKey codec" where
  "pubkey_codec = map_codec pubkey_slice Ed25519PubKey bytes32_codec"

definition digest_codec :: "Digest codec" where
  "digest_codec = map_codec digest_bytes Blake3Digest32 bytes32_codec"

definition symkey_codec :: "SymKey codec" where
  "symkey_codec = map_codec symkey_slice ChaCha20Key bytes32_codec"

definition sig_codec :: "Sig codec" where
  "sig_codec = map_codec (\<lambda>s. case s of Ed25519Sig p \<Rightarrow> p) Ed25519Sig (pair_codec bytes32_codec bytes32_codec)"

definition ip_codec :: "IP codec" where
  "ip_codec = map_codec (\<lambda>i. case i of IPv4 a \<Rightarrow> (False, a, 0) | IPv6 a \<Rightarrow> (True, (0, 0, 0, 0), a))
     (\<lambda>(six, a, b). if six then IPv6 b else IPv4 a) (pair_codec bool_codec (pair_codec (pair_codec byte_codec (pair_codec byte_codec (pair_codec byte_codec byte_codec))) word_codec))"

definition addr_codec :: "NetAddr codec" where
  "addr_codec = map_codec (\<lambda>a. case a of IPTransport t \<Rightarrow> (ita_ip t, ita_port t, ita_protocol t = QUIC))
     (\<lambda>(i, p, q). IPTransport \<lparr>ita_ip = i, ita_port = p, ita_protocol = if q then QUIC else TLS\<rparr>)
     (pair_codec ip_codec (pair_codec word_codec bool_codec))"

definition advert_content_codec :: "PeerAdvertContentV0 codec" where
  "advert_content_codec = map_codec (\<lambda>c. (pac_peer c, pac_subs c, pac_address c, pac_version c, pac_metadata c))
     (\<lambda>(p, s, a, v, m). \<lparr>pac_peer = p, pac_subs = s, pac_address = a, pac_version = v, pac_metadata = m\<rparr>)
     (pair_codec pubkey_codec (pair_codec (pair_codec bytes32_codec (pair_codec bytes32_codec (pair_codec bytes32_codec bytes32_codec)))
       (pair_codec (list_codec addr_codec) (pair_codec word_codec (list_codec byte_codec)))))"

definition advert_codec :: "PeerAdvert codec" where
  "advert_codec = map_codec (\<lambda>a. case a of PeerAdvert.V0 p \<Rightarrow> (pad_content p, pad_sig p, pad_ttl p))
     (\<lambda>(c, s, t). PeerAdvert.V0 \<lparr>pad_content = c, pad_sig = s, pad_ttl = t\<rparr>)
     (pair_codec advert_content_codec (pair_codec sig_codec byte_codec))"

definition overlay_meta_codec :: "OverlayMeta codec" where
  "overlay_meta_codec = map_codec (\<lambda>m. (ovm_users m, ovm_last_used m))
     (\<lambda>(u, l). \<lparr>ovm_users = u, ovm_last_used = l\<rparr>) (pair_codec word_codec word_codec)"

definition topic_meta_codec :: "TopicMeta codec" where
  "topic_meta_codec = map_codec tm_users (\<lambda>u. \<lparr>tm_users = u\<rparr>) word_codec"

definition repo_store_id_codec :: "RepoStoreId codec" where
  "repo_store_id_codec = map_codec
     (\<lambda>i. case i of Overlay o' \<Rightarrow> (False, digest_bytes o') | Repo k \<Rightarrow> (True, pubkey_slice k))
     (\<lambda>(r, b). if r then Repo (Ed25519PubKey b) else Overlay (Blake3Digest32 b)) (pair_codec bool_codec bytes32_codec)"

definition config_mode_codec :: "ConfigMode codec" where
  "config_mode_codec = map_codec (\<lambda>m. m = Core) (\<lambda>b. if b then Core else Local) bool_codec"

lemma pubkey_of_slice [simp]: "Ed25519PubKey (pubkey_slice k) = k"
  by (cases k) simp

lemma symkey_of_slice [simp]: "ChaCha20Key (symkey_slice k) = k"
  by (cases k) simp

lemma not_QUIC [simp]: "p \<noteq> QUIC \<longleftrightarrow> p = TLS"
  by (cases p) auto

lemma not_Core [simp]: "m \<noteq> Core \<longleftrightarrow> m = Local"
  by (cases m) auto

lemma good_ip [intro]: "good_codec ip_codec"
  unfolding ip_codec_def by (intro good_map good_pair good_bool good_word good_byte) (auto split: IP.splits)

lemma good_addr [intro]: "good_codec addr_codec"
  unfolding addr_codec_def by (rule good_map) (auto split: NetAddr.splits)

lemma good_keys [intro]: "good_codec pubkey_codec" "good_codec digest_codec" "good_codec symkey_codec" "good_codec sig_codec"
  unfolding pubkey_codec_def digest_codec_def symkey_codec_def sig_codec_def
  by (intro good_map good_pair good_bytes32; simp split: Sig.splits)+

lemma good_advert [intro]: "good_codec advert_codec"
  unfolding advert_codec_def advert_content_codec_def
  by (intro good_map good_pair) (auto split: PeerAdvert.splits)

lemma good_metas [intro]: "good_codec overlay_meta_codec" "good_codec topic_meta_codec" "good_codec repo_store_id_codec"
    "good_codec config_mode_codec"
  unfolding overlay_meta_codec_def topic_meta_codec_def repo_store_id_codec_def config_mode_codec_def
  by (intro good_map good_pair good_word good_bool good_bytes32; auto split: RepoStoreId.splits)+

section \<open>The instance\<close>

definition demo_net :: net_externs where
  "demo_net = externs.extend demo_externs \<lparr>
     ser_pubkey = fst pubkey_codec, de_pubkey = decode pubkey_codec,
     ser_digest = fst digest_codec,
     ser_symkey = fst symkey_codec, de_symkey = decode symkey_codec,
     ser_bool = fst bool_codec,
     ser_u32 = fst word_codec, de_u32 = decode word_codec,
     ser_overlay_meta = fst overlay_meta_codec, de_overlay_meta = decode overlay_meta_codec,
     ser_topic_meta = fst topic_meta_codec, de_topic_meta = decode topic_meta_codec,
     ser_peer_advert = fst advert_codec, de_peer_advert = decode advert_codec,
     ser_repo_store_id = fst repo_store_id_codec,
     ser_config_mode = fst config_mode_codec, de_config_mode = decode config_mode_codec,
     ser_config_key = (\<lambda>k. k)\<rparr>"

lemma inj_codec: "good_codec c \<Longrightarrow> inj (fst c)"
  by (intro inj_on_inverseI [where g = "the \<circ> decode c"]) simp

lemma length_codec [simp]:
  "length (fst pubkey_codec p) = 65" "length (fst digest_codec d) = 65" "length (fst repo_store_id_codec r) = 66"
  by (simp_all add: pubkey_codec_def digest_codec_def repo_store_id_codec_def map_codec_def pair_codec_def
      bool_codec_def byte_codec_def split: prod.splits)

lemma demo_net_codec [simp]: "net_codec demo_net"
  unfolding net_codec_def demo_net_def
  by (simp add: externs.defs inj_codec good_keys good_word good_bool good_metas good_advert)

end
