(* ===== verification/Lofire_Accounts.thy ===== *)
theory Lofire_Accounts
  imports Lofire_Net_Instance
begin

text \<open>
  The contract of the accounts of \<^verbatim>\<open>account.rs\<close>: a table from users to an admin flag, a set of clients
  and a set of overlays. Every operation over a lawful property store answers as the table does; the
  lemmas are in the locale \<open>broker_store\<close>, the property is about the LMDB store.
\<close>

section \<open>Keys of properties\<close>

lemma net_codecD:
  assumes "net_codec X"
  shows "de_pubkey X (ser_pubkey X a) = Some a" "inj (ser_digest X)" "de_symkey X (ser_symkey X k) = Some k"
    "inj (ser_bool X)" "de_u32 X (ser_u32 X n) = Some n" "de_overlay_meta X (ser_overlay_meta X om) = Some om"
    "de_topic_meta X (ser_topic_meta X tm) = Some tm" "de_peer_advert X (ser_peer_advert X ad) = Some ad"
    "inj (ser_repo_store_id X)" "de_config_mode X (ser_config_mode X cm) = Some cm"
    "length (ser_pubkey X p) = length (ser_pubkey X p')" "length (ser_digest X d) = length (ser_digest X d')"
    "length (ser_repo_store_id X r) = length (ser_repo_store_id X r')"
  using assms unfolding net_codec_def by blast+

lemma net_codec_inj:
  assumes "net_codec X"
  shows "inj (ser_pubkey X)" "inj (ser_digest X)" "inj (ser_bool X)" "inj (ser_repo_store_id X)" "inj (ser_symkey X)"
  using net_codecD(2,4,9) [OF assms] by (auto intro: inj_on_inverseI [where g = "the \<circ> de_pubkey X"]
    inj_on_inverseI [where g = "the \<circ> de_symkey X"] simp: net_codecD [OF assms])

lemma net_codec_inject:
  assumes "net_codec X"
  shows "ser_pubkey X p = ser_pubkey X p' \<longleftrightarrow> p = p'" "ser_digest X d = ser_digest X d' \<longleftrightarrow> d = d'"
    "ser_bool X b = ser_bool X b' \<longleftrightarrow> b = b'" "ser_repo_store_id X r = ser_repo_store_id X r' \<longleftrightarrow> r = r'"
    "ser_symkey X k = ser_symkey X k' \<longleftrightarrow> k = k'"
  using net_codec_inj [OF assms] by (simp_all add: inj_eq)

lemma property_key_eq:
  assumes "net_codec X"
  shows pubkey_property_eq: "compute_property p (ser_pubkey X a) (Some x) = compute_property p' (ser_pubkey X a') (Some x')
      \<longleftrightarrow> p = p' \<and> a = a' \<and> x = x'"
    and digest_property_eq: "compute_property p (ser_digest X d) (Some x) = compute_property p' (ser_digest X d') (Some x')
      \<longleftrightarrow> p = p' \<and> d = d' \<and> x = x'"
    and repo_store_property_eq:
      "compute_property p (ser_repo_store_id X r) (Some x) = compute_property p' (ser_repo_store_id X r') (Some x')
      \<longleftrightarrow> p = p' \<and> r = r' \<and> x = x'"
  by (simp_all add: compute_property_eq [OF net_codecD(11) [OF assms]] compute_property_eq [OF net_codecD(12) [OF assms]]
      compute_property_eq [OF net_codecD(13) [OF assms]] net_codec_inject [OF assms])

section \<open>The table of accounts\<close>

record AccountEntry =
  ae_admin :: "bool option"
  ae_clients :: "ClientId set"
  ae_overlays :: "OverlayId set"

type_synonym accounts = "UserId \<Rightarrow> AccountEntry"

definition no_account :: AccountEntry where
  "no_account = \<lparr>ae_admin = None, ae_clients = {}, ae_overlays = {}\<rparr>"

datatype AccountCall =
    CreateAccount UserId bool | OpenAccount UserId | IsAdmin UserId | DelAccount UserId
  | AddClient UserId ClientId | RemoveClient UserId ClientId | HasClient UserId ClientId
  | AddOverlay UserId OverlayId | RemoveOverlay UserId OverlayId | HasOverlay UserId OverlayId

text \<open>A call on the code, its unit answers read as \<^verbatim>\<open>true\<close>.\<close>

fun answered :: "('a, 'e) result \<Rightarrow> (bool, 'e) result" where
  "answered r = and_then r (\<lambda>_. Ok True)"

primrec account_call ::
  "'x net_externs_scheme \<Rightarrow> 'b BrokerStore \<Rightarrow> AccountCall \<Rightarrow> 'b \<Rightarrow> (bool, StorageError, 'b) op" where
  "account_call X B (CreateAccount i admin) s = apfst answered (account_create X B i admin s)"
| "account_call X B (OpenAccount i) s = (answered (account_open X B i s), s)"
| "account_call X B (IsAdmin i) s = (account_is_admin X B \<lparr>acc_id = i\<rparr> s, s)"
| "account_call X B (DelAccount i) s = apfst answered (account_del X B \<lparr>acc_id = i\<rparr> s)"
| "account_call X B (AddClient i c) s = apfst answered (account_add_client X B \<lparr>acc_id = i\<rparr> c s)"
| "account_call X B (RemoveClient i c) s = apfst answered (account_remove_client X B \<lparr>acc_id = i\<rparr> c s)"
| "account_call X B (HasClient i c) s = (answered (account_has_client X B \<lparr>acc_id = i\<rparr> c s), s)"
| "account_call X B (AddOverlay i ov) s = apfst answered (account_add_overlay X B \<lparr>acc_id = i\<rparr> ov s)"
| "account_call X B (RemoveOverlay i ov) s = apfst answered (account_remove_overlay X B \<lparr>acc_id = i\<rparr> ov s)"
| "account_call X B (HasOverlay i ov) s = (answered (account_has_overlay X B \<lparr>acc_id = i\<rparr> ov s), s)"

text \<open>
  What the table allows: removing what is not there, and deleting an account that lacks one of its
  three properties, may be reported as an error by the database, in the second case with only some of
  the properties removed.
\<close>

definition entry_shrinks :: "AccountEntry \<Rightarrow> AccountEntry \<Rightarrow> bool" where
  "entry_shrinks e e' \<longleftrightarrow> ae_admin e' \<in> {ae_admin e, None} \<and> ae_clients e' \<in> {ae_clients e, {}}
     \<and> ae_overlays e' \<in> {ae_overlays e, {}}"

primrec account_spec :: "AccountCall \<Rightarrow> accounts \<Rightarrow> (bool, StorageError) result \<Rightarrow> accounts \<Rightarrow> bool" where
  "account_spec (CreateAccount i admin) t r t' \<longleftrightarrow>
     (if ae_admin (t i) = None then r = Ok True \<and> t' = t(i := (t i)\<lparr>ae_admin := Some admin\<rparr>)
      else r = Err BackendError \<and> t' = t)"
| "account_spec (OpenAccount i) t r t' \<longleftrightarrow>
     t' = t \<and> r = (if ae_admin (t i) = None then Err StorageError.NotFound else Ok True)"
| "account_spec (IsAdmin i) t r t' \<longleftrightarrow> t' = t \<and> r = Ok (ae_admin (t i) = Some True)"
| "account_spec (DelAccount i) t r t' \<longleftrightarrow>
     r = Ok True \<and> t' = t(i := no_account)
     \<or> r = Err BackendError \<and> (ae_admin (t i) = None \<or> ae_clients (t i) = {} \<or> ae_overlays (t i) = {})
       \<and> entry_shrinks (t i) (t' i) \<and> t' = t(i := t' i)"
| "account_spec (AddClient i c) t r t' \<longleftrightarrow>
     (if ae_admin (t i) = None then r = Err BackendError \<and> t' = t
      else r = Ok True \<and> t' = t(i := (t i)\<lparr>ae_clients := insert c (ae_clients (t i))\<rparr>))"
| "account_spec (RemoveClient i c) t r t' \<longleftrightarrow>
     (r = Ok True \<or> c \<notin> ae_clients (t i) \<and> r = Err BackendError)
     \<and> t' = t(i := (t i)\<lparr>ae_clients := ae_clients (t i) - {c}\<rparr>)"
| "account_spec (HasClient i c) t r t' \<longleftrightarrow>
     t' = t \<and> r = (if c \<in> ae_clients (t i) then Ok True else Err StorageError.NotFound)"
| "account_spec (AddOverlay i ov) t r t' \<longleftrightarrow>
     (if ae_admin (t i) = None then r = Err BackendError \<and> t' = t
      else r = Ok True \<and> t' = t(i := (t i)\<lparr>ae_overlays := insert ov (ae_overlays (t i))\<rparr>))"
| "account_spec (RemoveOverlay i ov) t r t' \<longleftrightarrow>
     (r = Ok True \<or> ov \<notin> ae_overlays (t i) \<and> r = Err BackendError)
     \<and> t' = t(i := (t i)\<lparr>ae_overlays := ae_overlays (t i) - {ov}\<rparr>)"
| "account_spec (HasOverlay i ov) t r t' \<longleftrightarrow>
     t' = t \<and> r = (if ov \<in> ae_overlays (t i) then Ok True else Err StorageError.NotFound)"

text \<open>The table that a store represents.\<close>

definition account_rel :: "'x net_externs_scheme \<Rightarrow> (bytes \<Rightarrow> bytes set) \<Rightarrow> accounts \<Rightarrow> bool" where
  "account_rel X v t \<longleftrightarrow> (\<forall>i.
     v (compute_property ACCOUNT_PREFIX (ser_pubkey X i) (Some ACCOUNT_ADMIN)) = ser_bool X ` set_option (ae_admin (t i))
   \<and> v (compute_property ACCOUNT_PREFIX (ser_pubkey X i) (Some ACCOUNT_CLIENT)) = ser_pubkey X ` ae_clients (t i)
   \<and> v (compute_property ACCOUNT_PREFIX (ser_pubkey X i) (Some ACCOUNT_OVERLAY)) = ser_digest X ` ae_overlays (t i))"

lemma account_relD:
  assumes "account_rel X v t"
  shows "v (compute_property ACCOUNT_PREFIX (ser_pubkey X i) (Some ACCOUNT_ADMIN)) = ser_bool X ` set_option (ae_admin (t i))"
    "v (compute_property ACCOUNT_PREFIX (ser_pubkey X i) (Some ACCOUNT_CLIENT)) = ser_pubkey X ` ae_clients (t i)"
    "v (compute_property ACCOUNT_PREFIX (ser_pubkey X i) (Some ACCOUNT_OVERLAY)) = ser_digest X ` ae_overlays (t i)"
  using assms by (simp_all add: account_rel_def)

lemma account_suffixes [simp]:
  "ACCOUNT_ADMIN \<noteq> ACCOUNT_CLIENT" "ACCOUNT_ADMIN \<noteq> ACCOUNT_OVERLAY" "ACCOUNT_CLIENT \<noteq> ACCOUNT_OVERLAY"
  "ACCOUNT_CLIENT \<noteq> ACCOUNT_ADMIN" "ACCOUNT_OVERLAY \<noteq> ACCOUNT_ADMIN" "ACCOUNT_OVERLAY \<noteq> ACCOUNT_CLIENT"
  by (simp_all add: account_consts)

lemma account_rel_update:
  assumes "net_codec X" "account_rel X v t"
  shows "account_rel X (v(compute_property ACCOUNT_PREFIX (ser_pubkey X i) (Some ACCOUNT_ADMIN) := ser_bool X ` set_option a))
      (t(i := (t i)\<lparr>ae_admin := a\<rparr>))"
    and "account_rel X (v(compute_property ACCOUNT_PREFIX (ser_pubkey X i) (Some ACCOUNT_CLIENT) := ser_pubkey X ` cs))
      (t(i := (t i)\<lparr>ae_clients := cs\<rparr>))"
    and "account_rel X (v(compute_property ACCOUNT_PREFIX (ser_pubkey X i) (Some ACCOUNT_OVERLAY) := ser_digest X ` os))
      (t(i := (t i)\<lparr>ae_overlays := os\<rparr>))"
  using assms(2) by (auto simp: account_rel_def pubkey_property_eq [OF assms(1)])

section \<open>Every operation follows the table\<close>

context broker_store
begin

lemma account_exists_iff:
  "invar s \<Longrightarrow> account_rel X (vals s) t \<Longrightarrow> account_exists X B \<lparr>acc_id = i\<rparr> s \<longleftrightarrow> ae_admin (t i) \<noteq> None"
  using account_relD(1) [of X "vals s" t i] by (cases "ae_admin (t i)") (simp_all add: account_exists_def get_ok_iff)

lemma put_add:
  assumes "invar s" "vals s (compute_property p k x) = f ` S"
  obtains s' where "bs_put B s p k x (f a) = (Ok (), s')" "invar s'"
    "vals s' = (vals s)(compute_property p k x := f ` insert a S)"
  using put [OF assms(1), of p k x "f a"] assms(2) by auto

lemma del_value_minus:
  assumes "invar s" "vals s (compute_property p k x) = f ` S" "inj f"
  obtains r s' where "bs_del_property_value B s p k x (f a) = (r, s')" "invar s'"
    "r = Ok () \<or> a \<notin> S \<and> r = Err BackendError" "vals s' = (vals s)(compute_property p k x := f ` (S - {a}))"
proof -
  from assms(2,3) have "f ` S - {f a} = f ` (S - {a})" "f a \<in> f ` S \<longleftrightarrow> a \<in> S" by (auto simp: inj_eq)
  with that del_value [OF assms(1), of p k x "f a"] assms(2) show thesis by auto
qed

lemma account_create_follows:
  assumes "net_codec X" "invar s" "account_rel X (vals s) t"
  shows "\<exists>r s' t'. account_call X B (CreateAccount i admin) s = (r, s') \<and> account_spec (CreateAccount i admin) t r t'
    \<and> invar s' \<and> account_rel X (vals s') t'"
proof (cases "ae_admin (t i) = None")
  case True
  with account_relD(1) [OF assms(3), of i] have "vals s (compute_property ACCOUNT_PREFIX (ser_pubkey X i) (Some ACCOUNT_ADMIN)) = ser_bool X ` {}"
    by simp
  from put_add [OF assms(2) this, of admin] obtain s' where
    s': "bs_put B s ACCOUNT_PREFIX (ser_pubkey X i) (Some ACCOUNT_ADMIN) (ser_bool X admin) = (Ok (), s')" "invar s'"
      "vals s' = (vals s)(compute_property ACCOUNT_PREFIX (ser_pubkey X i) (Some ACCOUNT_ADMIN) := ser_bool X ` {admin})"
    by blast
  with account_rel_update(1) [OF assms(1,3), of i "Some admin"] True account_exists_iff [OF assms(2,3), of i]
  show ?thesis by (simp add: account_create_def)
qed (use assms account_exists_iff [OF assms(2,3), of i] in \<open>simp add: account_create_def\<close>)

lemma account_reads_follow:
  assumes "net_codec X" "invar s" "account_rel X (vals s) t"
  shows "account_spec (OpenAccount i) t (fst (account_call X B (OpenAccount i) s)) t"
    and "account_spec (IsAdmin i) t (fst (account_call X B (IsAdmin i) s)) t"
    and "account_spec (HasClient i c) t (fst (account_call X B (HasClient i c) s)) t"
    and "account_spec (HasOverlay i ov) t (fst (account_call X B (HasOverlay i ov) s)) t"
  using account_exists_iff [OF assms(2,3), of i] account_relD [OF assms(3), of i] net_codec_inj [OF assms(1)]
  by (auto simp: account_open_def account_is_admin_def account_has_client_def account_has_overlay_def
      has_value [OF assms(2)] inj_image_mem_iff inj_eq)

lemma account_adds_follow:
  assumes "net_codec X" "invar s" "account_rel X (vals s) t" "call \<in> {AddClient i c, AddOverlay i ov}"
  shows "\<exists>r s' t'. account_call X B call s = (r, s') \<and> account_spec call t r t' \<and> invar s' \<and> account_rel X (vals s') t'"
proof (cases "ae_admin (t i) = None")
  case False
  note rel = account_relD [OF assms(3), of i]
  from put_add [OF assms(2) rel(2), of c] put_add [OF assms(2) rel(3), of ov] obtain s1 s2 where
    "bs_put B s ACCOUNT_PREFIX (ser_pubkey X i) (Some ACCOUNT_CLIENT) (ser_pubkey X c) = (Ok (), s1)" "invar s1"
    "vals s1 = (vals s)(compute_property ACCOUNT_PREFIX (ser_pubkey X i) (Some ACCOUNT_CLIENT)
       := ser_pubkey X ` insert c (ae_clients (t i)))"
    "bs_put B s ACCOUNT_PREFIX (ser_pubkey X i) (Some ACCOUNT_OVERLAY) (ser_digest X ov) = (Ok (), s2)" "invar s2"
    "vals s2 = (vals s)(compute_property ACCOUNT_PREFIX (ser_pubkey X i) (Some ACCOUNT_OVERLAY)
       := ser_digest X ` insert ov (ae_overlays (t i)))" by metis
  with account_rel_update(2) [OF assms(1,3), of i "insert c (ae_clients (t i))"]
    account_rel_update(3) [OF assms(1,3), of i "insert ov (ae_overlays (t i))"]
    False account_exists_iff [OF assms(2,3), of i] assms(4)
  show ?thesis by (auto simp: account_add_client_def account_add_overlay_def)
qed (use assms account_exists_iff [OF assms(2,3), of i] in \<open>auto simp: account_add_client_def account_add_overlay_def\<close>)

lemma account_removes_follow:
  assumes "net_codec X" "invar s" "account_rel X (vals s) t" "call \<in> {RemoveClient i c, RemoveOverlay i ov}"
  shows "\<exists>r s' t'. account_call X B call s = (r, s') \<and> account_spec call t r t' \<and> invar s' \<and> account_rel X (vals s') t'"
proof -
  note rel = account_relD [OF assms(3), of i]
  from del_value_minus [OF assms(2) rel(2) net_codec_inj(1) [OF assms(1)], of c] obtain r1 s1 where
    "bs_del_property_value B s ACCOUNT_PREFIX (ser_pubkey X i) (Some ACCOUNT_CLIENT) (ser_pubkey X c) = (r1, s1)"
    "invar s1" "r1 = Ok () \<or> c \<notin> ae_clients (t i) \<and> r1 = Err BackendError"
    "vals s1 = (vals s)(compute_property ACCOUNT_PREFIX (ser_pubkey X i) (Some ACCOUNT_CLIENT)
       := ser_pubkey X ` (ae_clients (t i) - {c}))" .
  moreover from del_value_minus [OF assms(2) rel(3) net_codec_inj(2) [OF assms(1)], of ov] obtain r2 s2 where
    "bs_del_property_value B s ACCOUNT_PREFIX (ser_pubkey X i) (Some ACCOUNT_OVERLAY) (ser_digest X ov) = (r2, s2)"
    "invar s2" "r2 = Ok () \<or> ov \<notin> ae_overlays (t i) \<and> r2 = Err BackendError"
    "vals s2 = (vals s)(compute_property ACCOUNT_PREFIX (ser_pubkey X i) (Some ACCOUNT_OVERLAY)
       := ser_digest X ` (ae_overlays (t i) - {ov}))" .
  ultimately show ?thesis
    using account_rel_update(2) [OF assms(1,3), of i "ae_clients (t i) - {c}"]
      account_rel_update(3) [OF assms(1,3), of i "ae_overlays (t i) - {ov}"] assms(4)
    by (auto simp: account_remove_client_def account_remove_overlay_def)
qed

lemma account_del_follows:
  assumes "net_codec X" "invar s" "account_rel X (vals s) t"
  shows "\<exists>r s' t'. account_call X B (DelAccount i) s = (r, s') \<and> account_spec (DelAccount i) t r t'
    \<and> invar s' \<and> account_rel X (vals s') t'"
proof -
  let ?k = "ser_pubkey X i" and ?xs = "[ACCOUNT_CLIENT, ACCOUNT_ADMIN, ACCOUNT_OVERLAY]"
  let ?q = "\<lambda>x. compute_property ACCOUNT_PREFIX ?k (Some x)"
  note rel = account_relD [OF assms(3)]
  from del_all [OF assms(2), of ?xs ACCOUNT_PREFIX ?k] obtain r s' where
    r: "bs_del_all B s ACCOUNT_PREFIX ?k ?xs = (r, s')" "invar s'"
      "r = Ok () \<or> (\<exists>x \<in> set ?xs. vals s (?q x) = {}) \<and> r = Err BackendError"
    and v: "\<forall>q. vals s' q = vals s q \<or> vals s' q = {} \<and> q \<in> ?q ` set ?xs"
      "r = Ok () \<longrightarrow> (\<forall>x \<in> set ?xs. vals s' (?q x) = {})" by auto
  define e where "e = \<lparr>ae_admin = if vals s' (?q ACCOUNT_ADMIN) = {} then None else ae_admin (t i),
    ae_clients = if vals s' (?q ACCOUNT_CLIENT) = {} then {} else ae_clients (t i),
    ae_overlays = if vals s' (?q ACCOUNT_OVERLAY) = {} then {} else ae_overlays (t i)\<rparr>"
  have other: "vals s' (compute_property ACCOUNT_PREFIX (ser_pubkey X j) (Some x))
      = vals s (compute_property ACCOUNT_PREFIX (ser_pubkey X j) (Some x))" if "j \<noteq> i" for j x
    using v(1) [rule_format, of "compute_property ACCOUNT_PREFIX (ser_pubkey X j) (Some x)"] that
    by (auto simp: pubkey_property_eq [OF assms(1)])
  have "account_rel X (vals s') (t(i := e))"
    unfolding account_rel_def
  proof (intro allI)
    fix j
    show "vals s' (compute_property ACCOUNT_PREFIX (ser_pubkey X j) (Some ACCOUNT_ADMIN)) = ser_bool X ` set_option (ae_admin ((t(i := e)) j))
      \<and> vals s' (compute_property ACCOUNT_PREFIX (ser_pubkey X j) (Some ACCOUNT_CLIENT)) = ser_pubkey X ` ae_clients ((t(i := e)) j)
      \<and> vals s' (compute_property ACCOUNT_PREFIX (ser_pubkey X j) (Some ACCOUNT_OVERLAY)) = ser_digest X ` ae_overlays ((t(i := e)) j)"
    proof (cases "j = i")
      case True
      with v(1) [rule_format, of "?q ACCOUNT_ADMIN"] v(1) [rule_format, of "?q ACCOUNT_CLIENT"]
        v(1) [rule_format, of "?q ACCOUNT_OVERLAY"] show ?thesis by (auto simp: e_def rel)
    qed (simp add: other rel)
  qed
  moreover have "account_spec (DelAccount i) t (answered r) (t(i := e))"
    using r(3) v(2) rel [of i] by (auto simp: e_def no_account_def entry_shrinks_def)
  moreover have "account_call X B (DelAccount i) s = (answered r, s')" using r(1) by (simp add: account_del_def)
  ultimately show ?thesis using r(2) by blast
qed

lemma account_call_follows:
  assumes "net_codec X" "invar s" "account_rel X (vals s) t"
  shows "\<exists>r s' t'. account_call X B call s = (r, s') \<and> account_spec call t r t' \<and> invar s' \<and> account_rel X (vals s') t'"
proof -
  note reads = account_reads_follow [OF assms]
  show ?thesis
  proof (cases call)
    case (OpenAccount i) with reads(1) [of i] assms show ?thesis by (intro exI [of _ "fst (account_call X B call s)"] exI [of _ s] exI [of _ t]) simp
  next
    case (IsAdmin i) with reads(2) [of i] assms show ?thesis by (intro exI [of _ "fst (account_call X B call s)"] exI [of _ s] exI [of _ t]) simp
  next
    case (HasClient i c) with reads(3) [of i c] assms show ?thesis by (intro exI [of _ "fst (account_call X B call s)"] exI [of _ s] exI [of _ t]) simp
  next
    case (HasOverlay i c) with reads(4) [of i c] assms show ?thesis by (intro exI [of _ "fst (account_call X B call s)"] exI [of _ s] exI [of _ t]) simp
  qed (use account_create_follows [OF assms] account_del_follows [OF assms] account_adds_follow [OF assms]
      account_removes_follow [OF assms] in blast)+
qed

end

section \<open>Sequences of calls\<close>

fun account_calls ::
  "'x net_externs_scheme \<Rightarrow> 'b BrokerStore \<Rightarrow> AccountCall list \<Rightarrow> 'b \<Rightarrow> (bool, StorageError) result list" where
  "account_calls X B [] s = []"
| "account_calls X B (call # cs) s = (let (r, s') = account_call X B call s in r # account_calls X B cs s')"

inductive account_trace :: "accounts \<Rightarrow> AccountCall list \<Rightarrow> (bool, StorageError) result list \<Rightarrow> bool" where
  stop: "account_trace t [] []"
| step: "account_spec call t r t' \<Longrightarrow> account_trace t' cs rs \<Longrightarrow> account_trace t (call # cs) (r # rs)"

inductive_cases account_trace_ConsE: "account_trace t (call # cs) rs"

inductive_cases account_trace_NilE: "account_trace t [] rs"

lemma account_trace_follows:
  assumes "broker_store B invar vals" "net_codec X" "invar s" "account_rel X (vals s) t"
  shows "account_trace t cs (account_calls X B cs s)"
  using assms(3,4)
proof (induction cs arbitrary: s t)
  case (Cons call cs)
  from broker_store.account_call_follows [OF assms(1,2) Cons.prems, of call] obtain r s' t' where
    "account_call X B call s = (r, s')" "account_spec call t r t'" "invar s'" "account_rel X (vals s') t'" by blast
  with Cons.IH [of s' t'] show ?case by (simp add: account_trace.step)
qed (simp add: account_trace.stop)

section \<open>Property\<close>

lemma account_rel_empty [simp]: "account_rel X (list_vals (\<lambda>_. [])) (\<lambda>_. no_account)"
  by (simp add: account_rel_def list_vals_def no_account_def)

text \<open>
  C34. Accounts follow their table: any sequence of calls of \<^verbatim>\<open>Account\<close> on an LMDB store that represents a
  table of accounts is answered as the table answers it, whichever accounts the calls are about: an
  account is created once, its clients and overlays are what was added and not removed, only existing
  accounts can be added to, and \<^verbatim>\<open>is_admin\<close> is the flag given at creation.
\<close>

theorem account_refines_table:
  assumes "lmdb_ok R good vals d" "net_codec X" "account_rel X (vals d) t"
  shows "account_trace t calls (account_calls X (lmdb_broker R) calls d)"
  by (rule account_trace_follows [OF lmdb.broker_store_axioms assms(2,1,3)])

theorem account_refines_table_witness:
  "account_calls demo_net (lmdb_broker list_rkv)
     [CreateAccount demo_pubkey True, AddClient demo_pubkey demo_pubkey, HasClient demo_pubkey demo_pubkey,
      IsAdmin demo_pubkey, CreateAccount demo_pubkey False, HasOverlay demo_pubkey (demo_id 1)] (\<lambda>_. [])
   = [Ok True, Ok True, Ok True, Ok True, Err BackendError, Err StorageError.NotFound]"
proof -
  have "lmdb_ok list_rkv list_db_ok list_vals (\<lambda>_. [])" by simp
  note trace = account_refines_table [where vals = list_vals and d = "\<lambda>_. []", OF this demo_net_codec account_rel_empty]
  from trace [of "[CreateAccount demo_pubkey True, AddClient demo_pubkey demo_pubkey, HasClient demo_pubkey demo_pubkey,
      IsAdmin demo_pubkey, CreateAccount demo_pubkey False, HasOverlay demo_pubkey (demo_id 1)]"]
  show ?thesis
    by (auto elim!: account_trace_ConsE account_trace_NilE simp: no_account_def)
qed

end
