(* ===== verification/Lofire_Peers.thy ===== *)
theory Lofire_Peers
  imports Lofire_Accounts
begin

text \<open>
  The contracts of the other entities of the broker: peers (\<^verbatim>\<open>peer.rs\<close>) as a table of the version first
  seen and the newest advert, overlays (\<^verbatim>\<open>overlay.rs\<close>) and the configuration (\<^verbatim>\<open>config.rs\<close>).
\<close>

section \<open>Reads\<close>

lemma read_as_Ok [simp]: "read_as de (Ok v) = ok_or StorageError.SerializationError (de v)"
  "read_as de (Err e) = Err e"
  by (simp_all add: read_as_def)

section \<open>Peers\<close>

type_synonym peers = "PeerId \<Rightarrow> (u32 \<times> PeerAdvert) option"

abbreviation version_prop :: "'x net_externs_scheme \<Rightarrow> PeerId \<Rightarrow> bytes" where
  "version_prop X p \<equiv> compute_property PEER_PREFIX (ser_pubkey X p) (Some PEER_VERSION)"

abbreviation advert_prop :: "'x net_externs_scheme \<Rightarrow> PeerId \<Rightarrow> bytes" where
  "advert_prop X p \<equiv> compute_property PEER_PREFIX (ser_pubkey X p) (Some PEER_ADVERT)"

definition peer_rel :: "'x net_externs_scheme \<Rightarrow> (bytes \<Rightarrow> bytes set) \<Rightarrow> peers \<Rightarrow> bool" where
  "peer_rel X v t \<longleftrightarrow> (\<forall>p.
     v (version_prop X p) = (case t p of None \<Rightarrow> {} | Some (n, a) \<Rightarrow> {ser_u32 X n})
   \<and> v (advert_prop X p) = (case t p of None \<Rightarrow> {} | Some (n, a) \<Rightarrow> {ser_peer_advert X a}))"

text \<open>What \<^verbatim>\<open>update_or_create\<close> does to the table.\<close>

definition peer_step :: "PeerAdvert \<Rightarrow> peers \<Rightarrow> peers" where
  "peer_step a t = t(peer_advert_peer a \<mapsto> (case t (peer_advert_peer a) of
       None \<Rightarrow> (peer_advert_version a, a)
     | Some (n, b) \<Rightarrow> (n, if peer_advert_version a \<le> peer_advert_version b then b else a)))"

lemma peer_suffixes [simp]: "PEER_VERSION \<noteq> PEER_ADVERT" "PEER_ADVERT \<noteq> PEER_VERSION"
  by (simp_all add: peer_consts)

lemma peer_relD:
  assumes "peer_rel X v t"
  shows "t p = None \<Longrightarrow> v (version_prop X p) = {} \<and> v (advert_prop X p) = {}"
    and "t p = Some (n, a) \<Longrightarrow> v (version_prop X p) = {ser_u32 X n} \<and> v (advert_prop X p) = {ser_peer_advert X a}"
  using assms by (simp_all add: peer_rel_def)

lemma peer_rel_update:
  assumes "net_codec X" "peer_rel X v t"
  shows "peer_rel X (v(version_prop X p := {ser_u32 X n}, advert_prop X p := {ser_peer_advert X a})) (t(p \<mapsto> (n, a)))"
    and "t p = Some (n, b) \<Longrightarrow> peer_rel X (v(advert_prop X p := {ser_peer_advert X a})) (t(p \<mapsto> (n, a)))"
  using assms(2) by (auto simp: peer_rel_def pubkey_property_eq [OF assms(1)])

context broker_store
begin

lemma peer_reads:
  assumes "net_codec X" "invar s" "peer_rel X (vals s) t"
  shows "t p = None \<Longrightarrow> peer_open X B p s = Err StorageError.NotFound"
    and "t p = Some (n, a) \<Longrightarrow> peer_open X B p s = Ok \<lparr>peer_id = p\<rparr> \<and> peer_exists X B \<lparr>peer_id = p\<rparr> s
      \<and> peer_version X B \<lparr>peer_id = p\<rparr> s = Ok n \<and> peer_advert X B \<lparr>peer_id = p\<rparr> s = Ok a"
    and "t p = None \<Longrightarrow> \<not> peer_exists X B \<lparr>peer_id = p\<rparr> s"
  using peer_relD [OF assms(3), of p] get_none [OF assms(2)] get_single [OF assms(2)]
  by (auto simp: peer_open_def peer_exists_def peer_version_def peer_advert_def net_codecD [OF assms(1)])

lemma peer_create_follows:
  assumes "net_codec X" "invar s" "peer_rel X (vals s) t" "t (peer_advert_peer a) = None"
  shows "\<exists>s'. peer_create X B a s = (Ok \<lparr>peer_id = peer_advert_peer a\<rparr>, s') \<and> invar s' \<and> peer_rel X (vals s') (peer_step a t)"
proof -
  let ?p = "peer_advert_peer a" and ?v = "ser_u32 X (peer_advert_version a)"
  from put [OF assms(2), of PEER_PREFIX "ser_pubkey X ?p" "Some PEER_VERSION" ?v] peer_relD(1) [OF assms(3,4)] obtain s1 where
    s1: "bs_put B s PEER_PREFIX (ser_pubkey X ?p) (Some PEER_VERSION) ?v = (Ok (), s1)" "invar s1"
      "vals s1 = (vals s)(version_prop X ?p := {?v})" by auto
  from put [OF s1(2), of PEER_PREFIX "ser_pubkey X ?p" "Some PEER_ADVERT" "ser_peer_advert X a"] s1(3)
    peer_relD(1) [OF assms(3,4)] obtain s2 where
    s2: "bs_put B s1 PEER_PREFIX (ser_pubkey X ?p) (Some PEER_ADVERT) (ser_peer_advert X a) = (Ok (), s2)" "invar s2"
      "vals s2 = (vals s)(version_prop X ?p := {?v}, advert_prop X ?p := {ser_peer_advert X a})"
    by (auto simp: pubkey_property_eq [OF assms(1)])
  with s1 peer_rel_update(1) [OF assms(1,3), of ?p] peer_reads(3) [OF assms]
  show ?thesis by (auto simp: peer_create_def Let_def peer_step_def assms(4))
qed

lemma peer_update_follows:
  assumes "net_codec X" "invar s" "peer_rel X (vals s) t" "t (peer_advert_peer a) = Some (n, b)"
  shows "\<exists>s'. peer_update_advert X B \<lparr>peer_id = peer_advert_peer a\<rparr> a s = (Ok (), s') \<and> invar s'
    \<and> peer_rel X (vals s') (peer_step a t)"
proof (cases "peer_advert_version a \<le> peer_advert_version b")
  case True
  with assms peer_reads(2) [OF assms] show ?thesis
    by (auto simp: peer_update_advert_def peer_step_def fun_upd_idem)
next
  case False
  let ?p = "peer_advert_peer a"
  from replace [OF assms(2), of PEER_PREFIX "ser_pubkey X ?p" "Some PEER_ADVERT" "ser_peer_advert X a"]
    peer_relD(2) [OF assms(3,4)] obtain s' where
    "bs_replace B s PEER_PREFIX (ser_pubkey X ?p) (Some PEER_ADVERT) (ser_peer_advert X a) = (Ok (), s')" "invar s'"
    "vals s' = (vals s)(advert_prop X ?p := {ser_peer_advert X a})" by auto
  with False peer_rel_update(2) [OF assms(1,3,4), of a] peer_reads(2) [OF assms] assms(4) show ?thesis
    by (auto simp: peer_update_advert_def peer_step_def)
qed

lemma peer_update_or_create_follows:
  assumes "net_codec X" "invar s" "peer_rel X (vals s) t"
  shows "\<exists>s'. peer_update_or_create X B a s = (Ok \<lparr>peer_id = peer_advert_peer a\<rparr>, s') \<and> invar s'
    \<and> peer_rel X (vals s') (peer_step a t)"
proof (cases "t (peer_advert_peer a)")
  case None
  with peer_create_follows [OF assms] peer_reads(1) [OF assms] show ?thesis
    by (simp add: peer_update_or_create_def)
next
  case (Some nb)
  then obtain n b where "t (peer_advert_peer a) = Some (n, b)" by (cases nb) simp
  with peer_update_follows [OF assms] peer_reads(2) [OF assms] show ?thesis
    by (fastforce simp: peer_update_or_create_def)
qed

end

text \<open>A run of adverts, as \<^verbatim>\<open>join_overlay\<close> makes for the peers of its request.\<close>

fun peer_updates ::
  "'x net_externs_scheme \<Rightarrow> 'b BrokerStore \<Rightarrow> PeerAdvert list \<Rightarrow> 'b \<Rightarrow> (unit, StorageError, 'b) op" where
  "peer_updates X B [] s = (Ok (), s)"
| "peer_updates X B (a # as) s = op_then (peer_update_or_create X B a s) (\<lambda>_ s. peer_updates X B as s)"

lemma peer_updates_follow:
  assumes "broker_store B invar vals" "net_codec X" "invar s" "peer_rel X (vals s) t"
  shows "\<exists>s'. peer_updates X B as s = (Ok (), s') \<and> invar s' \<and> peer_rel X (vals s') (fold peer_step as t)"
  using assms(3,4)
proof (induction as arbitrary: s t)
  case (Cons a as)
  from broker_store.peer_update_or_create_follows [OF assms(1,2) Cons.prems, of a] obtain s1 where
    "peer_update_or_create X B a s = (Ok \<lparr>peer_id = peer_advert_peer a\<rparr>, s1)" "invar s1"
    "peer_rel X (vals s1) (peer_step a t)" by blast
  with Cons.IH [of s1 "peer_step a t"] show ?case by simp
qed simp

lemma peer_step_other: "peer_advert_peer a \<noteq> p \<Longrightarrow> peer_step a t p = t p"
  by (simp add: peer_step_def)

text \<open>The table after a run: the first version and the newest advert of each peer.\<close>

lemma peer_steps_from:
  assumes "t p = Some (n, b)"
  shows "\<exists>c. fold peer_step as t p = Some (n, c) \<and> c \<in> insert b (set [a\<leftarrow>as. peer_advert_peer a = p])
    \<and> (\<forall>a \<in> insert b (set [a\<leftarrow>as. peer_advert_peer a = p]). peer_advert_version a \<le> peer_advert_version c)"
  using assms
proof (induction as arbitrary: t b)
  case (Cons a as)
  show ?case
  proof (cases "peer_advert_peer a = p")
    case True
    with Cons.prems have "peer_step a t p = Some (n, if peer_advert_version a \<le> peer_advert_version b then b else a)"
      by (simp add: peer_step_def)
    from Cons.IH [where t = "peer_step a t", OF this] True show ?thesis by (auto split: if_splits intro: order_trans less_imp_le)
  next
    case False
    with Cons.IH [of "peer_step a t" b] Cons.prems show ?thesis by (simp add: peer_step_other)
  qed
qed simp

lemma peer_steps_new:
  assumes "t p = None"
  shows "[a\<leftarrow>as. peer_advert_peer a = p] = [] \<and> fold peer_step as t p = None
    \<or> (\<exists>a bs c. [a\<leftarrow>as. peer_advert_peer a = p] = a # bs \<and> fold peer_step as t p = Some (peer_advert_version a, c)
      \<and> c \<in> set (a # bs) \<and> (\<forall>b \<in> set (a # bs). peer_advert_version b \<le> peer_advert_version c))"
  using assms
proof (induction as arbitrary: t)
  case (Cons a as)
  show ?case
  proof (cases "peer_advert_peer a = p")
    case True
    with Cons.prems have "peer_step a t p = Some (peer_advert_version a, a)" by (simp add: peer_step_def)
    from peer_steps_from [where t = "peer_step a t" and p = p, OF this, of as] True show ?thesis by auto
  next
    case False
    with Cons.IH [of "peer_step a t"] Cons.prems show ?thesis by (simp add: peer_step_other)
  qed
qed simp

section \<open>Overlays\<close>

abbreviation overlay_prop :: "'x net_externs_scheme \<Rightarrow> OverlayId \<Rightarrow> u8 \<Rightarrow> bytes" where
  "overlay_prop X i x \<equiv> compute_property OVERLAY_PREFIX (ser_digest X i) (Some x)"

lemma overlay_suffixes [simp]:
  "OVERLAY_SECRET \<noteq> OVERLAY_REPO" "OVERLAY_SECRET \<noteq> OVERLAY_META" "OVERLAY_REPO \<noteq> OVERLAY_META"
  "OVERLAY_REPO \<noteq> OVERLAY_SECRET" "OVERLAY_META \<noteq> OVERLAY_SECRET" "OVERLAY_META \<noteq> OVERLAY_REPO"
  by (simp_all add: overlay_consts)

context broker_store
begin

lemma overlay_exists_iff:
  "invar s \<Longrightarrow> overlay_exists X B \<lparr>ovl_id = i\<rparr> s \<longleftrightarrow> vals s (overlay_prop X i OVERLAY_SECRET) \<noteq> {}"
  by (simp add: overlay_exists_def get_ok_iff)

text \<open>Creating an overlay writes its three properties and nothing else.\<close>

lemma overlay_create_vals:
  assumes "net_codec X" "invar s" "vals s (overlay_prop X i OVERLAY_SECRET) = {}"
    "vals s (overlay_prop X i OVERLAY_REPO) = {}" "vals s (overlay_prop X i OVERLAY_META) = {}"
    "now_timestamp now = (Ok t :: (Timestamp, StorageError) result)"
  shows "\<exists>s'. overlay_create X B now i secret repo s = (Ok \<lparr>ovl_id = i\<rparr>, s') \<and> invar s'
    \<and> vals s' = (vals s)(overlay_prop X i OVERLAY_SECRET := {ser_symkey X secret},
        overlay_prop X i OVERLAY_REPO := ser_pubkey X ` set_option repo,
        overlay_prop X i OVERLAY_META := {ser_overlay_meta X \<lparr>ovm_users = 1, ovm_last_used = t\<rparr>})"
proof -
  let ?k = "ser_digest X i" and ?m = "ser_overlay_meta X \<lparr>ovm_users = 1, ovm_last_used = t\<rparr>"
  note eq = digest_property_eq [OF assms(1)]
  from put [OF assms(2), of OVERLAY_PREFIX ?k "Some OVERLAY_SECRET" "ser_symkey X secret"] assms(3) obtain s1 where
    s1: "bs_put B s OVERLAY_PREFIX ?k (Some OVERLAY_SECRET) (ser_symkey X secret) = (Ok (), s1)" "invar s1"
      "vals s1 = (vals s)(overlay_prop X i OVERLAY_SECRET := {ser_symkey X secret})" by auto
  obtain s2 where
    s2: "(case repo of Some r \<Rightarrow> bs_put B s1 OVERLAY_PREFIX ?k (Some OVERLAY_REPO) (ser_pubkey X r) | None \<Rightarrow> (Ok (), s1))
        = (Ok (), s2)" "invar s2"
      "vals s2 = (vals s1)(overlay_prop X i OVERLAY_REPO := ser_pubkey X ` set_option repo)"
  proof (cases repo)
    case None
    with that [of s1] s1 assms(4) show thesis by (simp add: eq fun_upd_idem)
  next
    case (Some r)
    with put [OF s1(2), of OVERLAY_PREFIX ?k "Some OVERLAY_REPO" "ser_pubkey X r"] s1(3) assms(4) that
    show thesis by (auto simp: eq)
  qed
  from put [OF s2(2), of OVERLAY_PREFIX ?k "Some OVERLAY_META" ?m] s1(3) s2(3) assms(5) obtain s3 where
    "bs_put B s2 OVERLAY_PREFIX ?k (Some OVERLAY_META) ?m = (Ok (), s3)" "invar s3"
    "vals s3 = (vals s2)(overlay_prop X i OVERLAY_META := {?m})" by (auto simp: eq)
  with s1 s2 assms(3,6) overlay_exists_iff [OF assms(2), of X i] show ?thesis by (simp add: overlay_create_def)
qed

lemma overlay_reads:
  assumes "net_codec X" "invar s"
  shows "vals s (overlay_prop X i OVERLAY_SECRET) = {ser_symkey X k} \<Longrightarrow> overlay_secret X B \<lparr>ovl_id = i\<rparr> s = Ok k"
    and "vals s (overlay_prop X i OVERLAY_REPO) = {ser_pubkey X r} \<Longrightarrow> overlay_repo X B \<lparr>ovl_id = i\<rparr> s = Ok r"
    and "vals s (overlay_prop X i OVERLAY_REPO) = {} \<Longrightarrow> overlay_repo X B \<lparr>ovl_id = i\<rparr> s = Err StorageError.NotFound"
    and "vals s (overlay_prop X i OVERLAY_META) = {ser_overlay_meta X m} \<Longrightarrow> overlay_metadata X B \<lparr>ovl_id = i\<rparr> s = Ok m"
    and "vals s (overlay_prop X i OVERLAY_SECRET) \<noteq> {} \<Longrightarrow> overlay_open X B i s = Ok \<lparr>ovl_id = i\<rparr>"
    and "vals s (overlay_prop X i OVERLAY_SECRET) = {} \<Longrightarrow> overlay_open X B i s = Err StorageError.NotFound"
  using get_none [OF assms(2)] get_single [OF assms(2)] overlay_exists_iff [OF assms(2), of X i]
  by (auto simp: overlay_secret_def overlay_repo_def overlay_metadata_def overlay_open_def Let_def net_codecD [OF assms(1)])

lemma overlay_set_metadata_vals:
  assumes "invar s" "vals s (overlay_prop X i OVERLAY_SECRET) \<noteq> {}" "vals s (overlay_prop X i OVERLAY_META) \<noteq> {}"
  shows "\<exists>s'. overlay_set_metadata X B \<lparr>ovl_id = i\<rparr> m s = (Ok (), s') \<and> invar s'
    \<and> vals s' = (vals s)(overlay_prop X i OVERLAY_META := {ser_overlay_meta X m})"
  using replace [OF assms(1,3), of "ser_overlay_meta X m"] assms(2) overlay_exists_iff [OF assms(1), of X i]
  by (simp add: overlay_set_metadata_def)

end

section \<open>Configuration\<close>

context broker_store
begin

lemma config_get_or_create_new:
  assumes "net_codec X" "invar s" "vals s (compute_property CONFIG_PREFIX (ser_config_key X CONFIG_KEY) (Some CONFIG_MODE)) = {}"
  shows "\<exists>s'. config_get_or_create X B mode s = (Ok (), s') \<and> invar s'
    \<and> vals s' = (vals s)(compute_property CONFIG_PREFIX (ser_config_key X CONFIG_KEY) (Some CONFIG_MODE) := {ser_config_mode X mode})"
  using put [OF assms(2), of CONFIG_PREFIX "ser_config_key X CONFIG_KEY" "Some CONFIG_MODE" "ser_config_mode X mode"] assms(3)
  by (auto simp: config_get_or_create_def config_open_def config_create_def config_exists_def get_ok_iff [OF assms(2)])

lemma config_get_or_create_old:
  assumes "net_codec X" "invar s"
    "vals s (compute_property CONFIG_PREFIX (ser_config_key X CONFIG_KEY) (Some CONFIG_MODE)) = {ser_config_mode X old}"
  shows "config_get_or_create X B mode s = (if mode = old then Ok () else Err StorageError.InvalidValue, s)"
    and "config_mode X B s = Ok old"
  using get_single [OF assms(2,3)]
  by (auto simp: config_get_or_create_def config_open_def config_exists_def config_mode_def net_codecD [OF assms(1)])

end

section \<open>Properties\<close>

lemma peer_rel_empty [simp]: "peer_rel X (list_vals (\<lambda>_. [])) (\<lambda>_. None)"
  by (simp add: peer_rel_def list_vals_def)


definition demo_advert :: "u8 \<Rightarrow> u32 \<Rightarrow> PeerAdvert" where
  "demo_advert p n = PeerAdvert.V0 \<lparr>pad_content =
     \<lparr>pac_peer = Ed25519PubKey (fill32 p), pac_subs = (fill32 0, fill32 0, fill32 0, fill32 0), pac_address = [],
      pac_version = n, pac_metadata = []\<rparr>, pad_sig = Ed25519Sig (fill32 0, fill32 0), pad_ttl = 0\<rparr>"

lemma demo_advert_fields [simp]:
  "peer_advert_peer (demo_advert p n) = Ed25519PubKey (fill32 p)" "peer_advert_version (demo_advert p n) = n"
  by (simp_all add: demo_advert_def)


text \<open>
  Creating an overlay that is not there: its secret, repository and metadata (one user, the time of
  creation) read back; setting the metadata afterwards changes only them; creating it again is refused;
  other overlays keep their secrets, repositories and metadata throughout.
\<close>

theorem overlay_create_reads_back:
  assumes "lmdb_ok R good vals d" "net_codec X" "now_timestamp now = (Ok t :: (Timestamp, StorageError) result)"
    "\<forall>x \<in> {OVERLAY_SECRET, OVERLAY_REPO, OVERLAY_META}. vals d (overlay_prop X i x) = {}" "j \<noteq> i"
  shows "\<exists>d1 d2 o'. overlay_create X (lmdb_broker R) now i secret repo d = (Ok o', d1)
    \<and> overlay_open X (lmdb_broker R) i d1 = Ok o'
    \<and> overlay_secret X (lmdb_broker R) o' d1 = Ok secret
    \<and> overlay_repo X (lmdb_broker R) o' d1 = ok_or StorageError.NotFound repo
    \<and> overlay_metadata X (lmdb_broker R) o' d1 = Ok \<lparr>ovm_users = 1, ovm_last_used = t\<rparr>
    \<and> overlay_create X (lmdb_broker R) now' i secret' repo' d1 = (Err BackendError, d1)
    \<and> overlay_set_metadata X (lmdb_broker R) o' m d1 = (Ok (), d2)
    \<and> overlay_metadata X (lmdb_broker R) o' d2 = Ok m \<and> overlay_secret X (lmdb_broker R) o' d2 = Ok secret
    \<and> (\<forall>x v. bs_has_property_value (lmdb_broker R) d2 OVERLAY_PREFIX (ser_digest X j) (Some x) v
        = bs_has_property_value (lmdb_broker R) d OVERLAY_PREFIX (ser_digest X j) (Some x) v)"
proof -
  note eq = digest_property_eq [OF assms(2)]
  have "vals d (overlay_prop X i OVERLAY_SECRET) = {}" "vals d (overlay_prop X i OVERLAY_REPO) = {}"
    "vals d (overlay_prop X i OVERLAY_META) = {}" using assms(4) by simp_all
  from lmdb.overlay_create_vals [OF assms(2,1) this assms(3), of secret repo] obtain d1 where
    d1: "overlay_create X (lmdb_broker R) now i secret repo d = (Ok \<lparr>ovl_id = i\<rparr>, d1)" "lmdb_ok R good vals d1"
      "vals d1 = (vals d)(overlay_prop X i OVERLAY_SECRET := {ser_symkey X secret},
        overlay_prop X i OVERLAY_REPO := ser_pubkey X ` set_option repo,
        overlay_prop X i OVERLAY_META := {ser_overlay_meta X \<lparr>ovm_users = 1, ovm_last_used = t\<rparr>})" by blast
  from lmdb.overlay_set_metadata_vals [OF d1(2), of X i m] d1(3) obtain d2 where
    d2: "overlay_set_metadata X (lmdb_broker R) \<lparr>ovl_id = i\<rparr> m d1 = (Ok (), d2)" "lmdb_ok R good vals d2"
      "vals d2 = (vals d1)(overlay_prop X i OVERLAY_META := {ser_overlay_meta X m})" by (auto simp: eq)
  note r1 = lmdb.overlay_reads [OF assms(2) d1(2), of i] and r2 = lmdb.overlay_reads [OF assms(2) d2(2), of i]
  have "overlay_repo X (lmdb_broker R) \<lparr>ovl_id = i\<rparr> d1 = ok_or StorageError.NotFound repo"
    using r1(2,3) d1(3) by (cases repo) (auto simp: eq)
  moreover have "overlay_create X (lmdb_broker R) now' i secret' repo' d1 = (Err BackendError, d1)"
    using lmdb.overlay_exists_iff [OF d1(2), of X i] d1(3) by (simp add: overlay_create_def eq)
  moreover have "vals d2 (overlay_prop X j x) = vals d (overlay_prop X j x)" for x
    using d1(3) d2(3) assms(5) by (simp add: eq)
  ultimately show ?thesis
    using d1(1) d2(1) r1(1) [of secret] r1(4) r1(5) r2(1) [of secret] r2(4) [of m]
    by (intro exI [of _ d1] exI [of _ d2] exI [of _ "\<lparr>ovl_id = i\<rparr>"])
       (simp add: d1(3) d2(3) eq lmdb.has_value [OF d2(2)] lmdb.has_value [OF assms(1)])
qed

theorem overlay_create_reads_back_witness:
  "\<exists>d1 o'. overlay_create demo_net (lmdb_broker list_rkv) 1700000000 (demo_id 1) demo_secret (Some demo_pubkey) (\<lambda>_. []) = (Ok o', d1)
    \<and> overlay_secret demo_net (lmdb_broker list_rkv) o' d1 = Ok demo_secret
    \<and> overlay_repo demo_net (lmdb_broker list_rkv) o' d1 = Ok demo_pubkey"
proof -
  have ok: "lmdb_ok list_rkv list_db_ok list_vals (\<lambda>_. [])" by simp
  have now: "now_timestamp 1700000000 = (Ok 907191 :: (Timestamp, StorageError) result)"
    by (simp add: now_timestamp_def EPOCH_AS_UNIX_TIMESTAMP_def)
  have "demo_id 2 \<noteq> demo_id 1" by (simp add: demo_id_def)
  from overlay_create_reads_back [where vals = list_vals and d = "\<lambda>_. []" and i = "demo_id 1",
      OF ok demo_net_codec now _ this, of demo_secret "Some demo_pubkey" 0 demo_secret None
        "\<lparr>ovm_users = 2, ovm_last_used = 0\<rparr>"]
  show ?thesis by (simp add: list_vals_def) blast
qed

text \<open>
  The mode of a broker store is fixed by the first start: \<^verbatim>\<open>get_or_create\<close> with a mode on a store without
  configuration succeeds and records it; afterwards it succeeds for that mode only, and is \<open>InvalidValue\<close>
  for the other, without changing the store.
\<close>

theorem config_mode_fixed:
  assumes "lmdb_ok R good vals d" "net_codec X"
    "vals d (compute_property CONFIG_PREFIX (ser_config_key X CONFIG_KEY) (Some CONFIG_MODE)) = {}"
  shows "\<exists>d'. config_get_or_create X (lmdb_broker R) mode d = (Ok (), d')
    \<and> config_mode X (lmdb_broker R) d' = Ok mode
    \<and> config_get_or_create X (lmdb_broker R) mode' d'
      = (if mode' = mode then Ok () else Err StorageError.InvalidValue, d')"
proof -
  from lmdb.config_get_or_create_new [OF assms(2,1,3)] obtain d' where
    d': "config_get_or_create X (lmdb_broker R) mode d = (Ok (), d')" "lmdb_ok R good vals d'"
      "vals d' (compute_property CONFIG_PREFIX (ser_config_key X CONFIG_KEY) (Some CONFIG_MODE)) = {ser_config_mode X mode}"
    by (metis fun_upd_same)
  with lmdb.config_get_or_create_old [OF assms(2) d'(2,3)] show ?thesis by blast
qed

theorem config_mode_fixed_witness:
  "\<exists>d'. config_get_or_create demo_net (lmdb_broker list_rkv) Local (\<lambda>_. []) = (Ok (), d')
    \<and> config_get_or_create demo_net (lmdb_broker list_rkv) Core d' = (Err StorageError.InvalidValue, d')"
proof -
  have "lmdb_ok list_rkv list_db_ok list_vals (\<lambda>_. [])" by simp
  from config_mode_fixed [where vals = list_vals and d = "\<lambda>_. []", OF this demo_net_codec, of Local Core]
  show ?thesis by (auto simp: list_vals_def)
qed

end
