(* ===== verification/Lofire_Lmdb_Repo.thy ===== *)
theory Lofire_Lmdb_Repo
  imports Lofire_Peers
begin

text \<open>
  The LMDB block store of a repository, \<^verbatim>\<open>src/lofire-store-lmdb/src/repostore.rs\<close>: blocks with their
  expiry, pins, and a list of the least recently used synced blocks. The rkv database underneath is
  third-party code, the record \<open>RepoRkv\<close> of the operations the store calls. A call that writes is one
  transaction: what it wrote counts when it commits, and is dropped when it fails or panics before.
\<close>

section \<open>Data and parameters\<close>

record BlockMeta =
  bm_pin :: bool
  bm_last_used :: Timestamp
  bm_synced :: bool

record repo_externs = net_externs +
  de_digest :: "bytes \<Rightarrow> Digest option"
  ser_whole_block :: "Block \<Rightarrow> bytes"
  de_whole_block :: "bytes \<Rightarrow> Block option"
  ser_block_meta :: "BlockMeta \<Rightarrow> bytes"
  de_block_meta :: "bytes \<Rightarrow> BlockMeta option"

text \<open>
  The tables of an environment: two \<^verbatim>\<open>SingleStore\<close>s and two \<^verbatim>\<open>MultiIntegerStore\<close>s. \<open>rr_append_multi\<close> is
  \<^verbatim>\<open>put_with_flags\<close> with \<^verbatim>\<open>APPEND_DUP\<close>.
\<close>

datatype SingleTable = MainStore | MetaStore

datatype MultiTable = ExpiryStore | RecentlyUsedStore

record 'd RepoRkv =
  rr_get :: "'d \<Rightarrow> SingleTable \<Rightarrow> bytes \<Rightarrow> (bytes option, unit) result"
  rr_put :: "'d \<Rightarrow> SingleTable \<Rightarrow> bytes \<Rightarrow> bytes \<Rightarrow> (unit, unit, 'd) op"
  rr_delete :: "'d \<Rightarrow> SingleTable \<Rightarrow> bytes \<Rightarrow> (unit, unit, 'd) op"
  rr_put_multi :: "'d \<Rightarrow> MultiTable \<Rightarrow> u32 \<Rightarrow> bytes \<Rightarrow> (unit, unit, 'd) op"
  rr_append_multi :: "'d \<Rightarrow> MultiTable \<Rightarrow> u32 \<Rightarrow> bytes \<Rightarrow> (unit, unit, 'd) op"
  rr_delete_multi :: "'d \<Rightarrow> MultiTable \<Rightarrow> u32 \<Rightarrow> bytes \<Rightarrow> (unit, unit, 'd) op"
  rr_iter_start :: "'d \<Rightarrow> MultiTable \<Rightarrow> ((u32 \<times> bytes, unit) result list, unit) result"
  rr_iter_prev_dup_from :: "'d \<Rightarrow> MultiTable \<Rightarrow> u32 \<Rightarrow> (((u32 \<times> bytes, unit) result list, unit) result list, unit) result"
  rr_commit :: "'d \<Rightarrow> 'd option"

definition unwrap_op :: "('a, 'e, 'd) op \<Rightarrow> ('a, 'f, 'd) op" where
  "unwrap_op p = apfst unwrap_res p"

text \<open>The end of a transaction on an environment \<open>d\<close>: \<^verbatim>\<open>commit().unwrap()\<close>, or dropping the writer.\<close>

definition committed :: "'d RepoRkv \<Rightarrow> 'd \<Rightarrow> ('a, 'e, 'd) op \<Rightarrow> ('a, 'e, 'd) op" where
  "committed R d body = (case body of
       (Ok x, w) \<Rightarrow> (case rr_commit R w of Some d' \<Rightarrow> (Ok x, d') | None \<Rightarrow> (Panic, d))
     | (r, w) \<Rightarrow> (r, d))"

section \<open>The recently used list\<close>

definition remove_from_lru :: "'d RepoRkv \<Rightarrow> 'd \<Rightarrow> bytes \<Rightarrow> Timestamp \<Rightarrow> (unit, unit, 'd) op" where
  "remove_from_lru R w block_id_ser time = rr_delete_multi R w RecentlyUsedStore time block_id_ser"

definition add_to_lru :: "'d RepoRkv \<Rightarrow> 'd \<Rightarrow> bytes \<Rightarrow> Timestamp \<Rightarrow> (unit, unit, 'd) op" where
  "add_to_lru R w block_id_ser time = rr_append_multi R w RecentlyUsedStore time block_id_ser"

section \<open>The RepoStore operations\<close>

text \<open>What \<^verbatim>\<open>get\<close> does for a synced block: its last use becomes now.\<close>

definition touch_block :: "'x repo_externs_scheme \<Rightarrow> 'd RepoRkv \<Rightarrow> u64 \<Rightarrow> 'd \<Rightarrow> bytes \<Rightarrow> (unit, StorageError, 'd) op" where
  "touch_block X R clock d block_id_ser =
     op_then (unwrap_res (rr_get R d MetaStore block_id_ser), d) (\<lambda>meta_ser d.
       case meta_ser of
         None \<Rightarrow> (Ok (), d)
       | Some meta_value \<Rightarrow> op_then (unwrap (de_block_meta X meta_value), d) (\<lambda>meta d.
           if bm_synced meta then
             committed R d (op_then (now_timestamp clock, d) (\<lambda>now w.
               op_then (if \<not> bm_pin meta
                   then op_then (unwrap_op (remove_from_lru R w block_id_ser (bm_last_used meta)))
                     (\<lambda>_ w. unwrap_op (add_to_lru R w block_id_ser now))
                   else (Ok (), w))
                 (\<lambda>_ w. unwrap_op (rr_put R w MetaStore block_id_ser (ser_block_meta X (meta\<lparr>bm_last_used := now\<rparr>))))))
           else (Ok (), d)))"

definition lmdb_repo_get ::
  "'x repo_externs_scheme \<Rightarrow> 'd RepoRkv \<Rightarrow> u64 \<Rightarrow> 'd \<Rightarrow> BlockId \<Rightarrow> (Block, StorageError, 'd) op" where
  "lmdb_repo_get X R clock d i =
     (let block_id_ser = ser_digest X i in
      op_then (map_err (\<lambda>_. BackendError) (rr_get R d MainStore block_id_ser), d) (\<lambda>block_ser_res d.
        case block_ser_res of
          None \<Rightarrow> (Err StorageError.NotFound, d)
        | Some block_ser \<Rightarrow> op_then (touch_block X R clock d block_id_ser) (\<lambda>_ d.
            case de_whole_block X block_ser of
              None \<Rightarrow> (Err StorageError.InvalidValue, d)
            | Some b \<Rightarrow> if block_id X b \<noteq> i then (Panic, d) else (Ok b, d))))"

definition lmdb_repo_put ::
  "'x repo_externs_scheme \<Rightarrow> 'd RepoRkv \<Rightarrow> 'd \<Rightarrow> Block \<Rightarrow> (BlockId, StorageError, 'd) op" where
  "lmdb_repo_put X R d b =
     (let i = block_id X b; block_id_ser = ser_digest X i in
      committed R d (op_then (unwrap_op (rr_put R d MainStore block_id_ser (ser_whole_block X b))) (\<lambda>_ w.
        op_then (case block_expiry b of
            Some expiry \<Rightarrow> unwrap_op (rr_put_multi R w ExpiryStore expiry block_id_ser)
          | None \<Rightarrow> (Ok (), w)) (\<lambda>_ w. (Ok i, w)))))"

definition lmdb_repo_del ::
  "'x repo_externs_scheme \<Rightarrow> 'd RepoRkv \<Rightarrow> 'd \<Rightarrow> BlockId \<Rightarrow> (Block \<times> usize, StorageError, 'd) op" where
  "lmdb_repo_del X R d i =
     (let block_id_ser = ser_digest X i in
      committed R d
       (op_then (unwrap_res (rr_get R d MainStore block_id_ser), d) (\<lambda>block_ser w.
        op_then (ok_or StorageError.NotFound block_ser, w) (\<lambda>slice w.
        op_then (unwrap (de_whole_block X slice), w) (\<lambda>block w.
        op_then (unwrap_res (rr_get R w MetaStore block_id_ser), w) (\<lambda>meta_res w.
        op_then (case meta_res of
            None \<Rightarrow> (Ok (), w)
          | Some meta_value \<Rightarrow> op_then (unwrap (de_block_meta X meta_value), w) (\<lambda>meta w.
              op_then (if bm_last_used meta \<noteq> 0 then unwrap_op (remove_from_lru R w block_id_ser (bm_last_used meta))
                       else (Ok (), w))
                (\<lambda>_ w. unwrap_op (rr_delete R w MetaStore block_id_ser)))) (\<lambda>_ w.
        op_then (unwrap_op (rr_delete R w MainStore block_id_ser)) (\<lambda>_ w.
        op_then (case block_expiry block of
            Some expiry \<Rightarrow> unwrap_op (rr_delete_multi R w ExpiryStore expiry block_id_ser)
          | None \<Rightarrow> (Ok (), w)) (\<lambda>_ w. (Ok (block, length slice), w))))))))))"

definition lmdb_repo_store :: "'x repo_externs_scheme \<Rightarrow> 'd RepoRkv \<Rightarrow> u64 \<Rightarrow> 'd RepoStore" where
  "lmdb_repo_store X R clock =
     \<lparr>rs_get = lmdb_repo_get X R clock, rs_put = lmdb_repo_put X R, rs_del = lmdb_repo_del X R\<rparr>"

section \<open>Pins and synchronization\<close>

definition set_pin ::
  "'x repo_externs_scheme \<Rightarrow> 'd RepoRkv \<Rightarrow> 'd \<Rightarrow> ObjectId \<Rightarrow> bool \<Rightarrow> (unit, StorageError, 'd) op" where
  "set_pin X R d i add =
     (let obj_id_ser = ser_digest X i;
          save = \<lambda>meta w. unwrap_op (rr_put R w MetaStore obj_id_ser (ser_block_meta X meta)) in
      op_then (unwrap_res (rr_get R d MetaStore obj_id_ser), d) (\<lambda>meta_ser d.
        case meta_ser of
          Some meta_value \<Rightarrow> op_then (unwrap (de_block_meta X meta_value), d) (\<lambda>meta d.
            if add = bm_pin meta then (Ok (), d)
            else committed R d (op_then
              (if bm_synced meta then
                 (if add then unwrap_op (remove_from_lru R d obj_id_ser (bm_last_used meta))
                  else unwrap_op (add_to_lru R d obj_id_ser (bm_last_used meta)))
               else (Ok (), d)) (\<lambda>_ w. save (meta\<lparr>bm_pin := add\<rparr>) w)))
        | None \<Rightarrow>
            if add then committed R d (save \<lparr>bm_pin = True, bm_last_used = 0, bm_synced = False\<rparr> d)
            else (Ok (), d)))"

definition pin :: "'x repo_externs_scheme \<Rightarrow> 'd RepoRkv \<Rightarrow> 'd \<Rightarrow> ObjectId \<Rightarrow> (unit, StorageError, 'd) op" where
  "pin X R d i = set_pin X R d i True"

definition unpin :: "'x repo_externs_scheme \<Rightarrow> 'd RepoRkv \<Rightarrow> 'd \<Rightarrow> ObjectId \<Rightarrow> (unit, StorageError, 'd) op" where
  "unpin X R d i = set_pin X R d i False"

definition has_been_synced ::
  "'x repo_externs_scheme \<Rightarrow> 'd RepoRkv \<Rightarrow> u64 \<Rightarrow> 'd \<Rightarrow> BlockId \<Rightarrow> u32 option \<Rightarrow> (unit, unit, 'd) op" where
  "has_been_synced X R clock d i when' =
     (let block_id_ser = ser_digest X i;
          save = \<lambda>meta w. unwrap_op (rr_put R w MetaStore block_id_ser (ser_block_meta X meta)) in
      op_then (unwrap_res (rr_get R d MetaStore block_id_ser), d) (\<lambda>meta_ser d.
      op_then (case when' of None \<Rightarrow> now_timestamp clock | Some w \<Rightarrow> Ok w, d) (\<lambda>now d.
        case meta_ser of
          Some meta_value \<Rightarrow> op_then (unwrap (de_block_meta X meta_value), d) (\<lambda>meta d.
            if bm_synced meta then (Ok (), d)
            else committed R d (op_then
              (if \<not> bm_pin meta then unwrap_op (add_to_lru R d block_id_ser now) else (Ok (), d))
              (\<lambda>_ w. save (meta\<lparr>bm_synced := True, bm_last_used := now\<rparr>) w)))
        | None \<Rightarrow> committed R d (op_then (unwrap_op (add_to_lru R d block_id_ser now))
            (\<lambda>_ w. save \<lparr>bm_pin = False, bm_last_used = now, bm_synced = True\<rparr> w)))))"

section \<open>Reclaiming space\<close>

text \<open>The loops that collect identifiers stop at the first entry that cannot be read.\<close>

fun collect_ids ::
  "'x repo_externs_scheme \<Rightarrow> (u32 \<times> bytes, unit) result list \<Rightarrow> BlockId list \<Rightarrow> (BlockId list, 'e) result" where
  "collect_ids X (Ok entry # iter) block_ids =
     and_then (unwrap (de_digest X (snd entry))) (\<lambda>i. collect_ids X iter (block_ids @ [i]))"
| "collect_ids X iter block_ids = Ok block_ids"

fun collect_all_ids ::
  "'x repo_externs_scheme \<Rightarrow> ((u32 \<times> bytes, unit) result list, unit) result list \<Rightarrow> BlockId list
   \<Rightarrow> (BlockId list, 'e) result" where
  "collect_all_ids X (Ok sub_iter # iter) block_ids =
     and_then (collect_ids X sub_iter block_ids) (collect_all_ids X iter)"
| "collect_all_ids X iter block_ids = Ok block_ids"

fun del_expired :: "'x repo_externs_scheme \<Rightarrow> 'd RepoRkv \<Rightarrow> 'd \<Rightarrow> BlockId list \<Rightarrow> (unit, unit, 'd) op" where
  "del_expired X R d [] = (Ok (), d)"
| "del_expired X R d (i # block_ids) =
     op_then (unwrap_op (lmdb_repo_del X R d i)) (\<lambda>_ d. del_expired X R d block_ids)"

definition remove_expired :: "'x repo_externs_scheme \<Rightarrow> 'd RepoRkv \<Rightarrow> u64 \<Rightarrow> 'd \<Rightarrow> (unit, unit, 'd) op" where
  "remove_expired X R clock d =
     op_then (now_timestamp clock, d) (\<lambda>now d.
     op_then (unwrap_res (rr_iter_prev_dup_from R d ExpiryStore now), d) (\<lambda>iter d.
     op_then (collect_all_ids X iter [], d) (\<lambda>block_ids d. del_expired X R d block_ids)))"

fun del_least_used ::
  "'x repo_externs_scheme \<Rightarrow> 'd RepoRkv \<Rightarrow> usize \<Rightarrow> 'd \<Rightarrow> BlockId list \<Rightarrow> usize \<Rightarrow> (usize, 'e, 'd) op" where
  "del_least_used X R size' d [] total' = (Ok total', d)"
| "del_least_used X R size' d (i # block_ids) total' =
     op_then (unwrap_op (lmdb_repo_del X R d i)) (\<lambda>r d.
       let total' = total' + snd r in
       if size' \<le> total' then (Ok total', d) else del_least_used X R size' d block_ids total')"

definition remove_least_used :: "'x repo_externs_scheme \<Rightarrow> 'd RepoRkv \<Rightarrow> 'd \<Rightarrow> usize \<Rightarrow> (usize, 'e, 'd) op" where
  "remove_least_used X R d size' =
     op_then (unwrap_res (rr_iter_start R d RecentlyUsedStore), d) (\<lambda>iter d.
     op_then (collect_ids X iter [], d) (\<lambda>block_ids d. del_least_used X R size' d block_ids 0))"

section \<open>What is relied on\<close>

definition repo_codec :: "'x repo_externs_scheme \<Rightarrow> bool" where
  "repo_codec X \<longleftrightarrow> (\<forall>i. de_digest X (ser_digest X i) = Some i)
     \<and> (\<forall>b. de_whole_block X (ser_whole_block X b) = Some (plain b))
     \<and> (\<forall>b. ser_whole_block X (plain b) = ser_whole_block X b)
     \<and> (\<forall>m. de_block_meta X (ser_block_meta X m) = Some m)"

text \<open>
  A lawful environment has two maps and two integer-keyed families of sets. Deleting what is not there
  is an error (LMDB's \<^verbatim>\<open>MDB_NOTFOUND\<close>), as is appending below a value that is already there
  (\<^verbatim>\<open>MDB_KEYEXIST\<close>); a scan lists the entries by increasing key; \<^verbatim>\<open>iter_prev_dup_from\<close> lists, key by key, the
  entries up to a key.
\<close>

definition repo_rkv_laws ::
  "'d RepoRkv \<Rightarrow> ('d \<Rightarrow> bool) \<Rightarrow> ('d \<Rightarrow> SingleTable \<Rightarrow> bytes \<Rightarrow> bytes option)
   \<Rightarrow> ('d \<Rightarrow> MultiTable \<Rightarrow> u32 \<Rightarrow> bytes set) \<Rightarrow> bool" where
  "repo_rkv_laws R good single multi \<longleftrightarrow> (\<forall>d. good d \<longrightarrow>
     (\<forall>T k. rr_get R d T k = Ok (single d T k))
     \<and> (\<forall>T k v. \<exists>d'. rr_put R d T k v = (Ok (), d') \<and> good d'
          \<and> single d' = (single d)(T := (single d T)(k \<mapsto> v)) \<and> multi d' = multi d)
     \<and> (\<forall>T k. if single d T k = None then fst (rr_delete R d T k) = Err ()
          else \<exists>d'. rr_delete R d T k = (Ok (), d') \<and> good d'
            \<and> single d' = (single d)(T := (single d T)(k := None)) \<and> multi d' = multi d)
     \<and> (\<forall>T t v. \<exists>d'. rr_put_multi R d T t v = (Ok (), d') \<and> good d' \<and> single d' = single d
          \<and> multi d' = (multi d)(T := (multi d T)(t := insert v (multi d T t))))
     \<and> (\<forall>T t v. (\<forall>u \<in> multi d T t. u < v) \<longrightarrow>
          (\<exists>d'. rr_append_multi R d T t v = (Ok (), d') \<and> good d' \<and> single d' = single d
            \<and> multi d' = (multi d)(T := (multi d T)(t := insert v (multi d T t)))))
     \<and> (\<forall>T t v. (\<exists>u \<in> multi d T t. v < u) \<longrightarrow> fst (rr_append_multi R d T t v) = Err ())
     \<and> (\<forall>T t v. if v \<notin> multi d T t then fst (rr_delete_multi R d T t v) = Err ()
          else \<exists>d'. rr_delete_multi R d T t v = (Ok (), d') \<and> good d' \<and> single d' = single d
            \<and> multi d' = (multi d)(T := (multi d T)(t := multi d T t - {v})))
     \<and> (\<forall>T. \<exists>es. rr_iter_start R d T = Ok (map Ok es) \<and> set es = {(t, v). v \<in> multi d T t}
          \<and> distinct es \<and> sorted (map fst es))
     \<and> (\<forall>T t. \<exists>ess. rr_iter_prev_dup_from R d T t = Ok (map (\<lambda>es. Ok (map Ok es)) ess)
          \<and> set (concat ess) = {(u, v). v \<in> multi d T u \<and> u \<le> t} \<and> distinct (concat ess))
     \<and> (\<exists>d'. rr_commit R d = Some d' \<and> good d' \<and> single d' = single d \<and> multi d' = multi d))"

end
