(* ===== verification/Lofire_Lmdb_View.thy ===== *)
theory Lofire_Lmdb_View
  imports Lofire_Lmdb_Repo
begin

text \<open>
  The contract of the LMDB block store: a machine on a map of blocks and a map of their metadata, and
  the proof that every operation of \<^verbatim>\<open>LmdbRepoStore\<close> is a step of that machine, its panics included.
\<close>

section \<open>States of a lawful environment\<close>

type_synonym singles = "SingleTable \<Rightarrow> bytes \<Rightarrow> bytes option"
type_synonym multis = "MultiTable \<Rightarrow> u32 \<Rightarrow> bytes set"

definition repo_state ::
  "'d RepoRkv \<Rightarrow> ('d \<Rightarrow> bool) \<Rightarrow> ('d \<Rightarrow> singles) \<Rightarrow> ('d \<Rightarrow> multis) \<Rightarrow> 'd \<Rightarrow> singles \<Rightarrow> multis \<Rightarrow> bool" where
  "repo_state R good single multi d S M \<longleftrightarrow>
     repo_rkv_laws R good single multi \<and> good d \<and> single d = S \<and> multi d = M"

lemma repo_stateD:
  assumes "repo_state R good single multi d S M"
  shows rr_get_law: "rr_get R d T k = Ok (S T k)"
    and rr_put_law: "\<exists>d'. rr_put R d T k v = (Ok (), d') \<and> repo_state R good single multi d' (S(T := (S T)(k \<mapsto> v))) M"
    and rr_delete_law: "S T k \<noteq> None \<Longrightarrow>
      \<exists>d'. rr_delete R d T k = (Ok (), d') \<and> repo_state R good single multi d' (S(T := (S T)(k := None))) M"
    and rr_put_multi_law: "\<exists>d'. rr_put_multi R d U t v = (Ok (), d')
      \<and> repo_state R good single multi d' S (M(U := (M U)(t := insert v (M U t))))"
    and rr_append_law: "\<forall>u \<in> M U t. u < v \<Longrightarrow> \<exists>d'. rr_append_multi R d U t v = (Ok (), d')
      \<and> repo_state R good single multi d' S (M(U := (M U)(t := insert v (M U t))))"
    and rr_append_err: "\<exists>u \<in> M U t. v < u \<Longrightarrow> fst (rr_append_multi R d U t v) = Err ()"
    and rr_delete_multi_law: "v \<in> M U t \<Longrightarrow> \<exists>d'. rr_delete_multi R d U t v = (Ok (), d')
      \<and> repo_state R good single multi d' S (M(U := (M U)(t := M U t - {v})))"
    and rr_delete_multi_err: "v \<notin> M U t \<Longrightarrow> fst (rr_delete_multi R d U t v) = Err ()"
    and rr_iter_law: "\<exists>es. rr_iter_start R d U = Ok (map Ok es) \<and> set es = {(t, v). v \<in> M U t}
      \<and> distinct es \<and> sorted (map fst es)"
    and rr_iter_prev_law: "\<exists>ess. rr_iter_prev_dup_from R d U t = Ok (map (\<lambda>es. Ok (map Ok es)) ess)
      \<and> set (concat ess) = {(u, v). v \<in> M U u \<and> u \<le> t} \<and> distinct (concat ess)"
    and rr_commit_law: "\<exists>d'. rr_commit R d = Some d' \<and> repo_state R good single multi d' S M"
proof -
  from assms have g: "good d" "single d = S" "multi d = M" and laws: "repo_rkv_laws R good single multi"
    by (simp_all add: repo_state_def)
  note L = laws [unfolded repo_rkv_laws_def, rule_format, OF g(1), unfolded g(2,3)]
  note get = L [THEN conjunct1] and put = L [THEN conjunct2, THEN conjunct1]
    and delete = L [THEN conjunct2, THEN conjunct2, THEN conjunct1]
    and put_multi = L [THEN conjunct2, THEN conjunct2, THEN conjunct2, THEN conjunct1]
    and append = L [THEN conjunct2, THEN conjunct2, THEN conjunct2, THEN conjunct2, THEN conjunct1]
    and append_err = L [THEN conjunct2, THEN conjunct2, THEN conjunct2, THEN conjunct2, THEN conjunct2, THEN conjunct1]
    and delete_multi = L [THEN conjunct2, THEN conjunct2, THEN conjunct2, THEN conjunct2, THEN conjunct2, THEN conjunct2, THEN conjunct1]
    and iter = L [THEN conjunct2, THEN conjunct2, THEN conjunct2, THEN conjunct2, THEN conjunct2, THEN conjunct2, THEN conjunct2, THEN conjunct1]
    and iter_prev = L [THEN conjunct2, THEN conjunct2, THEN conjunct2, THEN conjunct2, THEN conjunct2, THEN conjunct2, THEN conjunct2, THEN conjunct2, THEN conjunct1]
    and commit = L [THEN conjunct2, THEN conjunct2, THEN conjunct2, THEN conjunct2, THEN conjunct2, THEN conjunct2, THEN conjunct2, THEN conjunct2, THEN conjunct2]
  show "rr_get R d T k = Ok (S T k)" using get by simp
  show "\<exists>d'. rr_put R d T k v = (Ok (), d') \<and> repo_state R good single multi d' (S(T := (S T)(k \<mapsto> v))) M"
    using put laws by (simp add: repo_state_def)
  show "\<exists>d'. rr_delete R d T k = (Ok (), d') \<and> repo_state R good single multi d' (S(T := (S T)(k := None))) M"
    if "S T k \<noteq> None" using delete [rule_format, of T k] laws that by (simp add: repo_state_def)
  show "\<exists>d'. rr_put_multi R d U t v = (Ok (), d') \<and> repo_state R good single multi d' S (M(U := (M U)(t := insert v (M U t))))"
    using put_multi laws by (simp add: repo_state_def)
  show "\<exists>d'. rr_append_multi R d U t v = (Ok (), d') \<and> repo_state R good single multi d' S (M(U := (M U)(t := insert v (M U t))))"
    if "\<forall>u \<in> M U t. u < v" using append [rule_format, of U t v] laws that by (simp add: repo_state_def)
  show "fst (rr_append_multi R d U t v) = Err ()" if "\<exists>u \<in> M U t. v < u" using append_err that by blast
  show "\<exists>d'. rr_delete_multi R d U t v = (Ok (), d') \<and> repo_state R good single multi d' S (M(U := (M U)(t := M U t - {v})))"
    if "v \<in> M U t" using delete_multi [rule_format, of v U t] laws that by (simp add: repo_state_def)
  show "fst (rr_delete_multi R d U t v) = Err ()" if "v \<notin> M U t" using delete_multi [rule_format, of v U t] that by simp
  show "\<exists>es. rr_iter_start R d U = Ok (map Ok es) \<and> set es = {(t, v). v \<in> M U t} \<and> distinct es \<and> sorted (map fst es)"
    using iter by blast
  show "\<exists>ess. rr_iter_prev_dup_from R d U t = Ok (map (\<lambda>es. Ok (map Ok es)) ess)
      \<and> set (concat ess) = {(u, v). v \<in> M U u \<and> u \<le> t} \<and> distinct (concat ess)" using iter_prev by blast
  show "\<exists>d'. rr_commit R d = Some d' \<and> repo_state R good single multi d' S M"
    using commit laws by (simp add: repo_state_def)
qed

lemma unwrap_op_simps [simp]:
  "unwrap_op (Ok x, d) = (Ok x, d)" "unwrap_op (Err e, d) = (Panic, d)" "unwrap_op (Panic, d) = (Panic, d)"
  by (simp_all add: unwrap_op_def)

lemma committed_simps [simp]:
  "committed R d (Err e, w) = (Err e, d)" "committed R d (Panic, w) = (Panic, d)" "committed R d (Hang, w) = (Hang, d)"
  by (simp_all add: committed_def)

lemma committed_Ok:
  assumes "repo_state R good single multi w S M"
  shows "\<exists>d'. committed R d (Ok x, w) = (Ok x, d') \<and> repo_state R good single multi d' S M"
  using rr_commit_law [OF assms] by (auto simp: committed_def)

section \<open>The machine\<close>

record RepoView =
  rv_blocks :: "BlockId \<rightharpoonup> Block"
  rv_metas :: "BlockId \<rightharpoonup> BlockMeta"

definition in_lru :: "BlockMeta \<Rightarrow> bool" where
  "in_lru m \<longleftrightarrow> bm_synced m \<and> \<not> bm_pin m"

text \<open>The blocks of the recently used list at a time.\<close>

definition lru_of :: "(BlockId \<rightharpoonup> BlockMeta) \<Rightarrow> Timestamp \<Rightarrow> BlockId set" where
  "lru_of ms t = {i. \<exists>m. ms i = Some m \<and> in_lru m \<and> bm_last_used m = t}"

text \<open>An identifier can be appended at a time when every other one there is smaller.\<close>

definition appendable :: "'x repo_externs_scheme \<Rightarrow> RepoView \<Rightarrow> BlockId \<Rightarrow> Timestamp \<Rightarrow> bool" where
  "appendable X V i t \<longleftrightarrow> (\<forall>j \<in> lru_of (rv_metas V) t - {i}. ser_digest X j < ser_digest X i)"

datatype RepoCall = GetBlock BlockId | PutBlock Block | DelBlock BlockId | SetPin BlockId bool | Synced BlockId "u32 option"

datatype RepoAnswer = Got Block | Stored BlockId | Deleted Block usize | Finished

definition set_meta :: "BlockId \<Rightarrow> BlockMeta \<Rightarrow> RepoView \<Rightarrow> RepoView" where
  "set_meta i m V = V\<lparr>rv_metas := (rv_metas V)(i \<mapsto> m)\<rparr>"

text \<open>
  One step: the answer and the next state, at the minute \<open>now\<close>. The machine panics where the code
  does, without a change: when it has to append out of order, and when it deletes a block that is
  synced and pinned.
\<close>

primrec repo_step ::
  "'x repo_externs_scheme \<Rightarrow> Timestamp \<Rightarrow> RepoView \<Rightarrow> RepoCall \<Rightarrow> (RepoAnswer, StorageError, RepoView) op" where
  "repo_step X now V (GetBlock i) = (case rv_blocks V i of
       None \<Rightarrow> (Err StorageError.NotFound, V)
     | Some b \<Rightarrow> (case rv_metas V i of
         None \<Rightarrow> (Ok (Got b), V)
       | Some m \<Rightarrow>
           if \<not> bm_synced m then (Ok (Got b), V)
           else if in_lru m \<and> \<not> appendable X V i now then (Panic, V)
           else (Ok (Got b), set_meta i (m\<lparr>bm_last_used := now\<rparr>) V)))"
| "repo_step X now V (PutBlock b) = (Ok (Stored (block_id X b)),
     V\<lparr>rv_blocks := (rv_blocks V)(block_id X b \<mapsto> plain b)\<rparr>)"
| "repo_step X now V (DelBlock i) = (case rv_blocks V i of
       None \<Rightarrow> (Err StorageError.NotFound, V)
     | Some b \<Rightarrow>
         if (case rv_metas V i of None \<Rightarrow> False | Some m \<Rightarrow> bm_synced m \<and> bm_pin m) then (Panic, V)
         else (Ok (Deleted b (length (ser_whole_block X b))),
           \<lparr>rv_blocks = (rv_blocks V)(i := None), rv_metas = (rv_metas V)(i := None)\<rparr>))"
| "repo_step X now V (SetPin i add) = (case rv_metas V i of
       None \<Rightarrow> (Ok Finished, if add then set_meta i \<lparr>bm_pin = True, bm_last_used = 0, bm_synced = False\<rparr> V else V)
     | Some m \<Rightarrow>
         if bm_pin m = add then (Ok Finished, V)
         else if bm_synced m \<and> \<not> add \<and> \<not> appendable X V i (bm_last_used m) then (Panic, V)
         else (Ok Finished, set_meta i (m\<lparr>bm_pin := add\<rparr>) V))"
| "repo_step X now V (Synced i when') = (let t = (case when' of None \<Rightarrow> now | Some w \<Rightarrow> w) in
     case rv_metas V i of
       None \<Rightarrow> if appendable X V i t
         then (Ok Finished, set_meta i \<lparr>bm_pin = False, bm_last_used = t, bm_synced = True\<rparr> V) else (Panic, V)
     | Some m \<Rightarrow>
         if bm_synced m then (Ok Finished, V)
         else if \<not> bm_pin m \<and> \<not> appendable X V i t then (Panic, V)
         else (Ok Finished, set_meta i (m\<lparr>bm_synced := True, bm_last_used := t\<rparr>) V))"

text \<open>The same call on the code.\<close>

primrec repo_call ::
  "'x repo_externs_scheme \<Rightarrow> 'd RepoRkv \<Rightarrow> u64 \<Rightarrow> 'd \<Rightarrow> RepoCall \<Rightarrow> (RepoAnswer, StorageError, 'd) op" where
  "repo_call X R clock d (GetBlock i) = op_then (lmdb_repo_get X R clock d i) (\<lambda>b d. (Ok (Got b), d))"
| "repo_call X R clock d (PutBlock b) = op_then (lmdb_repo_put X R d b) (\<lambda>i d. (Ok (Stored i), d))"
| "repo_call X R clock d (DelBlock i) = op_then (lmdb_repo_del X R d i) (\<lambda>(b, n) d. (Ok (Deleted b n), d))"
| "repo_call X R clock d (SetPin i add) = op_then (set_pin X R d i add) (\<lambda>_ d. (Ok Finished, d))"
| "repo_call X R clock d (Synced i when') =
     op_then (apfst (map_err (\<lambda>_. BackendError)) (has_been_synced X R clock d i when')) (\<lambda>_ d. (Ok Finished, d))"

section \<open>The relation\<close>

definition repo_rel :: "'x repo_externs_scheme \<Rightarrow> singles \<Rightarrow> multis \<Rightarrow> RepoView \<Rightarrow> bool" where
  "repo_rel X S M V \<longleftrightarrow>
     (\<forall>i. S MainStore (ser_digest X i) = map_option (ser_whole_block X) (rv_blocks V i)
        \<and> S MetaStore (ser_digest X i) = map_option (ser_block_meta X) (rv_metas V i))
     \<and> (\<forall>i b. rv_blocks V i = Some b \<longrightarrow> get_id X b = i \<and> plain b = b)
     \<and> (\<forall>i m. rv_metas V i = Some m \<longrightarrow> (bm_synced m \<longleftrightarrow> bm_last_used m \<noteq> 0))
     \<and> (\<forall>t. M RecentlyUsedStore t = ser_digest X ` lru_of (rv_metas V) t)
     \<and> (\<forall>i b e. rv_blocks V i = Some b \<and> block_expiry b = Some e \<longrightarrow> ser_digest X i \<in> M ExpiryStore e)"

text \<open>The expiry table holds nothing else than the expiries of the stored blocks.\<close>

definition expiry_exact :: "'x repo_externs_scheme \<Rightarrow> multis \<Rightarrow> RepoView \<Rightarrow> bool" where
  "expiry_exact X M V \<longleftrightarrow>
     (\<forall>e. M ExpiryStore e \<subseteq> ser_digest X ` {i. \<exists>b. rv_blocks V i = Some b \<and> block_expiry b = Some e})"

lemma repo_codecD:
  assumes "repo_codec X"
  shows "de_digest X (ser_digest X i) = Some i" "de_whole_block X (ser_whole_block X b) = Some (plain b)"
    "ser_whole_block X (plain b) = ser_whole_block X b" "de_block_meta X (ser_block_meta X m) = Some m"
    "ser_digest X i = ser_digest X j \<longleftrightarrow> i = j"
  using assms unfolding repo_codec_def by (blast, blast, blast, blast, metis option.inject)

lemma repo_relD:
  assumes "repo_rel X S M V"
  shows "S MainStore (ser_digest X i) = map_option (ser_whole_block X) (rv_blocks V i)"
    "S MetaStore (ser_digest X i) = map_option (ser_block_meta X) (rv_metas V i)"
    "rv_blocks V i = Some b \<Longrightarrow> get_id X b = i" "rv_blocks V i = Some b \<Longrightarrow> plain b = b"
    "rv_metas V i = Some m \<Longrightarrow> bm_synced m \<longleftrightarrow> bm_last_used m \<noteq> 0"
    "M RecentlyUsedStore t = ser_digest X ` lru_of (rv_metas V) t"
    "rv_blocks V i = Some b \<Longrightarrow> block_expiry b = Some e \<Longrightarrow> ser_digest X i \<in> M ExpiryStore e"
  using assms by (simp_all add: repo_rel_def)

lemma lru_of_upd [simp]:
  "lru_of (ms(i \<mapsto> m)) t = (if in_lru m \<and> bm_last_used m = t then insert i (lru_of ms t) else lru_of ms t - {i})"
  "lru_of (ms(i := None)) t = lru_of ms t - {i}"
  by (auto simp: lru_of_def)

lemma lru_of_mem: "ms i = Some m \<Longrightarrow> i \<in> lru_of ms t \<longleftrightarrow> in_lru m \<and> bm_last_used m = t"
  "ms i = None \<Longrightarrow> i \<notin> lru_of ms t"
  by (simp_all add: lru_of_def)

lemma ser_image_diff: "repo_codec X \<Longrightarrow> ser_digest X ` A - {ser_digest X i} = ser_digest X ` (A - {i})"
  by (auto simp: repo_codecD)

lemma ser_mem: "repo_codec X \<Longrightarrow> ser_digest X i \<in> ser_digest X ` A \<longleftrightarrow> i \<in> A"
  by (auto simp: repo_codecD)

text \<open>Setting the metadata of a block, with the list changed to match.\<close>

lemma repo_rel_set_meta:
  assumes "repo_codec X" "repo_rel X S M V" "bm_synced m \<longleftrightarrow> bm_last_used m \<noteq> 0"
    "\<forall>t. M' RecentlyUsedStore t = ser_digest X ` lru_of ((rv_metas V)(i \<mapsto> m)) t" "M' ExpiryStore = M ExpiryStore"
  shows "repo_rel X (S(MetaStore := (S MetaStore)(ser_digest X i \<mapsto> ser_block_meta X m))) M' (set_meta i m V)"
  using assms(2-5) by (auto simp: repo_rel_def set_meta_def repo_codecD [OF assms(1)])

lemma expiry_exact_set_meta: "expiry_exact X M V \<Longrightarrow> M' ExpiryStore = M ExpiryStore \<Longrightarrow> expiry_exact X M' (set_meta i m V)"
  by (simp add: expiry_exact_def set_meta_def)

definition represents ::
  "'x repo_externs_scheme \<Rightarrow> 'd RepoRkv \<Rightarrow> ('d \<Rightarrow> bool) \<Rightarrow> ('d \<Rightarrow> singles) \<Rightarrow> ('d \<Rightarrow> multis) \<Rightarrow> bool \<Rightarrow> 'd \<Rightarrow> RepoView \<Rightarrow> bool" where
  "represents X R good single multi exact d V \<longleftrightarrow>
     (\<exists>S M. repo_state R good single multi d S M \<and> repo_rel X S M V \<and> (exact \<longrightarrow> expiry_exact X M V))"

lemma representsI:
  "repo_state R good single multi d S M \<Longrightarrow> repo_rel X S M V \<Longrightarrow> (exact \<Longrightarrow> expiry_exact X M V) \<Longrightarrow>
    represents X R good single multi exact d V"
  by (auto simp: represents_def)

section \<open>Steps on the list\<close>

definition set_lru :: "Timestamp \<Rightarrow> bytes set \<Rightarrow> multis \<Rightarrow> multis" where
  "set_lru t A M = M(RecentlyUsedStore := (M RecentlyUsedStore)(t := A))"

lemma set_lru_simps [simp]:
  "set_lru t A M RecentlyUsedStore u = (if u = t then A else M RecentlyUsedStore u)"
  "set_lru t A M ExpiryStore = M ExpiryStore"
  by (simp_all add: set_lru_def)

lemma lru_append:
  assumes "repo_codec X" "repo_state R good single multi d S M" "M RecentlyUsedStore t = ser_digest X ` A" "i \<notin> A"
  shows "\<forall>j \<in> A. ser_digest X j < ser_digest X i \<Longrightarrow>
      \<exists>d'. add_to_lru R d (ser_digest X i) t = (Ok (), d') \<and> repo_state R good single multi d' S
        (set_lru t (ser_digest X ` insert i A) M)"
    and "\<not> (\<forall>j \<in> A. ser_digest X j < ser_digest X i) \<Longrightarrow> \<exists>d'. add_to_lru R d (ser_digest X i) t = (Err (), d')"
proof -
  show "\<exists>d'. add_to_lru R d (ser_digest X i) t = (Ok (), d') \<and> repo_state R good single multi d' S
        (set_lru t (ser_digest X ` insert i A) M)"
    if "\<forall>j \<in> A. ser_digest X j < ser_digest X i"
    using rr_append_law [OF assms(2), of RecentlyUsedStore t "ser_digest X i"] that by (simp add: assms(3) add_to_lru_def set_lru_def)
  assume "\<not> (\<forall>j \<in> A. ser_digest X j < ser_digest X i)"
  then obtain j where j: "j \<in> A" "\<not> ser_digest X j < ser_digest X i" by blast
  with assms(4) have "ser_digest X i < ser_digest X j" using repo_codecD(5) [OF assms(1), of i j] by (auto simp: not_less order.order_iff_strict)
  with j(1) rr_append_err [OF assms(2), of RecentlyUsedStore t "ser_digest X i"]
  show "\<exists>d'. add_to_lru R d (ser_digest X i) t = (Err (), d')"
    by (simp add: assms(3) add_to_lru_def) (metis prod.collapse)
qed

lemma lru_remove:
  assumes "repo_codec X" "repo_state R good single multi d S M" "M RecentlyUsedStore t = ser_digest X ` A"
  shows "i \<in> A \<Longrightarrow> \<exists>d'. remove_from_lru R d (ser_digest X i) t = (Ok (), d') \<and> repo_state R good single multi d' S
        (set_lru t (ser_digest X ` (A - {i})) M)"
    and "i \<notin> A \<Longrightarrow> \<exists>d'. remove_from_lru R d (ser_digest X i) t = (Err (), d')"
  using rr_delete_multi_law [OF assms(2), of "ser_digest X i" RecentlyUsedStore t]
    rr_delete_multi_err [OF assms(2), of "ser_digest X i" RecentlyUsedStore t]
  by (simp_all add: assms(3) remove_from_lru_def set_lru_def ser_mem [OF assms(1)] ser_image_diff [OF assms(1)])
     (metis prod.collapse)

text \<open>Writing a metadata value and committing.\<close>

lemma save_meta:
  fixes R :: "'d RepoRkv"
  assumes "repo_codec X" "repo_state R good single multi w S M" "repo_rel X S M0 V" "exact \<Longrightarrow> expiry_exact X M0 V"
    "bm_synced m \<longleftrightarrow> bm_last_used m \<noteq> 0" "M ExpiryStore = M0 ExpiryStore"
    "\<forall>t. M RecentlyUsedStore t = ser_digest X ` lru_of ((rv_metas V)(i \<mapsto> m)) t"
  shows "\<exists>d'. committed R d (unwrap_op (rr_put R w MetaStore (ser_digest X i) (ser_block_meta X m))) = ((Ok (), d') :: (unit, 'e, 'd) op)
    \<and> represents X R good single multi exact d' (set_meta i m V)"
proof -
  from rr_put_law [OF assms(2), of MetaStore "ser_digest X i" "ser_block_meta X m"] obtain w' where
    w': "rr_put R w MetaStore (ser_digest X i) (ser_block_meta X m) = (Ok (), w')"
      "repo_state R good single multi w' (S(MetaStore := (S MetaStore)(ser_digest X i \<mapsto> ser_block_meta X m))) M" by blast
  from committed_Ok [OF w'(2), of d "()"] obtain d' where
    "committed R d (Ok (), w') = ((Ok (), d') :: (unit, 'e, 'd) op)"
    "repo_state R good single multi d' (S(MetaStore := (S MetaStore)(ser_digest X i \<mapsto> ser_block_meta X m))) M" by blast
  moreover from this(2) have "represents X R good single multi exact d' (set_meta i m V)"
    by (rule representsI) (use repo_rel_set_meta [OF assms(1,3,5,7,6)] expiry_exact_set_meta [OF assms(4)] assms(6) in auto)
  ultimately show ?thesis using w'(1) by auto
qed

section \<open>Reading\<close>

lemma touch_step:
  assumes "repo_codec X" "repo_state R good single multi d S M" "repo_rel X S M V" "exact \<Longrightarrow> expiry_exact X M V"
    "now_timestamp clock = (Ok now :: (Timestamp, StorageError) result)" "now \<noteq> 0"
  shows "\<exists>r d'. touch_block X R clock d (ser_digest X i) = (r, d') \<and>
    (case rv_metas V i of
       None \<Rightarrow> r = Ok () \<and> d' = d
     | Some m \<Rightarrow> if \<not> bm_synced m then r = Ok () \<and> d' = d
         else if in_lru m \<and> \<not> appendable X V i now then r = Panic \<and> d' = d
         else r = Ok () \<and> represents X R good single multi exact d' (set_meta i (m\<lparr>bm_last_used := now\<rparr>) V))"
proof (cases "rv_metas V i")
  case None
  then show ?thesis by (simp add: touch_block_def rr_get_law [OF assms(2)] repo_relD(2) [OF assms(3)])
next
  case (Some m)
  let ?k = "ser_digest X i" and ?t = "bm_last_used m" and ?m' = "m\<lparr>bm_last_used := now\<rparr>"
  have meta: "rr_get R d MetaStore ?k = Ok (Some (ser_block_meta X m))"
    by (simp add: rr_get_law [OF assms(2)] repo_relD(2) [OF assms(3)] Some)
  note lru = repo_relD(6) [OF assms(3)]
  show ?thesis
  proof (cases "in_lru m")
    case False
    then have same: "lru_of ((rv_metas V)(i \<mapsto> ?m')) t = lru_of (rv_metas V) t" for t
      by (auto simp: in_lru_def lru_of_mem Some)
    from save_meta [OF assms(1-3), of exact ?m' i d] assms(4,6) False same lru meta Some
    show ?thesis
      by (cases "bm_synced m") (auto simp: touch_block_def repo_codecD [OF assms(1)] assms(5) in_lru_def)
  next
    case True
    then have m: "bm_synced m" "\<not> bm_pin m" by (simp_all add: in_lru_def)
    from lru_remove(1) [OF assms(1,2) lru, of i ?t] True Some obtain d1 where
      d1: "remove_from_lru R d ?k ?t = (Ok (), d1)" "repo_state R good single multi d1 S
        (set_lru ?t (ser_digest X ` (lru_of (rv_metas V) ?t - {i})) M)"
      by (auto simp: lru_of_mem)
    have at: "(set_lru ?t (ser_digest X ` (lru_of (rv_metas V) ?t - {i})) M) RecentlyUsedStore now
        = ser_digest X ` (lru_of (rv_metas V) now - {i})"
      using Some True by (auto simp: lru lru_of_mem)
    show ?thesis
    proof (cases "appendable X V i now")
      case False
      with lru_append(2) [OF assms(1) d1(2) at] obtain d2 where "add_to_lru R d1 ?k now = (Err (), d2)"
        by (auto simp: appendable_def)
      with d1(1) meta Some m False True show ?thesis
        by (auto simp: touch_block_def repo_codecD [OF assms(1)] assms(5))
    next
      case app: True
      then have "\<forall>j \<in> lru_of (rv_metas V) now - {i}. ser_digest X j < ser_digest X i" by (simp add: appendable_def)
      with lru_append(1) [OF assms(1) d1(2) at] obtain d2 where
        d2: "add_to_lru R d1 ?k now = (Ok (), d2)" "repo_state R good single multi d2 S
          (set_lru now (ser_digest X ` insert i (lru_of (rv_metas V) now - {i}))
             (set_lru ?t (ser_digest X ` (lru_of (rv_metas V) ?t - {i})) M))"
        by blast
      have "\<forall>t. (set_lru now (ser_digest X ` insert i (lru_of (rv_metas V) now - {i}))
             (set_lru ?t (ser_digest X ` (lru_of (rv_metas V) ?t - {i})) M)) RecentlyUsedStore t
          = ser_digest X ` lru_of ((rv_metas V)(i \<mapsto> ?m')) t"
        using True by (auto simp: in_lru_def lru lru_of_mem Some)
      from save_meta [where d = d, OF assms(1) d2(2) assms(3,4) _ _ this] assms(6) obtain d3 where
        "committed R d (unwrap_op (rr_put R d2 MetaStore ?k (ser_block_meta X ?m'))) = ((Ok (), d3) :: (unit, StorageError, _) op)"
        "represents X R good single multi exact d3 (set_meta i ?m' V)" using m by auto
      with d1(1) d2(1) meta Some m True app show ?thesis
        by (auto simp: touch_block_def repo_codecD [OF assms(1)] assms(5))
    qed
  qed
qed

end
