(* ===== verification/Lofire_Lmdb_Contract.thy ===== *)
theory Lofire_Lmdb_Contract
  imports Lofire_Lmdb_View
begin

text \<open>
  Every call of \<^verbatim>\<open>LmdbRepoStore\<close> is a step of the machine of \<open>Lofire_Lmdb_View\<close>; without synced blocks
  the store has the laws of \<open>repo_store\<close>; and removing expired or least used blocks removes what it
  should.
\<close>

section \<open>Steps\<close>

lemma representsE:
  assumes "represents X R good single multi exact d V"
  obtains S M where "repo_state R good single multi d S M" "repo_rel X S M V" "exact \<Longrightarrow> expiry_exact X M V"
  using assms by (auto simp: represents_def)

lemma get_step:
  assumes "repo_codec X" "represents X R good single multi exact d V"
    "now_timestamp clock = (Ok now :: (Timestamp, StorageError) result)" "now \<noteq> 0"
  shows "\<exists>r d' V'. repo_call X R clock d (GetBlock i) = (r, d') \<and> repo_step X now V (GetBlock i) = (r, V')
    \<and> represents X R good single multi exact d' V'"
proof -
  from assms(2) obtain S M where st: "repo_state R good single multi d S M" "repo_rel X S M V" "exact \<Longrightarrow> expiry_exact X M V"
    by (rule representsE) blast
  note main = rr_get_law [OF st(1), of MainStore "ser_digest X i"] repo_relD(1) [OF st(2), of i]
  show ?thesis
  proof (cases "rv_blocks V i")
    case None
    with main assms(2) show ?thesis by (simp add: lmdb_repo_get_def)
  next
    case (Some b)
    then have b: "block_id X b = i" "plain b = b" using repo_relD(3,4) [OF st(2), of i b] by (metis block_id_plain)+
    have rest: "(case de_whole_block X (ser_whole_block X b) of None \<Rightarrow> (Err StorageError.InvalidValue, d')
        | Some b \<Rightarrow> if block_id X b \<noteq> i then (Panic, d') else (Ok b, d')) = (Ok b, d')" for d' :: 'b
      by (simp add: repo_codecD [OF assms(1)] b)
    from touch_step [where i = i, OF assms(1) st assms(3,4)] obtain r d' where
      t: "touch_block X R clock d (ser_digest X i) = (r, d')" "case rv_metas V i of
         None \<Rightarrow> r = Ok () \<and> d' = d
       | Some m \<Rightarrow> if \<not> bm_synced m then r = Ok () \<and> d' = d
         else if in_lru m \<and> \<not> appendable X V i now then r = Panic \<and> d' = d
         else r = Ok () \<and> represents X R good single multi exact d' (set_meta i (m\<lparr>bm_last_used := now\<rparr>) V)" by blast
    show ?thesis using t assms(2) Some main rest
      by (cases "rv_metas V i") (auto simp: lmdb_repo_get_def split: if_splits)
  qed
qed

lemma put_step:
  assumes "repo_codec X" "represents X R good single multi exact d V" "honest X b"
    "exact \<Longrightarrow> rv_blocks V (block_id X b) \<in> {None, Some (plain b)}"
  shows "\<exists>r d' V'. repo_call X R clock d (PutBlock b) = (r, d') \<and> repo_step X now V (PutBlock b) = (r, V')
    \<and> represents X R good single multi exact d' V'"
proof -
  let ?i = "block_id X b" and ?k = "ser_digest X (block_id X b)"
  let ?V = "V\<lparr>rv_blocks := (rv_blocks V)(?i \<mapsto> plain b)\<rparr>"
  from assms(2) obtain S M where st: "repo_state R good single multi d S M" "repo_rel X S M V" "exact \<Longrightarrow> expiry_exact X M V"
    by (rule representsE) blast
  from rr_put_law [OF st(1), of MainStore ?k "ser_whole_block X b"] obtain w where
    w: "rr_put R d MainStore ?k (ser_whole_block X b) = (Ok (), w)"
      "repo_state R good single multi w (S(MainStore := (S MainStore)(?k \<mapsto> ser_whole_block X b))) M" by blast
  define M' where "M' = (case block_expiry b of Some e \<Rightarrow>
      M(ExpiryStore := (M ExpiryStore)(e := insert ?k (M ExpiryStore e))) | None \<Rightarrow> M)"
  have "\<exists>w'. (case block_expiry b of Some e \<Rightarrow> unwrap_op (rr_put_multi R w ExpiryStore e ?k) | None \<Rightarrow> (Ok (), w))
        = ((Ok (), w') :: (unit, StorageError, _) op)
      \<and> repo_state R good single multi w' (S(MainStore := (S MainStore)(?k \<mapsto> ser_whole_block X b))) M'"
    using rr_put_multi_law [OF w(2), of ExpiryStore _ ?k] w(2)
    by (cases "block_expiry b") (auto simp: M'_def, metis unwrap_op_simps(1))
  then obtain w' where
    w': "(case block_expiry b of Some e \<Rightarrow> unwrap_op (rr_put_multi R w ExpiryStore e ?k) | None \<Rightarrow> (Ok (), w))
        = ((Ok (), w') :: (unit, StorageError, _) op)"
      "repo_state R good single multi w' (S(MainStore := (S MainStore)(?k \<mapsto> ser_whole_block X b))) M'" by blast
  from committed_Ok [OF w'(2), of d ?i] obtain d' where
    d': "committed R d (Ok ?i, w') = ((Ok ?i, d') :: (BlockId, StorageError, _) op)"
      "repo_state R good single multi d' (S(MainStore := (S MainStore)(?k \<mapsto> ser_whole_block X b))) M'" by blast
  have id: "get_id X b = ?i" using assms(3) by (simp add: honest_def)
  have "repo_rel X (S(MainStore := (S MainStore)(?k \<mapsto> ser_whole_block X b))) M' ?V"
    using st(2) id by (auto simp: repo_rel_def M'_def repo_codecD [OF assms(1)] split: option.splits)
  moreover have "expiry_exact X M' ?V" if x: exact
    unfolding expiry_exact_def
  proof (intro allI subsetI)
    fix e k assume "k \<in> M' ExpiryStore e"
    then have "k \<in> M ExpiryStore e \<or> k = ?k \<and> block_expiry b = Some e"
      by (auto simp: M'_def split: option.splits if_splits)
    then obtain j where "k = ser_digest X j" "(\<exists>c. rv_blocks V j = Some c \<and> block_expiry c = Some e) \<or> j = ?i \<and> block_expiry b = Some e"
      using st(3) [OF x, unfolded expiry_exact_def, rule_format, of e] by blast
    then show "k \<in> ser_digest X ` {i. \<exists>b. rv_blocks ?V i = Some b \<and> block_expiry b = Some e}"
      using assms(4) [OF x] by (intro image_eqI [of _ _ j]) (auto split: if_splits)
  qed
  ultimately have "represents X R good single multi exact d' ?V" by (rule representsI [OF d'(2)])
  with w(1) w'(1) d'(1) show ?thesis by (auto simp: lmdb_repo_put_def Let_def)
qed

text \<open>Deleting: the metadata and the list entry, the block, the expiry.\<close>

lemma del_meta_step:
  fixes d :: 'd and i :: BlockId
  assumes "repo_codec X" "repo_state R good single multi d S M" "repo_rel X S M V"
  defines "body \<equiv> ((case map_option (ser_block_meta X) (rv_metas V i) of
            None \<Rightarrow> (Ok (), d)
          | Some meta_value \<Rightarrow> op_then (unwrap (de_block_meta X meta_value), d) (\<lambda>meta w.
              op_then (if bm_last_used meta \<noteq> 0 then unwrap_op (remove_from_lru R w (ser_digest X i) (bm_last_used meta))
                       else (Ok (), w))
                (\<lambda>_ w. unwrap_op (rr_delete R w MetaStore (ser_digest X i))))) :: (unit, StorageError, 'd) op)"
  shows "if (case rv_metas V i of None \<Rightarrow> False | Some m \<Rightarrow> bm_synced m \<and> bm_pin m) then \<exists>w. body = (Panic, w)
    else \<exists>w M'. body = (Ok (), w) \<and> M' ExpiryStore = M ExpiryStore
      \<and> (\<forall>t. M' RecentlyUsedStore t = ser_digest X ` (lru_of (rv_metas V) t - {i}))
      \<and> repo_state R good single multi w (S(MetaStore := (S MetaStore)(ser_digest X i := None))) M'"
proof (cases "rv_metas V i")
  case None
  have "S(MetaStore := (S MetaStore)(ser_digest X i := None)) = S"
    using repo_relD(2) [OF assms(3), of i] None by (auto simp: fun_eq_iff)
  with None assms(2) repo_relD(6) [OF assms(3)] show ?thesis
    by (auto simp: body_def lru_of_mem intro!: exI [of _ M])
next
  case (Some m)
  let ?k = "ser_digest X i" and ?t = "bm_last_used m"
  note lru = repo_relD(6) [OF assms(3)]
  have z: "?t \<noteq> 0 \<longleftrightarrow> bm_synced m" using repo_relD(5) [OF assms(3) Some] by simp
  have del: "\<exists>w'. rr_delete R w MetaStore ?k = (Ok (), w')
      \<and> repo_state R good single multi w' (S(MetaStore := (S MetaStore)(?k := None))) N"
    if "repo_state R good single multi w S N" for w N
    using rr_delete_law [OF that, of MetaStore ?k] repo_relD(2) [OF assms(3), of i] Some by simp
  show ?thesis
  proof (cases "bm_synced m")
    case False
    then have "\<forall>t. M RecentlyUsedStore t = ser_digest X ` (lru_of (rv_metas V) t - {i})"
      using Some by (auto simp: lru lru_of_def in_lru_def)
    with del [OF assms(2)] False Some z show ?thesis
      by (auto simp: body_def repo_codecD [OF assms(1)])
  next
    case True
    show ?thesis
    proof (cases "bm_pin m")
      case p: True
      then have "i \<notin> lru_of (rv_metas V) ?t" using Some by (simp add: lru_of_mem in_lru_def)
      from lru_remove(2) [OF assms(1,2) lru this] True p Some z show ?thesis
        by (auto simp: body_def repo_codecD [OF assms(1)])
    next
      case p: False
      with True have "i \<in> lru_of (rv_metas V) ?t" using Some by (simp add: lru_of_mem in_lru_def)
      from lru_remove(1) [OF assms(1,2) lru this] obtain w where
        w: "remove_from_lru R d ?k ?t = (Ok (), w)" "repo_state R good single multi w S
          (set_lru ?t (ser_digest X ` (lru_of (rv_metas V) ?t - {i})) M)" by blast
      from del [OF w(2)] obtain w' where "rr_delete R w MetaStore ?k = (Ok (), w')"
        "repo_state R good single multi w' (S(MetaStore := (S MetaStore)(?k := None)))
          (set_lru ?t (ser_digest X ` (lru_of (rv_metas V) ?t - {i})) M)" by blast
      moreover have "\<forall>t. set_lru ?t (ser_digest X ` (lru_of (rv_metas V) ?t - {i})) M RecentlyUsedStore t
          = ser_digest X ` (lru_of (rv_metas V) t - {i})"
        using Some by (auto simp: lru lru_of_def)
      ultimately show ?thesis using w(1) True p Some z
        by (auto simp: body_def repo_codecD [OF assms(1)]
            intro!: exI [of _ "set_lru ?t (ser_digest X ` (lru_of (rv_metas V) ?t - {i})) M"])
    qed
  qed
qed

lemma repo_rel_del:
  fixes i :: BlockId
  assumes "repo_codec X" "repo_rel X S M V" "rv_blocks V i = Some b"
    "\<forall>t. M' RecentlyUsedStore t = ser_digest X ` (lru_of (rv_metas V) t - {i})"
    "\<forall>e. M' ExpiryStore e = (if block_expiry b = Some e then M ExpiryStore e - {ser_digest X i} else M ExpiryStore e)"
  defines "V' \<equiv> \<lparr>rv_blocks = (rv_blocks V)(i := None), rv_metas = (rv_metas V)(i := None)\<rparr>"
  shows "repo_rel X (S(MetaStore := (S MetaStore)(ser_digest X i := None), MainStore := (S MainStore)(ser_digest X i := None))) M' V'"
    and "expiry_exact X M V \<Longrightarrow> expiry_exact X M' V'"
proof -
  show "repo_rel X (S(MetaStore := (S MetaStore)(ser_digest X i := None), MainStore := (S MainStore)(ser_digest X i := None))) M' V'"
    using assms(2) unfolding repo_rel_def V'_def
    by (simp add: repo_codecD [OF assms(1)] assms(4,5)) blast
  assume ex: "expiry_exact X M V"
  show "expiry_exact X M' V'"
    unfolding expiry_exact_def
  proof (intro allI subsetI)
    fix e k assume k: "k \<in> M' ExpiryStore e"
    then have "k \<in> M ExpiryStore e" using assms(5) by (auto split: if_splits)
    then obtain j c where j: "k = ser_digest X j" "rv_blocks V j = Some c" "block_expiry c = Some e"
      using ex [unfolded expiry_exact_def, rule_format, of e] by blast
    with k assms(3,5) have "j \<noteq> i" by (auto split: if_splits)
    with j show "k \<in> ser_digest X ` {i. \<exists>b. rv_blocks V' i = Some b \<and> block_expiry b = Some e}"
      by (intro image_eqI [of _ _ j]) (auto simp: V'_def)
  qed
qed

lemma del_step:
  assumes "repo_codec X" "represents X R good single multi exact d V"
  shows "\<exists>r d' V'. repo_call X R clock d (DelBlock i) = (r, d') \<and> repo_step X now V (DelBlock i) = (r, V')
    \<and> represents X R good single multi exact d' V'"
proof -
  from assms(2) obtain S M where st: "repo_state R good single multi d S M" "repo_rel X S M V" "exact \<Longrightarrow> expiry_exact X M V"
    by (rule representsE) blast
  let ?k = "ser_digest X i"
  note main = rr_get_law [OF st(1), of MainStore ?k] repo_relD(1) [OF st(2), of i]
  note meta = rr_get_law [OF st(1), of MetaStore ?k] repo_relD(2) [OF st(2), of i]
  show ?thesis
  proof (cases "rv_blocks V i")
    case None
    with main assms(2) show ?thesis by (simp add: lmdb_repo_del_def)
  next
    case (Some b)
    have b: "de_whole_block X (ser_whole_block X b) = Some b"
      using repo_codecD(2) [OF assms(1), of b] repo_relD(4) [OF st(2) Some] by simp
    note meta_step = del_meta_step [OF assms(1) st(1,2), of i]
    show ?thesis
    proof (cases "case rv_metas V i of None \<Rightarrow> False | Some m \<Rightarrow> bm_synced m \<and> bm_pin m")
      case True
      with meta_step show ?thesis using main meta Some b assms(2)
        by (auto simp: lmdb_repo_del_def)
    next
      case False
      with meta_step obtain w M1 where w:
        "(case map_option (ser_block_meta X) (rv_metas V i) of
            None \<Rightarrow> (Ok (), d)
          | Some meta_value \<Rightarrow> op_then (unwrap (de_block_meta X meta_value), d) (\<lambda>meta w.
              op_then (if bm_last_used meta \<noteq> 0 then unwrap_op (remove_from_lru R w ?k (bm_last_used meta))
                       else (Ok (), w))
                (\<lambda>_ w. unwrap_op (rr_delete R w MetaStore ?k)))) = ((Ok (), w) :: (unit, StorageError, 'b) op)"
        "M1 ExpiryStore = M ExpiryStore" "\<forall>t. M1 RecentlyUsedStore t = ser_digest X ` (lru_of (rv_metas V) t - {i})"
        "repo_state R good single multi w (S(MetaStore := (S MetaStore)(?k := None))) M1" by auto
      define S' where "S' = S(MetaStore := (S MetaStore)(?k := None), MainStore := (S MainStore)(?k := None))"
      from rr_delete_law [OF w(4), of MainStore ?k] main Some obtain w2 where
        w2: "rr_delete R w MainStore ?k = (Ok (), w2)" "repo_state R good single multi w2 S' M1" by (auto simp: S'_def)
      define M2 where "M2 = (case block_expiry b of Some e \<Rightarrow>
          M1(ExpiryStore := (M1 ExpiryStore)(e := M1 ExpiryStore e - {?k})) | None \<Rightarrow> M1)"
      have "\<exists>w3. (case block_expiry b of Some e \<Rightarrow> unwrap_op (rr_delete_multi R w2 ExpiryStore e ?k) | None \<Rightarrow> (Ok (), w2))
            = ((Ok (), w3) :: (unit, StorageError, 'b) op) \<and> repo_state R good single multi w3 S' M2"
      proof (cases "block_expiry b")
        case None with w2(2) show ?thesis by (simp add: M2_def)
      next
        case e: (Some e)
        from rr_delete_multi_law [OF w2(2), of ?k ExpiryStore e] repo_relD(7) [OF st(2) Some e] e
        show ?thesis by (auto simp: M2_def w(2))
      qed
      then obtain w3 where w3: "(case block_expiry b of Some e \<Rightarrow> unwrap_op (rr_delete_multi R w2 ExpiryStore e ?k) | None \<Rightarrow> (Ok (), w2))
            = ((Ok (), w3) :: (unit, StorageError, 'b) op)" "repo_state R good single multi w3 S' M2" by blast
      from committed_Ok [OF w3(2), of d "(b, length (ser_whole_block X b))"] obtain d' where
        d': "committed R d (Ok (b, length (ser_whole_block X b)), w3)
          = ((Ok (b, length (ser_whole_block X b)), d') :: (Block \<times> usize, StorageError, 'b) op)"
          "repo_state R good single multi d' S' M2" by blast
      have "\<forall>t. M2 RecentlyUsedStore t = ser_digest X ` (lru_of (rv_metas V) t - {i})"
        "\<forall>e. M2 ExpiryStore e = (if block_expiry b = Some e then M ExpiryStore e - {?k} else M ExpiryStore e)"
        using w(2,3) by (auto simp: M2_def split: option.splits)
      note rel = repo_rel_del [OF assms(1) st(2) Some this]
      have "represents X R good single multi exact d' \<lparr>rv_blocks = (rv_blocks V)(i := None), rv_metas = (rv_metas V)(i := None)\<rparr>"
        by (rule representsI [OF d'(2)]) (use rel st(3) in \<open>auto simp: S'_def\<close>)
      then show ?thesis using main meta Some b False w(1) w2(1) w3(1) d'(1)
        by (auto simp: lmdb_repo_del_def Let_def)
    qed
  qed
qed

lemma in_lru_pin [simp]: "in_lru (m\<lparr>bm_pin := p\<rparr>) \<longleftrightarrow> bm_synced m \<and> \<not> p"
  by (simp add: in_lru_def)

lemma set_pin_step:
  assumes "repo_codec X" "represents X R good single multi exact d V"
  shows "\<exists>r d' V'. repo_call X R clock d (SetPin i add) = (r, d') \<and> repo_step X now V (SetPin i add) = (r, V')
    \<and> represents X R good single multi exact d' V'"
proof -
  from assms(2) obtain S M where st: "repo_state R good single multi d S M" "repo_rel X S M V" "exact \<Longrightarrow> expiry_exact X M V"
    by (rule representsE) blast
  let ?k = "ser_digest X i"
  note meta = rr_get_law [OF st(1), of MetaStore ?k] repo_relD(2) [OF st(2), of i]
  note lru = repo_relD(6) [OF st(2)]
  note save = save_meta [where 'e = StorageError and i = i and d = d and exact = exact, OF assms(1) _ st(2,3)]
  show ?thesis
  proof (cases "rv_metas V i")
    case None
    have "\<forall>t. M RecentlyUsedStore t
        = ser_digest X ` lru_of ((rv_metas V)(i \<mapsto> \<lparr>bm_pin = True, bm_last_used = 0, bm_synced = False\<rparr>)) t"
      using None by (auto simp: lru in_lru_def lru_of_mem)
    from save [OF st(1) _ _ refl this] None meta assms(2) show ?thesis by (auto simp: set_pin_def Let_def)
  next
    case (Some m)
    let ?m = "m\<lparr>bm_pin := add\<rparr>" and ?t = "bm_last_used m"
    have z: "bm_synced ?m \<longleftrightarrow> bm_last_used ?m \<noteq> 0" using repo_relD(5) [OF st(2) Some] by simp
    have call: "set_pin X R d i add = (if add = bm_pin m then (Ok (), d)
        else committed R d (op_then
          (if bm_synced m then (if add then unwrap_op (remove_from_lru R d ?k ?t) else unwrap_op (add_to_lru R d ?k ?t))
           else (Ok (), d)) (\<lambda>_ w. unwrap_op (rr_put R w MetaStore ?k (ser_block_meta X ?m)))))"
      using meta Some by (simp add: set_pin_def Let_def repo_codecD [OF assms(1)])
    consider "bm_pin m = add" | "bm_pin m \<noteq> add" "\<not> bm_synced m" | "\<not> bm_pin m" "add" "bm_synced m"
      | "bm_pin m" "\<not> add" "bm_synced m" by auto
    then show ?thesis
    proof cases
      case 1 with Some call assms(2) show ?thesis by simp
    next
      case 2
      then have "\<forall>t. M RecentlyUsedStore t = ser_digest X ` lru_of ((rv_metas V)(i \<mapsto> ?m)) t"
        using Some by (auto simp: lru in_lru_def lru_of_mem)
      from save [OF st(1) _ z refl this] 2 Some call show ?thesis by auto
    next
      case 3
      then have "i \<in> lru_of (rv_metas V) ?t" using Some by (simp add: lru_of_mem in_lru_def)
      from lru_remove(1) [OF assms(1) st(1) lru this] obtain w where
        w: "remove_from_lru R d ?k ?t = (Ok (), w)" "repo_state R good single multi w S
          (set_lru ?t (ser_digest X ` (lru_of (rv_metas V) ?t - {i})) M)" by blast
      have "\<forall>t. set_lru ?t (ser_digest X ` (lru_of (rv_metas V) ?t - {i})) M RecentlyUsedStore t
          = ser_digest X ` lru_of ((rv_metas V)(i \<mapsto> ?m)) t"
        using 3 Some by (auto simp: lru lru_of_def)
      from save [OF w(2) _ z _ this] w(1) 3 Some call show ?thesis by auto
    next
      case 4
      then have i: "i \<notin> lru_of (rv_metas V) ?t" using Some by (simp add: lru_of_mem in_lru_def)
      note app = lru_append [OF assms(1) st(1) lru i]
      show ?thesis
      proof (cases "appendable X V i ?t")
        case True
        with i have "\<forall>j \<in> lru_of (rv_metas V) ?t. ser_digest X j < ser_digest X i" by (auto simp: appendable_def)
        from app(1) [OF this] obtain w where
          w: "add_to_lru R d ?k ?t = (Ok (), w)" "repo_state R good single multi w S
            (set_lru ?t (ser_digest X ` insert i (lru_of (rv_metas V) ?t)) M)" by blast
        have "\<forall>t. set_lru ?t (ser_digest X ` insert i (lru_of (rv_metas V) ?t)) M RecentlyUsedStore t
            = ser_digest X ` lru_of ((rv_metas V)(i \<mapsto> ?m)) t"
          using 4 Some by (auto simp: lru lru_of_def in_lru_def)
        from save [OF w(2) _ z _ this] w(1) 4 Some call True show ?thesis by auto
      next
        case False
        with i have "\<not> (\<forall>j \<in> lru_of (rv_metas V) ?t. ser_digest X j < ser_digest X i)" by (auto simp: appendable_def)
        from app(2) [OF this] 4 Some call False assms(2) show ?thesis by auto
      qed
    qed
  qed
qed

lemma synced_step:
  assumes "repo_codec X" "represents X R good single multi exact d V"
    "now_timestamp clock = (Ok now :: (Timestamp, unit) result)" "(case when' of None \<Rightarrow> now | Some w \<Rightarrow> w) \<noteq> 0"
  shows "\<exists>r d' V'. repo_call X R clock d (Synced i when') = (r, d') \<and> repo_step X now V (Synced i when') = (r, V')
    \<and> represents X R good single multi exact d' V'"
proof -
  define t where "t = (case when' of None \<Rightarrow> now | Some w \<Rightarrow> w)"
  from assms(2) obtain S M where st: "repo_state R good single multi d S M" "repo_rel X S M V" "exact \<Longrightarrow> expiry_exact X M V"
    by (rule representsE) blast
  let ?k = "ser_digest X i"
  note meta = rr_get_law [OF st(1), of MetaStore ?k] repo_relD(2) [OF st(2), of i]
  note lru = repo_relD(6) [OF st(2)]
  note save = save_meta [where 'e = unit and i = i and d = d and exact = exact, OF assms(1) _ st(2,3)]
  have when': "(case when' of None \<Rightarrow> now_timestamp clock | Some w \<Rightarrow> Ok w) = (Ok t :: (Timestamp, unit) result)"
    by (cases when') (simp_all add: assms(3) t_def)
  have z: "bm_synced m \<longleftrightarrow> bm_last_used m \<noteq> 0" if "bm_synced m" "bm_last_used m = t" for m
    using that assms(4) by (simp add: t_def)
  \<comment> \<open>Adding \<open>i\<close> to the list with metadata \<open>m\<close>.\<close>
  have listed: "if appendable X V i t
      then \<exists>d'. committed R d (op_then (unwrap_op (add_to_lru R d ?k t))
            (\<lambda>_ w. unwrap_op (rr_put R w MetaStore ?k (ser_block_meta X m)))) = ((Ok (), d') :: (unit, unit, 'b) op)
          \<and> represents X R good single multi exact d' (set_meta i m V)
      else committed R d (op_then (unwrap_op (add_to_lru R d ?k t))
            (\<lambda>_ w. unwrap_op (rr_put R w MetaStore ?k (ser_block_meta X m)))) = ((Panic, d) :: (unit, unit, 'b) op)"
    if m: "in_lru m" "bm_last_used m = t" and i: "\<forall>u. i \<notin> lru_of (rv_metas V) u" for m
  proof -
    note app = lru_append [OF assms(1) st(1) lru i [rule_format]]
    have "appendable X V i t \<longleftrightarrow> (\<forall>j \<in> lru_of (rv_metas V) t. ser_digest X j < ser_digest X i)"
      using i by (auto simp: appendable_def)
    moreover have "\<forall>u. set_lru t (ser_digest X ` insert i (lru_of (rv_metas V) t)) M RecentlyUsedStore u
        = ser_digest X ` lru_of ((rv_metas V)(i \<mapsto> m)) u"
      using i m by (auto simp: lru)
    ultimately show ?thesis
    proof (cases "appendable X V i t")
      case True
      assume le: "appendable X V i t \<longleftrightarrow> (\<forall>j \<in> lru_of (rv_metas V) t. ser_digest X j < ser_digest X i)"
        and upd: "\<forall>u. set_lru t (ser_digest X ` insert i (lru_of (rv_metas V) t)) M RecentlyUsedStore u
          = ser_digest X ` lru_of ((rv_metas V)(i \<mapsto> m)) u"
      from app(1) [of t] True le obtain w where w: "add_to_lru R d ?k t = (Ok (), w)" "repo_state R good single multi w S
          (set_lru t (ser_digest X ` insert i (lru_of (rv_metas V) t)) M)" by blast
      from save [OF w(2) _ z _ upd] m w(1) True show ?thesis by (simp add: in_lru_def)
    next
      case False
      assume "appendable X V i t \<longleftrightarrow> (\<forall>j \<in> lru_of (rv_metas V) t. ser_digest X j < ser_digest X i)"
      with app(2) [of t] False show ?thesis by auto
    qed
  qed
  show ?thesis
  proof (cases "rv_metas V i")
    case None
    have "\<forall>u. i \<notin> lru_of (rv_metas V) u" using None by (simp add: lru_of_mem)
    from listed [OF _ _ this, of "\<lparr>bm_pin = False, bm_last_used = t, bm_synced = True\<rparr>"] None meta assms(2)
    show ?thesis by (auto simp: has_been_synced_def Let_def when' in_lru_def t_def [symmetric] split: if_splits)
  next
    case (Some m)
    show ?thesis
    proof (cases "bm_synced m \<or> bm_pin m")
      case False
      then have "\<forall>u. i \<notin> lru_of (rv_metas V) u" using Some by (simp add: lru_of_mem in_lru_def)
      from listed [OF _ _ this, of "m\<lparr>bm_synced := True, bm_last_used := t\<rparr>"] False Some meta assms(2)
      show ?thesis by (auto simp: has_been_synced_def Let_def when' in_lru_def t_def [symmetric] repo_codecD [OF assms(1)] split: if_splits)
    next
      case True
      show ?thesis
      proof (cases "bm_synced m")
        case False
        with True Some have "\<forall>u. M RecentlyUsedStore u = ser_digest X ` lru_of ((rv_metas V)(i \<mapsto> m\<lparr>bm_synced := True, bm_last_used := t\<rparr>)) u"
          by (auto simp: lru in_lru_def lru_of_mem)
        from save [OF st(1) _ z _ this] False True Some meta
        show ?thesis by (auto simp: has_been_synced_def Let_def when' t_def [symmetric] repo_codecD [OF assms(1)])
      qed (use Some meta assms(2) in \<open>simp add: has_been_synced_def Let_def when' t_def [symmetric] repo_codecD [OF assms(1)]\<close>)
    qed
  qed
qed

section \<open>Sequences of calls\<close>

text \<open>A call with the clock it is made at, which \<^verbatim>\<open>now_timestamp\<close> reads as the minute \<open>now\<close>.\<close>

fun timed_call_ok :: "'x repo_externs_scheme \<Rightarrow> u64 \<times> Timestamp \<times> RepoCall \<Rightarrow> bool" where
  "timed_call_ok X (clock, now, call) \<longleftrightarrow>
     now_timestamp clock = (Ok now :: (Timestamp, unit) result) \<and> now \<noteq> 0
     \<and> (case call of PutBlock b \<Rightarrow> honest X b | Synced i (Some w) \<Rightarrow> w \<noteq> 0 | _ \<Rightarrow> True)"

lemma now_timestamp_any: "now_timestamp clock = (Ok now :: (Timestamp, 'e) result) \<Longrightarrow> now_timestamp clock = (Ok now :: (Timestamp, 'f) result)"
  by (auto simp: now_timestamp_def Let_def split: if_splits)

lemma repo_call_follows:
  assumes "repo_codec X" "represents X R good single multi exact d V" "timed_call_ok X (clock, now, call)"
    "\<And>b. exact \<Longrightarrow> call = PutBlock b \<Longrightarrow> rv_blocks V (block_id X b) \<in> {None, Some (plain b)}"
  shows "\<exists>r d' V'. repo_call X R clock d call = (r, d') \<and> repo_step X now V call = (r, V')
    \<and> represents X R good single multi exact d' V'"
proof -
  from assms(3) have now: "now_timestamp clock = (Ok now :: (Timestamp, unit) result)" "now \<noteq> 0"
    and call: "case call of PutBlock b \<Rightarrow> honest X b | Synced i (Some w) \<Rightarrow> w \<noteq> 0 | _ \<Rightarrow> True" by auto
  show ?thesis
  proof (cases call)
    case (GetBlock i) with get_step [OF assms(1,2) now_timestamp_any [OF now(1)] now(2)] show ?thesis by blast
  next
    case (PutBlock b) with put_step [OF assms(1,2), of b] call assms(4) show ?thesis by fastforce
  next
    case (DelBlock i) with del_step [OF assms(1,2)] show ?thesis by blast
  next
    case (SetPin i add) with set_pin_step [OF assms(1,2)] show ?thesis by blast
  next
    case (Synced i when')
    with call now(2) have "(case when' of None \<Rightarrow> now | Some w \<Rightarrow> w) \<noteq> 0" by (cases when') auto
    with synced_step [OF assms(1,2) now(1)] Synced show ?thesis by blast
  qed
qed

fun repo_run :: "'x repo_externs_scheme \<Rightarrow> 'd RepoRkv \<Rightarrow> 'd \<Rightarrow> (u64 \<times> Timestamp \<times> RepoCall) list \<Rightarrow> (RepoAnswer, StorageError) result list" where
  "repo_run X R d [] = []"
| "repo_run X R d ((clock, now, call) # cs) = (let (r, d') = repo_call X R clock d call in r # repo_run X R d' cs)"

fun machine_run :: "'x repo_externs_scheme \<Rightarrow> RepoView \<Rightarrow> (u64 \<times> Timestamp \<times> RepoCall) list \<Rightarrow> (RepoAnswer, StorageError) result list" where
  "machine_run X V [] = []"
| "machine_run X V ((clock, now, call) # cs) = (let (r, V') = repo_step X now V call in r # machine_run X V' cs)"

lemma repo_run_follows:
  assumes "repo_codec X" "represents X R good single multi False d V" "list_all (timed_call_ok X) cs"
  shows "repo_run X R d cs = machine_run X V cs"
  using assms(2,3)
proof (induction cs arbitrary: d V)
  case (Cons c cs)
  obtain clock now call where c: "c = (clock, now, call)" by (cases c) auto
  from repo_call_follows [OF assms(1) Cons.prems(1), of clock now call] Cons.prems(2) c obtain r d' V' where
    "repo_call X R clock d call = (r, d')" "repo_step X now V call = (r, V')" "represents X R good single multi False d' V'"
    by auto
  with Cons.IH [of d' V'] Cons.prems(2) c show ?case by simp
qed simp

section \<open>The laws of repo_store\<close>

text \<open>
  As long as no block is synced, which is a call the broker never makes, the store behaves as
  \<open>repo_store\<close> asks; pins do not matter.
\<close>

definition lmdb_abs :: "'x repo_externs_scheme \<Rightarrow> ('d \<Rightarrow> singles) \<Rightarrow> 'd \<Rightarrow> BlockId \<rightharpoonup> Block" where
  "lmdb_abs X single d = (\<lambda>i. Option.bind (single d MainStore (ser_digest X i)) (de_whole_block X))"

definition nothing_synced :: "RepoView \<Rightarrow> bool" where
  "nothing_synced V \<longleftrightarrow> (\<forall>i m. rv_metas V i = Some m \<longrightarrow> \<not> bm_synced m)"

definition lmdb_invar ::
  "'x repo_externs_scheme \<Rightarrow> 'd RepoRkv \<Rightarrow> ('d \<Rightarrow> bool) \<Rightarrow> ('d \<Rightarrow> singles) \<Rightarrow> ('d \<Rightarrow> multis) \<Rightarrow> u64 \<Rightarrow> 'd \<Rightarrow> bool" where
  "lmdb_invar X R good single multi clock d \<longleftrightarrow> repo_codec X \<and>
     (\<exists>now. now_timestamp clock = (Ok now :: (Timestamp, unit) result) \<and> now \<noteq> 0) \<and>
     (\<exists>V. represents X R good single multi False d V \<and> nothing_synced V)"

lemma represents_abs:
  assumes "repo_codec X" "represents X R good single multi exact d V"
  shows "lmdb_abs X single d = rv_blocks V"
    and "rv_blocks V i = Some b \<Longrightarrow> get_id X b = i \<and> plain b = b"
proof -
  from assms(2) obtain S M where st: "repo_state R good single multi d S M" "repo_rel X S M V" by (auto simp: represents_def)
  show "lmdb_abs X single d = rv_blocks V"
  proof
    fix i show "lmdb_abs X single d i = rv_blocks V i"
      using repo_relD(1,4) [OF st(2), of i] st(1)
      by (cases "rv_blocks V i") (auto simp: lmdb_abs_def repo_state_def repo_codecD [OF assms(1)])
  qed
  show "rv_blocks V i = Some b \<Longrightarrow> get_id X b = i \<and> plain b = b" using repo_relD(3,4) [OF st(2)] by blast
qed

lemma lmdb_invarE:
  assumes "lmdb_invar X R good single multi clock d"
  obtains now V where "repo_codec X" "represents X R good single multi False d V" "nothing_synced V"
    "now_timestamp clock = (Ok now :: (Timestamp, unit) result)" "now \<noteq> 0" "lmdb_abs X single d = rv_blocks V"
  using assms represents_abs(1) unfolding lmdb_invar_def by metis

text \<open>A call that follows the machine without syncing anything keeps the invariant.\<close>

lemma lmdb_invar_step:
  assumes "lmdb_invar X R good single multi clock d" "call \<in> {GetBlock i, DelBlock i} \<or> (\<exists>b. call = PutBlock b \<and> honest X b)"
  shows "\<exists>now V r d' V'. lmdb_abs X single d = rv_blocks V \<and> nothing_synced V \<and> repo_call X R clock d call = (r, d')
    \<and> repo_step X now V call = (r, V') \<and> lmdb_invar X R good single multi clock d' \<and> lmdb_abs X single d' = rv_blocks V'"
  using assms(1)
proof (rule lmdb_invarE)
  fix now V
  assume V: "repo_codec X" "represents X R good single multi False d V" "nothing_synced V"
    "now_timestamp clock = (Ok now :: (Timestamp, unit) result)" "now \<noteq> 0" "lmdb_abs X single d = rv_blocks V"
  have "timed_call_ok X (clock, now, call)" using V(4,5) assms(2) by auto
  from repo_call_follows [OF V(1,2) this] obtain r d' V' where
    d': "repo_call X R clock d call = (r, d')" "repo_step X now V call = (r, V')" "represents X R good single multi False d' V'"
    by blast
  have "nothing_synced V'" using V(3) d'(2) assms(2)
    by (auto simp: nothing_synced_def in_lru_def split: option.splits if_splits)
  with V d' represents_abs(1) [OF V(1) d'(3)] show ?thesis unfolding lmdb_invar_def by metis
qed

lemma op_then_total:
  "op_then p (\<lambda>x s. (Ok (g x), s)) = (Ok y, s') \<longleftrightarrow> (\<exists>x. p = (Ok x, s') \<and> y = g x)"
  "op_then p (\<lambda>x s. (Ok (g x), s)) = (Err e, s') \<longleftrightarrow> p = (Err e, s')"
  "op_then p (\<lambda>x s. (Ok (g x), s)) = (Panic, s') \<longleftrightarrow> p = (Panic, s')"
  by (cases p; cases "fst p"; auto)+

lemma repo_call_del:
  "repo_call X R clock d (DelBlock i) = op_then (lmdb_repo_del X R d i) (\<lambda>r d. (Ok (Deleted (fst r) (snd r)), d))"
  by (simp add: case_prod_unfold)

lemma repo_call_inv:
  "repo_call X R clock d (GetBlock i) = (Ok (Got b), d') \<Longrightarrow> lmdb_repo_get X R clock d i = (Ok b, d')"
  "repo_call X R clock d (GetBlock i) = (Err e, d') \<Longrightarrow> lmdb_repo_get X R clock d i = (Err e, d')"
  "repo_call X R clock d (PutBlock b) = (Ok (Stored i), d') \<Longrightarrow> lmdb_repo_put X R d b = (Ok i, d')"
  "repo_call X R clock d (DelBlock i) = (Ok (Deleted b n), d') \<Longrightarrow> lmdb_repo_del X R d i = (Ok (b, n), d')"
  "repo_call X R clock d (DelBlock i) = (Err e, d') \<Longrightarrow> lmdb_repo_del X R d i = (Err e, d')"
  "repo_call X R clock d (DelBlock i) = (Panic, d') \<Longrightarrow> lmdb_repo_del X R d i = (Panic, d')"
  unfolding repo_call_del by (simp_all add: op_then_total)

interpretation lm: repo_store X "lmdb_repo_store X R clock" "lmdb_invar X R good single multi clock" "lmdb_abs X single"
  for X :: "'x repo_externs_scheme" and R good single multi clock
proof (unfold_locales, goal_cases)
  case (1 s i b)
  from lmdb_invar_step [OF 1(1), of "GetBlock i" i] obtain now V r d' V' where
    V: "lmdb_abs X single s = rv_blocks V" "nothing_synced V" "repo_call X R clock s (GetBlock i) = (r, d')"
      "repo_step X now V (GetBlock i) = (r, V')" "lmdb_invar X R good single multi clock d'" "lmdb_abs X single d' = rv_blocks V'"
    by blast
  from 1(2) V(1) have b: "rv_blocks V i = Some b" by simp
  with V(2,4) have r: "r = Ok (Got b)" "V' = V" by (auto simp: nothing_synced_def split: option.splits)
  from 1(1) have "get_id X b = i \<and> plain b = b"
    by (rule lmdb_invarE) (use represents_abs(2) 1(2) in metis)
  moreover from this have "block_id X b = i" "block_key b = None" by (metis block_id_plain, metis plain_fields(5))
  ultimately show ?case using repo_call_inv(1) [OF V(3) [unfolded r(1)]] V(1,5,6) r(2)
    by (simp add: lmdb_repo_store_def)
next
  case (2 s i)
  from lmdb_invar_step [OF 2(1), of "GetBlock i" i] obtain now V r d' V' where
    V: "lmdb_abs X single s = rv_blocks V" "repo_call X R clock s (GetBlock i) = (r, d')"
      "repo_step X now V (GetBlock i) = (r, V')" "lmdb_invar X R good single multi clock d'" "lmdb_abs X single d' = rv_blocks V'"
    by blast
  with 2(2) have r: "r = Err StorageError.NotFound" "V' = V" by auto
  with repo_call_inv(2) [OF V(2) [unfolded r(1)]] V(1,4,5) show ?case by (simp add: lmdb_repo_store_def)
next
  case (3 s b)
  from lmdb_invar_step [OF 3(1), of "PutBlock b"] 3(2) obtain now V r d' V' where
    V: "lmdb_abs X single s = rv_blocks V" "repo_call X R clock s (PutBlock b) = (r, d')"
      "repo_step X now V (PutBlock b) = (r, V')" "lmdb_invar X R good single multi clock d'" "lmdb_abs X single d' = rv_blocks V'"
    by blast
  then have r: "r = Ok (Stored (block_id X b))" by simp
  with repo_call_inv(3) [OF V(2) [unfolded r]] V(1,3-5) show ?case by (auto simp: lmdb_repo_store_def)
next
  case (4 s i b)
  from lmdb_invar_step [OF 4(1), of "DelBlock i" i] obtain now V r d' V' where
    V: "lmdb_abs X single s = rv_blocks V" "nothing_synced V" "repo_call X R clock s (DelBlock i) = (r, d')"
      "repo_step X now V (DelBlock i) = (r, V')" "lmdb_invar X R good single multi clock d'" "lmdb_abs X single d' = rv_blocks V'"
    by blast
  from 4(2) V(1) have b: "rv_blocks V i = Some b" by simp
  with V(2,4) have r: "r = Ok (Deleted b (length (ser_whole_block X b)))" "rv_blocks V' = (rv_blocks V)(i := None)"
    by (auto simp: nothing_synced_def split: option.splits if_splits)
  from 4(1) have "plain b = b" by (rule lmdb_invarE) (use represents_abs(2) 4(2) in metis)
  with repo_call_inv(4) [OF V(3) [unfolded r(1)]] V(1,5,6) r(2) show ?case by (simp add: lmdb_repo_store_def)
next
  case (5 s i)
  from lmdb_invar_step [OF 5(1), of "DelBlock i" i] obtain now V r d' V' where
    V: "lmdb_abs X single s = rv_blocks V" "repo_call X R clock s (DelBlock i) = (r, d')"
      "repo_step X now V (DelBlock i) = (r, V')" "lmdb_invar X R good single multi clock d'" "lmdb_abs X single d' = rv_blocks V'"
    by blast
  with 5(2) have r: "r = Err StorageError.NotFound" "V' = V" by auto
  with repo_call_inv(5) [OF V(2) [unfolded r(1)]] V(1,4,5) show ?case by (simp add: lmdb_repo_store_def)
qed

end
