(* ===== verification/Lofire_Lmdb_Reclaim.thy ===== *)
theory Lofire_Lmdb_Reclaim
  imports Lofire_Lmdb_Contract
begin

text \<open>
  Reclaiming space in the LMDB block store: \<^verbatim>\<open>remove_expired\<close> and \<^verbatim>\<open>remove_least_used\<close> delete what they
  should, the recently used list is exact in every reachable environment, and the properties of the
  store, with a concrete environment for their witnesses.
\<close>

section \<open>Deleting a list of blocks\<close>

definition locked :: "RepoView \<Rightarrow> BlockId \<Rightarrow> bool" where
  "locked V i \<longleftrightarrow> (case rv_metas V i of None \<Rightarrow> False | Some m \<Rightarrow> bm_synced m \<and> bm_pin m)"

definition without :: "BlockId set \<Rightarrow> RepoView \<Rightarrow> RepoView" where
  "without A V = \<lparr>rv_blocks = rv_blocks V |` (- A), rv_metas = rv_metas V |` (- A)\<rparr>"

definition stored_size :: "'x repo_externs_scheme \<Rightarrow> RepoView \<Rightarrow> BlockId \<Rightarrow> usize" where
  "stored_size X V i = length (ser_whole_block X (the (rv_blocks V i)))"

lemma without_empty [simp]: "without {} V = V"
  by (simp add: without_def restrict_map_def)

lemma without_insert: "without A (without {i} V) = without (insert i A) V"
  by (simp add: without_def restrict_map_def fun_eq_iff)

lemma without_fields [simp]:
  "rv_blocks (without A V) i = (if i \<in> A then None else rv_blocks V i)"
  "rv_metas (without A V) i = (if i \<in> A then None else rv_metas V i)"
  "locked (without A V) i \<longleftrightarrow> i \<notin> A \<and> locked V i"
  "i \<notin> A \<Longrightarrow> stored_size X (without A V) i = stored_size X V i"
  by (simp_all add: without_def restrict_map_def locked_def stored_size_def)

lemma del_block:
  assumes "repo_codec X" "represents X R good single multi exact d V"
  shows "rv_blocks V i = Some b \<Longrightarrow> \<not> locked V i \<Longrightarrow> \<exists>d'. lmdb_repo_del X R d i = (Ok (b, stored_size X V i), d')
      \<and> represents X R good single multi exact d' (without {i} V)"
    and "rv_blocks V i = Some b \<Longrightarrow> locked V i \<Longrightarrow> \<exists>d'. lmdb_repo_del X R d i = (Panic, d')
      \<and> represents X R good single multi exact d' V"
    and "rv_blocks V i = None \<Longrightarrow> \<exists>d'. lmdb_repo_del X R d i = (Err StorageError.NotFound, d')
      \<and> represents X R good single multi exact d' V"
proof -
  from del_step [OF assms, of undefined i undefined] obtain r d' V' where
    s: "repo_call X R undefined d (DelBlock i) = (r, d')" "repo_step X undefined V (DelBlock i) = (r, V')"
      "represents X R good single multi exact d' V'" by blast
  have w: "\<lparr>rv_blocks = (rv_blocks V)(i := None), rv_metas = (rv_metas V)(i := None)\<rparr> = without {i} V"
    by (auto simp: without_def restrict_map_def fun_eq_iff)
  show "\<exists>d'. lmdb_repo_del X R d i = (Ok (b, stored_size X V i), d')
      \<and> represents X R good single multi exact d' (without {i} V)" if "rv_blocks V i = Some b" "\<not> locked V i"
  proof -
    from s(2) that have "r = Ok (Deleted b (stored_size X V i))" "V' = without {i} V"
      by (auto simp: locked_def stored_size_def w)
    with repo_call_inv(4) [of X R undefined d i] s(1,3) show ?thesis by auto
  qed
  show "\<exists>d'. lmdb_repo_del X R d i = (Panic, d') \<and> represents X R good single multi exact d' V"
    if "rv_blocks V i = Some b" "locked V i"
  proof -
    from s(2) that have "r = Panic" "V' = V" by (auto simp: locked_def)
    with repo_call_inv(6) [of X R undefined d i] s(1,3) show ?thesis by auto
  qed
  show "\<exists>d'. lmdb_repo_del X R d i = (Err StorageError.NotFound, d') \<and> represents X R good single multi exact d' V"
    if "rv_blocks V i = None"
  proof -
    from s(2) that have "r = Err StorageError.NotFound" "V' = V" by auto
    with repo_call_inv(5) [of X R undefined d i] s(1,3) show ?thesis by auto
  qed
qed

section \<open>Expired blocks\<close>

lemma collect_ids_Ok:
  assumes "repo_codec X"
  shows "collect_ids X (map (\<lambda>(t, i). Ok (t, ser_digest X i)) es) acc = (Ok (acc @ map snd es) :: (BlockId list, 'e) result)"
  by (induction es arbitrary: acc) (auto simp: repo_codecD [OF assms])

lemma collect_all_ids_Ok:
  assumes "repo_codec X"
  shows "collect_all_ids X (map (\<lambda>es. Ok (map (\<lambda>(t, i). Ok (t, ser_digest X i)) es)) ess) acc
    = (Ok (acc @ map snd (concat ess)) :: (BlockId list, 'e) result)"
  by (induction ess arbitrary: acc) (simp_all add: collect_ids_Ok [OF assms])

text \<open>A list of entries of a table is a list of identifiers with their times.\<close>

lemma entries_ids:
  assumes "\<And>t v. (t, v) \<in> set es \<Longrightarrow> v \<in> range (ser_digest X)"
  shows "\<exists>ids. es = map (\<lambda>(t, i). (t, ser_digest X i)) ids"
  using assms
proof (induction es)
  case (Cons e es)
  obtain t v where e: "e = (t, v)" by (cases e)
  with Cons.prems obtain i where "v = ser_digest X i" by auto
  moreover from Cons obtain js where "es = map (\<lambda>(t, i). (t, ser_digest X i)) js" by auto
  ultimately show ?case using e by (intro exI [of _ "(t, i) # js"]) simp
qed simp

lemma del_expired_follows:
  assumes "repo_codec X" "represents X R good single multi exact d V" "distinct ids"
    "\<forall>i \<in> set ids. rv_blocks V i \<noteq> None"
  shows "if \<exists>i \<in> set ids. locked V i then fst (del_expired X R d ids) = Panic
    else \<exists>d'. del_expired X R d ids = (Ok (), d') \<and> represents X R good single multi exact d' (without (set ids) V)"
  using assms(2-4)
proof (induction ids arbitrary: d V)
  case (Cons i ids)
  from Cons.prems(3) obtain b where b: "rv_blocks V i = Some b" by auto
  show ?case
  proof (cases "locked V i")
    case True
    with del_block(2) [OF assms(1) Cons.prems(1) b] show ?thesis by auto
  next
    case False
    from del_block(1) [OF assms(1) Cons.prems(1) b False] obtain d' where
      d': "lmdb_repo_del X R d i = (Ok (b, stored_size X V i), d')"
        "represents X R good single multi exact d' (without {i} V)" by blast
    have "\<forall>j \<in> set ids. rv_blocks (without {i} V) j \<noteq> None" using Cons.prems(2,3) by auto
    from Cons.IH [OF d'(2) _ this] Cons.prems(2) False d'(1)
    show ?thesis by (auto simp: without_insert split: if_splits)
  qed
qed simp

text \<open>Whatever the list, the environment stays one that represents a state.\<close>

lemma del_expired_represents:
  assumes "repo_codec X" "represents X R good single multi exact d V"
  shows "\<exists>V'. represents X R good single multi exact (snd (del_expired X R d ids)) V'"
  using assms(2)
proof (induction ids arbitrary: d V)
  case Nil then show ?case by auto
next
  case (Cons i ids)
  note del = del_block [OF assms(1) Cons.prems, of i]
  show ?case
  proof (cases "rv_blocks V i")
    case None with del(3) show ?thesis by auto
  next
    case (Some b)
    with del(1,2) [OF Some] Cons.IH show ?thesis by (cases "locked V i") fastforce+
  qed
qed

definition expired :: "RepoView \<Rightarrow> Timestamp \<Rightarrow> BlockId set" where
  "expired V now = {i. \<exists>b e. rv_blocks V i = Some b \<and> block_expiry b = Some e \<and> e \<le> now}"

lemma remove_expired_ids:
  assumes "repo_codec X" "represents X R good single multi True d V"
    "now_timestamp clock = (Ok now :: (Timestamp, unit) result)"
  shows "\<exists>ids. remove_expired X R clock d = del_expired X R d ids \<and> distinct ids \<and> set ids = expired V now"
proof -
  from assms(2) obtain S M where st: "repo_state R good single multi d S M" "repo_rel X S M V" "expiry_exact X M V"
    by (auto simp: represents_def)
  have mem: "v \<in> M ExpiryStore t \<longleftrightarrow> (\<exists>i b. v = ser_digest X i \<and> rv_blocks V i = Some b \<and> block_expiry b = Some t)" for t v
    using repo_relD(7) [OF st(2)] st(3) [unfolded expiry_exact_def, rule_format, of t] by blast
  from rr_iter_prev_law [OF st(1), of ExpiryStore now] obtain ess where
    ess: "rr_iter_prev_dup_from R d ExpiryStore now = Ok (map (\<lambda>es. Ok (map Ok es)) ess)"
      "set (concat ess) = {(u, v). v \<in> M ExpiryStore u \<and> u \<le> now}" "distinct (concat ess)" by blast
  have "\<exists>iss. ess = map (map (\<lambda>(t, i). (t, ser_digest X i))) iss"
  proof -
    have "\<forall>es \<in> set ess. \<exists>ids. es = map (\<lambda>(t, i). (t, ser_digest X i)) ids"
    proof
      fix es assume "es \<in> set ess"
      then have "set es \<subseteq> set (concat ess)" by auto
      then have sub: "v \<in> M ExpiryStore t" if "(t, v) \<in> set es" for t v using that unfolding ess(2) by blast
      show "\<exists>ids. es = map (\<lambda>(t, i). (t, ser_digest X i)) ids"
      proof (rule entries_ids)
        fix t v assume "(t, v) \<in> set es"
        from sub [OF this] show "v \<in> range (ser_digest X)" unfolding mem by auto
      qed
    qed
    then show ?thesis by (simp only: ex_map_conv)
  qed
  then obtain iss where iss: "ess = map (map (\<lambda>(t, i). (t, ser_digest X i))) iss" by blast
  let ?ids = "map snd (concat iss)"
  have cat: "concat ess = map (\<lambda>(t, i). (t, ser_digest X i)) (concat iss)" by (simp add: iss map_concat)
  have entry: "(t, i) \<in> set (concat iss) \<longleftrightarrow> (\<exists>b. rv_blocks V i = Some b \<and> block_expiry b = Some t) \<and> t \<le> now" for t i
  proof -
    have "(t, i) \<in> set (concat iss) \<longleftrightarrow> (t, ser_digest X i) \<in> set (concat ess)"
      unfolding cat by (force simp: repo_codecD [OF assms(1)])
    also have "\<dots> \<longleftrightarrow> (\<exists>b. rv_blocks V i = Some b \<and> block_expiry b = Some t) \<and> t \<le> now"
      using ess(2) mem by (auto simp: repo_codecD [OF assms(1)])
    finally show ?thesis .
  qed
  have "distinct (concat iss)" using ess(3) unfolding cat by (simp add: distinct_map)
  moreover have "inj_on snd (set (concat iss))"
  proof (rule inj_onI)
    fix x y assume xy: "x \<in> set (concat iss)" "y \<in> set (concat iss)" "snd x = snd y"
    have expiry: "\<exists>b. rv_blocks V (snd z) = Some b \<and> block_expiry b = Some (fst z)" if "z \<in> set (concat iss)" for z
      using that entry [of "fst z" "snd z"] by simp
    from expiry [OF xy(1)] expiry [OF xy(2)] xy(3) show "x = y" by (auto simp: prod_eq_iff)
  qed
  ultimately have "distinct ?ids" by (simp only: distinct_map)
  moreover have "set ?ids = expired V now"
  proof (intro set_eqI)
    fix i
    have "i \<in> set ?ids \<longleftrightarrow> (\<exists>t. (t, i) \<in> set (concat iss))" by force
    then show "i \<in> set ?ids \<longleftrightarrow> i \<in> expired V now" unfolding entry by (auto simp: expired_def)
  qed
  moreover have "remove_expired X R clock d = del_expired X R d ?ids"
    using collect_all_ids_Ok [where 'e = unit, OF assms(1), of iss "[]"]
    by (simp add: remove_expired_def assms(3) ess(1) iss comp_def case_prod_unfold)
  ultimately show ?thesis by blast
qed

section \<open>Least used blocks\<close>

text \<open>How many of the identifiers the loop deletes: at least one, until the total reaches the size.\<close>

definition stops_at :: "(BlockId \<Rightarrow> usize) \<Rightarrow> usize \<Rightarrow> BlockId list \<Rightarrow> nat \<Rightarrow> bool" where
  "stops_at f sz ids k \<longleftrightarrow> k \<le> length ids \<and> (k = length ids \<or> sz \<le> sum_list (map f (take k ids)))
     \<and> (\<forall>j. 0 < j \<and> j < k \<longrightarrow> sum_list (map f (take j ids)) < sz) \<and> (ids \<noteq> [] \<longrightarrow> 0 < k)"

lemma del_least_used_follows:
  fixes R :: "'d RepoRkv"
  assumes "repo_codec X" "represents X R good single multi exact d V" "distinct ids"
    "\<forall>i \<in> set ids. rv_blocks V i \<noteq> None \<and> \<not> locked V i"
  shows "\<exists>k d'. del_least_used X R sz d ids n = ((Ok (n + sum_list (map (stored_size X V) (take k ids))), d') :: (usize, 'e, 'd) op)
    \<and> represents X R good single multi exact d' (without (set (take k ids)) V)
    \<and> k \<le> length ids \<and> (k = length ids \<or> sz \<le> n + sum_list (map (stored_size X V) (take k ids)))
    \<and> (\<forall>j. 0 < j \<and> j < k \<longrightarrow> n + sum_list (map (stored_size X V) (take j ids)) < sz) \<and> (ids \<noteq> [] \<longrightarrow> 0 < k)"
  using assms(2-4)
proof (induction ids arbitrary: d V n)
  case (Cons i ids)
  from Cons.prems(3) obtain b where b: "rv_blocks V i = Some b" and unlocked: "\<not> locked V i" by auto
  from del_block(1) [OF assms(1) Cons.prems(1) b unlocked] obtain d1 where
    d1: "lmdb_repo_del X R d i = (Ok (b, stored_size X V i), d1)"
      "represents X R good single multi exact d1 (without {i} V)" by blast
  let ?n = "n + stored_size X V i"
  show ?case
  proof (cases "sz \<le> ?n")
    case True
    with d1 show ?thesis by (intro exI [of _ 1] exI [of _ d1]) (auto simp: Let_def)
  next
    case False
    have other: "map (stored_size X (without {i} V)) (take k ids) = map (stored_size X V) (take k ids)" for k
    proof (rule map_cong [OF refl])
      fix x assume "x \<in> set (take k ids)"
      with Cons.prems(2) have "x \<notin> {i}" by (auto dest: in_set_takeD)
      then show "stored_size X (without {i} V) x = stored_size X V x" by simp
    qed
    have rest: "\<forall>j \<in> set ids. rv_blocks (without {i} V) j \<noteq> None \<and> \<not> locked (without {i} V) j"
      using Cons.prems(2,3) by auto
    have "distinct ids" using Cons.prems(2) by simp
    from Cons.IH [OF d1(2) this rest, of ?n, unfolded other without_insert] obtain k d' where
      k: "del_least_used X R sz d1 ids ?n = ((Ok (?n + sum_list (map (stored_size X V) (take k ids))), d') :: (usize, 'e, 'd) op)"
        "represents X R good single multi exact d' (without (insert i (set (take k ids))) V)"
        "k \<le> length ids" "k = length ids \<or> sz \<le> ?n + sum_list (map (stored_size X V) (take k ids))"
        "\<forall>j. 0 < j \<and> j < k \<longrightarrow> ?n + sum_list (map (stored_size X V) (take j ids)) < sz"
      by (elim exE conjE) (rule that, assumption+)
    have "n + sum_list (map (stored_size X V) (take j (i # ids))) < sz" if j: "0 < j" "j < Suc k" for j
    proof (cases "j = 1")
      case True with False show ?thesis by simp
    next
      case False
      then obtain j' where "j = Suc j'" "0 < j'" "j' < k" using j by (cases j) auto
      with k(5) show ?thesis by (simp add: add.assoc)
    qed
    with k False d1(1) show ?thesis
      by (intro exI [of _ "Suc k"] exI [of _ d']) (auto simp: Let_def add.assoc)
  qed
qed (auto intro: exI [of _ 0])

lemma del_least_used_represents:
  fixes R :: "'d RepoRkv"
  assumes "repo_codec X" "represents X R good single multi exact d V"
  shows "\<exists>V'. represents X R good single multi exact (snd (del_least_used X R sz d ids n :: (usize, 'e, 'd) op)) V'"
  using assms(2)
proof (induction ids arbitrary: d V n)
  case Nil then show ?case by auto
next
  case (Cons i ids)
  note del = del_block [OF assms(1) Cons.prems, of i]
  show ?case
  proof (cases "rv_blocks V i")
    case None with del(3) show ?thesis by auto
  next
    case (Some b)
    with del(1,2) [OF Some] Cons.IH show ?thesis by (cases "locked V i") (fastforce simp: Let_def)+
  qed
qed

text \<open>The blocks of the list, whatever their time.\<close>

definition listed :: "RepoView \<Rightarrow> BlockId set" where
  "listed V = {i. \<exists>m. rv_metas V i = Some m \<and> in_lru m}"

definition last_use :: "RepoView \<Rightarrow> BlockId \<Rightarrow> Timestamp" where
  "last_use V i = bm_last_used (the (rv_metas V i))"

lemma listed_unlocked: "i \<in> listed V \<Longrightarrow> \<not> locked V i"
  by (auto simp: listed_def locked_def in_lru_def)

lemma remove_least_used_ids:
  fixes R :: "'d RepoRkv"
  assumes "repo_codec X" "represents X R good single multi exact d V"
  shows "\<exists>ids. (remove_least_used X R d sz :: (usize, 'e, 'd) op) = del_least_used X R sz d ids 0 \<and> distinct ids
    \<and> set ids = listed V \<and> sorted (map (last_use V) ids)"
proof -
  from assms(2) obtain S M where st: "repo_state R good single multi d S M" "repo_rel X S M V"
    by (auto simp: represents_def)
  note lru = repo_relD(6) [OF st(2)]
  from rr_iter_law [OF st(1), of RecentlyUsedStore] obtain es where
    es: "rr_iter_start R d RecentlyUsedStore = Ok (map Ok es)" "set es = {(t, v). v \<in> M RecentlyUsedStore t}"
      "distinct es" "sorted (map fst es)" by blast
  have "\<exists>xs. es = map (\<lambda>(t, i). (t, ser_digest X i)) xs" using es(2) lru by (intro entries_ids) auto
  then obtain xs where xs: "es = map (\<lambda>(t, i). (t, ser_digest X i)) xs" by blast
  let ?ids = "map snd xs"
  have entry: "(t, i) \<in> set xs \<longleftrightarrow> i \<in> lru_of (rv_metas V) t" for t i
  proof -
    have "(t, i) \<in> set xs \<longleftrightarrow> (t, ser_digest X i) \<in> set es"
      unfolding xs by (force simp: repo_codecD [OF assms(1)])
    then show ?thesis using es(2) by (auto simp: lru ser_mem [OF assms(1)])
  qed
  then have use: "\<forall>p \<in> set xs. fst p = last_use V (snd p)" by (auto simp: lru_of_def last_use_def)
  have "distinct xs" using es(3) unfolding xs by (simp add: distinct_map)
  moreover have "inj_on snd (set xs)"
  proof (rule inj_onI)
    fix x y assume "x \<in> set xs" "y \<in> set xs" "snd x = snd y"
    with use show "x = y" by (metis prod_eqI)
  qed
  ultimately have "distinct ?ids" by (simp only: distinct_map)
  moreover have "set ?ids = listed V"
  proof (intro set_eqI)
    fix i
    have "i \<in> set ?ids \<longleftrightarrow> (\<exists>t. (t, i) \<in> set xs)" by force
    then show "i \<in> set ?ids \<longleftrightarrow> i \<in> listed V" unfolding entry by (auto simp: lru_of_def listed_def)
  qed
  moreover have "map (last_use V) ?ids = map fst es" using use by (simp add: xs comp_def case_prod_beta)
  with es(4) have "sorted (map (last_use V) ?ids)" by simp
  moreover have "(remove_least_used X R d sz :: (usize, 'e, 'd) op) = del_least_used X R sz d ?ids 0"
    using collect_ids_Ok [where 'e = 'e, OF assms(1), of xs "[]"]
    by (simp add: remove_least_used_def es(1) xs comp_def case_prod_unfold)
  ultimately show ?thesis by blast
qed

end
