(* ===== verification/Lofire_Lmdb_Instance.thy ===== *)
theory Lofire_Lmdb_Instance
  imports Lofire_Lmdb_Reclaim
begin

text \<open>
  A concrete environment and concrete serializers for the witnesses about the LMDB block store. No
  property is about these functions.
\<close>

section \<open>Serializers\<close>

definition deps_codec :: "ObjectDeps codec" where
  "deps_codec = map_codec (\<lambda>d. case d of ObjectIdList l \<Rightarrow> (l, None) | DepListRef r \<Rightarrow> ([], Some (ref_id r, ref_key r)))
     (\<lambda>(l, r). case r of None \<Rightarrow> ObjectIdList l | Some (i, k) \<Rightarrow> DepListRef \<lparr>ref_id = i, ref_key = k\<rparr>)
     (pair_codec (list_codec digest_codec) (option_codec (pair_codec digest_codec symkey_codec)))"

definition block_fields_codec :: "(BlockId list \<times> ObjectDeps \<times> Timestamp option \<times> bytes) codec" where
  "block_fields_codec = pair_codec (list_codec digest_codec)
     (pair_codec deps_codec (pair_codec (option_codec word_codec) (list_codec byte_codec)))"

definition meta_codec :: "BlockMeta codec" where
  "meta_codec = map_codec (\<lambda>m. (bm_pin m, bm_last_used m, bm_synced m))
     (\<lambda>(p, l, s). \<lparr>bm_pin = p, bm_last_used = l, bm_synced = s\<rparr>) (pair_codec bool_codec (pair_codec word_codec bool_codec))"

lemma good_block_fields [intro]: "good_codec block_fields_codec"
  unfolding block_fields_codec_def deps_codec_def
  by (intro good_pair good_list good_map good_option good_keys good_word good_byte) (auto split: ObjectDeps.splits)

lemma good_meta [intro]: "good_codec meta_codec"
  unfolding meta_codec_def by (intro good_map good_pair good_bool good_word) simp

definition block_fields :: "Block \<Rightarrow> BlockId list \<times> ObjectDeps \<times> Timestamp option \<times> bytes" where
  "block_fields b = (block_children b, block_deps b, block_expiry b, block_content b)"

definition fields_block :: "BlockId list \<times> ObjectDeps \<times> Timestamp option \<times> bytes \<Rightarrow> Block" where
  "fields_block f = (case f of (ch, ds, e, c) \<Rightarrow> Block.V0 \<lparr>blk_id = None, blk_key = None,
     blk_children = ch, blk_deps = ds, blk_expiry = e, blk_content = c\<rparr>)"

lemma fields_of_block [simp]: "fields_block (block_fields b) = plain b"
  by (cases b) (simp add: fields_block_def block_fields_def)

definition demo_repo :: repo_externs where
  "demo_repo = net_externs.extend demo_net \<lparr>
     de_digest = decode digest_codec,
     ser_whole_block = (\<lambda>b. fst block_fields_codec (block_fields b)),
     de_whole_block = (\<lambda>bs. map_option fields_block (decode block_fields_codec bs)),
     ser_block_meta = fst meta_codec,
     de_block_meta = decode meta_codec\<rparr>"

lemma ser_demo_repo [simp]: "ser_digest demo_repo = fst digest_codec"
  by (simp add: demo_repo_def demo_net_def externs.defs net_externs.defs)

lemma demo_repo_codec [simp]: "repo_codec demo_repo"
  unfolding repo_codec_def demo_repo_def
  by (simp add: demo_net_def externs.defs net_externs.defs good_keys good_meta good_block_fields)
     (simp add: block_fields_def)

lemma demo_repo_laws [simp]:
  "stream_cipher demo_repo" "block_content_codec demo_repo" "content_tagged demo_repo"
  "object_content_codec demo_repo (demo_file d)"
  using demo_stream_cipher demo_block_content_codec demo_content_tagged demo_file_codec [of d]
  by (simp_all add: demo_repo_def demo_net_def externs.defs net_externs.defs stream_cipher_def block_content_codec_def
      content_tagged_def object_content_codec_def demo_externs_def)

section \<open>An environment\<close>

text \<open>Two functions and two lists sorted by their keys.\<close>

type_synonym demo_env = "singles \<times> (MultiTable \<Rightarrow> (u32 \<times> bytes) list)"

definition demo_multi :: "demo_env \<Rightarrow> multis" where
  "demo_multi d T t = {v. (t, v) \<in> set (snd d T)}"

definition demo_good :: "demo_env \<Rightarrow> bool" where
  "demo_good d \<longleftrightarrow> (\<forall>T. finite (dom (fst d T))) \<and> (\<forall>T. distinct (snd d T) \<and> sorted (map fst (snd d T)))"

definition demo_insert :: "u32 \<times> bytes \<Rightarrow> (u32 \<times> bytes) list \<Rightarrow> (u32 \<times> bytes) list" where
  "demo_insert e es = (if e \<in> set es then es else insort_key fst e es)"

definition demo_rkv :: "demo_env RepoRkv" where
  "demo_rkv = \<lparr>rr_get = (\<lambda>d T k. Ok (fst d T k)),
     rr_put = (\<lambda>d T k v. (Ok (), ((fst d)(T := (fst d T)(k \<mapsto> v)), snd d))),
     rr_delete = (\<lambda>d T k. if fst d T k = None then (Err (), d) else (Ok (), ((fst d)(T := (fst d T)(k := None)), snd d))),
     rr_put_multi = (\<lambda>d T t v. (Ok (), (fst d, (snd d)(T := demo_insert (t, v) (snd d T))))),
     rr_append_multi = (\<lambda>d T t v. if \<exists>(s, u) \<in> set (snd d T). s = t \<and> v < u then (Err (), d)
        else (Ok (), (fst d, (snd d)(T := demo_insert (t, v) (snd d T))))),
     rr_delete_multi = (\<lambda>d T t v. if (t, v) \<notin> set (snd d T) then (Err (), d)
        else (Ok (), (fst d, (snd d)(T := filter (\<lambda>e. e \<noteq> (t, v)) (snd d T))))),
     rr_iter_start = (\<lambda>d T. Ok (map Ok (snd d T))),
     rr_iter_prev_dup_from = (\<lambda>d T t. Ok [Ok (map Ok (filter (\<lambda>e. fst e \<le> t) (snd d T)))]),
     rr_commit = Some\<rparr>"

lemma demo_insert_simps [simp]:
  "set (demo_insert e es) = insert e (set es)"
  "distinct es \<Longrightarrow> distinct (demo_insert e es)"
  "sorted (map fst es) \<Longrightarrow> sorted (map fst (demo_insert e es))"
  by (auto simp: demo_insert_def set_insort_key distinct_insort sorted_insort_key)

lemma demo_good_upd:
  "demo_good d \<Longrightarrow> demo_good (fst d, (snd d)(T := demo_insert e (snd d T)))"
  "demo_good d \<Longrightarrow> demo_good (fst d, (snd d)(T := filter P (snd d T)))"
  "demo_good d \<Longrightarrow> demo_good ((fst d)(U := (fst d U)(k := v)), snd d)"
  by (auto simp: demo_good_def sorted_filter dom_fun_upd)

lemma demo_multi_upd:
  "demo_multi (S, (snd d)(T := demo_insert (t, v) (snd d T))) = (demo_multi d)(T := (demo_multi d T)(t := insert v (demo_multi d T t)))"
  "demo_multi (S, (snd d)(T := filter (\<lambda>e. e \<noteq> (t, v)) (snd d T))) = (demo_multi d)(T := (demo_multi d T)(t := demo_multi d T t - {v}))"
  "demo_multi (S, snd d) = demo_multi d"
  by (auto simp: demo_multi_def fun_eq_iff)

lemma demo_rkv_laws [simp]: "repo_rkv_laws demo_rkv demo_good fst demo_multi"
  unfolding repo_rkv_laws_def
proof (intro allI impI conjI, goal_cases)
  case 1 then show ?case by (simp add: demo_rkv_def)
next
  case (2 d T k v) then show ?case by (simp add: demo_rkv_def demo_good_upd demo_multi_upd)
next
  case (3 d T k) then show ?case by (auto simp: demo_rkv_def demo_good_upd demo_multi_upd)
next
  case (4 d T t v) then show ?case by (simp add: demo_rkv_def demo_good_upd demo_multi_upd)
next
  case (5 d T t v)
  then have "\<not> (\<exists>(s, u) \<in> set (snd d T). s = t \<and> v < u)" by (auto simp: demo_multi_def)
  with 5 show ?case by (simp add: demo_rkv_def demo_good_upd demo_multi_upd)
next
  case (6 d T t v)
  then have "\<exists>(s, u) \<in> set (snd d T). s = t \<and> v < u" by (auto simp: demo_multi_def)
  then show ?case by (simp add: demo_rkv_def)
next
  case (7 d T t v) then show ?case
    by (simp add: demo_rkv_def demo_good_upd demo_multi_upd) (simp add: demo_multi_def)
next
  case (8 d T) then show ?case by (auto simp: demo_rkv_def demo_good_def demo_multi_def)
next
  case (9 d T t)
  then show ?case
    by (intro exI [of _ "[filter (\<lambda>e. fst e \<le> t) (snd d T)]"]) (auto simp: demo_rkv_def demo_good_def demo_multi_def)
next
  case (10 d) then show ?case by (simp add: demo_rkv_def)
qed

definition demo_empty :: demo_env where
  "demo_empty = (\<lambda>_ _. None, \<lambda>_. [])"

definition no_view :: RepoView where
  "no_view = \<lparr>rv_blocks = Map.empty, rv_metas = Map.empty\<rparr>"

lemma demo_empty_represents [simp]: "represents X demo_rkv demo_good fst demo_multi exact demo_empty no_view"
proof (rule representsI)
  show "repo_state demo_rkv demo_good fst demo_multi demo_empty (fst demo_empty) (demo_multi demo_empty)"
    by (simp add: repo_state_def demo_good_def demo_empty_def)
qed (simp_all add: repo_rel_def expiry_exact_def demo_empty_def no_view_def demo_multi_def lru_of_def)

end
