(* ===== verification/Lofire_Lmdb_Props.thy ===== *)
theory Lofire_Lmdb_Props
  imports Lofire_Lmdb_Instance
begin

text \<open>
  The properties of the LMDB block store: it is the machine of \<open>Lofire_Lmdb_View\<close>, its tables agree with
  each other in every reachable environment, expired and least used blocks are what is reclaimed, and
  objects saved into it load back.
\<close>

section \<open>Reachable environments\<close>

text \<open>Calls at any time, answered or panicking, in any order, with the two reclaiming operations.\<close>

inductive lmdb_reach :: "'x repo_externs_scheme \<Rightarrow> 'd RepoRkv \<Rightarrow> 'd \<Rightarrow> 'd \<Rightarrow> bool" for X R d0 where
  start: "lmdb_reach X R d0 d0"
| call: "lmdb_reach X R d0 d \<Longrightarrow> timed_call_ok X (clock, now, call) \<Longrightarrow> repo_call X R clock d call = (r, d') \<Longrightarrow>
    lmdb_reach X R d0 d'"
| expire: "lmdb_reach X R d0 d \<Longrightarrow> remove_expired X R clock d = (r, d') \<Longrightarrow> lmdb_reach X R d0 d'"
| reclaim: "lmdb_reach X R d0 d \<Longrightarrow> (remove_least_used X R d sz :: (usize, unit, 'd) op) = (r, d') \<Longrightarrow> lmdb_reach X R d0 d'"

lemma remove_expired_state:
  "snd (remove_expired X R clock d) = d \<or> (\<exists>ids. remove_expired X R clock d = del_expired X R d ids)"
proof (cases "now_timestamp clock :: (Timestamp, unit) result")
  case (Ok now)
  show ?thesis
  proof (cases "unwrap_res (rr_iter_prev_dup_from R d ExpiryStore now) ::
      (((u32 \<times> bytes, unit) result list, unit) result list, unit) result")
    case iter: (Ok iter)
    show ?thesis
      by (cases "collect_all_ids X iter [] :: (BlockId list, unit) result")
         (auto simp: remove_expired_def Ok iter)
  qed (simp_all add: remove_expired_def Ok)
qed (simp_all add: remove_expired_def)

lemma lmdb_reach_represents:
  assumes "lmdb_reach X R d0 d" "repo_codec X" "represents X R good single multi False d0 W"
  shows "\<exists>V. represents X R good single multi False d V"
  using assms(1)
proof induction
  case start then show ?case using assms(3) by blast
next
  case (call d clock now call r d')
  then obtain V where "represents X R good single multi False d V" by blast
  from repo_call_follows [OF assms(2) this call.hyps(2)] call.hyps(3) show ?case by auto
next
  case (expire d clock r d')
  then obtain V where V: "represents X R good single multi False d V" by blast
  with remove_expired_state [of X R clock d] del_expired_represents [OF assms(2) V] expire.hyps(2)
  show ?case by auto (metis snd_conv)
next
  case (reclaim d sz r d')
  then obtain V where V: "represents X R good single multi False d V" by blast
  from remove_least_used_ids [where 'e = unit, OF assms(2) V, of sz] del_least_used_represents [where 'e = unit, OF assms(2) V] reclaim.hyps(2)
  show ?case by (metis snd_conv)
qed

text \<open>
  C16. In every environment that calls of the store can reach, whatever they answered and whether or not
  they panicked, the recently used list at a time holds exactly the identifiers whose metadata is synced,
  not pinned and last used then, and the bytes stored under an identifier are those of a block with it.
\<close>

theorem lmdb_tables_agree:
  assumes "repo_codec X" "represents X R good single multi False d0 W" "lmdb_reach X R d0 d"
  shows "(v \<in> multi d RecentlyUsedStore t \<longleftrightarrow>
      (\<exists>i m. v = ser_digest X i \<and> single d MetaStore v = Some (ser_block_meta X m)
        \<and> bm_synced m \<and> \<not> bm_pin m \<and> bm_last_used m = t))
    \<and> (single d MainStore (ser_digest X j) = Some s \<longrightarrow> (\<exists>b. de_whole_block X s = Some b \<and> get_id X b = j))"
proof -
  from lmdb_reach_represents [OF assms(3,1,2)] obtain V where "represents X R good single multi False d V" by blast
  then have rel: "repo_rel X (single d) (multi d) V" by (auto simp: represents_def repo_state_def)
  note r = repo_relD [OF rel]
  have meta: "single d MetaStore (ser_digest X i) = Some (ser_block_meta X m) \<longleftrightarrow> rv_metas V i = Some m" for i m
    using r(2) [of i] repo_codecD(4) [OF assms(1)] by (cases "rv_metas V i") (auto, metis option.inject)
  have "v \<in> multi d RecentlyUsedStore t \<longleftrightarrow>
      (\<exists>i m. v = ser_digest X i \<and> single d MetaStore v = Some (ser_block_meta X m)
        \<and> bm_synced m \<and> \<not> bm_pin m \<and> bm_last_used m = t)"
    using meta by (auto simp: r(6) lru_of_def in_lru_def)
  moreover have "\<exists>b. de_whole_block X s = Some b \<and> get_id X b = j" if "single d MainStore (ser_digest X j) = Some s"
    using that r(1) [of j] r(3) [of j] by (auto simp: repo_codecD [OF assms(1)])
  ultimately show ?thesis by blast
qed

section \<open>The store is its machine\<close>

text \<open>
  C15. Any sequence of \<^verbatim>\<open>get\<close>, \<^verbatim>\<open>put\<close>, \<^verbatim>\<open>del\<close>, \<^verbatim>\<open>set_pin\<close> and \<^verbatim>\<open>has_been_synced\<close> on the LMDB store is answered as the
  machine on a map of blocks and a map of metadata answers it, panics included.
\<close>

theorem lmdb_repo_is_machine:
  assumes "repo_codec X" "represents X R good single multi False d V" "list_all (timed_call_ok X) calls"
  shows "repo_run X R d calls = machine_run X V calls"
  by (rule repo_run_follows [OF assms])

text \<open>
  C32. Blocks are listed at a minute in the order of their identifiers or not at all: of two blocks
  without metadata that are marked as synced in the same minute, the second call succeeds when its
  identifier is the greater one and panics when it is the smaller one.
\<close>

theorem same_minute_sync_order:
  assumes "repo_codec X" "represents X R good single multi False d V" "w \<noteq> 0"
    "rv_metas V i = None" "rv_metas V j = None" "lru_of (rv_metas V) w = {}" "i \<noteq> j"
    "now_timestamp clock = (Ok now :: (Timestamp, unit) result)" "now \<noteq> 0"
  shows "\<exists>d1 d2 r. has_been_synced X R clock d i (Some w) = (Ok (), d1)
    \<and> has_been_synced X R clock d1 j (Some w) = (r, d2)
    \<and> r = (if ser_digest X i < ser_digest X j then Ok () else Panic)"
proof -
  have ok: "timed_call_ok X (clock, now, Synced k (Some w))" for k using assms(3,8,9) by simp
  have app: "appendable X V i w" using assms(6) by (simp add: appendable_def)
  let ?V = "set_meta i \<lparr>bm_pin = False, bm_last_used = w, bm_synced = True\<rparr> V"
  from repo_call_follows [OF assms(1,2) ok [of i]] app assms(4) obtain d1 where
    d1: "repo_call X R clock d (Synced i (Some w)) = (Ok Finished, d1)" "represents X R good single multi False d1 ?V"
    by auto
  have "appendable X ?V j w \<longleftrightarrow> ser_digest X i < ser_digest X j"
    using assms(6,7) by (auto simp: appendable_def set_meta_def in_lru_def)
  with repo_call_follows [OF assms(1) d1(2) ok [of j]] assms(5,7) obtain r d2 where
    d2: "repo_call X R clock d1 (Synced j (Some w)) = (r, d2)"
      "r = (if ser_digest X i < ser_digest X j then Ok Finished else Panic)"
    by (auto simp: set_meta_def)
  obtain r1 e1 where r1: "has_been_synced X R clock d i (Some w) = (r1, e1)" by fastforce
  obtain r2 e2 where r2: "has_been_synced X R clock d1 j (Some w) = (r2, e2)" by fastforce
  from d1(1) r1 have "r1 = Ok () \<and> e1 = d1" by (cases r1) auto
  moreover from d2 r2 have "e2 = d2 \<and> r2 = (if ser_digest X i < ser_digest X j then Ok () else Panic)"
    by (cases r2) (auto split: if_splits)
  ultimately show ?thesis using r1 r2 by auto
qed

section \<open>Reclaiming\<close>

text \<open>
  C30. \<^verbatim>\<open>remove_expired\<close> deletes exactly the blocks whose expiry is now or earlier, with their metadata, and
  returns - unless one of them is synced and pinned: then it panics, although a pin is documented not to
  override the expiry.
\<close>

theorem remove_expired_exact:
  assumes "repo_codec X" "represents X R good single multi True d V"
    "now_timestamp clock = (Ok now :: (Timestamp, unit) result)"
  shows "if \<exists>i \<in> expired V now. locked V i then fst (remove_expired X R clock d) = Panic
    else \<exists>d'. remove_expired X R clock d = (Ok (), d')
      \<and> represents X R good single multi True d' (without (expired V now) V)"
proof -
  from remove_expired_ids [OF assms] obtain ids where
    ids: "remove_expired X R clock d = del_expired X R d ids" "distinct ids" "set ids = expired V now" by blast
  then have "\<forall>i \<in> set ids. rv_blocks V i \<noteq> None" by (auto simp: expired_def)
  from del_expired_follows [OF assms(1,2) ids(2) this, unfolded ids(3)] show ?thesis unfolding ids(1) .
qed

text \<open>
  C31. \<^verbatim>\<open>remove_least_used\<close>, when every block of the recently used list is stored: it deletes a prefix of
  the list ordered by the time of last use, the shortest one (but at least one block, if there is one)
  whose sizes reach the amount asked for, or the whole list; it returns the sum of the sizes; and pinned
  or not yet synced blocks stay.
\<close>

theorem remove_least_used_oldest_first:
  fixes R :: "'d RepoRkv"
  assumes "repo_codec X" "represents X R good single multi exact d V" "\<forall>i \<in> listed V. rv_blocks V i \<noteq> None"
  shows "\<exists>ids k d'. distinct ids \<and> set ids = listed V \<and> sorted (map (last_use V) ids)
    \<and> stops_at (stored_size X V) sz ids k
    \<and> remove_least_used X R d sz = ((Ok (sum_list (map (stored_size X V) (take k ids))), d') :: (usize, 'e, 'd) op)
    \<and> represents X R good single multi exact d' (without (set (take k ids)) V)"
proof -
  from remove_least_used_ids [where 'e = 'e, OF assms(1,2), of sz] obtain ids where
    ids: "(remove_least_used X R d sz :: (usize, 'e, 'd) op) = del_least_used X R sz d ids 0" "distinct ids"
      "set ids = listed V" "sorted (map (last_use V) ids)" by blast
  then have "\<forall>i \<in> set ids. rv_blocks V i \<noteq> None \<and> \<not> locked V i" using assms(3) listed_unlocked by auto
  from del_least_used_follows [where 'e = 'e, OF assms(1,2) ids(2) this, of sz 0] ids
  show ?thesis unfolding stops_at_def by auto
qed

section \<open>Objects\<close>

text \<open>
  An object with at most eight dependencies, saved into an LMDB store where nothing is synced, loads
  back from it by its identifier and key with its content and dependencies, whatever the store held and
  whatever is pinned.
\<close>

theorem lmdb_save_load_roundtrip:
  assumes X: "stream_cipher X" "block_content_codec X" "content_tagged X" "object_content_codec X c"
    and new: "object_new X c deps e sz pk sk = Ok ob" and deps: "length deps \<le> 8"
    and cf: "collision_free X (set (obj_blocks ob))"
    and d: "lmdb_invar X R good single multi clock d" and fuel: "length (obj_blocks ob) \<le> fuel"
  shows "\<exists>i k d1 ob1 d2. object_id X ob = Ok i \<and> object_key ob = Ok (Some k)
    \<and> object_save X (lmdb_repo_store X R clock) ob d = (Ok (), d1)
    \<and> object_load X (lmdb_repo_store X R clock) fuel i (Some k) d1 = (Ok ob1, d2)
    \<and> object_content X ob1 = Ok c \<and> obj_deps ob1 = deps"
proof -
  from object_new_facts [OF X(1-3) new] obtain K ds where
    m: "merkle X (obj_blocks ob) K ds" "concat ds = ser_object_content X c"
      "\<forall>b \<in> set (obj_blocks ob). honest X b" "block_deps (last (obj_blocks ob)) = ObjectIdList deps"
    by (auto simp: make_deps_few [OF deps])
  from lm.save_then_load [OF m(1,3) cf d fuel m(4), of "Some (the (block_key (last (obj_blocks ob))))"] obtain d1 ob1 d2 where
    l: "object_save X (lmdb_repo_store X R clock) ob d = (Ok (), d1)"
      "object_load X (lmdb_repo_store X R clock) fuel (block_id X (last (obj_blocks ob)))
         (Some (the (block_key (last (obj_blocks ob))))) d1 = (Ok ob1, d2)"
      "obj_deps ob1 = deps" "list_all2 (same_block X) (obj_blocks ob1) (obj_blocks ob)"
      "block_key (last (obj_blocks ob1)) = Some (the (block_key (last (obj_blocks ob))))" by blast
  from content_of_loaded(1) [OF m(1) l(4,5)] X(4) m(2) have "object_content X ob1 = Ok c"
    by (simp add: object_content_codec_def)
  with l(1-3) merkle_ids [OF m(1)] show ?thesis by blast
qed

section \<open>Witnesses\<close>

lemma demo_clock: "now_timestamp 1700000000 = (Ok 907191 :: (Timestamp, 'e) result)"
  by (simp add: now_timestamp_def EPOCH_AS_UNIX_TIMESTAMP_def)

definition demo_block :: "Timestamp option \<Rightarrow> Block" where
  "demo_block e = block_new demo_repo [] (ObjectIdList []) e [7] None"

lemma demo_block_fields [simp]: "honest demo_repo (demo_block e)" "plain (plain (demo_block e)) = plain (demo_block e)"
  "block_expiry (demo_block e) = e"
  by (simp_all add: demo_block_def)

theorem lmdb_tables_agree_witness:
  "\<exists>d. lmdb_reach demo_repo demo_rkv demo_empty d \<and> d \<noteq> demo_empty
    \<and> (\<forall>v t. v \<in> demo_multi d RecentlyUsedStore t \<longleftrightarrow>
      (\<exists>i m. v = ser_digest demo_repo i \<and> fst d MetaStore v = Some (ser_block_meta demo_repo m)
        \<and> bm_synced m \<and> \<not> bm_pin m \<and> bm_last_used m = t))"
proof -
  have ok: "timed_call_ok demo_repo (1700000000, 907191, SetPin (demo_id 1) True)" by (simp add: demo_clock)
  obtain r d where d: "repo_call demo_repo demo_rkv 1700000000 demo_empty (SetPin (demo_id 1) True) = (r, d)"
    by (rule prod.exhaust)
  then have "d \<noteq> demo_empty"
    by (auto simp: set_pin_def Let_def demo_rkv_def demo_empty_def committed_def fun_eq_iff split: if_splits)
  moreover from d have reach: "lmdb_reach demo_repo demo_rkv demo_empty d"
    by (rule lmdb_reach.call [OF lmdb_reach.start ok])
  ultimately show ?thesis
    using lmdb_tables_agree [OF demo_repo_codec demo_empty_represents reach] by blast
qed

theorem lmdb_repo_is_machine_witness:
  "repo_run demo_repo demo_rkv demo_empty
     (map (\<lambda>c. (1700000000, 907191, c)) [PutBlock (demo_block None), SetPin (block_id demo_repo (demo_block None)) True,
       Synced (block_id demo_repo (demo_block None)) (Some 5), DelBlock (block_id demo_repo (demo_block None)),
       GetBlock (block_id demo_repo (demo_block None))])
   = [Ok (Stored (block_id demo_repo (demo_block None))), Ok Finished, Ok Finished, Panic, Ok (Got (plain (demo_block None)))]"
  by (subst lmdb_repo_is_machine [OF demo_repo_codec demo_empty_represents])
     (simp_all add: demo_clock no_view_def set_meta_def in_lru_def)

lemma demo_ids_less: "ser_digest demo_repo (demo_id 1) < ser_digest demo_repo (demo_id 2)"
proof -
  have "replicate 32 a = a # replicate 31 a" for a :: u8 by (simp add: numeral_eq_Suc)
  then show ?thesis
    by (simp add: digest_codec_def map_codec_def demo_id_def bytes32_codec_def list_codec_def byte_codec_def)
qed

theorem same_minute_sync_order_witness:
  "\<exists>d1 d2. has_been_synced demo_repo demo_rkv 1700000000 demo_empty (demo_id 2) (Some 5) = (Ok (), d1)
    \<and> has_been_synced demo_repo demo_rkv 1700000000 d1 (demo_id 1) (Some 5) = (Panic, d2)"
proof -
  have "demo_id 2 \<noteq> demo_id 1" by (simp add: demo_id_def)
  from same_minute_sync_order [OF demo_repo_codec demo_empty_represents _ _ _ _ this demo_clock, of 5] demo_ids_less
  show ?thesis by (auto simp: no_view_def lru_of_def not_less_iff_gr_or_eq)
qed

lemma demo_put_represents:
  "\<exists>d. represents demo_repo demo_rkv demo_good fst demo_multi True d
    \<lparr>rv_blocks = [block_id demo_repo (demo_block e) \<mapsto> plain (demo_block e)], rv_metas = Map.empty\<rparr>"
  using put_step [OF demo_repo_codec demo_empty_represents, of "demo_block e" True]
  by (auto simp: no_view_def)

theorem remove_expired_exact_witness:
  "\<exists>d d'. represents demo_repo demo_rkv demo_good fst demo_multi True d
      \<lparr>rv_blocks = [block_id demo_repo (demo_block (Some 100)) \<mapsto> plain (demo_block (Some 100))], rv_metas = Map.empty\<rparr>
    \<and> remove_expired demo_repo demo_rkv 1700000000 d = (Ok (), d')
    \<and> represents demo_repo demo_rkv demo_good fst demo_multi True d' no_view"
proof -
  let ?i = "block_id demo_repo (demo_block (Some 100))"
  let ?V = "\<lparr>rv_blocks = [?i \<mapsto> plain (demo_block (Some 100))], rv_metas = Map.empty\<rparr>"
  from demo_put_represents obtain d where d: "represents demo_repo demo_rkv demo_good fst demo_multi True d ?V" by blast
  have "expired ?V 907191 = {?i}" by (auto simp: expired_def word_le_nat_alt)
  moreover have "without {?i} ?V = no_view" by (simp add: without_def no_view_def restrict_map_def fun_eq_iff)
  moreover have "\<not> locked ?V ?i" by (simp add: locked_def)
  ultimately have "\<exists>d'. remove_expired demo_repo demo_rkv 1700000000 d = (Ok (), d')
      \<and> represents demo_repo demo_rkv demo_good fst demo_multi True d' no_view"
    using remove_expired_exact [OF demo_repo_codec d demo_clock] by simp
  with d show ?thesis by blast
qed

theorem remove_least_used_oldest_first_witness:
  "\<exists>d d'. remove_least_used demo_repo demo_rkv d 1
      = ((Ok (length (ser_whole_block demo_repo (demo_block None))), d') :: (usize, unit, demo_env) op)
    \<and> represents demo_repo demo_rkv demo_good fst demo_multi True d' no_view"
proof -
  let ?i = "block_id demo_repo (demo_block None)" and ?m = "\<lparr>bm_pin = False, bm_last_used = 5, bm_synced = True\<rparr>"
  let ?V = "\<lparr>rv_blocks = [?i \<mapsto> plain (demo_block None)], rv_metas = [?i \<mapsto> ?m]\<rparr>"
  from demo_put_represents obtain d0 where
    d0: "represents demo_repo demo_rkv demo_good fst demo_multi True d0 \<lparr>rv_blocks = [?i \<mapsto> plain (demo_block None)], rv_metas = Map.empty\<rparr>"
    by blast
  from synced_step [OF demo_repo_codec d0 demo_clock, of "Some 5" ?i] obtain d where
    d: "represents demo_repo demo_rkv demo_good fst demo_multi True d ?V"
    by (auto simp: set_meta_def appendable_def lru_of_def)
  have l: "listed ?V = {?i}" by (auto simp: listed_def in_lru_def split: if_splits)
  with remove_least_used_oldest_first [where 'e = unit, OF demo_repo_codec d, of 1] obtain ids k d' where
    r: "distinct ids" "set ids = {?i}" "stops_at (stored_size demo_repo ?V) 1 ids k"
      "remove_least_used demo_repo demo_rkv d 1 = ((Ok (sum_list (map (stored_size demo_repo ?V) (take k ids))), d') :: (usize, unit, demo_env) op)"
      "represents demo_repo demo_rkv demo_good fst demo_multi True d' (without (set (take k ids)) ?V)" by auto
  from r(1,2) have "ids = [?i]" by (metis distinct_length_2_or_more empty_set insert_not_empty list.set_cases
      list.simps(15) set_ConsD singletonD singletonI neq_Nil_conv list.set_intros(1) list.set_intros(2))
  moreover from this r(3) have "k = 1" by (auto simp: stops_at_def)
  moreover have "without {?i} ?V = no_view" by (simp add: without_def no_view_def restrict_map_def fun_eq_iff)
  ultimately have "remove_least_used demo_repo demo_rkv d 1
      = ((Ok (length (ser_whole_block demo_repo (demo_block None))), d') :: (usize, unit, demo_env) op)"
    "represents demo_repo demo_rkv demo_good fst demo_multi True d' no_view"
    using r(4,5) repo_codecD(3) [OF demo_repo_codec] by (simp_all add: stored_size_def)
  then show ?thesis by blast
qed

definition demo_lmdb_object :: Object where
  "demo_lmdb_object = \<lparr>obj_blocks = [make_leaf demo_repo (convergence_key demo_repo demo_pubkey demo_secret)
     (ObjectIdList []) None (ser_object_content demo_repo (demo_file [7]))], obj_deps = []\<rparr>"

lemma demo_lmdb_invar: "lmdb_invar demo_repo demo_rkv demo_good fst demo_multi 1700000000 demo_empty"
  unfolding lmdb_invar_def
  by (intro conjI exI [of _ 907191] exI [of _ no_view]) (simp_all add: demo_clock nothing_synced_def, simp add: no_view_def)

theorem lmdb_save_load_roundtrip_witness:
  "\<exists>i k d1 ob1 d2. object_save demo_repo (lmdb_repo_store demo_repo demo_rkv 1700000000) demo_lmdb_object demo_empty = (Ok (), d1)
    \<and> object_load demo_repo (lmdb_repo_store demo_repo demo_rkv 1700000000) 5 i (Some k) d1 = (Ok ob1, d2)
    \<and> object_content demo_repo ob1 = Ok (demo_file [7])"
proof -
  have content: "ser_object_content demo_repo (demo_file [7]) = [2, 7]"
    by (simp add: demo_repo_def demo_net_def externs.defs net_externs.defs demo_file_def demo_externs_def)
  have new: "object_new demo_repo (demo_file [7]) [] None 4072 demo_pubkey demo_secret = Ok demo_lmdb_object"
    by (simp add: object_new.simps make_deps_few make_blocks_def lofire_defs demo_lmdb_object_def content Let_def)
  show ?thesis
    using lmdb_save_load_roundtrip [OF demo_repo_laws new _ _ demo_lmdb_invar, of 5]
    by (simp add: demo_lmdb_object_def collision_free_def) blast
qed

end
