(* ===== verification/Lofire_Auth.thy ===== *)
theory Lofire_Auth
  imports Lofire_Lmdb_Props
begin

text \<open>
  The server side of the authentication protocol, \<^verbatim>\<open>src/lofire-broker/src/auth.rs\<close>: the state machine, the
  handler that challenges a client with a nonce and checks the signed answer, and what a session of it
  guarantees. The bytes of \<^verbatim>\<open>getrandom\<close> are an argument.
\<close>

section \<open>The state machine\<close>

datatype AuthProtocolServerState =
    Ready | ClientHelloReceived | ServerHelloSent | ClientAuthReceived
  | AuthResultOk | AuthResultError | BrokerProtocol | Closed

datatype AuthProtocolServerInput =
    ClientHelloReceived | ServerHelloSent | ClientAuthReceived | OkInput | ErrorInput | AuthResultSent

text \<open>The table of \<^verbatim>\<open>state_machine!\<close>; \<^verbatim>\<open>consume\<close> fails where it has no transition.\<close>

fun transition :: "AuthProtocolServerState \<Rightarrow> AuthProtocolServerInput \<Rightarrow> AuthProtocolServerState option" where
  "transition Ready AuthProtocolServerInput.ClientHelloReceived = Some AuthProtocolServerState.ClientHelloReceived"
| "transition AuthProtocolServerState.ClientHelloReceived AuthProtocolServerInput.ServerHelloSent
     = Some AuthProtocolServerState.ServerHelloSent"
| "transition AuthProtocolServerState.ServerHelloSent AuthProtocolServerInput.ClientAuthReceived
     = Some AuthProtocolServerState.ClientAuthReceived"
| "transition AuthProtocolServerState.ClientAuthReceived OkInput = Some AuthResultOk"
| "transition AuthProtocolServerState.ClientAuthReceived ErrorInput = Some AuthResultError"
| "transition AuthResultOk AuthResultSent = Some BrokerProtocol"
| "transition AuthResultError AuthResultSent = Some Closed"
| "transition _ _ = None"

section \<open>The handler\<close>

record AuthProtocolHandler =
  ah_machine :: AuthProtocolServerState
  ah_nonce :: "bytes option"
  ah_user :: "PubKey option"

record auth_externs = repo_externs +
  ser_server_hello :: "ServerHello \<Rightarrow> bytes"
  de_client_auth :: "bytes \<Rightarrow> ClientAuth option"
  ser_client_auth_content :: "ClientAuthContentV0 \<Rightarrow> bytes"
  ser_auth_result :: "AuthResult \<Rightarrow> bytes"

definition auth_new :: AuthProtocolHandler where
  "auth_new = \<lparr>ah_machine = Ready, ah_nonce = None, ah_user = None\<rparr>"

definition get_user :: "AuthProtocolHandler \<Rightarrow> PubKey option" where
  "get_user h = ah_user h"

definition consume :: "AuthProtocolServerInput \<Rightarrow> AuthProtocolHandler \<Rightarrow> (unit, ProtocolError, AuthProtocolHandler) op" where
  "consume i h = (case transition (ah_machine h) i of
       Some st \<Rightarrow> (Ok (), h\<lparr>ah_machine := st\<rparr>)
     | None \<Rightarrow> (Err ProtocolError.InvalidState, h))"

definition handle_init ::
  "'x auth_externs_scheme \<Rightarrow> bytes32 \<Rightarrow> ClientHello \<Rightarrow> AuthProtocolHandler \<Rightarrow> (bytes, ProtocolError, AuthProtocolHandler) op" where
  "handle_init X random client_hello h =
     op_then (consume AuthProtocolServerInput.ClientHelloReceived h) (\<lambda>_ h.
       let nonce = bytes_of random;
           reply = ServerHello.V0 \<lparr>sh_nonce = nonce\<rparr>;
           h = h\<lparr>ah_nonce := Some nonce\<rparr>
       in op_then (consume AuthProtocolServerInput.ServerHelloSent h) (\<lambda>_ h. (Ok (ser_server_hello X reply), h)))"

definition auth_prepare_reply :: "(bytes, ProtocolError) result \<Rightarrow> AuthResult" where
  "auth_prepare_reply res = (case res of
       Err e \<Rightarrow> AuthResult.V0 \<lparr>ar_result = error_code e, ar_metadata = []\<rparr>
     | Ok m \<Rightarrow> AuthResult.V0 \<lparr>ar_result = 0, ar_metadata = m\<rparr>)"

definition process_state ::
  "'x auth_externs_scheme \<Rightarrow> bytes \<Rightarrow> AuthProtocolHandler \<Rightarrow> (bytes, ProtocolError, AuthProtocolHandler) op" where
  "process_state X frame h =
     (if ah_machine h = AuthProtocolServerState.ServerHelloSent then
        op_then (ok_or ProtocolError.SerializationError (de_client_auth X frame), h) (\<lambda>message h.
        op_then (consume AuthProtocolServerInput.ClientAuthReceived h) (\<lambda>_ h.
        op_then (map_err (\<lambda>_. AccessDenied)
            (verify X (ser_client_auth_content X (client_auth_content_v0 message)) (client_auth_sig message)
               (client_auth_user message)), h) (\<lambda>_ h.
        op_then (unwrap (ah_nonce h), h) (\<lambda>nonce h.
          if client_auth_nonce message \<noteq> nonce then (Err AccessDenied, snd (consume ErrorInput h))
          else op_then (consume OkInput h) (\<lambda>_ h. (Ok [], h\<lparr>ah_user := Some (client_auth_user message)\<rparr>))))))
      else (Err ProtocolError.InvalidState, h))"

text \<open>The reply, and the code the connection is closed with when there is an error.\<close>

definition auth_handle_incoming ::
  "'x auth_externs_scheme \<Rightarrow> bytes \<Rightarrow> AuthProtocolHandler \<Rightarrow> (bytes \<times> u16 option, ProtocolError, AuthProtocolHandler) op" where
  "auth_handle_incoming X frame h =
     (let (res, h') = process_state X frame h; reply = auth_prepare_reply res; reply_ser = ser_auth_result X reply in
      case res of
        Ok _ \<Rightarrow> (Ok (reply_ser, None), h')
      | Err _ \<Rightarrow> (Ok (reply_ser, Some (auth_result_result reply)), h')
      | Panic \<Rightarrow> (Panic, h')
      | Hang \<Rightarrow> (Hang, h'))"

section \<open>Sessions\<close>

text \<open>A handler that was sent a hello and then the frames of the list.\<close>

inductive auth_session ::
  "'x auth_externs_scheme \<Rightarrow> bytes32 \<Rightarrow> bytes list \<Rightarrow> (bytes \<times> u16 option) list \<Rightarrow> AuthProtocolHandler \<Rightarrow> bool"
  for X random where
  hello: "handle_init X random client_hello auth_new = (Ok reply, h) \<Longrightarrow> auth_session X random [] [] h"
| frame: "auth_session X random frames replies h \<Longrightarrow> auth_handle_incoming X f h = (Ok r, h') \<Longrightarrow>
    auth_session X random (frames @ [f]) (replies @ [r]) h'"

inductive_cases auth_session_NilE: "auth_session X random [] replies h"

text \<open>The only message that counts: the first frame that is a \<^verbatim>\<open>ClientAuth\<close>.\<close>

definition first_auth :: "'x auth_externs_scheme \<Rightarrow> bytes list \<Rightarrow> ClientAuth option" where
  "first_auth X frames = (case List.map_filter (de_client_auth X) frames of [] \<Rightarrow> None | m # _ \<Rightarrow> Some m)"

definition proves_user :: "'x auth_externs_scheme \<Rightarrow> bytes32 \<Rightarrow> ClientAuth \<Rightarrow> bool" where
  "proves_user X random m \<longleftrightarrow> client_auth_nonce m = bytes_of random
     \<and> is_ok (verify X (ser_client_auth_content X (client_auth_content_v0 m)) (client_auth_sig m) (client_auth_user m))"

lemma verify_cases: "verify X c s k = Ok () \<or> verify X c s k = Err LofireError.InvalidSignature"
  by (cases s; cases k) (auto simp: verify_def)

text \<open>One frame, in the state that waits for the message and in the others.\<close>

lemma auth_frame_waiting:
  assumes "ah_machine h = AuthProtocolServerState.ServerHelloSent" "ah_nonce h = Some (bytes_of random)" "ah_user h = None"
  shows "\<exists>r h'. auth_handle_incoming X f h = (Ok r, h') \<and> (case de_client_auth X f of
      None \<Rightarrow> h' = h \<and> snd r \<noteq> None
    | Some m \<Rightarrow> ah_machine h' \<noteq> AuthProtocolServerState.ServerHelloSent \<and> ah_nonce h' = ah_nonce h
        \<and> (if proves_user X random m then ah_user h' = Some (client_auth_user m) \<and> snd r = None
           else ah_user h' = None \<and> snd r \<noteq> None))"
proof (cases "de_client_auth X f")
  case None
  with assms show ?thesis by (simp add: auth_handle_incoming_def process_state_def Let_def auth_prepare_reply_def)
next
  case (Some m)
  from verify_cases [of X "ser_client_auth_content X (client_auth_content_v0 m)" "client_auth_sig m" "client_auth_user m"]
  show ?thesis using assms Some
    by (cases "client_auth_nonce m = bytes_of random")
      (auto simp: auth_handle_incoming_def process_state_def consume_def proves_user_def Let_def auth_prepare_reply_def)
qed

lemma auth_frame_other:
  "ah_machine h \<noteq> AuthProtocolServerState.ServerHelloSent \<Longrightarrow>
    \<exists>r. auth_handle_incoming X f h = (Ok r, h) \<and> snd r \<noteq> None"
  by (simp add: auth_handle_incoming_def process_state_def Let_def auth_prepare_reply_def)

lemma handle_init_new:
  "handle_init X random ch auth_new = (Ok (ser_server_hello X (ServerHello.V0 \<lparr>sh_nonce = bytes_of random\<rparr>)),
     \<lparr>ah_machine = AuthProtocolServerState.ServerHelloSent, ah_nonce = Some (bytes_of random), ah_user = None\<rparr>)"
  by (simp add: handle_init_def auth_new_def consume_def Let_def)

lemma first_auth_snoc: "first_auth X (fs @ [f]) = (case first_auth X fs of Some m \<Rightarrow> Some m | None \<Rightarrow> de_client_auth X f)"
  by (auto simp: first_auth_def List.map_filter_def split: list.splits option.splits)

text \<open>What a session that has read these frames knows.\<close>

definition auth_outcome :: "'x auth_externs_scheme \<Rightarrow> bytes32 \<Rightarrow> bytes list \<Rightarrow> PubKey option" where
  "auth_outcome X random frames = (case first_auth X frames of
       Some m \<Rightarrow> if proves_user X random m then Some (client_auth_user m) else None
     | None \<Rightarrow> None)"

lemma auth_session_state:
  assumes "auth_session X random frames replies h"
  shows "ah_nonce h = Some (bytes_of random) \<and> ah_user h = auth_outcome X random frames
    \<and> (ah_machine h = AuthProtocolServerState.ServerHelloSent \<longleftrightarrow> first_auth X frames = None)
    \<and> length replies = length frames
    \<and> length (filter (\<lambda>r. snd r = None) replies) = (if ah_user h = None then 0 else 1)"
  using assms
proof induction
  case (hello ch reply h)
  then show ?case by (auto simp: handle_init_new auth_outcome_def first_auth_def List.map_filter_def)
next
  case (frame frames replies h f r h')
  show ?case
  proof (cases "first_auth X frames")
    case None
    with frame.IH have waits: "ah_machine h = AuthProtocolServerState.ServerHelloSent" "ah_nonce h = Some (bytes_of random)"
        "ah_user h = None" by (auto simp: auth_outcome_def)
    from auth_frame_waiting [OF this, where X = X and f = f] frame.hyps(2) frame.IH None waits
    show ?thesis by (cases "de_client_auth X f") (auto simp: auth_outcome_def first_auth_snoc split: if_splits)
  next
    case (Some m)
    with frame.IH have "ah_machine h \<noteq> AuthProtocolServerState.ServerHelloSent" by simp
    from auth_frame_other [OF this, where X = X and f = f] frame.hyps(2) frame.IH Some
    show ?thesis by (auto simp: auth_outcome_def first_auth_snoc)
  qed
qed

text \<open>A handler that waits answers every frame: an authentication session never gets stuck.\<close>

lemma auth_handle_incoming_answers:
  assumes "auth_session X random frames replies h"
  shows "\<exists>r h'. auth_handle_incoming X f h = (Ok r, h')"
proof (cases "ah_machine h = AuthProtocolServerState.ServerHelloSent")
  case True
  with auth_session_state [OF assms] have "ah_user h = None" by (simp add: auth_outcome_def)
  with auth_session_state [OF assms] auth_frame_waiting [OF True, where X = X and f = f] show ?thesis by blast
next
  case False
  from auth_frame_other [OF False, where X = X and f = f] show ?thesis by blast
qed

end
