(* ===== verification/Lofire_Server.thy ===== *)
theory Lofire_Server
  imports Lofire_Auth
begin

text \<open>
  The broker server, \<^verbatim>\<open>BrokerServer\<close> of \<^verbatim>\<open>src/lofire-broker/src/server.rs\<close>: the users, overlays and
  peers it keeps in its property store, and one LMDB block store per repository, opened on demand under
  the locks of two hash maps. The locks are modelled by what they do to one request: a \<^verbatim>\<open>write()\<close> while the
  same call holds the \<^verbatim>\<open>read()\<close> guard never returns, and a panic while a write guard is held poisons the
  lock, after which \<^verbatim>\<open>expect\<close> panics.
\<close>

section \<open>Errors\<close>

datatype BrokerError = CannotStart | MismatchedMode | OverlayNotFound

fun from_broker_error :: "BrokerError \<Rightarrow> ProtocolError" where
  "from_broker_error CannotStart = ProtocolError.OverlayNotFound"
| "from_broker_error BrokerError.OverlayNotFound = ProtocolError.OverlayNotFound"
| "from_broker_error _ = ProtocolError.BrokerError"

fun broker_error_of_storage :: "StorageError \<Rightarrow> BrokerError" where
  "broker_error_of_storage StorageError.InvalidValue = MismatchedMode"
| "broker_error_of_storage _ = CannotStart"

section \<open>State and environment\<close>

text \<open>
  The hash map of opened stores is the set of its keys: a handle gives access to the environment in the
  directory of its store, and two handles on one directory share it (rkv's \<^verbatim>\<open>Manager\<close>).
\<close>

record ('b, 'd) BrokerServer =
  srv_store :: 'b
  srv_mode :: ConfigMode
  srv_repo_stores :: "RepoStoreId set"
  srv_stores_poisoned :: bool
  srv_overlayid_to_repostore :: "OverlayId \<rightharpoonup> RepoStoreId"
  srv_overlays_poisoned :: bool
  srv_disk :: "RepoStoreId \<Rightarrow> 'd"

text \<open>
  What a server runs on: its property store, the database of the block stores, \<^verbatim>\<open>LmdbRepoStore::open\<close>
  (\<open>None\<close> when it panics), whether the directory of a store can be created, and fuel for the walks.
\<close>

record ('b, 'd) BrokerEnv =
  be_store :: "'b BrokerStore"
  be_rkv :: "'d RepoRkv"
  be_open :: "bytes32 \<Rightarrow> 'd \<Rightarrow> 'd option"
  be_create_dir :: "RepoStoreId \<Rightarrow> bool"
  be_fuel :: nat

record server_externs = auth_externs +
  ser_add_user_content :: "AddUserContentV0 \<Rightarrow> bytes"
  de_start_protocol :: "bytes \<Rightarrow> StartProtocol option"
  de_broker_message :: "bytes \<Rightarrow> BrokerMessage option"
  ser_broker_message :: "BrokerMessage \<Rightarrow> bytes"

text \<open>\<^verbatim>\<open>BrokerServer::new\<close> on a property store; the mode is the one the store was configured with.\<close>

definition broker_new ::
  "'x server_externs_scheme \<Rightarrow> ('b, 'd) BrokerEnv \<Rightarrow> 'b \<Rightarrow> ConfigMode \<Rightarrow> (RepoStoreId \<Rightarrow> 'd)
   \<Rightarrow> (('b, 'd) BrokerServer, BrokerError, 'b) op" where
  "broker_new X E store mode disk =
     op_then (apfst (map_err broker_error_of_storage) (config_get_or_create X (be_store E) mode store)) (\<lambda>_ store.
     op_then (map_err broker_error_of_storage (config_mode X (be_store E) store), store) (\<lambda>configmode store.
       (Ok \<lparr>srv_store = store, srv_mode = configmode, srv_repo_stores = {}, srv_stores_poisoned = False,
          srv_overlayid_to_repostore = Map.empty, srv_overlays_poisoned = False, srv_disk = disk\<rparr>, store)))"

section \<open>Reading and writing the property store\<close>

text \<open>The operator \<^verbatim>\<open>?\<close> on a read and on a write of the property store.\<close>

definition ask_store ::
  "('b \<Rightarrow> ('a, StorageError) result) \<Rightarrow> ('b, 'd) BrokerServer \<Rightarrow> ('a, ProtocolError, ('b, 'd) BrokerServer) op" where
  "ask_store g s = (map_err from_storage_error (g (srv_store s)), s)"

definition do_store ::
  "('b \<Rightarrow> ('a, StorageError, 'b) op) \<Rightarrow> ('b, 'd) BrokerServer \<Rightarrow> ('a, ProtocolError, ('b, 'd) BrokerServer) op" where
  "do_store g s = (case g (srv_store s) of (r, st) \<Rightarrow> (map_err from_storage_error r, s\<lparr>srv_store := st\<rparr>))"

section \<open>Opening block stores\<close>

text \<open>The closure \<^verbatim>\<open>f\<close> applied to an opened store.\<close>

type_synonym ('a, 'd) repo_action = "'d \<Rightarrow> ('a, ProtocolError, 'd) op"

definition run_on ::
  "RepoStoreId \<Rightarrow> ('a, 'd) repo_action \<Rightarrow> ('b, 'd) BrokerServer \<Rightarrow> ('a, ProtocolError, ('b, 'd) BrokerServer) op" where
  "run_on repostore_id f s =
     (case f (srv_disk s repostore_id) of (r, d) \<Rightarrow> (r, s\<lparr>srv_disk := (srv_disk s)(repostore_id := d)\<rparr>))"

text \<open>A call under the write guard of the stores, and of the overlays.\<close>

definition guard_stores :: "('a, 'e, ('b, 'd) BrokerServer) op \<Rightarrow> ('a, 'e, ('b, 'd) BrokerServer) op" where
  "guard_stores p = (case p of (Panic, s) \<Rightarrow> (Panic, s\<lparr>srv_stores_poisoned := True\<rparr>) | _ \<Rightarrow> p)"

definition guard_overlays :: "('a, 'e, ('b, 'd) BrokerServer) op \<Rightarrow> ('a, 'e, ('b, 'd) BrokerServer) op" where
  "guard_overlays p = (case p of (Panic, s) \<Rightarrow> (Panic, s\<lparr>srv_overlays_poisoned := True\<rparr>) | _ \<Rightarrow> p)"

text \<open>
  \<open>reading\<close> says that the caller holds the read guard of the stores, as \<^verbatim>\<open>get_repostore_from_overlay_id\<close> does in the
  mode \<open>Core\<close>.
\<close>

definition open_or_create_repostore ::
  "'x server_externs_scheme \<Rightarrow> ('b, 'd) BrokerEnv \<Rightarrow> bool \<Rightarrow> RepoStoreId \<Rightarrow> ('a, 'd) repo_action
   \<Rightarrow> ('b, 'd) BrokerServer \<Rightarrow> ('a, ProtocolError, ('b, 'd) BrokerServer) op" where
  "open_or_create_repostore X E reading repostore_id f s =
     op_then (map_err (\<lambda>_. from_broker_error BrokerError.OverlayNotFound)
         (repo_store_info_open X (be_store E) repostore_id (srv_store s)), s) (\<lambda>info s.
     op_then (ask_store (repo_store_info_key X (be_store E) info) s) (\<lambda>key s.
       if \<not> be_create_dir E repostore_id then (Err WriteError, s)
       else op_then (unwrap (be_open E (symkey_slice key) (srv_disk s repostore_id)), s) (\<lambda>d s.
         let s = s\<lparr>srv_disk := (srv_disk s)(repostore_id := d)\<rparr> in
         if reading then (Hang, s)
         else if srv_stores_poisoned s then (Panic, s)
         else guard_stores (run_on repostore_id f (s\<lparr>srv_repo_stores := insert repostore_id (srv_repo_stores s)\<rparr>)))))"

definition get_repostore_from_overlay_id ::
  "'x server_externs_scheme \<Rightarrow> ('b, 'd) BrokerEnv \<Rightarrow> OverlayId \<Rightarrow> ('a, 'd) repo_action
   \<Rightarrow> ('b, 'd) BrokerServer \<Rightarrow> ('a, ProtocolError, ('b, 'd) BrokerServer) op" where
  "get_repostore_from_overlay_id X E overlay_id f s =
     (if srv_mode s = Core then
        let repostore_id = RepoStoreId.Overlay overlay_id in
        if srv_stores_poisoned s then (Panic, s)
        else if repostore_id \<in> srv_repo_stores s then run_on repostore_id f s
        else open_or_create_repostore X E True repostore_id f s
      else if srv_overlays_poisoned s then (Panic, s)
      else case srv_overlayid_to_repostore s overlay_id of
          Some repostoreid \<Rightarrow>
            if srv_stores_poisoned s then (Panic, s)
            else if repostoreid \<in> srv_repo_stores s then run_on repostoreid f s
            else (Err ProtocolError.BrokerError, s)
        | None \<Rightarrow>
            op_then (ask_store (overlay_open X (be_store E) overlay_id) s) (\<lambda>overlay s.
            op_then (ask_store (overlay_repo X (be_store E) overlay) s) (\<lambda>repo_id s.
              let repostore_id = Repo repo_id in
              guard_overlays (open_or_create_repostore X E False repostore_id f
                (s\<lparr>srv_overlayid_to_repostore := (srv_overlayid_to_repostore s)(overlay_id \<mapsto> repostore_id)\<rparr>)))))"

section \<open>Users and clients\<close>

definition add_user ::
  "'x server_externs_scheme \<Rightarrow> ('b, 'd) BrokerEnv \<Rightarrow> PubKey \<Rightarrow> PubKey \<Rightarrow> Sig
   \<Rightarrow> ('b, 'd) BrokerServer \<Rightarrow> (unit, ProtocolError, ('b, 'd) BrokerServer) op" where
  "add_user X E admin_user user_id sig s =
     op_then (map_err from_lofire_error (verify X (ser_add_user_content X \<lparr>auc_user = user_id\<rparr>) sig admin_user), s) (\<lambda>_ s.
       if is_ok (account_open X (be_store E) user_id (srv_store s)) then (Err UserAlreadyExists, s)
       else op_then (do_store (account_create X (be_store E) user_id False) s) (\<lambda>_ s. (Ok (), s)))"

definition del_user ::
  "PubKey \<Rightarrow> PubKey \<Rightarrow> Sig \<Rightarrow> ('b, 'd) BrokerServer \<Rightarrow> (unit, ProtocolError, ('b, 'd) BrokerServer) op" where
  "del_user admin_user user_id sig s = (Ok (), s)"

definition add_client ::
  "PubKey \<Rightarrow> PubKey \<Rightarrow> Sig \<Rightarrow> ('b, 'd) BrokerServer \<Rightarrow> (unit, ProtocolError, ('b, 'd) BrokerServer) op" where
  "add_client user client_id sig s = (Ok (), s)"

definition del_client ::
  "PubKey \<Rightarrow> PubKey \<Rightarrow> Sig \<Rightarrow> ('b, 'd) BrokerServer \<Rightarrow> (unit, ProtocolError, ('b, 'd) BrokerServer) op" where
  "del_client user client_id sig s = (Ok (), s)"

definition connect_overlay ::
  "PubKey \<Rightarrow> OverlayId \<Rightarrow> ('b, 'd) BrokerServer \<Rightarrow> (unit, ProtocolError, ('b, 'd) BrokerServer) op" where
  "connect_overlay user overlay s = (Err OverlayNotJoined, s)"

section \<open>Objects and blocks\<close>

text \<open>\<^verbatim>\<open>Object::load(id, None, store)\<close>, of which any error is \<^verbatim>\<open>NotFound\<close>.\<close>

definition load_or_not_found ::
  "'x server_externs_scheme \<Rightarrow> ('b, 'd) BrokerEnv \<Rightarrow> u64 \<Rightarrow> ObjectId \<Rightarrow> (Object, 'd) repo_action" where
  "load_or_not_found X E clock i d =
     apfst (map_err (\<lambda>_. ProtocolError.NotFound))
       (object_load X (lmdb_repo_store X (be_rkv E) clock) (be_fuel E) i None d)"

text \<open>The loops that delete, pin or unpin each block once.\<close>

fun for_each_block ::
  "'x server_externs_scheme \<Rightarrow> ('d \<Rightarrow> BlockId \<Rightarrow> ('c, StorageError, 'd) op) \<Rightarrow> Block list \<Rightarrow> ObjectId set
   \<Rightarrow> (unit, 'd) repo_action" where
  "for_each_block X g [] deduplicated d = (Ok (), d)"
| "for_each_block X g (block # blocks) deduplicated d =
     (let i = block_id X block in
      if i \<in> deduplicated then for_each_block X g blocks deduplicated d
      else op_then (apfst (map_err from_storage_error) (g d i))
             (\<lambda>_ d. for_each_block X g blocks (insert i deduplicated) d))"

definition del_object ::
  "'x server_externs_scheme \<Rightarrow> ('b, 'd) BrokerEnv \<Rightarrow> u64 \<Rightarrow> PubKey \<Rightarrow> OverlayId \<Rightarrow> ObjectId
   \<Rightarrow> ('b, 'd) BrokerServer \<Rightarrow> (unit, ProtocolError, ('b, 'd) BrokerServer) op" where
  "del_object X E clock user overlay i =
     get_repostore_from_overlay_id X E overlay (\<lambda>d. op_then (load_or_not_found X E clock i d)
       (\<lambda>o' d. for_each_block X (lmdb_repo_del X (be_rkv E)) (obj_blocks o') {} d))"

definition pin_object ::
  "'x server_externs_scheme \<Rightarrow> ('b, 'd) BrokerEnv \<Rightarrow> u64 \<Rightarrow> PubKey \<Rightarrow> OverlayId \<Rightarrow> ObjectId
   \<Rightarrow> ('b, 'd) BrokerServer \<Rightarrow> (unit, ProtocolError, ('b, 'd) BrokerServer) op" where
  "pin_object X E clock user overlay i =
     get_repostore_from_overlay_id X E overlay (\<lambda>d. op_then (load_or_not_found X E clock i d)
       (\<lambda>o' d. for_each_block X (pin X (be_rkv E)) (obj_blocks o') {} d))"

definition unpin_object ::
  "'x server_externs_scheme \<Rightarrow> ('b, 'd) BrokerEnv \<Rightarrow> u64 \<Rightarrow> PubKey \<Rightarrow> OverlayId \<Rightarrow> ObjectId
   \<Rightarrow> ('b, 'd) BrokerServer \<Rightarrow> (unit, ProtocolError, ('b, 'd) BrokerServer) op" where
  "unpin_object X E clock user overlay i =
     get_repostore_from_overlay_id X E overlay (\<lambda>d. op_then (load_or_not_found X E clock i d)
       (\<lambda>o' d. for_each_block X (unpin X (be_rkv E)) (obj_blocks o') {} d))"

text \<open>\<^verbatim>\<open>copy_object\<close> is a \<^verbatim>\<open>todo!()\<close>.\<close>

definition copy_object ::
  "PubKey \<Rightarrow> OverlayId \<Rightarrow> ObjectId \<Rightarrow> Timestamp option
   \<Rightarrow> ('b, 'd) BrokerServer \<Rightarrow> (ObjectId, ProtocolError, ('b, 'd) BrokerServer) op" where
  "copy_object user overlay i expiry s = (Panic, s)"

definition put_block ::
  "'x server_externs_scheme \<Rightarrow> ('b, 'd) BrokerEnv \<Rightarrow> PubKey \<Rightarrow> OverlayId \<Rightarrow> Block
   \<Rightarrow> ('b, 'd) BrokerServer \<Rightarrow> (unit, ProtocolError, ('b, 'd) BrokerServer) op" where
  "put_block X E user overlay block =
     get_repostore_from_overlay_id X E overlay (\<lambda>d.
       op_then (apfst (map_err from_storage_error) (lmdb_repo_put X (be_rkv E) d block)) (\<lambda>_ d. (Ok (), d)))"

text \<open>
  The blocks sent into the channel whose receiving end is returned, in order. The channel is unbounded and
  its receiver is alive, so sending never fails.
\<close>

fun send_blocks :: "'x server_externs_scheme \<Rightarrow> Block list \<Rightarrow> BlockId set \<Rightarrow> Block list \<Rightarrow> BlockId set \<times> Block list" where
  "send_blocks X [] deduplicated r = (deduplicated, r)"
| "send_blocks X (block # blocks) deduplicated r =
     (let i = block_id X block in
      if i \<in> deduplicated then send_blocks X blocks deduplicated r
      else send_blocks X blocks (insert i deduplicated) (r @ [block]))"

definition get_block ::
  "'x server_externs_scheme \<Rightarrow> ('b, 'd) BrokerEnv \<Rightarrow> u64 \<Rightarrow> PubKey \<Rightarrow> OverlayId \<Rightarrow> BlockId \<Rightarrow> bool \<Rightarrow> PubKey option
   \<Rightarrow> ('b, 'd) BrokerServer \<Rightarrow> (Block list, ProtocolError, ('b, 'd) BrokerServer) op" where
  "get_block X E clock user overlay i include_children topic =
     get_repostore_from_overlay_id X E overlay (\<lambda>d.
       if \<not> include_children then
         op_then (apfst (map_err from_storage_error) (lmdb_repo_get X (be_rkv E) clock d i)) (\<lambda>block d. (Ok [block], d))
       else op_then (load_or_not_found X E clock i d) (\<lambda>o' d. (Ok (snd (send_blocks X (obj_blocks o') {} [])), d)))"

fun send_objects ::
  "'x server_externs_scheme \<Rightarrow> ('b, 'd) BrokerEnv \<Rightarrow> u64 \<Rightarrow> ObjectId list \<Rightarrow> BlockId set \<Rightarrow> Block list
   \<Rightarrow> (Block list, 'd) repo_action" where
  "send_objects X E clock [] deduplicated r d = (Ok r, d)"
| "send_objects X E clock (i # res) deduplicated r d =
     op_then (apfst (map_err from_object_parse_error)
         (object_load X (lmdb_repo_store X (be_rkv E) clock) (be_fuel E) i None d)) (\<lambda>object d.
       let (deduplicated, r) = send_blocks X (obj_blocks object) deduplicated r
       in send_objects X E clock res deduplicated r d)"

definition sync_branch ::
  "'x server_externs_scheme \<Rightarrow> ('b, 'd) BrokerEnv \<Rightarrow> u64 \<Rightarrow> PubKey \<Rightarrow> OverlayId \<Rightarrow> ObjectId list \<Rightarrow> ObjectId list
   \<Rightarrow> BloomFilter \<Rightarrow> ('b, 'd) BrokerServer \<Rightarrow> (Block list, ProtocolError, ('b, 'd) BrokerServer) op" where
  "sync_branch X E clock user overlay heads known_heads known_commits =
     get_repostore_from_overlay_id X E overlay (\<lambda>d.
       op_then (apfst (map_err (\<lambda>_. ObjectParseError))
           (sync_req X (lmdb_repo_store X (be_rkv E) clock) (be_fuel E) (be_fuel E) heads known_heads known_commits d))
         (\<lambda>res d. send_objects X E clock res {} [] d))"

section \<open>Joining an overlay\<close>

definition compute_repostore_id ::
  "('b, 'd) BrokerServer \<Rightarrow> OverlayId \<Rightarrow> PubKey option \<Rightarrow> (RepoStoreId, 'e) result" where
  "compute_repostore_id s overlay repo =
     (if srv_mode s = Core then Ok (RepoStoreId.Overlay overlay) else and_then (unwrap repo) (\<lambda>r. Ok (Repo r)))"

fun add_peers ::
  "'x server_externs_scheme \<Rightarrow> ('b, 'd) BrokerEnv \<Rightarrow> Overlay \<Rightarrow> PeerAdvert list
   \<Rightarrow> ('b, 'd) BrokerServer \<Rightarrow> (unit, ProtocolError, ('b, 'd) BrokerServer) op" where
  "add_peers X E overlay [] s = (Ok (), s)"
| "add_peers X E overlay (advert # peers) s =
     op_then (do_store (peer_update_or_create X (be_store E) advert) s) (\<lambda>_ s.
     op_then (do_store (overlay_add_peer X (be_store E) overlay (peer_advert_peer advert)) s) (\<lambda>_ s.
       add_peers X E overlay peers s))"

text \<open>\<open>random\<close> is what \<^verbatim>\<open>getrandom\<close> answers.\<close>

definition create_overlay ::
  "'x server_externs_scheme \<Rightarrow> ('b, 'd) BrokerEnv \<Rightarrow> u64 \<Rightarrow> bytes32 \<Rightarrow> OverlayId \<Rightarrow> PubKey option \<Rightarrow> SymKey
   \<Rightarrow> ('b, 'd) BrokerServer \<Rightarrow> (Overlay, ProtocolError, ('b, 'd) BrokerServer) op" where
  "create_overlay X E clock random overlay_id repo secret s =
     (if srv_mode s = Local \<and> repo = None then (Err RepoIdRequired, s)
      else op_then (do_store (overlay_create X (be_store E) clock overlay_id secret
          (if srv_mode s = Local then repo else None)) s) (\<lambda>over s.
        op_then (compute_repostore_id s overlay_id repo, s) (\<lambda>sid s.
        op_then (do_store (repo_store_info_create X (be_store E) sid (ChaCha20Key random)) s) (\<lambda>_ s. (Ok over, s)))))"

definition join_overlay ::
  "'x server_externs_scheme \<Rightarrow> ('b, 'd) BrokerEnv \<Rightarrow> u64 \<Rightarrow> bytes32 \<Rightarrow> PubKey \<Rightarrow> OverlayId \<Rightarrow> PubKey option \<Rightarrow> SymKey
   \<Rightarrow> PeerAdvert list \<Rightarrow> ('b, 'd) BrokerServer \<Rightarrow> (unit, ProtocolError, ('b, 'd) BrokerServer) op" where
  "join_overlay X E clock random user overlay_id repo secret peers s =
     op_then (case overlay_open X (be_store E) overlay_id (srv_store s) of
         Err e \<Rightarrow> if e = StorageError.NotFound then create_overlay X E clock random overlay_id repo secret s
                  else (Err (from_storage_error e), s)
       | Ok overlay \<Rightarrow> (Ok overlay, s)
       | Panic \<Rightarrow> (Panic, s)
       | Hang \<Rightarrow> (Hang, s)) (\<lambda>overlay s.
     op_then (add_peers X E overlay peers s) (\<lambda>_ s.
     op_then (ask_store (account_open X (be_store E) user) s) (\<lambda>account s.
       do_store (account_add_overlay X (be_store E) account overlay_id) s)))"

end
