(* ===== verification/Lofire_Handler.thy ===== *)
theory Lofire_Handler
  imports Lofire_Server
begin

text \<open>
  The protocols of a connection: \<^verbatim>\<open>BrokerProtocolHandler\<close> and \<^verbatim>\<open>ProtocolHandler\<close> of
  \<^verbatim>\<open>src/lofire-broker/src/server.rs\<close>, and the loop of \<^verbatim>\<open>src/lofire-node/src/main.rs\<close> that feeds them the messages
  of a websocket. What a handler answers is a reply and perhaps a future, given by the frames the future
  sends and the code it ends with.
\<close>

section \<open>Replies\<close>

text \<open>A \<^verbatim>\<open>Result\<close> that is a value: an error, or what the call returned.\<close>

type_synonym 'a outcome = "ProtocolError + 'a"

fun answer :: "('a, ProtocolError, 's) op \<Rightarrow> ('a outcome \<Rightarrow> 's \<Rightarrow> ('c, 'e, 's) op) \<Rightarrow> ('c, 'e, 's) op" where
  "answer (Ok x, s) f = f (Inr x) s"
| "answer (Err e, s) f = f (Inl e) s"
| "answer (Panic, s) f = (Panic, s)"
| "answer (Hang, s) f = (Hang, s)"

definition result_code :: "'a outcome \<Rightarrow> u16" where
  "result_code res = (case res of Inr _ \<Rightarrow> 0 | Inl e \<Rightarrow> error_code e)"

definition prepare_reply_broker_message :: "unit outcome \<Rightarrow> u64 \<Rightarrow> usize \<Rightarrow> BrokerMessage" where
  "prepare_reply_broker_message res i padding_size =
     BrokerMessage.V0 \<lparr>bm_content = BrokerMessageContentV0.BrokerResponse
       (BrokerResponse.V0 \<lparr>brs_id = i, brs_result = result_code res\<rparr>), bm_padding = replicate padding_size 0\<rparr>"

definition prepare_reply_broker_overlay_message ::
  "unit outcome \<Rightarrow> u64 \<Rightarrow> OverlayId \<Rightarrow> Block option \<Rightarrow> usize \<Rightarrow> BrokerMessage" where
  "prepare_reply_broker_overlay_message res i overlay block padding_size =
     BrokerMessage.V0 \<lparr>bm_content = BrokerMessageContentV0.BrokerOverlayMessage
       (BrokerOverlayMessage.V0 \<lparr>bom_overlay = overlay, bom_content = BrokerOverlayMessageContentV0.BrokerOverlayResponse
         (BrokerOverlayResponse.V0 \<lparr>bors_id = i, bors_result = result_code res,
            bors_content = map_option BrokerOverlayResponseContentV0.Block block\<rparr>)\<rparr>),
       bm_padding = replicate padding_size 0\<rparr>"

definition prepare_reply_broker_overlay_message_stream ::
  "Block outcome \<Rightarrow> u64 \<Rightarrow> OverlayId \<Rightarrow> usize \<Rightarrow> BrokerMessage" where
  "prepare_reply_broker_overlay_message_stream res i overlay padding_size =
     BrokerMessage.V0 \<lparr>bm_content = BrokerMessageContentV0.BrokerOverlayMessage
       (BrokerOverlayMessage.V0 \<lparr>bom_overlay = overlay, bom_content = BrokerOverlayMessageContentV0.BrokerOverlayResponse
         (BrokerOverlayResponse.V0 \<lparr>bors_id = i,
            bors_result = (case res of Inr _ \<Rightarrow> error_code PartialContent | Inl e \<Rightarrow> error_code e),
            bors_content = (case res of Inr b \<Rightarrow> Some (BrokerOverlayResponseContentV0.Block b) | Inl _ \<Rightarrow> None)\<rparr>)\<rparr>),
       bm_padding = replicate padding_size 0\<rparr>"

text \<open>
  The first block is the reply; the future sends the others and then the end of the stream, and ends with
  code 0. Without a first block there is only the error.
\<close>

definition send_block_stream_response_to_client ::
  "Block list outcome \<Rightarrow> u64 \<Rightarrow> OverlayId \<Rightarrow> usize \<Rightarrow> BrokerMessage \<times> BrokerMessage list option" where
  "send_block_stream_response_to_client res i overlay padding_size =
     (let reply = \<lambda>r. prepare_reply_broker_overlay_message_stream r i overlay padding_size in
      case res of
        Inl e \<Rightarrow> (reply (Inl e), None)
      | Inr [] \<Rightarrow> (reply (Inl EndOfStream), None)
      | Inr (one # stream) \<Rightarrow> (reply (Inr one), Some (map (\<lambda>b. reply (Inr b)) stream @ [reply (Inl EndOfStream)])))"

section \<open>The broker protocol\<close>

definition padding_size :: usize where
  "padding_size = 20"

definition handle_broker_request ::
  "'x server_externs_scheme \<Rightarrow> ('b, 'd) BrokerEnv \<Rightarrow> PubKey \<Rightarrow> BrokerRequestContentV0
   \<Rightarrow> ('b, 'd) BrokerServer \<Rightarrow> (unit, ProtocolError, ('b, 'd) BrokerServer) op" where
  "handle_broker_request X E user req s = (case req of
       BrokerRequestContentV0.AddUser cmd \<Rightarrow> add_user X E user (add_user_user cmd) (add_user_sig cmd) s
     | BrokerRequestContentV0.DelUser cmd \<Rightarrow> del_user user (del_user_user cmd) (del_user_sig cmd) s
     | BrokerRequestContentV0.AddClient cmd \<Rightarrow> add_client user (add_client_client cmd) (add_client_sig cmd) s
     | BrokerRequestContentV0.DelClient cmd \<Rightarrow> del_client user (del_client_client cmd) (del_client_sig cmd) s)"

definition handle_overlay_request ::
  "'x server_externs_scheme \<Rightarrow> ('b, 'd) BrokerEnv \<Rightarrow> u64 \<Rightarrow> bytes32 \<Rightarrow> PubKey \<Rightarrow> u64 \<Rightarrow> OverlayId
   \<Rightarrow> BrokerOverlayRequestContentV0 \<Rightarrow> ('b, 'd) BrokerServer
   \<Rightarrow> (BrokerMessage \<times> BrokerMessage list option, 'e, ('b, 'd) BrokerServer) op" where
  "handle_overlay_request X E clock random user i overlay req s =
     (let finish = \<lambda>p. answer p (\<lambda>res s. (Ok (prepare_reply_broker_overlay_message res i overlay None padding_size, None), s));
          stream = \<lambda>p. answer p (\<lambda>res s. (Ok (send_block_stream_response_to_client res i overlay padding_size), s)) in
      case req of
        BrokerOverlayRequestContentV0.OverlayConnect _ \<Rightarrow> finish (connect_overlay user overlay s)
      | BrokerOverlayRequestContentV0.OverlayJoin j \<Rightarrow> finish (join_overlay X E clock random user overlay
            (overlay_join_repo_pubkey j) (overlay_join_secret j) (overlay_join_peers j) s)
      | BrokerOverlayRequestContentV0.ObjectDel op' \<Rightarrow> finish (del_object X E clock user overlay (object_del_id op') s)
      | BrokerOverlayRequestContentV0.ObjectPin op' \<Rightarrow> finish (pin_object X E clock user overlay (object_pin_id op') s)
      | BrokerOverlayRequestContentV0.ObjectUnpin op' \<Rightarrow> finish (unpin_object X E clock user overlay (object_unpin_id op') s)
      | BrokerOverlayRequestContentV0.BlockPut b \<Rightarrow> finish (put_block X E user overlay (block_put_block b) s)
      | BrokerOverlayRequestContentV0.BranchSyncReq b \<Rightarrow> stream (sync_branch X E clock user overlay
            (branch_sync_req_heads b) (branch_sync_req_known_heads b) (branch_sync_req_known_commits b) s)
      | BrokerOverlayRequestContentV0.BlockGet b \<Rightarrow> stream (get_block X E clock user overlay
            (block_get_id b) (block_get_include_children b) (block_get_topic b) s)
      | _ \<Rightarrow> finish (Err InvalidState, s))"

definition broker_handle_incoming ::
  "'x server_externs_scheme \<Rightarrow> ('b, 'd) BrokerEnv \<Rightarrow> u64 \<Rightarrow> bytes32 \<Rightarrow> PubKey \<Rightarrow> BrokerMessage
   \<Rightarrow> ('b, 'd) BrokerServer \<Rightarrow> (BrokerMessage \<times> BrokerMessage list option, 'e, ('b, 'd) BrokerServer) op" where
  "broker_handle_incoming X E clock random user msg s =
     op_then (broker_message_id msg, s) (\<lambda>i s.
     op_then (broker_message_content msg, s) (\<lambda>content s.
       case content of
         BrokerMessageContentV0.BrokerRequest req \<Rightarrow>
           answer (handle_broker_request X E user (broker_request_content_v0 req) s)
             (\<lambda>res s. (Ok (prepare_reply_broker_message res i padding_size, None), s))
       | BrokerMessageContentV0.BrokerResponse res \<Rightarrow>
           (Ok (prepare_reply_broker_message (Inl InvalidState) i padding_size, None), s)
       | BrokerMessageContentV0.BrokerOverlayMessage omsg \<Rightarrow>
           let overlay = broker_overlay_message_overlay_id omsg in
           if broker_overlay_message_is_request omsg then
             op_then (broker_overlay_message_overlay_request omsg, s) (\<lambda>req s.
               handle_overlay_request X E clock random user i overlay (broker_overlay_request_content_v0 req) s)
           else (Ok (prepare_reply_broker_overlay_message (Inl InvalidState) i overlay None padding_size, None), s)))"

section \<open>The protocols of a connection\<close>

datatype ProtocolType = Start | Auth | Broker | Ext | P2P

record ProtocolHandler =
  ph_protocol :: ProtocolType
  ph_auth_protocol :: "AuthProtocolHandler option"
  ph_broker_protocol :: "PubKey option"
  ph_ext_protocol :: bool

definition protocol_handler :: ProtocolHandler where
  "protocol_handler = \<lparr>ph_protocol = Start, ph_auth_protocol = None, ph_broker_protocol = None, ph_ext_protocol = False\<rparr>"

text \<open>The frames a future sends and its code; \<^verbatim>\<open>ExtProtocolHandler::handle_incoming\<close> is \<^verbatim>\<open>unimplemented!()\<close>.\<close>

type_synonym reply_future = "(bytes list \<times> u16) option"

definition protocol_start ::
  "'x server_externs_scheme \<Rightarrow> bytes32 \<Rightarrow> bytes \<Rightarrow> ProtocolHandler
   \<Rightarrow> (bytes \<times> reply_future, ProtocolError, ProtocolHandler) op" where
  "protocol_start X random frame h = (case de_start_protocol X frame of
       Some (StartProtocol.Auth b) \<Rightarrow>
         (let (r, a) = handle_init X random b auth_new
          in (and_then r (\<lambda>m. Ok (m, None)), h\<lparr>ph_protocol := Auth, ph_auth_protocol := Some a\<rparr>))
     | Some (StartProtocol.Ext ext) \<Rightarrow> (Panic, h\<lparr>ph_protocol := Ext, ph_ext_protocol := True\<rparr>)
     | None \<Rightarrow> (Err ProtocolError.SerializationError, h))"

definition protocol_auth ::
  "'x server_externs_scheme \<Rightarrow> bytes \<Rightarrow> ProtocolHandler \<Rightarrow> (bytes \<times> reply_future, ProtocolError, ProtocolHandler) op" where
  "protocol_auth X frame h =
     op_then (unwrap (ph_auth_protocol h), h) (\<lambda>a h.
       let (res, a) = auth_handle_incoming X frame a; h = h\<lparr>ph_auth_protocol := Some a\<rparr> in
       op_then (res, h) (\<lambda>(reply, closing) h. case closing of
           None \<Rightarrow> op_then (unwrap (get_user a), h\<lparr>ph_protocol := Broker\<rparr>) (\<lambda>user h.
             (Ok (reply, None), h\<lparr>ph_broker_protocol := Some user, ph_auth_protocol := None\<rparr>))
         | Some e \<Rightarrow> (Ok (reply, Some ([], e)), h)))"

definition protocol_broker ::
  "'x server_externs_scheme \<Rightarrow> ('b, 'd) BrokerEnv \<Rightarrow> u64 \<Rightarrow> bytes32 \<Rightarrow> bytes \<Rightarrow> ProtocolHandler
   \<Rightarrow> ('b, 'd) BrokerServer \<Rightarrow> (bytes \<times> reply_future, ProtocolError, ('b, 'd) BrokerServer) op" where
  "protocol_broker X E clock random frame h s = (case de_broker_message X frame of
       Some message \<Rightarrow> op_then (unwrap (ph_broker_protocol h), s) (\<lambda>user s.
         op_then (broker_handle_incoming X E clock random user message s) (\<lambda>(reply, future) s.
           (Ok (ser_broker_message X reply, map_option (\<lambda>msgs. (map (ser_broker_message X) msgs, 0)) future), s)))
     | None \<Rightarrow> (Err ProtocolError.SerializationError, s))"

definition protocol_handle_incoming ::
  "'x server_externs_scheme \<Rightarrow> ('b, 'd) BrokerEnv \<Rightarrow> u64 \<Rightarrow> bytes32 \<Rightarrow> bytes \<Rightarrow> ProtocolHandler \<times> ('b, 'd) BrokerServer
   \<Rightarrow> (bytes \<times> reply_future, ProtocolError, ProtocolHandler \<times> ('b, 'd) BrokerServer) op" where
  "protocol_handle_incoming X E clock random frame hs = (case hs of (h, s) \<Rightarrow>
     (case ph_protocol h of
        Start \<Rightarrow> (let (r, h) = protocol_start X random frame h in (r, (h, s)))
      | Auth \<Rightarrow> (let (r, h) = protocol_auth X frame h in (r, (h, s)))
      | Broker \<Rightarrow> (let (r, s) = protocol_broker X E clock random frame h s in (r, (h, s)))
      | Ext \<Rightarrow> (Err InvalidState, hs)
      | P2P \<Rightarrow> (Panic, hs)))"

section \<open>The connection\<close>

text \<open>
  A connection of the node: the handler, the channel of async frames, what was sent over the websocket, and
  whether its loop still runs and whether the websocket was closed. \<open>sends\<close> says whether the websocket accepts what is sent.
\<close>

datatype WsMessage = WsError | WsClose | WsBinary bytes | WsOther

record Connection =
  con_handler :: ProtocolHandler
  con_async :: "bytes list"
  con_sent :: "bytes list"
  con_running :: bool
  con_closed :: bool

definition connection_new :: Connection where
  "connection_new = \<lparr>con_handler = protocol_handler, con_async = [], con_sent = [], con_running = True, con_closed = False\<rparr>"

definition connection_receive ::
  "'x server_externs_scheme \<Rightarrow> ('b, 'd) BrokerEnv \<Rightarrow> u64 \<Rightarrow> bytes32 \<Rightarrow> bool \<Rightarrow> WsMessage
   \<Rightarrow> Connection \<times> ('b, 'd) BrokerServer \<Rightarrow> (unit, unit, Connection \<times> ('b, 'd) BrokerServer) op" where
  "connection_receive X E clock random sends msg cs = (case cs of (c, s) \<Rightarrow>
     (if \<not> con_running c then (Ok (), cs)
      else case msg of
          WsError \<Rightarrow> (Ok (), (c\<lparr>con_running := False\<rparr>, s))
        | WsClose \<Rightarrow> (Ok (), (c\<lparr>con_running := False\<rparr>, s))
        | WsOther \<Rightarrow> (Ok (), cs)
        | WsBinary frame \<Rightarrow>
            (let (replies, (h, s)) = protocol_handle_incoming X E clock random frame (con_handler c, s);
                 c = c\<lparr>con_handler := h\<rparr> in
             case replies of
               Err e \<Rightarrow> (Ok (), (c\<lparr>con_running := False\<rparr>, s))
             | Panic \<Rightarrow> (Panic, (c, s))
             | Hang \<Rightarrow> (Hang, (c, s))
             | Ok (r, future) \<Rightarrow>
                 if \<not> sends then (Ok (), (c\<lparr>con_running := False\<rparr>, s))
                 else let c = c\<lparr>con_sent := con_sent c @ [r]\<rparr> in
                   case future of
                     None \<Rightarrow> (Ok (), (c, s))
                   | Some (frames, errcode) \<Rightarrow>
                       (Ok (), (c\<lparr>con_async := con_async c @ frames, con_running := (errcode \<le> 0)\<rparr>, s)))))"

text \<open>
  The task that forwards the async frames, which ends at the first frame the websocket refuses, and the end
  of the loop. Both close the websocket; what is left in the channel is not sent then.
\<close>

definition connection_forward :: "bool \<Rightarrow> Connection \<Rightarrow> Connection" where
  "connection_forward sends c = (case con_async c of
       frame # frames \<Rightarrow>
         if con_closed c then c
         else if sends then c\<lparr>con_async := frames, con_sent := con_sent c @ [frame]\<rparr>
         else c\<lparr>con_async := frames, con_closed := True\<rparr>
     | [] \<Rightarrow> c)"

definition connection_close :: "Connection \<Rightarrow> Connection" where
  "connection_close c = (if con_running c then c else c\<lparr>con_closed := True\<rparr>)"

end
