(* ===== verification/Lofire_Session.thy ===== *)
theory Lofire_Session
  imports Lofire_Handler
begin

text \<open>
  Sessions of a connection with the server: whatever a client sends, in whatever order, and whatever other
  connections do to the server meanwhile, the broker protocol is only spoken with a user who signed this
  connection's nonce, and a stream of blocks is received as it was sent.
\<close>

section \<open>Runs of a connection\<close>

text \<open>
  The messages received so far, with the connection and the server they led to. The other connections may
  replace the server's state at any time.
\<close>

inductive connection_run ::
  "'x server_externs_scheme \<Rightarrow> ('b, 'd) BrokerEnv \<Rightarrow> WsMessage list \<Rightarrow> Connection \<Rightarrow> ('b, 'd) BrokerServer \<Rightarrow> bool"
  for X E where
  start: "connection_run X E [] connection_new s"
| receive: "connection_run X E ms c s \<Longrightarrow> con_running c \<Longrightarrow> (sends \<longrightarrow> \<not> con_closed c) \<Longrightarrow>
    connection_receive X E clock random sends m (c, s) = (Ok (), (c', s')) \<Longrightarrow> connection_run X E (ms @ [m]) c' s'"
| forward: "connection_run X E ms c s \<Longrightarrow> connection_run X E ms (connection_forward sends c) s"
| close: "connection_run X E ms c s \<Longrightarrow> connection_run X E ms (connection_close c) s"
| others: "connection_run X E ms c s \<Longrightarrow> connection_run X E ms c s'"

fun frames_of :: "WsMessage list \<Rightarrow> bytes list" where
  "frames_of [] = []"
| "frames_of (WsBinary f # ms) = f # frames_of ms"
| "frames_of (_ # ms) = frames_of ms"

lemma frames_of_append [simp]: "frames_of (ms @ ns) = frames_of ms @ frames_of ns"
  by (induction ms rule: frames_of.induct) simp_all

text \<open>
  The invariant: a handler that authenticates has run a session of \<open>Lofire_Auth\<close> with the frames after the
  first one, and a handler in the broker protocol speaks for the user that such a session proved.
\<close>

definition proven :: "'x auth_externs_scheme \<Rightarrow> bytes32 \<Rightarrow> bytes list \<Rightarrow> PubKey \<Rightarrow> bool" where
  "proven X nonce frames user \<longleftrightarrow> (\<exists>f \<in> set frames. \<exists>m. de_client_auth X f = Some m
     \<and> client_auth_user m = user \<and> client_auth_nonce m = bytes_of nonce
     \<and> is_ok (verify X (ser_client_auth_content X (client_auth_content_v0 m)) (client_auth_sig m) user))"

definition handler_ok :: "'x auth_externs_scheme \<Rightarrow> bytes32 \<Rightarrow> bytes list \<Rightarrow> ProtocolHandler \<Rightarrow> bool" where
  "handler_ok X nonce frames h \<longleftrightarrow> (case ph_protocol h of
       Start \<Rightarrow> frames = [] \<and> ph_broker_protocol h = None
     | Auth \<Rightarrow> (\<exists>f fs replies a. frames = f # fs \<and> ph_auth_protocol h = Some a
         \<and> auth_session X nonce fs replies a \<and> auth_outcome X nonce fs = None)
     | Broker \<Rightarrow> (\<exists>f fs user. frames = f # fs \<and> ph_broker_protocol h = Some user \<and> proven X nonce fs user)
     | _ \<Rightarrow> True)"

lemma first_auth_in: "first_auth X fs = Some m \<Longrightarrow> \<exists>f \<in> set fs. de_client_auth X f = Some m"
proof (induction fs)
  case (Cons f fs) then show ?case by (cases "de_client_auth X f") (auto simp: first_auth_def List.map_filter_def)
qed (simp add: first_auth_def List.map_filter_def)

lemma auth_outcome_proven: "auth_outcome X nonce fs = Some user \<Longrightarrow> proven X nonce fs user"
  by (auto simp: auth_outcome_def proven_def proves_user_def split: option.splits if_splits dest!: first_auth_in)

lemma auth_session_closing:
  assumes "auth_session X nonce fs replies a" "auth_outcome X nonce fs = None"
    "auth_handle_incoming X f a = (Ok (reply, closing), a')"
  shows "closing = None \<longleftrightarrow> auth_outcome X nonce (fs @ [f]) \<noteq> None"
proof -
  have s: "auth_session X nonce (fs @ [f]) (replies @ [(reply, closing)]) a'"
    using assms(1,3) by (rule auth_session.frame)
  from auth_session_state [OF assms(1)] auth_session_state [OF s] assms(2)
  show ?thesis by (auto split: if_splits)
qed

definition connection_ok :: "'x auth_externs_scheme \<Rightarrow> WsMessage list \<Rightarrow> Connection \<Rightarrow> bool" where
  "connection_ok X ms c \<longleftrightarrow> (con_running c \<longrightarrow> (\<exists>nonce. handler_ok X nonce (frames_of ms) (con_handler c)
     \<and> (ph_protocol (con_handler c) \<noteq> Start \<longrightarrow> con_sent c \<noteq> []
        \<and> hd (con_sent c) = ser_server_hello X (ServerHello.V0 \<lparr>sh_nonce = bytes_of nonce\<rparr>))
     \<and> (ph_protocol (con_handler c) = Start \<longrightarrow> con_async c = [] \<and> con_sent c = [])))"

lemma protocol_start_ok:
  assumes "handler_ok X nonce fs h" "ph_protocol h = Start" "protocol_start X random f h = (Ok (r, future), h')"
  shows "fs = [] \<and> future = None \<and> handler_ok X random [f] h' \<and> ph_protocol h' = Auth
    \<and> r = ser_server_hello X (ServerHello.V0 \<lparr>sh_nonce = bytes_of random\<rparr>)"
proof -
  from assms(3) obtain ch where ch: "de_start_protocol X f = Some (StartProtocol.Auth ch)"
    by (auto simp: protocol_start_def split: option.splits StartProtocol.splits prod.splits)
  with assms(3) have h': "future = None" "r = ser_server_hello X (ServerHello.V0 \<lparr>sh_nonce = bytes_of random\<rparr>)"
    "h' = h\<lparr>ph_protocol := Auth, ph_auth_protocol := Some (snd (handle_init X random ch auth_new))\<rparr>"
    by (auto simp: protocol_start_def handle_init_new)
  have "auth_session X random [] [] (snd (handle_init X random ch auth_new))"
    by (rule auth_session.hello [where client_hello = ch]) (simp add: handle_init_new)
  moreover have "auth_outcome X random [] = None" by (simp add: auth_outcome_def first_auth_def List.map_filter_def)
  ultimately show ?thesis using assms(1,2) h' by (auto simp: handler_ok_def)
qed

lemma protocol_auth_ok:
  assumes "handler_ok X nonce fs h" "ph_protocol h = Auth" "protocol_auth X f h = (Ok (r, future), h')"
  shows "ph_protocol h' \<noteq> Start \<and> (future = None \<or> (\<exists>e. future = Some ([], e)))
    \<and> (future = None \<or> snd (the future) \<le> 0 \<longrightarrow> handler_ok X nonce (fs @ [f]) h')"
proof -
  from assms(1,2) obtain f0 gs replies a where
    a: "fs = f0 # gs" "ph_auth_protocol h = Some a" "auth_session X nonce gs replies a" "auth_outcome X nonce gs = None"
    by (auto simp: handler_ok_def)
  from auth_handle_incoming_answers [OF a(3), of f] obtain reply closing a' where
    step: "auth_handle_incoming X f a = (Ok (reply, closing), a')" by (metis surj_pair)
  note session = auth_session.frame [OF a(3) step]
  note closing = auth_session_closing [OF a(3,4) step]
  show ?thesis
  proof (cases closing)
    case None
    with closing obtain user where user: "auth_outcome X nonce (gs @ [f]) = Some user" by auto
    with auth_session_state [OF session] have "ah_user a' = Some user" by simp
    with assms(2,3) a(1,2) step None auth_outcome_proven [OF user] show ?thesis
      by (auto simp: protocol_auth_def get_user_def handler_ok_def)
  next
    case (Some e)
    with closing have "auth_outcome X nonce (gs @ [f]) = None" by simp
    with assms(2,3) a(1,2) step Some session show ?thesis
      by (auto simp: protocol_auth_def handler_ok_def)
  qed
qed

lemma proven_snoc: "proven X nonce fs user \<Longrightarrow> proven X nonce (fs @ [f]) user"
  by (auto simp: proven_def)

lemma handler_ok_snoc_broker:
  "handler_ok X nonce fs h \<Longrightarrow> ph_protocol h = Broker \<Longrightarrow> handler_ok X nonce (fs @ [f]) h"
  by (auto simp: handler_ok_def intro: proven_snoc)

lemma connection_receive_ok:
  assumes ok: "connection_ok X ms c" and running: "con_running c"
    and step: "connection_receive X E clock random sends m (c, s) = (Ok (), (c', s'))"
  shows "connection_ok X (ms @ [m]) c'"
proof (cases m)
  case (WsBinary f)
  show ?thesis
  proof (cases "con_running c'")
    case True
    from ok running obtain nonce where
      h: "handler_ok X nonce (frames_of ms) (con_handler c)"
        "ph_protocol (con_handler c) \<noteq> Start \<longrightarrow> con_sent c \<noteq> []
          \<and> hd (con_sent c) = ser_server_hello X (ServerHello.V0 \<lparr>sh_nonce = bytes_of nonce\<rparr>)"
        "ph_protocol (con_handler c) = Start \<longrightarrow> con_async c = [] \<and> con_sent c = []" by (auto simp: connection_ok_def)
    from step running True WsBinary obtain r future h' where
      call: "protocol_handle_incoming X E clock random f (con_handler c, s) = (Ok (r, future), (h', s'))"
      and c': "con_handler c' = h'" "con_sent c' = con_sent c @ [r]" "future = None \<or> snd (the future) \<le> 0"
        "con_async c' = con_async c @ (case future of None \<Rightarrow> [] | Some (frames, e) \<Rightarrow> frames)"
      by (auto simp: connection_receive_def Let_def split: prod.splits result.splits option.splits if_splits)
    show ?thesis
    proof (cases "ph_protocol (con_handler c)")
      case Start
      then have "protocol_start X random f (con_handler c) = (Ok (r, future), h')"
        using call by (auto simp: protocol_handle_incoming_def Let_def split: prod.splits)
      from protocol_start_ok [OF h(1) Start this] h(3) Start c' WsBinary show ?thesis
        by (auto simp: connection_ok_def)
    next
      case Auth
      then have "protocol_auth X f (con_handler c) = (Ok (r, future), h')"
        using call by (auto simp: protocol_handle_incoming_def Let_def split: prod.splits)
      from protocol_auth_ok [OF h(1) Auth this] h(2) Auth c' WsBinary show ?thesis
        by (auto simp: connection_ok_def hd_append)
    next
      case Broker
      then have "h' = con_handler c"
        using call by (auto simp: protocol_handle_incoming_def Let_def split: prod.splits)
      with handler_ok_snoc_broker [OF h(1) Broker] h(2) Broker c' WsBinary show ?thesis
        by (auto simp: connection_ok_def hd_append)
    qed (use call in \<open>simp_all add: protocol_handle_incoming_def\<close>)
  qed (simp add: connection_ok_def)
qed (use ok running step in \<open>auto simp: connection_ok_def connection_receive_def\<close>)

lemma connection_run_ok:
  assumes "connection_run X E ms c s"
  shows "connection_ok X ms c"
  using assms
proof induction
  case (start s)
  then show ?case by (simp add: connection_ok_def connection_new_def protocol_handler_def handler_ok_def)
next
  case (receive ms c s sends clock random m c' s')
  then show ?case by (intro connection_receive_ok)
next
  case (forward ms c s sends)
  then show ?case by (auto simp: connection_ok_def connection_forward_def hd_append split: list.splits if_splits)
next
  case (close ms c s)
  then show ?case by (auto simp: connection_ok_def connection_close_def)
qed

lemma receive_acts_for_user:
  assumes "connection_run X E ms c s" "con_running c"
    "connection_receive X E clock random sends (WsBinary frame) (c, s) = (r, (c', s'))" "s' \<noteq> s"
  shows "\<exists>nonce user msg. con_sent c \<noteq> [] \<and> hd (con_sent c) = ser_server_hello X (ServerHello.V0 \<lparr>sh_nonce = bytes_of nonce\<rparr>)
    \<and> proven X nonce (frames_of ms) user \<and> de_broker_message X frame = Some msg
    \<and> s' = snd (broker_handle_incoming X E clock random user msg s
        :: (BrokerMessage \<times> BrokerMessage list option, ProtocolError, ('b, 'd) BrokerServer) op)"
proof -
  from connection_run_ok [OF assms(1)] assms(2) obtain nonce where
    h: "handler_ok X nonce (frames_of ms) (con_handler c)"
      "ph_protocol (con_handler c) \<noteq> Start \<longrightarrow> con_sent c \<noteq> [] \<and> hd (con_sent c) = ser_server_hello X (ServerHello.V0 \<lparr>sh_nonce = bytes_of nonce\<rparr>)"
    by (auto simp: connection_ok_def)
  from assms(3) have "s' = snd (snd (protocol_handle_incoming X E clock random frame (con_handler c, s)))"
    using assms(2) by (auto simp: connection_receive_def Let_def split: prod.splits result.splits option.splits if_splits)
  with assms(4) have broker: "ph_protocol (con_handler c) = Broker"
    "s' = snd (protocol_broker X E clock random frame (con_handler c) s)"
    by (auto simp: protocol_handle_incoming_def Let_def split: ProtocolType.splits prod.splits)
  from h broker(1) obtain f0 fs user where user: "frames_of ms = f0 # fs" "ph_broker_protocol (con_handler c) = Some user"
      "proven X nonce fs user" by (auto simp: handler_ok_def)
  from broker(2) assms(4) obtain msg where msg: "de_broker_message X frame = Some msg"
    by (auto simp: protocol_broker_def split: option.splits)
  obtain r2 s2 where "(broker_handle_incoming X E clock random user msg s
        :: (BrokerMessage \<times> BrokerMessage list option, ProtocolError, ('b, 'd) BrokerServer) op) = (r2, s2)"
    by (rule prod.exhaust)
  with broker(2) user(2) msg have "s' = s2" by (cases r2) (auto simp: protocol_broker_def)
  with \<open>_ = (r2, s2)\<close> h(2) broker(1) user msg show ?thesis
    by (intro exI [of _ nonce] exI [of _ user] exI [of _ msg]) (auto simp: proven_def)
qed

section \<open>The types of the replies\<close>

text \<open>
  A response to a message: with its identifier; to an overlay message an overlay response of the same overlay, to any other
  message a plain response.
\<close>

fun responds :: "BrokerMessage \<Rightarrow> BrokerMessage \<Rightarrow> bool" where
  "responds (BrokerMessage.V0 q) (BrokerMessage.V0 r) \<longleftrightarrow>
     broker_message_id (BrokerMessage.V0 r) = (broker_message_id (BrokerMessage.V0 q) :: (u64, unit) result)
     \<and> (case bm_content r of
          BrokerMessageContentV0.BrokerRequest _ \<Rightarrow> False
        | BrokerMessageContentV0.BrokerResponse _ \<Rightarrow> is_overlay (BrokerMessage.V0 q) = (Ok False :: (bool, unit) result)
        | BrokerMessageContentV0.BrokerOverlayMessage a \<Rightarrow> broker_overlay_message_is_response a
            \<and> (\<exists>b. bm_content q = BrokerMessageContentV0.BrokerOverlayMessage b
                 \<and> broker_overlay_message_overlay_id a = broker_overlay_message_overlay_id b))"
| "responds _ _ \<longleftrightarrow> False"

text \<open>A request that is answered with a stream of blocks.\<close>

definition asks_stream :: "BrokerOverlayRequestContentV0 \<Rightarrow> bool" where
  "asks_stream req \<longleftrightarrow> (case req of BrokerOverlayRequestContentV0.BlockGet _ \<Rightarrow> True
     | BrokerOverlayRequestContentV0.BranchSyncReq _ \<Rightarrow> True | _ \<Rightarrow> False)"

fun all_replies :: "BrokerMessage \<times> BrokerMessage list option \<Rightarrow> BrokerMessage list" where
  "all_replies (reply, future) = reply # (case future of None \<Rightarrow> [] | Some ms \<Rightarrow> ms)"

lemma answer_Ok:
  "answer p f = (Ok y, s') \<longleftrightarrow> (\<exists>x s. p = (Ok x, s) \<and> f (Inr x) s = (Ok y, s')) \<or> (\<exists>e s. p = (Err e, s) \<and> f (Inl e) s = (Ok y, s'))"
  by (cases p; cases "fst p") auto

lemma stream_replies_of:
  "m \<in> set (all_replies (send_block_stream_response_to_client res i ov p)) \<Longrightarrow>
    \<exists>r. m = prepare_reply_broker_overlay_message_stream r i ov p"
  by (auto simp: send_block_stream_response_to_client_def Let_def split: sum.splits list.splits)

lemma overlay_replies:
  assumes "handle_overlay_request X E clock random user i ov req s = (Ok out, s')"
  shows "(\<forall>m \<in> set (all_replies out). \<exists>res content p. m = BrokerMessage.V0 \<lparr>bm_content = BrokerMessageContentV0.BrokerOverlayMessage
      (BrokerOverlayMessage.V0 \<lparr>bom_overlay = ov, bom_content = BrokerOverlayMessageContentV0.BrokerOverlayResponse
         (BrokerOverlayResponse.V0 \<lparr>bors_id = i, bors_result = res, bors_content = content\<rparr>)\<rparr>), bm_padding = p\<rparr>)
    \<and> (snd out \<noteq> None \<longrightarrow> asks_stream req)"
proof (cases "asks_stream req")
  case True
  with assms obtain res where "out = send_block_stream_response_to_client res i ov padding_size"
    by (cases req) (auto simp: handle_overlay_request_def asks_stream_def answer_Ok)
  with True stream_replies_of show ?thesis
    by (fastforce simp: prepare_reply_broker_overlay_message_stream_def)
next
  case False
  with assms obtain res where "out = (prepare_reply_broker_overlay_message res i ov None padding_size, None)"
    by (cases req) (auto simp: handle_overlay_request_def asks_stream_def answer_Ok)
  then show ?thesis by (simp add: prepare_reply_broker_overlay_message_def)
qed

definition request_for :: "u64 \<Rightarrow> OverlayId \<Rightarrow> BrokerOverlayRequestContentV0 \<Rightarrow> bytes \<Rightarrow> BrokerMessage" where
  "request_for i ov req p = BrokerMessage.V0 \<lparr>bm_content = BrokerMessageContentV0.BrokerOverlayMessage
     (BrokerOverlayMessage.V0 \<lparr>bom_overlay = ov, bom_content = BrokerOverlayMessageContentV0.BrokerOverlayRequest
        (BrokerOverlayRequest.V0 \<lparr>borq_id = i, borq_content = req\<rparr>)\<rparr>), bm_padding = p\<rparr>"

section \<open>Properties\<close>

text \<open>
  C10. Authentication: in a session of any frames, the handler has a user exactly when the first frame that is
  a \<^verbatim>\<open>ClientAuth\<close> carries this session's nonce and is signed by the user it names, and then that is the user;
  that frame alone is answered without an error code, every other frame with one, and no frame is left
  without an answer.
\<close>

theorem auth_session_outcome:
  assumes "auth_session X random frames replies h"
  shows "get_user h = auth_outcome X random frames \<and> length replies = length frames
    \<and> length (filter (\<lambda>r. snd r = None) replies) = (if get_user h = None then 0 else 1)
    \<and> (\<exists>r h'. auth_handle_incoming X f h = (Ok r, h'))"
  using auth_session_state [OF assms] auth_handle_incoming_answers [OF assms, of f] by (auto simp: get_user_def)

text \<open>
  Only proven users act: if receiving a message on a connection changes the server, then the first frame
  the server sent on this connection is a nonce, some frame received on it is a \<^verbatim>\<open>ClientAuth\<close> with that nonce
  signed by a user, the message is a broker message, and the change is what the broker protocol does for
  that user. It holds whatever other connections do to the server in between.
\<close>

theorem only_proven_users_act:
  assumes "connection_run X E ms c s" "con_running c"
    "connection_receive X E clock random sends (WsBinary frame) (c, s) = (r, (c', s'))" "s' \<noteq> s"
  shows "\<exists>nonce user msg. hd (con_sent c) = ser_server_hello X (ServerHello.V0 \<lparr>sh_nonce = bytes_of nonce\<rparr>)
    \<and> proven X nonce (frames_of ms) user \<and> de_broker_message X frame = Some msg
    \<and> s' = snd (broker_handle_incoming X E clock random user msg s
        :: (BrokerMessage \<times> BrokerMessage list option, ProtocolError, ('b, 'd) BrokerServer) op)"
  using receive_acts_for_user [OF assms] by blast

lemma prepare_stream_reads:
  "option_block_of_message (prepare_reply_broker_overlay_message_stream res i ov p) = (case res of
     Inr b \<Rightarrow> Ok (Some b) | Inl e \<Rightarrow> if is_stream e then Ok None else Err e)"
  "broker_message_id (prepare_reply_broker_overlay_message_stream res i ov p) = Ok i"
  by (auto simp: prepare_reply_broker_overlay_message_stream_def option_block_of_message_def stream_result_def
      is_stream_def split: sum.split simp del: error_code.simps)

text \<open>
  A stream of blocks is read as it was sent: of the messages that answer a request for blocks, all with the
  request's identifier, the client reads each block in order and then the end of the stream; if the request
  failed it reads the error.
\<close>

theorem block_stream_reads_back:
  "let (reply, future) = send_block_stream_response_to_client res i ov p;
       msgs = reply # (case future of None \<Rightarrow> [] | Some ms \<Rightarrow> ms)
   in map option_block_of_message msgs = (case res of
        Inr blocks \<Rightarrow> map (\<lambda>b. Ok (Some b)) blocks @ [Ok None]
      | Inl e \<Rightarrow> [if is_stream e then Ok None else Err e])
    \<and> map broker_message_id msgs = replicate (length msgs) (Ok i :: (u64, 'e) result)"
proof (cases res)
  case (Inr blocks)
  then show ?thesis
    by (cases blocks) (simp_all add: send_block_stream_response_to_client_def prepare_stream_reads Let_def is_stream_def
        map_replicate_const comp_def replicate_app_Cons_same)
qed (simp add: send_block_stream_response_to_client_def prepare_stream_reads Let_def)

text \<open>
  C11. Replies are typed by what they answer: whatever message of a user the broker protocol answers, the reply and every message that
  follows it is a response with the identifier of the message, of the same overlay if that is an overlay message, and
  only a request for blocks or for a branch is followed by further messages.
\<close>

theorem replies_well_typed:
  fixes s :: "('b, 'd) BrokerServer"
  assumes "broker_handle_incoming X E clock random user msg s
    = (Ok out :: (BrokerMessage \<times> BrokerMessage list option, ProtocolError) result, s')"
  shows "(\<forall>m \<in> set (all_replies out). responds msg m)
    \<and> (snd out \<noteq> None \<longrightarrow> (\<exists>i ov req p. msg = request_for i ov req p \<and> asks_stream req))"
proof (cases msg)
  case (V0 q)
  show ?thesis
  proof (cases "bm_content q")
    case (BrokerOverlayMessage o')
    obtain ov content where o': "o' = BrokerOverlayMessage.V0 \<lparr>bom_overlay = ov, bom_content = content\<rparr>"
      by (cases o') (metis BrokerOverlayMessageV0.cases)
    show ?thesis
    proof (cases content)
      case (BrokerOverlayRequest req)
      with assms V0 BrokerOverlayMessage o' have
        "handle_overlay_request X E clock random user (broker_overlay_request_id req) ov (broker_overlay_request_content_v0 req) s
          = (Ok out :: (BrokerMessage \<times> BrokerMessage list option, ProtocolError) result, s')"
        by (simp add: broker_handle_incoming_def)
      note replies = overlay_replies [OF this]
      have "responds msg m" if "m \<in> set (all_replies out)" for m
        using bspec [OF conjunct1 [OF replies] that] V0 BrokerOverlayMessage o' BrokerOverlayRequest by auto
      moreover have "msg = request_for (broker_overlay_request_id req) ov (broker_overlay_request_content_v0 req) (bm_padding q)"
        using V0 BrokerOverlayMessage o' BrokerOverlayRequest by (cases q; cases req) (auto simp: request_for_def)
      ultimately show ?thesis using conjunct2 [OF replies] by blast
    qed (use assms V0 BrokerOverlayMessage o' in \<open>auto simp: broker_handle_incoming_def prepare_reply_broker_overlay_message_def\<close>)
  qed (use assms V0 in \<open>auto simp: broker_handle_incoming_def answer_Ok prepare_reply_broker_message_def\<close>)
qed (use assms in \<open>simp add: broker_handle_incoming_def\<close>)

end
