(* ===== verification/Lofire_Server_View.thy ===== *)
theory Lofire_Server_View
  imports Lofire_Session
begin

text \<open>
  The contract of the server's property store: a view of the users, peers, overlays, store keys and
  mode that it holds, and what adding a user and joining an overlay do to it.
\<close>

section \<open>The view\<close>

record ServerView =
  sw_users :: accounts
  sw_peers :: peers
  sw_overlays :: "OverlayId \<rightharpoonup> SymKey \<times> PubKey option"
  sw_overlay_peers :: "OverlayId \<Rightarrow> PeerId set"
  sw_keys :: "RepoStoreId \<rightharpoonup> SymKey"
  sw_mode :: "ConfigMode option"

abbreviation key_prop :: "'x net_externs_scheme \<Rightarrow> RepoStoreId \<Rightarrow> bytes" where
  "key_prop X i \<equiv> compute_property REPO_STORE_PREFIX (ser_repo_store_id X i) (Some REPO_STORE_KEY)"

abbreviation mode_prop :: "'x net_externs_scheme \<Rightarrow> bytes" where
  "mode_prop X \<equiv> compute_property CONFIG_PREFIX (ser_config_key X CONFIG_KEY) (Some CONFIG_MODE)"

definition overlay_rel ::
  "'x net_externs_scheme \<Rightarrow> (bytes \<Rightarrow> bytes set) \<Rightarrow> (OverlayId \<rightharpoonup> SymKey \<times> PubKey option) \<Rightarrow> (OverlayId \<Rightarrow> PeerId set) \<Rightarrow> bool" where
  "overlay_rel X v t ps \<longleftrightarrow> (\<forall>i.
     v (overlay_prop X i OVERLAY_SECRET) = (case t i of None \<Rightarrow> {} | Some (k, r) \<Rightarrow> {ser_symkey X k})
   \<and> v (overlay_prop X i OVERLAY_REPO) = (case t i of None \<Rightarrow> {} | Some (k, r) \<Rightarrow> ser_pubkey X ` set_option r)
   \<and> (t i = None \<longrightarrow> v (overlay_prop X i OVERLAY_META) = {})
   \<and> v (overlay_prop X i OVERLAY_PEER) = ser_pubkey X ` ps i)"

definition key_rel :: "'x net_externs_scheme \<Rightarrow> (bytes \<Rightarrow> bytes set) \<Rightarrow> (RepoStoreId \<rightharpoonup> SymKey) \<Rightarrow> bool" where
  "key_rel X v t \<longleftrightarrow> (\<forall>i. v (key_prop X i) = ser_symkey X ` set_option (t i))"

definition mode_rel :: "'x net_externs_scheme \<Rightarrow> (bytes \<Rightarrow> bytes set) \<Rightarrow> ConfigMode option \<Rightarrow> bool" where
  "mode_rel X v m \<longleftrightarrow> v (mode_prop X) = ser_config_mode X ` set_option m"

definition server_rel :: "'x net_externs_scheme \<Rightarrow> (bytes \<Rightarrow> bytes set) \<Rightarrow> ServerView \<Rightarrow> bool" where
  "server_rel X v W \<longleftrightarrow> account_rel X v (sw_users W) \<and> peer_rel X v (sw_peers W)
     \<and> overlay_rel X v (sw_overlays W) (sw_overlay_peers W) \<and> key_rel X v (sw_keys W) \<and> mode_rel X v (sw_mode W)"

text \<open>Writes under one prefix do not change what is stored under the others.\<close>

definition same_outside :: "u8 \<Rightarrow> (bytes \<Rightarrow> bytes set) \<Rightarrow> (bytes \<Rightarrow> bytes set) \<Rightarrow> bool" where
  "same_outside p v v' \<longleftrightarrow> (\<forall>q k x. q \<noteq> p \<longrightarrow> v' (compute_property q k x) = v (compute_property q k x))"

lemma same_outside_refl [simp]: "same_outside p v v"
  by (simp add: same_outside_def)

lemma same_outside_upd [simp]: "same_outside p v v' \<Longrightarrow> same_outside p v (v'(compute_property p k x := A))"
  by (simp add: same_outside_def compute_property_prefix)

lemma prefixes_differ [simp]:
  "ACCOUNT_PREFIX \<noteq> PEER_PREFIX" "ACCOUNT_PREFIX \<noteq> OVERLAY_PREFIX" "ACCOUNT_PREFIX \<noteq> REPO_STORE_PREFIX"
  "PEER_PREFIX \<noteq> ACCOUNT_PREFIX" "PEER_PREFIX \<noteq> OVERLAY_PREFIX" "PEER_PREFIX \<noteq> REPO_STORE_PREFIX"
  "OVERLAY_PREFIX \<noteq> ACCOUNT_PREFIX" "OVERLAY_PREFIX \<noteq> PEER_PREFIX" "OVERLAY_PREFIX \<noteq> REPO_STORE_PREFIX"
  "CONFIG_PREFIX \<noteq> ACCOUNT_PREFIX" "CONFIG_PREFIX \<noteq> PEER_PREFIX" "CONFIG_PREFIX \<noteq> OVERLAY_PREFIX" "CONFIG_PREFIX \<noteq> REPO_STORE_PREFIX"
  "ACCOUNT_PREFIX \<noteq> CONFIG_PREFIX" "PEER_PREFIX \<noteq> CONFIG_PREFIX" "OVERLAY_PREFIX \<noteq> CONFIG_PREFIX" "REPO_STORE_PREFIX \<noteq> CONFIG_PREFIX"
  "REPO_STORE_PREFIX \<noteq> ACCOUNT_PREFIX" "REPO_STORE_PREFIX \<noteq> PEER_PREFIX" "REPO_STORE_PREFIX \<noteq> OVERLAY_PREFIX"
  by (simp_all add: account_consts peer_consts overlay_consts repo_store_consts config_consts)

lemma rel_outside:
  assumes "same_outside p v v'"
  shows "p \<noteq> ACCOUNT_PREFIX \<Longrightarrow> account_rel X v a \<Longrightarrow> account_rel X v' a"
    "p \<noteq> PEER_PREFIX \<Longrightarrow> peer_rel X v b \<Longrightarrow> peer_rel X v' b"
    "p \<noteq> OVERLAY_PREFIX \<Longrightarrow> overlay_rel X v c d \<Longrightarrow> overlay_rel X v' c d"
    "p \<noteq> REPO_STORE_PREFIX \<Longrightarrow> key_rel X v e \<Longrightarrow> key_rel X v' e"
    "p \<noteq> CONFIG_PREFIX \<Longrightarrow> mode_rel X v f \<Longrightarrow> mode_rel X v' f"
  using assms by (simp_all add: same_outside_def account_rel_def peer_rel_def overlay_rel_def key_rel_def mode_rel_def)

lemma server_relD:
  assumes "server_rel X v W"
  shows "account_rel X v (sw_users W)" "peer_rel X v (sw_peers W)"
    "overlay_rel X v (sw_overlays W) (sw_overlay_peers W)" "key_rel X v (sw_keys W)" "mode_rel X v (sw_mode W)"
  using assms by (simp_all add: server_rel_def)

lemma server_rel_update:
  assumes "server_rel X v W" "same_outside p v v'"
  shows "p = ACCOUNT_PREFIX \<Longrightarrow> account_rel X v' a \<Longrightarrow> server_rel X v' (W\<lparr>sw_users := a\<rparr>)"
    "p = PEER_PREFIX \<Longrightarrow> peer_rel X v' b \<Longrightarrow> server_rel X v' (W\<lparr>sw_peers := b\<rparr>)"
    "p = OVERLAY_PREFIX \<Longrightarrow> overlay_rel X v' c d \<Longrightarrow> server_rel X v' (W\<lparr>sw_overlays := c, sw_overlay_peers := d\<rparr>)"
    "p = REPO_STORE_PREFIX \<Longrightarrow> key_rel X v' e \<Longrightarrow> server_rel X v' (W\<lparr>sw_keys := e\<rparr>)"
    "p = CONFIG_PREFIX \<Longrightarrow> mode_rel X v' f \<Longrightarrow> server_rel X v' (W\<lparr>sw_mode := f\<rparr>)"
  using server_relD [OF assms(1)] rel_outside [OF assms(2), where X = X] by (simp_all add: server_rel_def)

lemma overlay_suffixes2 [simp]:
  "OVERLAY_PEER \<noteq> OVERLAY_SECRET" "OVERLAY_PEER \<noteq> OVERLAY_META" "OVERLAY_PEER \<noteq> OVERLAY_REPO"
  "OVERLAY_SECRET \<noteq> OVERLAY_PEER" "OVERLAY_META \<noteq> OVERLAY_PEER" "OVERLAY_REPO \<noteq> OVERLAY_PEER"
  by (simp_all add: overlay_consts)

lemma overlay_relD:
  assumes "overlay_rel X v t ps"
  shows "v (overlay_prop X i OVERLAY_SECRET) = (case t i of None \<Rightarrow> {} | Some (k, r) \<Rightarrow> {ser_symkey X k})"
    "v (overlay_prop X i OVERLAY_REPO) = (case t i of None \<Rightarrow> {} | Some (k, r) \<Rightarrow> ser_pubkey X ` set_option r)"
    "t i = None \<Longrightarrow> v (overlay_prop X i OVERLAY_META) = {}"
    "v (overlay_prop X i OVERLAY_PEER) = ser_pubkey X ` ps i"
  using assms by (simp_all add: overlay_rel_def)

lemma overlay_rel_create:
  assumes "net_codec X" "overlay_rel X v t ps"
  shows "overlay_rel X (v(overlay_prop X i OVERLAY_SECRET := {ser_symkey X secret},
      overlay_prop X i OVERLAY_REPO := ser_pubkey X ` set_option repo,
      overlay_prop X i OVERLAY_META := A)) (t(i \<mapsto> (secret, repo))) ps"
  using overlay_relD [OF assms(2)] by (simp add: overlay_rel_def digest_property_eq [OF assms(1)])

lemma overlay_rel_peer:
  assumes "net_codec X" "overlay_rel X v t ps"
  shows "overlay_rel X (v(overlay_prop X i OVERLAY_PEER := ser_pubkey X ` A)) t (ps(i := A))"
  using overlay_relD [OF assms(2)] by (simp add: overlay_rel_def digest_property_eq [OF assms(1)])

lemma key_rel_update:
  assumes "net_codec X" "key_rel X v t"
  shows "key_rel X (v(key_prop X i := {ser_symkey X k})) (t(i \<mapsto> k))"
  using assms(2) by (simp add: key_rel_def repo_store_property_eq [OF assms(1)])

section \<open>Steps on the view\<close>

context broker_store
begin

lemma create_account_view:
  assumes "net_codec X" "invar s" "server_rel X (vals s) W" "ae_admin (sw_users W i) = None"
  shows "\<exists>s'. account_create X B i admin s = (Ok \<lparr>acc_id = i\<rparr>, s') \<and> invar s'
    \<and> server_rel X (vals s') (W\<lparr>sw_users := (sw_users W)(i := (sw_users W i)\<lparr>ae_admin := Some admin\<rparr>)\<rparr>)"
proof -
  note rel = server_relD(1) [OF assms(3)]
  let ?q = "compute_property ACCOUNT_PREFIX (ser_pubkey X i) (Some ACCOUNT_ADMIN)"
  from put [OF assms(2), of ACCOUNT_PREFIX "ser_pubkey X i" "Some ACCOUNT_ADMIN" "ser_bool X admin"]
    account_relD(1) [OF rel, of i] assms(4) obtain s' where
    s': "bs_put B s ACCOUNT_PREFIX (ser_pubkey X i) (Some ACCOUNT_ADMIN) (ser_bool X admin) = (Ok (), s')" "invar s'"
      "vals s' = (vals s)(?q := ser_bool X ` set_option (Some admin))" by auto
  from account_rel_update(1) [OF assms(1) rel, of i "Some admin"] s'(3)
  have "account_rel X (vals s') ((sw_users W)(i := (sw_users W i)\<lparr>ae_admin := Some admin\<rparr>))" by simp
  from server_rel_update(1) [OF assms(3) _ refl this] s' account_exists_iff [OF assms(2) rel, of i] assms(4)
  show ?thesis by (auto simp: account_create_def)
qed

lemma add_overlay_view:
  assumes "net_codec X" "invar s" "server_rel X (vals s) W" "ae_admin (sw_users W i) \<noteq> None"
  shows "\<exists>s'. account_add_overlay X B \<lparr>acc_id = i\<rparr> ov s = (Ok (), s') \<and> invar s'
    \<and> server_rel X (vals s') (W\<lparr>sw_users := (sw_users W)(i := (sw_users W i)\<lparr>ae_overlays := insert ov (ae_overlays (sw_users W i))\<rparr>)\<rparr>)"
proof -
  note rel = server_relD(1) [OF assms(3)]
  let ?q = "compute_property ACCOUNT_PREFIX (ser_pubkey X i) (Some ACCOUNT_OVERLAY)"
  from put_add [OF assms(2) account_relD(3) [OF rel], of i ov] obtain s' where
    s': "bs_put B s ACCOUNT_PREFIX (ser_pubkey X i) (Some ACCOUNT_OVERLAY) (ser_digest X ov) = (Ok (), s')" "invar s'"
      "vals s' = (vals s)(?q := ser_digest X ` insert ov (ae_overlays (sw_users W i)))" by auto
  from account_rel_update(3) [OF assms(1) rel, of i "insert ov (ae_overlays (sw_users W i))"] s'(3)
  have "account_rel X (vals s') ((sw_users W)(i := (sw_users W i)\<lparr>ae_overlays := insert ov (ae_overlays (sw_users W i))\<rparr>))" by simp
  from server_rel_update(1) [OF assms(3) _ refl this] s' account_exists_iff [OF assms(2) rel, of i] assms(4)
  show ?thesis by (auto simp: account_add_overlay_def)
qed

lemma update_peer_frame:
  assumes "net_codec X" "invar s" "peer_rel X (vals s) t" "peer_update_or_create X B a s = (r, s')"
  shows "same_outside PEER_PREFIX (vals s) (vals s')"
proof (cases "t (peer_advert_peer a)")
  case None
  let ?p = "peer_advert_peer a" and ?v = "ser_u32 X (peer_advert_version a)"
  from put [OF assms(2), of PEER_PREFIX "ser_pubkey X ?p" "Some PEER_VERSION" ?v] obtain s1 where
    s1: "bs_put B s PEER_PREFIX (ser_pubkey X ?p) (Some PEER_VERSION) ?v = (Ok (), s1)" "invar s1"
      "same_outside PEER_PREFIX (vals s) (vals s1)" by auto
  from put [OF s1(2), of PEER_PREFIX "ser_pubkey X ?p" "Some PEER_ADVERT" "ser_peer_advert X a"] s1(3) obtain s2 where
    "bs_put B s1 PEER_PREFIX (ser_pubkey X ?p) (Some PEER_ADVERT) (ser_peer_advert X a) = (Ok (), s2)"
      "same_outside PEER_PREFIX (vals s) (vals s2)" by auto
  with s1(1) assms(4) peer_reads(1,3) [OF assms(1-3) None] show ?thesis
    by (simp add: peer_update_or_create_def peer_create_def Let_def)
next
  case (Some nb)
  then obtain n b where nb: "t (peer_advert_peer a) = Some (n, b)" by (cases nb) simp
  from peer_relD(2) [OF assms(3) nb] replace [OF assms(2), of PEER_PREFIX "ser_pubkey X (peer_advert_peer a)" "Some PEER_ADVERT" "ser_peer_advert X a"]
  obtain s1 where "bs_replace B s PEER_PREFIX (ser_pubkey X (peer_advert_peer a)) (Some PEER_ADVERT) (ser_peer_advert X a) = (Ok (), s1)"
    "same_outside PEER_PREFIX (vals s) (vals s1)" by auto
  with assms(4) peer_reads(2) [OF assms(1-3) nb] show ?thesis
    by (auto simp: peer_update_or_create_def peer_update_advert_def split: if_splits)
qed

lemma add_peer_view:
  assumes "net_codec X" "invar s" "server_rel X (vals s) W" "sw_overlays W ov \<noteq> None"
  shows "\<exists>s'. overlay_add_peer X B \<lparr>ovl_id = ov\<rparr> p s = (Ok (), s') \<and> invar s'
    \<and> server_rel X (vals s') (W\<lparr>sw_overlay_peers := (sw_overlay_peers W)(ov := insert p (sw_overlay_peers W ov))\<rparr>)"
proof -
  note rel = server_relD(3) [OF assms(3)]
  from put_add [OF assms(2) overlay_relD(4) [OF rel], of ov p] obtain s' where
    s': "bs_put B s OVERLAY_PREFIX (ser_digest X ov) (Some OVERLAY_PEER) (ser_pubkey X p) = (Ok (), s')" "invar s'"
      "vals s' = (vals s)(overlay_prop X ov OVERLAY_PEER := ser_pubkey X ` insert p (sw_overlay_peers W ov))" by auto
  from overlay_rel_peer [OF assms(1) rel, of ov "insert p (sw_overlay_peers W ov)"] s'(3)
  have "overlay_rel X (vals s') (sw_overlays W) ((sw_overlay_peers W)(ov := insert p (sw_overlay_peers W ov)))" by simp
  from server_rel_update(3) [OF assms(3) _ refl this] s' have
    "server_rel X (vals s') (W\<lparr>sw_overlay_peers := (sw_overlay_peers W)(ov := insert p (sw_overlay_peers W ov))\<rparr>)" by simp
  moreover have "overlay_exists X B \<lparr>ovl_id = ov\<rparr> s"
    using overlay_exists_iff [OF assms(2), of X ov] overlay_relD(1) [OF rel, of ov] assms(4) by auto
  ultimately show ?thesis using s'(1,2) by (simp add: overlay_add_peer_def)
qed

lemma create_overlay_view:
  assumes "net_codec X" "invar s" "server_rel X (vals s) W" "sw_overlays W ov = None"
    "now_timestamp clock = (Ok t :: (Timestamp, StorageError) result)"
  shows "\<exists>s'. overlay_create X B clock ov secret repo s = (Ok \<lparr>ovl_id = ov\<rparr>, s') \<and> invar s'
    \<and> server_rel X (vals s') (W\<lparr>sw_overlays := (sw_overlays W)(ov \<mapsto> (secret, repo))\<rparr>)"
proof -
  note rel = server_relD(3) [OF assms(3)]
  have "vals s (overlay_prop X ov OVERLAY_SECRET) = {}" "vals s (overlay_prop X ov OVERLAY_REPO) = {}"
    "vals s (overlay_prop X ov OVERLAY_META) = {}" using overlay_relD [OF rel, of ov] assms(4) by auto
  from overlay_create_vals [OF assms(1,2) this assms(5), of secret repo] obtain s' where
    s': "overlay_create X B clock ov secret repo s = (Ok \<lparr>ovl_id = ov\<rparr>, s')" "invar s'"
      "vals s' = (vals s)(overlay_prop X ov OVERLAY_SECRET := {ser_symkey X secret},
        overlay_prop X ov OVERLAY_REPO := ser_pubkey X ` set_option repo,
        overlay_prop X ov OVERLAY_META := {ser_overlay_meta X \<lparr>ovm_users = 1, ovm_last_used = t\<rparr>})" by blast
  from overlay_rel_create [OF assms(1) rel] s'(3)
  have "overlay_rel X (vals s') ((sw_overlays W)(ov \<mapsto> (secret, repo))) (sw_overlay_peers W)" by simp
  from server_rel_update(3) [OF assms(3) _ refl this] s' show ?thesis by simp
qed

lemma create_key_view:
  assumes "net_codec X" "invar s" "server_rel X (vals s) W"
  shows "sw_keys W sid \<noteq> None \<Longrightarrow> repo_store_info_create X B sid key s = (Err BackendError, s)"
    and "sw_keys W sid = None \<Longrightarrow> \<exists>s'. repo_store_info_create X B sid key s = (Ok \<lparr>rsi_id = sid\<rparr>, s') \<and> invar s'
      \<and> server_rel X (vals s') (W\<lparr>sw_keys := (sw_keys W)(sid \<mapsto> key)\<rparr>)"
proof -
  have keys: "vals s (key_prop X sid) = ser_symkey X ` set_option (sw_keys W sid)"
    using server_relD(4) [OF assms(3)] by (simp add: key_rel_def)
  then have ex: "repo_store_info_exists X B \<lparr>rsi_id = sid\<rparr> s \<longleftrightarrow> sw_keys W sid \<noteq> None"
    by (simp add: repo_store_info_exists_def get_ok_iff [OF assms(2)])
  then show "sw_keys W sid \<noteq> None \<Longrightarrow> repo_store_info_create X B sid key s = (Err BackendError, s)"
    by (simp add: repo_store_info_create_def)
  assume none: "sw_keys W sid = None"
  from put [OF assms(2), of REPO_STORE_PREFIX "ser_repo_store_id X sid" "Some REPO_STORE_KEY" "ser_symkey X key"] keys none obtain s' where
    s': "bs_put B s REPO_STORE_PREFIX (ser_repo_store_id X sid) (Some REPO_STORE_KEY) (ser_symkey X key) = (Ok (), s')"
      "invar s'" "vals s' = (vals s)(key_prop X sid := {ser_symkey X key})" by auto
  from key_rel_update [OF assms(1) server_relD(4) [OF assms(3)], of sid key] s'(3)
  have "key_rel X (vals s') ((sw_keys W)(sid \<mapsto> key))" by simp
  from server_rel_update(4) [OF assms(3) _ refl this] s' ex none
  show "\<exists>s'. repo_store_info_create X B sid key s = (Ok \<lparr>rsi_id = sid\<rparr>, s') \<and> invar s'
      \<and> server_rel X (vals s') (W\<lparr>sw_keys := (sw_keys W)(sid \<mapsto> key)\<rparr>)" by (auto simp: repo_store_info_create_def)
qed

text \<open>What is read.\<close>

lemma server_reads:
  assumes "net_codec X" "invar s" "server_rel X (vals s) W"
  shows "account_open X B i s = (if ae_admin (sw_users W i) = None then Err StorageError.NotFound else Ok \<lparr>acc_id = i\<rparr>)"
    "overlay_open X B ov s = (if sw_overlays W ov = None then Err StorageError.NotFound else Ok \<lparr>ovl_id = ov\<rparr>)"
    "sw_overlays W ov = Some (k, r) \<Longrightarrow> overlay_repo X B \<lparr>ovl_id = ov\<rparr> s = ok_or StorageError.NotFound r"
    "repo_store_info_open X B sid s = (if sw_keys W sid = None then Err StorageError.NotFound else Ok \<lparr>rsi_id = sid\<rparr>)"
    "sw_keys W sid = Some key \<Longrightarrow> repo_store_info_key X B \<lparr>rsi_id = sid\<rparr> s = Ok key"
proof -
  note rel = server_relD [OF assms(3)]
  note ov = overlay_relD [OF rel(3), of ov] and reads = overlay_reads [OF assms(1,2), of ov]
  show "account_open X B i s = (if ae_admin (sw_users W i) = None then Err StorageError.NotFound else Ok \<lparr>acc_id = i\<rparr>)"
    using account_exists_iff [OF assms(2) rel(1), of i] by (simp add: account_open_def)
  show "overlay_open X B ov s = (if sw_overlays W ov = None then Err StorageError.NotFound else Ok \<lparr>ovl_id = ov\<rparr>)"
    using ov(1) reads(5,6) by (auto split: option.splits)
  show "overlay_repo X B \<lparr>ovl_id = ov\<rparr> s = ok_or StorageError.NotFound r" if "sw_overlays W ov = Some (k, r)"
    using ov(2) reads(2,3) that by (cases r) auto
  have keys: "vals s (key_prop X sid) = ser_symkey X ` set_option (sw_keys W sid)" using rel(4) by (simp add: key_rel_def)
  then show "repo_store_info_open X B sid s = (if sw_keys W sid = None then Err StorageError.NotFound else Ok \<lparr>rsi_id = sid\<rparr>)"
    by (simp add: repo_store_info_open_def repo_store_info_exists_def get_ok_iff [OF assms(2)])
  show "repo_store_info_key X B \<lparr>rsi_id = sid\<rparr> s = Ok key" if "sw_keys W sid = Some key"
    using get_single [OF assms(2)] keys that by (simp add: repo_store_info_key_def net_codecD [OF assms(1)])
qed

end

end
