(* ===== verification/Lofire_Join.thy ===== *)
theory Lofire_Join
  imports Lofire_Server_View
begin

text \<open>
  Adding users and joining overlays on the view: the specification of \<^verbatim>\<open>add_user\<close> and \<^verbatim>\<open>join_overlay\<close>, errors
  included, and the proof that the server follows it.
\<close>

section \<open>The specification\<close>

definition add_user_spec ::
  "'x server_externs_scheme \<Rightarrow> PubKey \<Rightarrow> PubKey \<Rightarrow> Sig \<Rightarrow> ServerView \<Rightarrow> (unit, ProtocolError, ServerView) op" where
  "add_user_spec X admin_user user_id sig W =
     (if verify X (ser_add_user_content X \<lparr>auc_user = user_id\<rparr>) sig admin_user \<noteq> Ok () then (Err InvalidSignature, W)
      else if ae_admin (sw_users W user_id) \<noteq> None then (Err UserAlreadyExists, W)
      else (Ok (), W\<lparr>sw_users := (sw_users W)(user_id := (sw_users W user_id)\<lparr>ae_admin := Some False\<rparr>)\<rparr>))"

text \<open>The overlay is created before the key of its store, and stays when the key exists already.\<close>

definition create_overlay_spec ::
  "ConfigMode \<Rightarrow> bytes32 \<Rightarrow> OverlayId \<Rightarrow> PubKey option \<Rightarrow> SymKey \<Rightarrow> ServerView \<Rightarrow> (unit, ProtocolError, ServerView) op" where
  "create_overlay_spec mode random ov repo secret W =
     (if mode = Local \<and> repo = None then (Err RepoIdRequired, W)
      else let W = W\<lparr>sw_overlays := (sw_overlays W)(ov \<mapsto> (secret, if mode = Local then repo else None))\<rparr>;
               sid = (if mode = Core then RepoStoreId.Overlay ov else Repo (the repo)) in
        if sw_keys W sid \<noteq> None then (Err StoreError, W)
        else (Ok (), W\<lparr>sw_keys := (sw_keys W)(sid \<mapsto> ChaCha20Key random)\<rparr>))"

definition add_peers_spec :: "OverlayId \<Rightarrow> PeerAdvert list \<Rightarrow> ServerView \<Rightarrow> ServerView" where
  "add_peers_spec ov adverts W = W\<lparr>sw_peers := fold peer_step adverts (sw_peers W),
     sw_overlay_peers := (sw_overlay_peers W)(ov := peer_advert_peer ` set adverts \<union> sw_overlay_peers W ov)\<rparr>"

definition join_spec ::
  "ConfigMode \<Rightarrow> bytes32 \<Rightarrow> PubKey \<Rightarrow> OverlayId \<Rightarrow> PubKey option \<Rightarrow> SymKey \<Rightarrow> PeerAdvert list
   \<Rightarrow> ServerView \<Rightarrow> (unit, ProtocolError, ServerView) op" where
  "join_spec mode random user ov repo secret adverts W =
     op_then (if sw_overlays W ov = None then create_overlay_spec mode random ov repo secret W else (Ok (), W)) (\<lambda>_ W.
       let W = add_peers_spec ov adverts W; a = sw_users W user in
       if ae_admin a = None then (Err ProtocolError.NotFound, W)
       else (Ok (), W\<lparr>sw_users := (sw_users W)(user := a\<lparr>ae_overlays := insert ov (ae_overlays a)\<rparr>)\<rparr>))"

section \<open>The server follows it\<close>

text \<open>A server whose property store holds a view.\<close>

definition holds_view ::
  "'x net_externs_scheme \<Rightarrow> ('b \<Rightarrow> bool) \<Rightarrow> ('b \<Rightarrow> bytes \<Rightarrow> bytes set) \<Rightarrow> ('b, 'd) BrokerServer \<Rightarrow> ServerView \<Rightarrow> bool" where
  "holds_view X invar vals s W \<longleftrightarrow> invar (srv_store s) \<and> server_rel X (vals (srv_store s)) W"

lemma holds_viewD: "holds_view X invar vals s W \<Longrightarrow> invar (srv_store s)" "holds_view X invar vals s W \<Longrightarrow> server_rel X (vals (srv_store s)) W"
  by (simp_all add: holds_view_def)

lemma do_store_eq: "g (srv_store s) = (r, st) \<Longrightarrow> do_store g s = (map_err from_storage_error r, s\<lparr>srv_store := st\<rparr>)"
  by (simp add: do_store_def)

context broker_store
begin

lemma add_user_follows:
  assumes "net_codec X" "be_store E = B" "holds_view X invar vals s W"
  shows "\<exists>st. add_user X E admin_user user_id sig s = (fst (add_user_spec X admin_user user_id sig W), s\<lparr>srv_store := st\<rparr>)
    \<and> holds_view X invar vals (s\<lparr>srv_store := st\<rparr>) (snd (add_user_spec X admin_user user_id sig W))"
proof (cases "verify X (ser_add_user_content X \<lparr>auc_user = user_id\<rparr>) sig admin_user = Ok ()")
  case False
  with verify_cases [of X "ser_add_user_content X \<lparr>auc_user = user_id\<rparr>" sig admin_user] assms(3)
  show ?thesis by (intro exI [of _ "srv_store s"]) (auto simp: add_user_def add_user_spec_def)
next
  case True
  note view = holds_viewD [OF assms(3)]
  note opened = server_reads(1) [OF assms(1) view, of user_id]
  show ?thesis
  proof (cases "ae_admin (sw_users W user_id) = None")
    case False
    with True opened assms show ?thesis
      by (intro exI [of _ "srv_store s"]) (simp add: add_user_def add_user_spec_def)
  next
    case new: True
    from create_account_view [OF assms(1) view new, of False] obtain st where
      "account_create X B user_id False (srv_store s) = (Ok \<lparr>acc_id = user_id\<rparr>, st)" "invar st"
      "server_rel X (vals st) (W\<lparr>sw_users := (sw_users W)(user_id := (sw_users W user_id)\<lparr>ae_admin := Some False\<rparr>)\<rparr>)" by blast
    with True new opened assms(2) show ?thesis
      by (intro exI [of _ st]) (simp add: add_user_def add_user_spec_def do_store_eq holds_view_def)
  qed
qed

lemma add_peers_follows:
  assumes "net_codec X" "be_store E = B" "holds_view X invar vals s W" "sw_overlays W ov \<noteq> None"
  shows "\<exists>st. add_peers X E \<lparr>ovl_id = ov\<rparr> adverts s = (Ok (), s\<lparr>srv_store := st\<rparr>)
    \<and> holds_view X invar vals (s\<lparr>srv_store := st\<rparr>) (add_peers_spec ov adverts W)"
  using assms(3,4)
proof (induction adverts arbitrary: s W)
  case Nil
  then show ?case by (intro exI [of _ "srv_store s"]) (simp add: add_peers_spec_def)
next
  case (Cons a adverts)
  note view = holds_viewD [OF Cons.prems(1)]
  from peer_update_or_create_follows [OF assms(1) view(1) server_relD(2) [OF view(2)], of a] obtain s1 where
    s1: "peer_update_or_create X B a (srv_store s) = (Ok \<lparr>peer_id = peer_advert_peer a\<rparr>, s1)" "invar s1"
      "peer_rel X (vals s1) (peer_step a (sw_peers W))" by blast
  let ?W1 = "W\<lparr>sw_peers := peer_step a (sw_peers W)\<rparr>"
  from server_rel_update(2) [OF view(2) update_peer_frame [OF assms(1) view(1) server_relD(2) [OF view(2)] s1(1)] refl s1(3)]
  have "server_rel X (vals s1) ?W1" .
  from add_peer_view [OF assms(1) s1(2) this, of ov "peer_advert_peer a"] Cons.prems(2) obtain s2 where
    s2: "overlay_add_peer X B \<lparr>ovl_id = ov\<rparr> (peer_advert_peer a) s1 = (Ok (), s2)" "invar s2"
      "server_rel X (vals s2) (?W1\<lparr>sw_overlay_peers := (sw_overlay_peers W)(ov := insert (peer_advert_peer a) (sw_overlay_peers W ov))\<rparr>)"
    by auto
  let ?W2 = "?W1\<lparr>sw_overlay_peers := (sw_overlay_peers W)(ov := insert (peer_advert_peer a) (sw_overlay_peers W ov))\<rparr>"
  have "holds_view X invar vals (s\<lparr>srv_store := s2\<rparr>) ?W2" using s2 by (simp add: holds_view_def)
  from Cons.IH [OF this] Cons.prems(2) obtain st where
    st: "add_peers X E \<lparr>ovl_id = ov\<rparr> adverts (s\<lparr>srv_store := s2\<rparr>) = (Ok (), s\<lparr>srv_store := st\<rparr>)"
      "holds_view X invar vals (s\<lparr>srv_store := st\<rparr>) (add_peers_spec ov adverts ?W2)" by auto
  have "add_peers_spec ov adverts ?W2 = add_peers_spec ov (a # adverts) W"
    by (simp add: add_peers_spec_def)
  with st s1(1) s2(1) assms(2) show ?case
    by (intro exI [of _ st]) (simp add: do_store_eq)
qed

lemma create_overlay_follows:
  assumes "net_codec X" "be_store E = B" "holds_view X invar vals s W" "sw_overlays W ov = None"
    "now_timestamp clock = (Ok t :: (Timestamp, StorageError) result)"
  shows "\<exists>st. create_overlay X E clock random ov repo secret s
      = (and_then (fst (create_overlay_spec (srv_mode s) random ov repo secret W)) (\<lambda>_. Ok \<lparr>ovl_id = ov\<rparr>), s\<lparr>srv_store := st\<rparr>)
    \<and> holds_view X invar vals (s\<lparr>srv_store := st\<rparr>) (snd (create_overlay_spec (srv_mode s) random ov repo secret W))"
proof (cases "srv_mode s = Local \<and> repo = None")
  case True
  with assms(3) show ?thesis
    by (intro exI [of _ "srv_store s"]) (simp add: create_overlay_def create_overlay_spec_def)
next
  case False
  note view = holds_viewD [OF assms(3)]
  let ?repo = "if srv_mode s = Local then repo else None"
  let ?sid = "if srv_mode s = Core then RepoStoreId.Overlay ov else Repo (the repo)"
  let ?W1 = "W\<lparr>sw_overlays := (sw_overlays W)(ov \<mapsto> (secret, ?repo))\<rparr>"
  from create_overlay_view [OF assms(1) view assms(4,5), of secret ?repo] obtain s1 where
    s1: "overlay_create X B clock ov secret ?repo (srv_store s) = (Ok \<lparr>ovl_id = ov\<rparr>, s1)" "invar s1"
      "server_rel X (vals s1) ?W1" by blast
  have sid: "compute_repostore_id (s\<lparr>srv_store := s1\<rparr>) ov repo = (Ok ?sid :: (RepoStoreId, ProtocolError) result)"
    using False by (cases "srv_mode s") (auto simp: compute_repostore_id_def)
  have start: "create_overlay X E clock random ov repo secret s = op_then
      (do_store (repo_store_info_create X B ?sid (ChaCha20Key random)) (s\<lparr>srv_store := s1\<rparr>)) (\<lambda>_ s. (Ok \<lparr>ovl_id = ov\<rparr>, s))"
    unfolding create_overlay_def if_not_P [OF False] using s1(1) assms(2) sid by (simp add: do_store_eq)
  show ?thesis
  proof (cases "sw_keys W ?sid = None")
    case True
    with create_key_view(2) [OF assms(1) s1(2,3), of ?sid "ChaCha20Key random"] obtain s2 where
      s2: "repo_store_info_create X B ?sid (ChaCha20Key random) s1 = (Ok \<lparr>rsi_id = ?sid\<rparr>, s2)" "invar s2"
        "server_rel X (vals s2) (?W1\<lparr>sw_keys := (sw_keys W)(?sid \<mapsto> ChaCha20Key random)\<rparr>)" by auto
    have "create_overlay X E clock random ov repo secret s = (Ok \<lparr>ovl_id = ov\<rparr>, s\<lparr>srv_store := s2\<rparr>)"
      unfolding start using s2(1) by (simp add: do_store_def)
    moreover have "create_overlay_spec (srv_mode s) random ov repo secret W
        = (Ok (), ?W1\<lparr>sw_keys := (sw_keys W)(?sid \<mapsto> ChaCha20Key random)\<rparr>)"
      using True False unfolding create_overlay_spec_def Let_def by simp
    ultimately show ?thesis using s2(2,3) by (intro exI [of _ s2]) (simp add: holds_view_def)
  next
    case key: False
    have "create_overlay X E clock random ov repo secret s = (Err StoreError, s\<lparr>srv_store := s1\<rparr>)"
      unfolding start using create_key_view(1) [OF assms(1) s1(2,3), of ?sid] key by (simp add: do_store_def)
    moreover have "create_overlay_spec (srv_mode s) random ov repo secret W = (Err StoreError, ?W1)"
      using key False unfolding create_overlay_spec_def Let_def by simp
    ultimately show ?thesis using s1(2,3) by (intro exI [of _ s1]) (simp add: holds_view_def)
  qed
qed

lemma join_overlay_follows:
  assumes "net_codec X" "be_store E = B" "holds_view X invar vals s W"
    "now_timestamp clock = (Ok t :: (Timestamp, StorageError) result)"
  shows "\<exists>st. join_overlay X E clock random user ov repo secret adverts s
      = (fst (join_spec (srv_mode s) random user ov repo secret adverts W), s\<lparr>srv_store := st\<rparr>)
    \<and> holds_view X invar vals (s\<lparr>srv_store := st\<rparr>) (snd (join_spec (srv_mode s) random user ov repo secret adverts W))"
proof -
  note view = holds_viewD [OF assms(3)]
  define p where "p = (if sw_overlays W ov = None then create_overlay_spec (srv_mode s) random ov repo secret W else (Ok (), W))"
  define q where "q = (case overlay_open X B ov (srv_store s) of
         Err e \<Rightarrow> if e = StorageError.NotFound then create_overlay X E clock random ov repo secret s
                  else (Err (from_storage_error e), s)
       | Ok overlay \<Rightarrow> (Ok overlay, s) | Panic \<Rightarrow> (Panic, s) | Hang \<Rightarrow> (Hang, s))"
  have "\<exists>st. q = (and_then (fst p) (\<lambda>_. Ok \<lparr>ovl_id = ov\<rparr>), s\<lparr>srv_store := st\<rparr>)
    \<and> holds_view X invar vals (s\<lparr>srv_store := st\<rparr>) (snd p)"
  proof (cases "sw_overlays W ov = None")
    case True
    with create_overlay_follows [OF assms(1-3) True assms(4)] server_reads(2) [OF assms(1) view, of ov]
    show ?thesis by (simp add: p_def q_def)
  next
    case False
    then have "p = (Ok (), W)" by (simp add: p_def del: not_None_eq)
    moreover from False have "q = (Ok \<lparr>ovl_id = ov\<rparr>, s)"
      using server_reads(2) [OF assms(1) view, of ov] by (simp add: q_def del: not_None_eq)
    ultimately show ?thesis using assms(3) by (intro exI [of _ "srv_store s"]) simp
  qed
  then obtain st where q: "q = (and_then (fst p) (\<lambda>_. Ok \<lparr>ovl_id = ov\<rparr>), s\<lparr>srv_store := st\<rparr>)"
    "holds_view X invar vals (s\<lparr>srv_store := st\<rparr>) (snd p)" by blast
  have join: "join_overlay X E clock random user ov repo secret adverts s = op_then q (\<lambda>overlay s.
     op_then (add_peers X E overlay adverts s) (\<lambda>_ s.
     op_then (ask_store (account_open X B user) s) (\<lambda>account s. do_store (account_add_overlay X B account ov) s)))"
    by (simp add: join_overlay_def q_def assms(2))
  have spec: "join_spec (srv_mode s) random user ov repo secret adverts W = op_then p (\<lambda>_ W.
       let W = add_peers_spec ov adverts W; a = sw_users W user in
       if ae_admin a = None then (Err ProtocolError.NotFound, W)
       else (Ok (), W\<lparr>sw_users := (sw_users W)(user := a\<lparr>ae_overlays := insert ov (ae_overlays a)\<rparr>)\<rparr>))"
    by (simp add: join_spec_def p_def)
  show ?thesis
  proof (cases "\<exists>W1. p = (Ok (), W1)")
    case False
    with q show ?thesis unfolding join spec
      by (cases p; cases "fst p") auto
  next
    case True
    then obtain W1 where p: "p = (Ok (), W1)" by blast
    have "sw_overlays W1 ov \<noteq> None"
      using p unfolding p_def create_overlay_spec_def Let_def by (auto split: if_splits)
    from add_peers_follows [OF assms(1,2) _ this, of "s\<lparr>srv_store := st\<rparr>" adverts] q(2) p obtain st2 where
      peers: "add_peers X E \<lparr>ovl_id = ov\<rparr> adverts (s\<lparr>srv_store := st\<rparr>) = (Ok (), s\<lparr>srv_store := st2\<rparr>)"
        "holds_view X invar vals (s\<lparr>srv_store := st2\<rparr>) (add_peers_spec ov adverts W1)" by auto
    let ?W2 = "add_peers_spec ov adverts W1"
    note view2 = holds_viewD [OF peers(2), simplified]
    show ?thesis
    proof (cases "ae_admin (sw_users ?W2 user) = None")
      case True
      with peers p q server_reads(1) [OF assms(1) view2, of user] show ?thesis
        unfolding join spec by (intro exI [of _ st2]) (simp add: ask_store_def Let_def)
    next
      case False
      from add_overlay_view [OF assms(1) view2 False, of ov] obtain st3 where
        "account_add_overlay X B \<lparr>acc_id = user\<rparr> ov st2 = (Ok (), st3)" "invar st3"
        "server_rel X (vals st3) (?W2\<lparr>sw_users := (sw_users ?W2)(user := (sw_users ?W2 user)
           \<lparr>ae_overlays := insert ov (ae_overlays (sw_users ?W2 user))\<rparr>)\<rparr>)" by blast
      with peers p q False server_reads(1) [OF assms(1) view2, of user] show ?thesis
        unfolding join spec by (intro exI [of _ st3]) (simp add: ask_store_def Let_def do_store_def holds_view_def del: not_None_eq)
    qed
  qed
qed

end

end
