(* ===== verification/Lofire_Calm.thy ===== *)
theory Lofire_Calm
  imports Lofire_Branch
begin

text \<open>
  Loading objects from a lawful store and walking their dependencies never panics; what a load returns are
  blocks the store holds.
\<close>

section \<open>Loading does not panic\<close>

definition held :: "'x externs_scheme \<Rightarrow> (BlockId \<rightharpoonup> Block) \<Rightarrow> Block list \<Rightarrow> bool" where
  "held X m bs \<longleftrightarrow> (\<forall>b \<in> set bs. m (block_id X b) = Some (plain b))"

lemma held_with_key: "held X m bs \<Longrightarrow> bs \<noteq> [] \<Longrightarrow> held X m (butlast bs @ [with_key k (last bs)])"
  by (auto simp: held_def with_key_def dest: in_set_butlastD)

context repo_store
begin

lemma load_level_held:
  assumes "invar s" "held X (\<alpha> s) bl"
  shows "\<exists>ch' bl' ms' s'. load_level S ps s ch bl ms = (Ok (ch', bl', ms'), s') \<and> invar s' \<and> \<alpha> s' = \<alpha> s
    \<and> length bl' + length ms' = length ps + length bl + length ms \<and> held X (\<alpha> s) bl'"
  using assms
proof (induction ps arbitrary: s ch bl ms)
  case (Cons i ps)
  from Cons.prems(1) show ?case
  proof (cases rule: get_cases [of s i])
    case (found b s1)
    with Cons.prems(2) have "held X (\<alpha> s1) (b # bl)" by (simp add: held_def)
    with Cons.IH [OF found(5), of "b # bl" "ch @ rev (block_children b)" ms] found show ?thesis by fastforce
  next
    case (missing s1)
    with Cons.IH [OF missing(3), of bl ch "ms @ [i]"] Cons.prems(2) show ?thesis by fastforce
  qed
qed auto

lemma load_tree_held:
  assumes "invar s" "held X (\<alpha> s) bl"
  shows "\<exists>s'. invar s' \<and> \<alpha> s' = \<alpha> s \<and> (load_tree S n ps s bl ms = (Hang, s') \<or>
    (\<exists>bl' ms'. load_tree S n ps s bl ms = (Ok (bl', ms'), s')
      \<and> length ps + length bl + length ms \<le> length bl' + length ms' \<and> held X (\<alpha> s) bl'))"
  using assms
proof (induction n arbitrary: ps s bl ms)
  case (Suc n)
  from load_level_held [OF Suc.prems, of ps "[]" ms] obtain ch' bl' ms' s' where
    l: "load_level S ps s [] bl ms = (Ok (ch', bl', ms'), s')" "invar s'" "\<alpha> s' = \<alpha> s"
      "length bl' + length ms' = length ps + length bl + length ms" "held X (\<alpha> s) bl'" by blast
  from Suc.IH [of s' bl' ch' ms'] l show ?case by (cases "ch' = []") (fastforce simp: load_tree.simps(2))+
qed auto

text \<open>A load answers an object whose blocks the store holds, or an error, or does not end.\<close>

lemma object_load_held:
  assumes "invar s"
  shows "\<exists>r s'. object_load X S n i k s = (r, s') \<and> invar s' \<and> \<alpha> s' = \<alpha> s \<and> r \<noteq> Panic
    \<and> (\<forall>ob. r = Ok ob \<longrightarrow> obj_blocks ob \<noteq> [] \<and> held X (\<alpha> s) (obj_blocks ob))"
  using assms
proof (induction n arbitrary: i k s)
  case (Suc n)
  have "held X (\<alpha> s) []" by (simp add: held_def)
  from load_tree_held [OF Suc.prems this, of "Suc n" "[i]" "[]"] obtain s1 where
    s1: "invar s1" "\<alpha> s1 = \<alpha> s" and t: "load_tree S (Suc n) [i] s [] [] = (Hang, s1) \<or>
      (\<exists>bl ms. load_tree S (Suc n) [i] s [] [] = (Ok (bl, ms), s1) \<and> 1 \<le> length bl + length ms \<and> held X (\<alpha> s) bl)" by auto
  from t show ?case
  proof (elim disjE exE conjE)
    fix bl ms assume l: "load_tree S (Suc n) [i] s [] [] = (Ok (bl, ms), s1)" "1 \<le> length bl + length ms" "held X (\<alpha> s) bl"
    show ?thesis
    proof (cases "ms = []")
      case True
      with l(2) have ne: "bl \<noteq> []" by auto
      note blocks = held_with_key [OF l(3) ne, of k]
      show ?thesis
      proof (cases "block_deps (with_key k (last bl))")
        case (ObjectIdList ds)
        with l True ne s1 blocks show ?thesis by (simp add: object_load_Suc load_deps_def)
      next
        case (DepListRef r)
        from Suc.IH [OF s1(1), of "ref_id r" "Some (ref_key r)"] obtain q s2 where
          q: "object_load X S n (ref_id r) (Some (ref_key r)) s1 = (q, s2)" "invar s2" "\<alpha> s2 = \<alpha> s1" "q \<noteq> Panic"
            "\<forall>ob. q = Ok ob \<longrightarrow> obj_blocks ob \<noteq> []" by blast
        show ?thesis
        proof (cases q)
          case (Ok ob)
          with q(5) object_content_total [of ob X] l True ne DepListRef q s1 blocks show ?thesis
            by (cases "object_content X ob")
               (auto simp: object_load_Suc load_deps_def split: ObjectContent.split DepList.split)
        qed (use l True ne DepListRef q s1 in \<open>simp_all add: object_load_Suc load_deps_def\<close>)
      qed
    qed (use l s1 in \<open>simp add: object_load_Suc\<close>)
  qed (use s1 in \<open>simp add: object_load_Suc\<close>)
qed auto

end

text \<open>An operation that does not panic and leaves a state with \<open>P\<close>.\<close>

definition calm :: "('s \<Rightarrow> bool) \<Rightarrow> ('a, 'e, 's) op \<Rightarrow> bool" where
  "calm P p \<longleftrightarrow> fst p \<noteq> Panic \<and> P (snd p)"

lemma calm_then:
  assumes "calm P p" "\<And>x s. p = (Ok x, s) \<Longrightarrow> P s \<Longrightarrow> calm P (f x s)"
  shows "calm P (op_then p f)"
  using assms by (cases p; cases "fst p") (auto simp: calm_def)

lemma calm_simps [simp]: "calm P (Ok x, s) = P s" "calm P (Err e, s) = P s" "calm P (Hang, s) = P s" "\<not> calm P (Panic, s)"
  by (simp_all add: calm_def)

lemma calm_map_err [simp]: "calm P (apfst (map_err g) p) = calm P p"
  by (cases p; cases "fst p") simp_all

definition loads_calmly :: "'x externs_scheme \<Rightarrow> 's RepoStore \<Rightarrow> nat \<Rightarrow> ('s \<Rightarrow> bool) \<Rightarrow> bool" where
  "loads_calmly X S n P \<longleftrightarrow> (\<forall>s i k. P s \<longrightarrow> calm P (object_load X S n i k s)
     \<and> (\<forall>ob s'. object_load X S n i k s = (Ok ob, s') \<longrightarrow> obj_blocks ob \<noteq> []))"

lemma loads_calmlyD:
  assumes "loads_calmly X S n P" "P s"
  shows "calm P (object_load X S n i k s)" "object_load X S n i k s = (Ok ob, s') \<Longrightarrow> obj_blocks ob \<noteq> []"
  using assms unfolding loads_calmly_def by blast+

context repo_store
begin

lemma loads_calmly: "loads_calmly X S n (\<lambda>s. invar s \<and> \<alpha> s = m)"
  unfolding loads_calmly_def
proof (intro allI impI)
  fix s i k assume "invar s \<and> \<alpha> s = m"
  with object_load_held [of s n i k]
  show "calm (\<lambda>s. invar s \<and> \<alpha> s = m) (object_load X S n i k s)
     \<and> (\<forall>ob s'. object_load X S n i k s = (Ok ob, s') \<longrightarrow> obj_blocks ob \<noteq> [])" by (auto simp: calm_def)
qed

end

lemma sync_deps_calm:
  assumes "loads_calmly X S n P" "\<And>ob st v ms. obj_blocks ob \<noteq> [] \<Longrightarrow> P st \<Longrightarrow> calm P (rec ob st v ms)" "P s"
  shows "calm P (sync_deps rec X S n ds s found v ms)"
  using assms(3)
proof (induction ds arbitrary: s found v ms)
  case (Cons i ds)
  obtain r s' where r: "object_load X S n i None s = (r, s')" by (rule prod.exhaust)
  with loads_calmlyD [OF assms(1) Cons.prems, of i None] have P: "r \<noteq> Panic" "P s'" by (auto simp: calm_def)
  show ?case
  proof (cases r)
    case (Ok ob)
    with loads_calmlyD(2) [OF assms(1) Cons.prems, of i None ob s'] r have "obj_blocks ob \<noteq> []" by simp
    with r Ok P Cons.IH assms(2) show ?thesis by (auto intro!: calm_then split: prod.split)
  next
    case (Err e)
    with r Cons.IH [OF P(2)] P show ?thesis by (cases e) simp_all
  qed (use r P in simp_all)
qed simp

lemma sync_load_branch_calm:
  assumes "loads_calmly X S n P" "obj_blocks ob \<noteq> []" "P s"
  shows "calm P (sync_load_branch X S n hs fuel ob s v ms)"
  using assms(2,3)
proof (induction fuel arbitrary: ob s v ms)
  case (Suc fuel)
  then have "object_id X ob = (Ok (block_id X (last (obj_blocks ob))) :: (ObjectId, ObjectParseError) result)" by (simp add: object_id_def object_root_def)
  with Suc show ?case by (auto simp: Let_def intro!: sync_deps_calm [OF assms(1)])
qed simp

lemma sync_heads_calm:
  assumes "loads_calmly X S n P" "P s"
  shows "calm P (sync_heads X S n fuel stop hs s acc ms)"
  using assms(2)
proof (induction hs arbitrary: s acc ms)
  case (Cons i hs)
  note load = loads_calmlyD [OF assms(1) Cons.prems, of i None]
  show ?case
    by (auto intro!: calm_then [OF load(1)] calm_then [OF sync_load_branch_calm [OF assms(1)]] Cons.IH dest: load(2) split: prod.split)
qed simp

lemma sync_req_calm: "loads_calmly X S n P \<Longrightarrow> P s \<Longrightarrow> calm P (sync_req X S n fuel our their bf s)"
  unfolding sync_req_def by (auto intro!: calm_then [OF sync_heads_calm] split: prod.split)

end
