(* ===== verification/Lofire_Serving.thy ===== *)
theory Lofire_Serving
  imports Lofire_Join Lofire_Calm
begin

text \<open>
  Serving blocks in the mode \<open>Local\<close>: the invariant that relates the property store, the opened block stores
  and the environments on disk, and what each block operation does to the blocks of an overlay.
\<close>

section \<open>The invariant\<close>

text \<open>
  The databases under a server and the laws they obey: \<open>el_rgood k d\<close> says that the environment \<open>d\<close> works and was
  created with the key \<open>k\<close>, or is not created yet; opening it with that key succeeds and keeps what it holds.
\<close>

record ('b, 'd) EnvLaws =
  el_rkv :: "'b Rkv"
  el_good :: "'b \<Rightarrow> bool"
  el_vals :: "'b \<Rightarrow> bytes \<Rightarrow> bytes set"
  el_rgood :: "bytes32 \<Rightarrow> 'd \<Rightarrow> bool"
  el_single :: "'d \<Rightarrow> singles"
  el_multi :: "'d \<Rightarrow> multis"

definition lawful_env :: "'x server_externs_scheme \<Rightarrow> ('b, 'd) BrokerEnv \<Rightarrow> ('b, 'd) EnvLaws \<Rightarrow> bool" where
  "lawful_env X E L \<longleftrightarrow> net_codec X \<and> repo_codec X \<and> be_store E = lmdb_broker (el_rkv L) \<and> (\<forall>sid. be_create_dir E sid)
     \<and> (\<forall>k d. el_rgood L k d \<longrightarrow> (\<exists>d'. be_open E k d = Some d' \<and> el_rgood L k d'
          \<and> el_single L d' = el_single L d \<and> el_multi L d' = el_multi L d))"

text \<open>An environment with blocks of which none was marked as synced; the server never marks one.\<close>

definition stored :: "'x server_externs_scheme \<Rightarrow> ('b, 'd) BrokerEnv \<Rightarrow> ('b, 'd) EnvLaws \<Rightarrow> bytes32 \<Rightarrow> 'd \<Rightarrow> bool" where
  "stored X E L k d \<longleftrightarrow> (\<exists>V. represents X (be_rkv E) (el_rgood L k) (el_single L) (el_multi L) False d V \<and> nothing_synced V)"

abbreviation blocks_in :: "'x server_externs_scheme \<Rightarrow> ('b, 'd) EnvLaws \<Rightarrow> 'd \<Rightarrow> BlockId \<rightharpoonup> Block" where
  "blocks_in X L \<equiv> lmdb_abs X (el_single L)"

abbreviation view_of :: "'x server_externs_scheme \<Rightarrow> ('b, 'd) EnvLaws \<Rightarrow> ('b, 'd) BrokerServer \<Rightarrow> ServerView \<Rightarrow> bool" where
  "view_of X L \<equiv> holds_view X (lmdb_ok (el_rkv L) (el_good L) (el_vals L)) (el_vals L)"

text \<open>Every overlay has a repository whose store has a key.\<close>

definition overlays_keyed :: "ServerView \<Rightarrow> bool" where
  "overlays_keyed W \<longleftrightarrow> (\<forall>ov k r. sw_overlays W ov = Some (k, r) \<longrightarrow> (\<exists>p. r = Some p \<and> sw_keys W (Repo p) \<noteq> None))"

definition server_invar ::
  "'x server_externs_scheme \<Rightarrow> ('b, 'd) BrokerEnv \<Rightarrow> ('b, 'd) EnvLaws \<Rightarrow> ('b, 'd) BrokerServer \<Rightarrow> ServerView \<Rightarrow> bool" where
  "server_invar X E L s W \<longleftrightarrow> view_of X L s W \<and> srv_mode s = Local
     \<and> \<not> srv_stores_poisoned s \<and> \<not> srv_overlays_poisoned s
     \<and> (\<forall>sid k. sw_keys W sid \<in> {None, Some (ChaCha20Key k)} \<longrightarrow> stored X E L k (srv_disk s sid))
     \<and> overlays_keyed W
     \<and> (\<forall>ov sid. srv_overlayid_to_repostore s ov = Some sid \<longrightarrow>
          sid \<in> srv_repo_stores s \<and> (\<exists>k p. sw_overlays W ov = Some (k, Some p) \<and> sid = Repo p))"

lemma stored_invar:
  assumes "repo_codec X" "now_timestamp clock = (Ok now :: (Timestamp, unit) result)" "now \<noteq> 0"
  shows "lmdb_invar X (be_rkv E) (el_rgood L k) (el_single L) (el_multi L) clock d \<longleftrightarrow> stored X E L k d"
  using assms by (auto simp: lmdb_invar_def stored_def)

lemma opened_stored:
  assumes "lawful_env X E L" "stored X E L k d"
  shows "\<exists>d'. be_open E k d = Some d' \<and> stored X E L k d' \<and> blocks_in X L d' = blocks_in X L d"
proof -
  from assms(2) obtain V S M where V: "repo_state (be_rkv E) (el_rgood L k) (el_single L) (el_multi L) d S M" "repo_rel X S M V" "nothing_synced V"
    by (auto simp: stored_def represents_def)
  then have d: "repo_rkv_laws (be_rkv E) (el_rgood L k) (el_single L) (el_multi L)" "el_rgood L k d" "el_single L d = S" "el_multi L d = M"
    by (auto simp: repo_state_def)
  with assms(1) obtain d' where
    d': "be_open E k d = Some d'" "el_rgood L k d'" "el_single L d' = S" "el_multi L d' = M" unfolding lawful_env_def by metis
  with d V have "represents X (be_rkv E) (el_rgood L k) (el_single L) (el_multi L) False d' V"
    by (intro representsI [of _ _ _ _ _ S M]) (auto simp: repo_state_def)
  with d' d(3) V(3) show ?thesis by (auto simp: stored_def lmdb_abs_def)
qed

lemma server_invarD:
  assumes "server_invar X E L s W"
  shows "view_of X L s W" "srv_mode s = Local" "\<not> srv_stores_poisoned s" "\<not> srv_overlays_poisoned s"
    "sw_keys W sid \<in> {None, Some (ChaCha20Key k)} \<Longrightarrow> stored X E L k (srv_disk s sid)"
    "sw_overlays W ov = Some (key, r) \<Longrightarrow> \<exists>p. r = Some p \<and> sw_keys W (Repo p) \<noteq> None"
    "srv_overlayid_to_repostore s ov = Some sid \<Longrightarrow>
          sid \<in> srv_repo_stores s \<and> (\<exists>k p. sw_overlays W ov = Some (k, Some p) \<and> sid = Repo p)"
  using assms unfolding server_invar_def overlays_keyed_def by blast+

lemma server_invar_serves:
  assumes "server_invar X E L s W" "sw_keys W sid = Some (ChaCha20Key k)" "stored X E L k d"
    "srv_store s' = srv_store s" "srv_mode s' = srv_mode s" "\<not> srv_stores_poisoned s'" "\<not> srv_overlays_poisoned s'"
    "srv_disk s' = (srv_disk s)(sid := d)" "srv_repo_stores s \<subseteq> srv_repo_stores s'"
    "\<forall>ov sid. srv_overlayid_to_repostore s' ov = Some sid \<longrightarrow> srv_overlayid_to_repostore s ov = Some sid
      \<or> sid \<in> srv_repo_stores s' \<and> (\<exists>k p. sw_overlays W ov = Some (k, Some p) \<and> sid = Repo p)"
  shows "server_invar X E L s' W"
  using assms server_invarD [OF assms(1)] unfolding server_invar_def
  by (intro conjI allI impI) (auto simp: holds_view_def split: if_splits, blast+)

text \<open>An action on the store of an overlay that is known.\<close>

lemma serve_known:
  assumes env: "lawful_env X E L" and inv: "server_invar X E L s W"
    and ov: "sw_overlays W ov = Some (secret, Some p)" and key: "sw_keys W (Repo p) = Some (ChaCha20Key k)"
  shows "\<exists>d0. stored X E L k d0 \<and> blocks_in X L d0 = blocks_in X L (srv_disk s (Repo p)) \<and>
    (\<forall>r d'. f d0 = (r, d') \<and> r \<noteq> Panic \<and> stored X E L k d' \<longrightarrow>
      (\<exists>s'. get_repostore_from_overlay_id X E ov f s = (r, s') \<and> server_invar X E L s' W
        \<and> srv_disk s' = (srv_disk s)(Repo p := d')))"
proof -
  note I = server_invarD [OF inv]
  have st: "stored X E L k (srv_disk s (Repo p))" using I(5) key by simp
  show ?thesis
  proof (cases "srv_overlayid_to_repostore s ov")
    case (Some sid)
    with I(7) [OF Some] ov have sid: "sid = Repo p" "sid \<in> srv_repo_stores s" by auto
    show ?thesis
    proof (intro exI [of _ "srv_disk s (Repo p)"] conjI allI impI st refl)
      fix r d' assume f: "f (srv_disk s (Repo p)) = (r, d') \<and> r \<noteq> Panic \<and> stored X E L k d'"
      let ?s = "s\<lparr>srv_disk := (srv_disk s)(Repo p := d')\<rparr>"
      have "server_invar X E L ?s W"
        by (rule server_invar_serves [OF inv key]) (use f I in auto)
      moreover have "get_repostore_from_overlay_id X E ov f s = (r, ?s)"
        using f I(2-4) sid Some by (simp add: get_repostore_from_overlay_id_def run_on_def)
      ultimately show "\<exists>s'. get_repostore_from_overlay_id X E ov f s = (r, s') \<and> server_invar X E L s' W
        \<and> srv_disk s' = (srv_disk s)(Repo p := d')" by auto
    qed
  next
    case None
    from opened_stored [OF env st] obtain d0 where
      d0: "be_open E k (srv_disk s (Repo p)) = Some d0" "stored X E L k d0" "blocks_in X L d0 = blocks_in X L (srv_disk s (Repo p))"
      by blast
    have nc: "net_codec X" and E: "be_store E = lmdb_broker (el_rkv L)" "\<forall>sid. be_create_dir E sid" using env by (auto simp: lawful_env_def)
    note reads = lmdb.server_reads [OF nc holds_viewD [OF I(1)]]
    show ?thesis
    proof (intro exI [of _ d0] conjI allI impI d0(2,3))
      fix r d' assume f: "f d0 = (r, d') \<and> r \<noteq> Panic \<and> stored X E L k d'"
      let ?s = "s\<lparr>srv_overlayid_to_repostore := (srv_overlayid_to_repostore s)(ov \<mapsto> Repo p),
        srv_repo_stores := insert (Repo p) (srv_repo_stores s), srv_disk := (srv_disk s)(Repo p := d')\<rparr>"
      have "server_invar X E L ?s W"
        by (rule server_invar_serves [OF inv key]) (use f I ov in auto)
      moreover have "get_repostore_from_overlay_id X E ov f s = (r, ?s)"
        using f I(2-4) None reads(2) [of ov] reads(3) [OF ov] reads(4) [of "Repo p"] reads(5) [OF key] ov key d0(1) E
        by (cases r) (simp_all add: get_repostore_from_overlay_id_def open_or_create_repostore_def ask_store_def run_on_def
            guard_stores_def guard_overlays_def Let_def)
      ultimately show "\<exists>s'. get_repostore_from_overlay_id X E ov f s = (r, s') \<and> server_invar X E L s' W
        \<and> srv_disk s' = (srv_disk s)(Repo p := d')" by auto
    qed
  qed
qed

text \<open>An overlay that is not known is an error and nothing changes.\<close>

lemma serve_unknown:
  assumes "lawful_env X E L" "server_invar X E L s W" "sw_overlays W ov = None"
  shows "get_repostore_from_overlay_id X E ov f s = (Err ProtocolError.NotFound, s)"
proof -
  note I = server_invarD [OF assms(2)]
  have nc: "net_codec X" and E: "be_store E = lmdb_broker (el_rkv L)" using assms(1) by (auto simp: lawful_env_def)
  have "srv_overlayid_to_repostore s ov = None"
    using I(7) [of ov] assms(3) by (cases "srv_overlayid_to_repostore s ov") fastforce+
  with lmdb.server_reads(2) [OF nc holds_viewD [OF I(1)], of ov] I(2-4) assms(3) E show ?thesis
    by (simp add: get_repostore_from_overlay_id_def ask_store_def)
qed

section \<open>Actions on a store\<close>

definition clock_ok :: "u64 \<Rightarrow> bool" where
  "clock_ok clock \<longleftrightarrow> (\<exists>now. now_timestamp clock = (Ok now :: (Timestamp, unit) result) \<and> now \<noteq> 0)"

abbreviation repo_of :: "'x server_externs_scheme \<Rightarrow> ('b, 'd) BrokerEnv \<Rightarrow> u64 \<Rightarrow> 'd RepoStore" where
  "repo_of X E clock \<equiv> lmdb_repo_store X (be_rkv E) clock"

lemma stored_lmdb:
  "repo_codec X \<Longrightarrow> clock_ok clock \<Longrightarrow>
    lmdb_invar X (be_rkv E) (el_rgood L k) (el_single L) (el_multi L) clock d \<longleftrightarrow> stored X E L k d"
  unfolding clock_ok_def by (elim exE conjE) (rule stored_invar)

lemma some_clock: "clock_ok 1700000000"
  by (simp add: clock_ok_def demo_clock)

lemma act_put:
  assumes "repo_codec X" "stored X E L k d" "honest X b"
  shows "\<exists>d'. lmdb_repo_put X (be_rkv E) d b = (Ok (block_id X b), d') \<and> stored X E L k d'
    \<and> blocks_in X L d' = (blocks_in X L d)(block_id X b \<mapsto> plain b)"
  using lm.put_stores [where X = X and R = "be_rkv E" and good = "el_rgood L k" and single = "el_single L" and multi = "el_multi L"
      and clock = 1700000000 and s = d and b = b] assms
  by (auto simp: stored_lmdb [OF assms(1) some_clock] lmdb_repo_store_def)

lemma act_get:
  assumes "repo_codec X" "clock_ok clock" "stored X E L k d"
  shows "\<exists>r d'. lmdb_repo_get X (be_rkv E) clock d i = (r, d') \<and> stored X E L k d' \<and> blocks_in X L d' = blocks_in X L d
    \<and> (case blocks_in X L d i of None \<Rightarrow> r = Err StorageError.NotFound
       | Some b \<Rightarrow> \<exists>b'. r = Ok b' \<and> plain b' = b \<and> block_id X b' = i)"
  using lm.get_found [where X = X and R = "be_rkv E" and good = "el_rgood L k" and single = "el_single L" and multi = "el_multi L"
      and clock = clock and s = d and i = i]
    lm.get_missing [where X = X and R = "be_rkv E" and good = "el_rgood L k" and single = "el_single L" and multi = "el_multi L"
      and clock = clock and s = d and i = i] assms(3)
  by (cases "blocks_in X L d i") (auto simp: stored_lmdb [OF assms(1,2)] lmdb_repo_store_def)

lemma act_del:
  assumes "repo_codec X" "stored X E L k d"
  shows "\<exists>r d'. lmdb_repo_del X (be_rkv E) d i = (r, d') \<and> stored X E L k d' \<and> blocks_in X L d' = (blocks_in X L d)(i := None)
    \<and> (if blocks_in X L d i = None then r = Err StorageError.NotFound else is_ok r)"
  using lm.del_found [where X = X and R = "be_rkv E" and good = "el_rgood L k" and single = "el_single L" and multi = "el_multi L"
      and clock = 1700000000 and s = d and i = i]
    lm.del_missing [where X = X and R = "be_rkv E" and good = "el_rgood L k" and single = "el_single L" and multi = "el_multi L"
      and clock = 1700000000 and s = d and i = i] assms(2)
  by (cases "blocks_in X L d i") (auto simp: stored_lmdb [OF assms(1) some_clock] lmdb_repo_store_def fun_upd_idem)

lemma act_set_pin:
  assumes "repo_codec X" "stored X E L k d"
  shows "\<exists>d'. set_pin X (be_rkv E) d i add = (Ok (), d') \<and> stored X E L k d' \<and> blocks_in X L d' = blocks_in X L d"
proof -
  from assms(2) obtain V where
    V: "represents X (be_rkv E) (el_rgood L k) (el_single L) (el_multi L) False d V" "nothing_synced V" by (auto simp: stored_def)
  obtain now where now: "timed_call_ok X (1700000000, now, SetPin i add)" using demo_clock by fastforce
  from repo_call_follows [OF assms(1) V(1) now] obtain r d' V' where
    d': "repo_call X (be_rkv E) 1700000000 d (SetPin i add) = (r, d')" "repo_step X now V (SetPin i add) = (r, V')"
      "represents X (be_rkv E) (el_rgood L k) (el_single L) (el_multi L) False d' V'" by blast
  from d'(2) V(2) have r: "r = Ok Finished" "rv_blocks V' = rv_blocks V" "nothing_synced V'"
    by (auto simp: nothing_synced_def set_meta_def split: option.splits if_splits)
  from d'(1) r(1) have "set_pin X (be_rkv E) d i add = (Ok (), d')" by (auto simp: op_then_total)
  moreover from d'(3) r(3) have "stored X E L k d'" by (auto simp: stored_def)
  ultimately show ?thesis
    using r(2) represents_abs(1) [OF assms(1) V(1)] represents_abs(1) [OF assms(1) d'(3)] by simp
qed

lemma act_load:
  assumes "repo_codec X" "clock_ok clock" "stored X E L k d"
  shows "\<exists>r d'. object_load X (repo_of X E clock) n i key d = (r, d') \<and> stored X E L k d' \<and> blocks_in X L d' = blocks_in X L d
    \<and> r \<noteq> Panic \<and> (\<forall>ob. r = Ok ob \<longrightarrow> obj_blocks ob \<noteq> [] \<and> held X (blocks_in X L d) (obj_blocks ob))"
  using repo_store.object_load_held [OF lm.repo_store_axioms, of X "be_rkv E" "el_rgood L k" "el_single L" "el_multi L" clock d n i key]
    assms(3)
  by (auto simp: stored_lmdb [OF assms(1,2)])

section \<open>Requests\<close>

text \<open>A state of a store with given blocks.\<close>

definition keeps :: "'x server_externs_scheme \<Rightarrow> ('b, 'd) BrokerEnv \<Rightarrow> ('b, 'd) EnvLaws \<Rightarrow> bytes32 \<Rightarrow> (BlockId \<rightharpoonup> Block) \<Rightarrow> 'd \<Rightarrow> bool" where
  "keeps X E L k m d \<longleftrightarrow> stored X E L k d \<and> blocks_in X L d = m"

lemma keeps_loads:
  assumes "repo_codec X" "clock_ok clock"
  shows "loads_calmly X (repo_of X E clock) n (keeps X E L k m)"
  unfolding loads_calmly_def
proof (intro allI impI)
  fix d i key assume "keeps X E L k m d"
  with act_load [OF assms, of E L k d n i key]
  show "calm (keeps X E L k m) (object_load X (repo_of X E clock) n i key d)
     \<and> (\<forall>ob d'. object_load X (repo_of X E clock) n i key d = (Ok ob, d') \<longrightarrow> obj_blocks ob \<noteq> [])"
    by (auto simp: calm_def keeps_def)
qed

lemma for_each_calm:
  assumes "\<And>d i. P d \<Longrightarrow> calm P (g d i)" "P d"
  shows "calm P (for_each_block X g bs D d)"
  using assms(2) by (induction bs arbitrary: D d) (auto simp: Let_def intro!: calm_then assms(1))

lemma send_objects_calm:
  assumes "loads_calmly X (repo_of X E clock) (be_fuel E) P" "P d"
  shows "calm P (send_objects X E clock ids D r d)"
  using assms(2)
  by (induction ids arbitrary: D r d) (auto intro!: calm_then loads_calmlyD(1) [OF assms(1)] split: prod.split)

lemma load_or_not_found_calm:
  assumes "loads_calmly X (repo_of X E clock) (be_fuel E) P" "P d"
  shows "calm P (load_or_not_found X E clock i d)"
  using loads_calmlyD(1) [OF assms] by (simp add: load_or_not_found_def)

text \<open>The actions of the requests, by what they do to the blocks.\<close>

lemma reading_actions:
  assumes "repo_codec X" "clock_ok clock" "keeps X E L k m d"
  shows "calm (keeps X E L k m) (op_then (load_or_not_found X E clock i d) (\<lambda>o' d. for_each_block X (pin X (be_rkv E)) (obj_blocks o') {} d))"
    "calm (keeps X E L k m) (op_then (load_or_not_found X E clock i d) (\<lambda>o' d. for_each_block X (unpin X (be_rkv E)) (obj_blocks o') {} d))"
    "calm (keeps X E L k m) (if \<not> ch then
         op_then (apfst (map_err from_storage_error) (lmdb_repo_get X (be_rkv E) clock d i)) (\<lambda>block d. (Ok [block], d))
       else op_then (load_or_not_found X E clock i d) (\<lambda>o' d. (Ok (snd (send_blocks X (obj_blocks o') {} [])), d)))"
    "calm (keeps X E L k m) (op_then (apfst (map_err (\<lambda>_. ObjectParseError))
           (sync_req X (repo_of X E clock) (be_fuel E) (be_fuel E) heads known_heads bf d))
         (\<lambda>res d. send_objects X E clock res {} [] d))"
proof -
  note load = load_or_not_found_calm [OF keeps_loads [OF assms(1,2)]]
  have pins: "calm (keeps X E L k m) (set_pin X (be_rkv E) d i add)" if "keeps X E L k m d" for d i add
    using act_set_pin [OF assms(1), of E L k d i add] that by (auto simp: keeps_def)
  show "calm (keeps X E L k m) (op_then (load_or_not_found X E clock i d) (\<lambda>o' d. for_each_block X (pin X (be_rkv E)) (obj_blocks o') {} d))"
    "calm (keeps X E L k m) (op_then (load_or_not_found X E clock i d) (\<lambda>o' d. for_each_block X (unpin X (be_rkv E)) (obj_blocks o') {} d))"
    by (auto intro!: calm_then [OF load] for_each_calm assms(3) simp: pin_def unpin_def pins)
  have "calm (keeps X E L k m) (lmdb_repo_get X (be_rkv E) clock d i)"
    using act_get [OF assms(1,2), of E L k d i] assms(3) by (auto simp: keeps_def split: option.splits)
  then show "calm (keeps X E L k m) (if \<not> ch then
         op_then (apfst (map_err from_storage_error) (lmdb_repo_get X (be_rkv E) clock d i)) (\<lambda>block d. (Ok [block], d))
       else op_then (load_or_not_found X E clock i d) (\<lambda>o' d. (Ok (snd (send_blocks X (obj_blocks o') {} [])), d)))"
    using assms(3) by (auto intro!: load calm_then)
  show "calm (keeps X E L k m) (op_then (apfst (map_err (\<lambda>_. ObjectParseError))
           (sync_req X (repo_of X E clock) (be_fuel E) (be_fuel E) heads known_heads bf d))
         (\<lambda>res d. send_objects X E clock res {} [] d))"
    using sync_req_calm [OF keeps_loads [OF assms(1,2)] assms(3)]
    by (intro calm_then) (auto intro: send_objects_calm [OF keeps_loads [OF assms(1,2)]])
qed

lemma writing_actions:
  assumes "repo_codec X" "clock_ok clock" "stored X E L k d"
  shows "honest X b \<Longrightarrow> calm (stored X E L k)
      (op_then (apfst (map_err from_storage_error) (lmdb_repo_put X (be_rkv E) d b)) (\<lambda>_ d. (Ok (), d)))"
    "calm (stored X E L k) (op_then (load_or_not_found X E clock i d)
       (\<lambda>o' d. for_each_block X (lmdb_repo_del X (be_rkv E)) (obj_blocks o') {} d))"
proof -
  show "honest X b \<Longrightarrow> calm (stored X E L k)
      (op_then (apfst (map_err from_storage_error) (lmdb_repo_put X (be_rkv E) d b)) (\<lambda>_ d. (Ok (), d)))"
    using act_put [OF assms(1,3), of b] by auto
  have "loads_calmly X (repo_of X E clock) (be_fuel E) (stored X E L k)"
    unfolding loads_calmly_def using act_load [OF assms(1,2), where n = "be_fuel E"] by (metis calm_def fst_conv snd_conv)
  moreover have "calm (stored X E L k) (lmdb_repo_del X (be_rkv E) d i)" if "stored X E L k d" for d i
    using act_del [OF assms(1) that, of i] by (auto simp: res_simps split: if_splits)
  ultimately show "calm (stored X E L k) (op_then (load_or_not_found X E clock i d)
       (\<lambda>o' d. for_each_block X (lmdb_repo_del X (be_rkv E)) (obj_blocks o') {} d))"
    using assms(3) by (intro calm_then load_or_not_found_calm for_each_calm)
qed

section \<open>Every request keeps the invariant\<close>

text \<open>A calm action on any overlay.\<close>

lemma serve_calm:
  assumes env: "lawful_env X E L" and inv: "server_invar X E L s W"
    and f: "\<And>k d. stored X E L k d \<Longrightarrow> calm (stored X E L k) (f d)"
  shows "\<exists>r s'. get_repostore_from_overlay_id X E ov f s = (r, s') \<and> r \<noteq> Panic \<and> server_invar X E L s' W"
proof (cases "sw_overlays W ov")
  case None
  with serve_unknown [OF env inv] inv show ?thesis by auto
next
  case (Some o')
  obtain secret r where o': "o' = (secret, r)" by (cases o')
  from server_invarD(6) [OF inv] Some o' obtain p key where p: "r = Some p" "sw_keys W (Repo p) = Some key" by blast
  obtain k where k: "key = ChaCha20Key k" by (cases key)
  from serve_known [OF env inv, of ov secret p k f] Some o' p k obtain d0 where
    d0: "stored X E L k d0" "\<forall>r d'. f d0 = (r, d') \<and> r \<noteq> Panic \<and> stored X E L k d' \<longrightarrow>
      (\<exists>s'. get_repostore_from_overlay_id X E ov f s = (r, s') \<and> server_invar X E L s' W
        \<and> srv_disk s' = (srv_disk s)(Repo p := d'))" by auto
  obtain r d' where r: "f d0 = (r, d')" by (rule prod.exhaust)
  with f [OF d0(1)] d0(2) show ?thesis by (auto simp: calm_def)
qed

lemma keeps_stored: "calm (keeps X E L k m) p \<Longrightarrow> calm (stored X E L k) p"
  by (auto simp: calm_def keeps_def)

lemma block_requests_keep:
  assumes "lawful_env X E L" "server_invar X E L s W" "clock_ok clock"
  shows "\<exists>r s'. del_object X E clock user ov i s = (r, s') \<and> r \<noteq> Panic \<and> server_invar X E L s' W"
    "\<exists>r s'. pin_object X E clock user ov i s = (r, s') \<and> r \<noteq> Panic \<and> server_invar X E L s' W"
    "\<exists>r s'. unpin_object X E clock user ov i s = (r, s') \<and> r \<noteq> Panic \<and> server_invar X E L s' W"
    "\<exists>r s'. get_block X E clock user ov i ch topic s = (r, s') \<and> r \<noteq> Panic \<and> server_invar X E L s' W"
    "\<exists>r s'. sync_branch X E clock user ov hs ks bf s = (r, s') \<and> r \<noteq> Panic \<and> server_invar X E L s' W"
    "honest X b \<Longrightarrow> \<exists>r s'. put_block X E user ov b s = (r, s') \<and> r \<noteq> Panic \<and> server_invar X E L s' W"
proof -
  have rc: "repo_codec X" using assms(1) by (simp add: lawful_env_def)
  have "keeps X E L k (blocks_in X L d) d" if "stored X E L k d" for k d using that by (simp add: keeps_def)
  note reads = keeps_stored [OF reading_actions(1) [OF rc assms(3) this]] keeps_stored [OF reading_actions(2) [OF rc assms(3) this]]
    keeps_stored [OF reading_actions(3) [OF rc assms(3) this]] keeps_stored [OF reading_actions(4) [OF rc assms(3) this]]
  show "\<exists>r s'. del_object X E clock user ov i s = (r, s') \<and> r \<noteq> Panic \<and> server_invar X E L s' W"
    unfolding del_object_def by (rule serve_calm [OF assms(1,2)]) (rule writing_actions(2) [OF rc assms(3)])
  show "\<exists>r s'. pin_object X E clock user ov i s = (r, s') \<and> r \<noteq> Panic \<and> server_invar X E L s' W"
    unfolding pin_object_def by (rule serve_calm [OF assms(1,2)]) (rule reads(1))
  show "\<exists>r s'. unpin_object X E clock user ov i s = (r, s') \<and> r \<noteq> Panic \<and> server_invar X E L s' W"
    unfolding unpin_object_def by (rule serve_calm [OF assms(1,2)]) (rule reads(2))
  show "\<exists>r s'. get_block X E clock user ov i ch topic s = (r, s') \<and> r \<noteq> Panic \<and> server_invar X E L s' W"
    unfolding get_block_def by (rule serve_calm [OF assms(1,2)]) (rule reads(3))
  show "\<exists>r s'. sync_branch X E clock user ov hs ks bf s = (r, s') \<and> r \<noteq> Panic \<and> server_invar X E L s' W"
    unfolding sync_branch_def by (rule serve_calm [OF assms(1,2)]) (rule reads(4))
  show "honest X b \<Longrightarrow> \<exists>r s'. put_block X E user ov b s = (r, s') \<and> r \<noteq> Panic \<and> server_invar X E L s' W"
    unfolding put_block_def by (rule serve_calm [OF assms(1,2)]) (rule writing_actions(1) [OF rc assms(3)])
qed

text \<open>A change of the property store.\<close>

lemma server_invar_view:
  assumes "server_invar X E L s W" "view_of X L (s\<lparr>srv_store := st\<rparr>) W'"
    "sw_overlays W \<subseteq>\<^sub>m sw_overlays W'" "sw_keys W \<subseteq>\<^sub>m sw_keys W'"
    "overlays_keyed W'"
  shows "server_invar X E L (s\<lparr>srv_store := st\<rparr>) W'"
proof -
  note I = server_invarD [OF assms(1)]
  have "stored X E L k (srv_disk s sid)" if "sw_keys W' sid \<in> {None, Some (ChaCha20Key k)}" for sid k
  proof (rule I(5))
    show "sw_keys W sid \<in> {None, Some (ChaCha20Key k)}"
      using that assms(4) [unfolded map_le_def, rule_format, of sid] by (cases "sw_keys W sid") (auto simp: dom_def)
  qed
  moreover have "sid \<in> srv_repo_stores s \<and> (\<exists>k p. sw_overlays W' ov = Some (k, Some p) \<and> sid = Repo p)"
    if "srv_overlayid_to_repostore s ov = Some sid" for ov sid
  proof -
    from I(7) [OF that] obtain k p where "sid \<in> srv_repo_stores s" "sw_overlays W ov = Some (k, Some p)" "sid = Repo p" by blast
    with assms(3) [unfolded map_le_def, rule_format, of ov] have "sw_overlays W' ov = Some (k, Some p)" by (simp add: domI)
    with \<open>sid \<in> srv_repo_stores s\<close> \<open>sid = Repo p\<close> show ?thesis by blast
  qed
  ultimately show ?thesis using I(2-4) assms(2,5) by (simp add: server_invar_def)
qed

lemma overlays_keyedD: "overlays_keyed W \<Longrightarrow> sw_overlays W ov = Some (k, r) \<Longrightarrow> \<exists>p. r = Some p \<and> sw_keys W (Repo p) \<noteq> None"
  unfolding overlays_keyed_def by blast

lemma overlays_keyed_create:
  assumes "overlays_keyed W" "sw_keys W' (Repo p) \<noteq> None" "sw_keys W \<subseteq>\<^sub>m sw_keys W'"
    "sw_overlays W' = (sw_overlays W)(ov \<mapsto> (secret, Some p))"
  shows "overlays_keyed W'"
  unfolding overlays_keyed_def
proof (intro allI impI)
  fix ov' k r assume ov': "sw_overlays W' ov' = Some (k, r)"
  show "\<exists>p. r = Some p \<and> sw_keys W' (Repo p) \<noteq> None"
  proof (cases "ov' = ov")
    case False
    with ov' assms(4) have "sw_overlays W ov' = Some (k, r)" by simp
    from overlays_keyedD [OF assms(1) this] obtain p where "r = Some p" "Repo p \<in> dom (sw_keys W)" by auto
    with assms(3) show ?thesis by (metis domIff map_le_def)
  qed (use ov' assms(2,4) in auto)
qed

lemma create_overlay_spec_keeps:
  assumes "overlays_keyed W" "sw_overlays W ov = None"
  shows "sw_overlays W \<subseteq>\<^sub>m sw_overlays (snd (create_overlay_spec Local random ov repo secret W))"
    "sw_keys W \<subseteq>\<^sub>m sw_keys (snd (create_overlay_spec Local random ov repo secret W))"
    "overlays_keyed (snd (create_overlay_spec Local random ov repo secret W))"
proof -
  let ?W = "snd (create_overlay_spec Local random ov repo secret W)"
  show ov: "sw_overlays W \<subseteq>\<^sub>m sw_overlays ?W" and keys: "sw_keys W \<subseteq>\<^sub>m sw_keys ?W"
    using assms(2) by (auto simp: create_overlay_spec_def Let_def map_le_def)
  show "overlays_keyed ?W"
  proof (cases repo)
    case None
    with assms(1) show ?thesis by (simp add: create_overlay_spec_def)
  next
    case (Some p)
    then have "sw_keys ?W (Repo p) \<noteq> None" "sw_overlays ?W = (sw_overlays W)(ov \<mapsto> (secret, Some p))"
      by (auto simp: create_overlay_spec_def Let_def)
    from overlays_keyed_create [OF assms(1) this(1) keys this(2)] show ?thesis .
  qed
qed

lemma join_spec_keeps:
  assumes "overlays_keyed W" "snd (join_spec Local random user ov repo secret adverts W) = W'"
  shows "sw_overlays W \<subseteq>\<^sub>m sw_overlays W'" "sw_keys W \<subseteq>\<^sub>m sw_keys W'" "overlays_keyed W'"
proof -
  define p where "p = (if sw_overlays W ov = None then create_overlay_spec Local random ov repo secret W else (Ok (), W))"
  have p: "sw_overlays W \<subseteq>\<^sub>m sw_overlays (snd p) \<and> sw_keys W \<subseteq>\<^sub>m sw_keys (snd p) \<and> overlays_keyed (snd p)"
    using create_overlay_spec_keeps [OF assms(1)] assms(1) by (simp add: p_def)
  have "sw_overlays W' = sw_overlays (snd p) \<and> sw_keys W' = sw_keys (snd p)"
    using assms(2) unfolding join_spec_def p_def [symmetric]
    by (cases p; cases "fst p") (auto simp: Let_def add_peers_spec_def split: if_splits)
  with p show "sw_overlays W \<subseteq>\<^sub>m sw_overlays W'" "sw_keys W \<subseteq>\<^sub>m sw_keys W'" "overlays_keyed W'"
    by (simp_all add: overlays_keyed_def)
qed

lemma add_user_serves:
  assumes "lawful_env X E L" "server_invar X E L s W"
  shows "\<exists>st. add_user X E admin_user user_id sig s = (fst (add_user_spec X admin_user user_id sig W), s\<lparr>srv_store := st\<rparr>)
    \<and> server_invar X E L (s\<lparr>srv_store := st\<rparr>) (snd (add_user_spec X admin_user user_id sig W))"
proof -
  note I = server_invarD [OF assms(2)]
  let ?p = "add_user_spec X admin_user user_id sig W"
  have nc: "net_codec X" "be_store E = lmdb_broker (el_rkv L)" using assms(1) by (auto simp: lawful_env_def)
  from lmdb.add_user_follows [OF nc I(1), of admin_user user_id sig] obtain st where
    st: "add_user X E admin_user user_id sig s = (fst ?p, s\<lparr>srv_store := st\<rparr>)"
      "view_of X L (s\<lparr>srv_store := st\<rparr>) (snd ?p)" by blast
  have p: "sw_overlays (snd ?p) = sw_overlays W" "sw_keys (snd ?p) = sw_keys W"
    by (simp_all add: add_user_spec_def)
  have "overlays_keyed (snd ?p)" using I(6) by (simp add: overlays_keyed_def p)
  with st server_invar_view [OF assms(2) st(2)] p show ?thesis by auto
qed

lemma join_overlay_serves:
  assumes "lawful_env X E L" "server_invar X E L s W" "clock_ok clock"
  shows "\<exists>st. join_overlay X E clock random user ov repo secret adverts s
      = (fst (join_spec Local random user ov repo secret adverts W), s\<lparr>srv_store := st\<rparr>)
    \<and> server_invar X E L (s\<lparr>srv_store := st\<rparr>) (snd (join_spec Local random user ov repo secret adverts W))"
proof -
  note I = server_invarD [OF assms(2)]
  let ?p = "join_spec Local random user ov repo secret adverts W"
  have nc: "net_codec X" "be_store E = lmdb_broker (el_rkv L)" using assms(1) by (auto simp: lawful_env_def)
  from assms(3) obtain now where "now_timestamp clock = (Ok now :: (Timestamp, StorageError) result)"
    unfolding clock_ok_def using now_timestamp_any by blast
  from lmdb.join_overlay_follows [OF nc I(1) this, of random user ov repo secret adverts] I(2) obtain st where
    st: "join_overlay X E clock random user ov repo secret adverts s = (fst ?p, s\<lparr>srv_store := st\<rparr>)"
      "view_of X L (s\<lparr>srv_store := st\<rparr>) (snd ?p)" by auto
  have "overlays_keyed W" using I(6) by (simp add: overlays_keyed_def)
  note k = join_spec_keeps [OF this refl, of random user ov repo secret adverts]
  from st server_invar_view [OF assms(2) st(2) k] show ?thesis by blast
qed

lemma spec_no_panic:
  "fst (add_user_spec X admin_user user_id sig W) \<noteq> Panic"
  "fst (join_spec mode random user ov repo secret adverts W) \<noteq> Panic"
  unfolding add_user_spec_def join_spec_def create_overlay_spec_def Let_def by (simp_all add: prod.case_eq_if)

end
