(* ===== verification/Lofire_Server_Instance.thy ===== *)
theory Lofire_Server_Instance
  imports Lofire_Serving
begin

text \<open>
  A concrete server for the witnesses: the environments of \<open>Lofire_Lmdb_Instance\<close> and \<open>Lofire_Broker_Store\<close>, and
  serializers that know the messages of one session.
\<close>

section \<open>A server\<close>

definition auth_content_codec :: "ClientAuthContentV0 codec" where
  "auth_content_codec = map_codec (\<lambda>c. (cac_user c, cac_client c, cac_nonce c))
     (\<lambda>(u, c, n). \<lparr>cac_user = u, cac_client = c, cac_nonce = n\<rparr>)
     (pair_codec pubkey_codec (pair_codec pubkey_codec (list_codec byte_codec)))"

definition demo_auth_content :: ClientAuthContentV0 where
  "demo_auth_content = \<lparr>cac_user = demo_pubkey, cac_client = demo_pubkey, cac_nonce = bytes_of (fill32 9)\<rparr>"

definition demo_sign :: "bytes \<Rightarrow> Sig" where
  "demo_sign bs = Ed25519Sig (fill32 1, fill32 (checksum bs))"

definition demo_client_auth :: ClientAuth where
  "demo_client_auth = ClientAuth.V0 \<lparr>ca_content = demo_auth_content, ca_sig = demo_sign (fst auth_content_codec demo_auth_content)\<rparr>"

text \<open>The frame \<open>[1]\<close> starts a session, \<open>[2]\<close> authenticates the demo user, \<open>[3, n]\<close> is the message \<open>n\<close>.\<close>

definition demo_server :: "BrokerMessage list \<Rightarrow> server_externs" where
  "demo_server msgs = auth_externs.extend
     (repo_externs.extend demo_repo \<lparr>
        ser_server_hello = server_hello_nonce,
        de_client_auth = (\<lambda>f. if f = [2] then Some demo_client_auth else None),
        ser_client_auth_content = fst auth_content_codec,
        ser_auth_result = (\<lambda>r. ucast (auth_result_result r) # auth_result_metadata r)\<rparr>)
     \<lparr>ser_add_user_content = (\<lambda>c. fst pubkey_codec (auc_user c)),
      de_start_protocol = (\<lambda>f. if f = [1] then Some (StartProtocol.Auth ClientHello.V0) else None),
      de_broker_message = (\<lambda>f. case f of [t, n] \<Rightarrow> if t = 3 \<and> unat n < length msgs then Some (msgs ! unat n) else None | _ \<Rightarrow> None),
      ser_broker_message = (\<lambda>m. [3, of_nat (length (takeWhile (\<lambda>x. x \<noteq> m) msgs))])\<rparr>"

lemma demo_server_fields [simp]:
  "repo_externs.truncate (demo_server msgs) = demo_repo"
  "ser_server_hello (demo_server msgs) = server_hello_nonce"
  "de_client_auth (demo_server msgs) f = (if f = [2] then Some demo_client_auth else None)"
  "ser_client_auth_content (demo_server msgs) = fst auth_content_codec"
  "ser_add_user_content (demo_server msgs) c = fst pubkey_codec (auc_user c)"
  "de_start_protocol (demo_server msgs) f = (if f = [1] then Some (StartProtocol.Auth ClientHello.V0) else None)"
  "de_broker_message (demo_server msgs) [3, n] = (if unat n < length msgs then Some (msgs ! unat n) else None)"
  "ser_broker_message (demo_server msgs) m = [3, of_nat (length (takeWhile (\<lambda>x. x \<noteq> m) msgs))]"
  by (simp_all add: demo_server_def auth_externs.defs repo_externs.defs repo_externs.truncate_def)

lemma demo_server_codecs [simp]:
  "net_codec (demo_server msgs)" "repo_codec (demo_server msgs)"
  using demo_net_codec demo_repo_codec
  by (simp_all add: demo_server_def auth_externs.defs repo_externs.defs demo_repo_def net_externs.defs
      net_codec_def repo_codec_def)

lemma verify_demo_sign: "verify (demo_server msgs) bs (demo_sign bs) demo_pubkey = Ok ()"
  by (simp add: verify_def demo_sign_def demo_pubkey_def demo_server_def auth_externs.defs repo_externs.defs
      demo_repo_def net_externs.defs demo_net_def externs.defs demo_externs_def)

text \<open>All stores are empty, the mode is a parameter.\<close>

type_synonym demo_db = "bytes \<Rightarrow> bytes list"

definition demo_broker_env :: "(demo_db, demo_env) BrokerEnv" where
  "demo_broker_env = \<lparr>be_store = lmdb_broker list_rkv, be_rkv = demo_rkv, be_open = (\<lambda>k d. Some d),
     be_create_dir = (\<lambda>_. True), be_fuel = 5\<rparr>"

lemma demo_fuel [simp]: "be_fuel demo_broker_env = 5"
  by (simp add: demo_broker_env_def)

definition demo_start :: "ConfigMode \<Rightarrow> (demo_db, demo_env) BrokerServer" where
  "demo_start mode = \<lparr>srv_store = (\<lambda>_. []), srv_mode = mode, srv_repo_stores = {}, srv_stores_poisoned = False,
     srv_overlayid_to_repostore = Map.empty, srv_overlays_poisoned = False, srv_disk = (\<lambda>_. demo_empty)\<rparr>"

section \<open>A session\<close>

lemma demo_proves: "proves_user (demo_server msgs) (fill32 9) demo_client_auth"
  by (simp add: proves_user_def demo_client_auth_def demo_auth_content_def verify_demo_sign)

lemma demo_first_auth:
  "auth_outcome (demo_server msgs) (fill32 9) [[0], [2]] = Some demo_pubkey"
  by (simp add: auth_outcome_def first_auth_def List.map_filter_def demo_proves)
     (simp add: demo_client_auth_def demo_auth_content_def)

lemma demo_auth_session:
  "\<exists>replies h. auth_session (demo_server msgs) (fill32 9) [[0], [2]] replies h"
proof -
  let ?X = "demo_server msgs"
  have s0: "auth_session ?X (fill32 9) [] [] (snd (handle_init ?X (fill32 9) ClientHello.V0 auth_new))"
    by (rule auth_session.hello [where client_hello = ClientHello.V0]) (simp add: handle_init_new)
  from auth_handle_incoming_answers [OF s0] obtain r1 h1 where
    s1: "auth_session ?X (fill32 9) ([] @ [[0]]) ([] @ [r1]) h1" by (metis auth_session.frame [OF s0])
  from auth_handle_incoming_answers [OF s1] obtain r2 h2 where
    "auth_session ?X (fill32 9) (([] @ [[0]]) @ [[2]]) (([] @ [r1]) @ [r2]) h2" by (metis auth_session.frame [OF s1])
  then show ?thesis by auto
qed

theorem auth_session_outcome_witness:
  "\<exists>replies h. auth_session (demo_server []) (fill32 9) [[0], [2]] replies h \<and> get_user h = Some demo_pubkey
    \<and> length (filter (\<lambda>r. snd r = None) replies) = 1"
proof -
  from demo_auth_session [of "[]"] obtain replies h where s: "auth_session (demo_server []) (fill32 9) [[0], [2]] replies h" by blast
  from auth_session_outcome [OF s, of "[]"] demo_first_auth [of "[]"] s show ?thesis
    by (intro exI [of _ replies] exI [of _ h]) simp
qed

text \<open>The first message of the session adds the user with key 2.\<close>

definition add_user_message :: BrokerMessage where
  "add_user_message = BrokerMessage.V0 \<lparr>bm_content = BrokerMessageContentV0.BrokerRequest (BrokerRequest.V0
     \<lparr>brq_id = 7, brq_content = BrokerRequestContentV0.AddUser (AddUser.V0
        \<lparr>au_content = \<lparr>auc_user = Ed25519PubKey (fill32 2)\<rparr>,
         au_sig = demo_sign (fst pubkey_codec (Ed25519PubKey (fill32 2)))\<rparr>)\<rparr>), bm_padding = []\<rparr>"

lemma demo_receives:
  "\<exists>c1 c2. connection_receive (demo_server msgs) demo_broker_env clock (fill32 9) True (WsBinary [1]) (connection_new, s) = (Ok (), (c1, s))
    \<and> connection_receive (demo_server msgs) demo_broker_env clock (fill32 9) True (WsBinary [2]) (c1, s) = (Ok (), (c2, s))
    \<and> con_running c1 \<and> \<not> con_closed c1 \<and> con_running c2 \<and> \<not> con_closed c2
    \<and> con_handler c2 = \<lparr>ph_protocol = Broker, ph_auth_protocol = None, ph_broker_protocol = Some demo_pubkey, ph_ext_protocol = False\<rparr>"
proof -
  let ?X = "demo_server msgs"
  let ?a = "snd (handle_init ?X (fill32 9) ClientHello.V0 auth_new)"
  let ?c1 = "connection_new\<lparr>con_handler := protocol_handler\<lparr>ph_protocol := Auth, ph_auth_protocol := Some ?a\<rparr>,
    con_sent := [bytes_of (fill32 9)]\<rparr>"
  have "connection_receive ?X demo_broker_env clock (fill32 9) True (WsBinary [1]) (connection_new, s) = (Ok (), (?c1, s))"
    by (simp add: connection_receive_def connection_new_def protocol_handle_incoming_def protocol_handler_def
        protocol_start_def handle_init_new)
  moreover let ?h = "\<lparr>ph_protocol = Broker, ph_auth_protocol = None, ph_broker_protocol = Some demo_pubkey, ph_ext_protocol = False\<rparr>"
  let ?c2 = "?c1\<lparr>con_handler := ?h, con_sent := [bytes_of (fill32 9), [0]]\<rparr>"
  have v: "verify ?X (fst auth_content_codec demo_auth_content) (demo_sign (fst auth_content_codec demo_auth_content)) demo_pubkey = Ok ()"
    by (rule verify_demo_sign)
  obtain a' where "auth_handle_incoming ?X [2] ?a = (Ok ([0], None), a')" "ah_user a' = Some demo_pubkey"
    using v by (simp add: auth_handle_incoming_def process_state_def consume_def handle_init_new auth_prepare_reply_def
        demo_client_auth_def demo_auth_content_def Let_def)
      (simp add: demo_server_def auth_externs.defs repo_externs.defs)
  then have "protocol_auth ?X [2] (con_handler ?c1) = (Ok ([0], None), ?h)"
    by (simp add: protocol_auth_def connection_new_def protocol_handler_def get_user_def)
  then have "connection_receive ?X demo_broker_env clock (fill32 9) True (WsBinary [2]) (?c1, s) = (Ok (), (?c2, s))"
    by (simp add: connection_receive_def connection_new_def protocol_handle_incoming_def protocol_handler_def)
  ultimately show ?thesis by (intro exI [of _ ?c1] exI [of _ ?c2]) (simp add: connection_new_def)
qed

lemma demo_connection_run:
  "\<exists>c. connection_run (demo_server msgs) demo_broker_env [WsBinary [1], WsBinary [2]] c (demo_start mode) \<and> con_running c
    \<and> \<not> con_closed c \<and> con_handler c = \<lparr>ph_protocol = Broker, ph_auth_protocol = None, ph_broker_protocol = Some demo_pubkey,
        ph_ext_protocol = False\<rparr>"
proof -
  let ?X = "demo_server msgs" and ?s = "demo_start mode"
  from demo_receives [of msgs 0 ?s] obtain c1 c2 where
    c1: "connection_receive ?X demo_broker_env 0 (fill32 9) True (WsBinary [1]) (connection_new, ?s) = (Ok (), (c1, ?s))"
      "con_running c1" "\<not> con_closed c1"
    and c2: "connection_receive ?X demo_broker_env 0 (fill32 9) True (WsBinary [2]) (c1, ?s) = (Ok (), (c2, ?s))"
      "con_running c2" "\<not> con_closed c2" "con_handler c2 = \<lparr>ph_protocol = Broker, ph_auth_protocol = None,
         ph_broker_protocol = Some demo_pubkey, ph_ext_protocol = False\<rparr>" by blast
  from connection_run.receive [OF connection_run.start _ _ c1(1)]
  have "connection_run ?X demo_broker_env [WsBinary [1]] c1 ?s" by (simp add: connection_new_def)
  from connection_run.receive [OF this c1(2) _ c2(1)] c1(3) c2(2-4) show ?thesis by (intro exI [of _ c2]) simp
qed

section \<open>Its invariant\<close>

definition demo_laws :: "(demo_db, demo_env) EnvLaws" where
  "demo_laws = \<lparr>el_rkv = list_rkv, el_good = list_db_ok, el_vals = list_vals, el_rgood = (\<lambda>_. demo_good),
     el_single = fst, el_multi = demo_multi\<rparr>"

definition empty_view :: ServerView where
  "empty_view = \<lparr>sw_users = (\<lambda>_. no_account), sw_peers = Map.empty, sw_overlays = Map.empty,
     sw_overlay_peers = (\<lambda>_. {}), sw_keys = Map.empty, sw_mode = None\<rparr>"

lemma demo_lawful [simp]: "lawful_env (demo_server msgs) demo_broker_env demo_laws"
  by (simp add: lawful_env_def demo_broker_env_def demo_laws_def)

lemma demo_view [simp]: "view_of X demo_laws (demo_start mode) empty_view"
  by (simp add: holds_view_def demo_laws_def demo_start_def empty_view_def server_rel_def)
    (simp add: overlay_rel_def key_rel_def mode_rel_def list_vals_def)

lemma demo_stored [simp]: "stored X demo_broker_env demo_laws k demo_empty"
  unfolding stored_def demo_broker_env_def demo_laws_def
  by (rule exI [of _ no_view]) (simp add: nothing_synced_def, simp add: no_view_def)

lemma demo_invar [simp]: "server_invar X demo_broker_env demo_laws (demo_start Local) empty_view"
  by (simp add: server_invar_def overlays_keyed_def) (simp add: demo_start_def empty_view_def)

lemma demo_add_user:
  "\<exists>s'. handle_broker_request (demo_server msgs) demo_broker_env demo_pubkey (BrokerRequestContentV0.AddUser (AddUser.V0
        \<lparr>au_content = \<lparr>auc_user = Ed25519PubKey (fill32 2)\<rparr>,
         au_sig = demo_sign (fst pubkey_codec (Ed25519PubKey (fill32 2)))\<rparr>)) (demo_start mode) = (Ok (), s')
    \<and> s' \<noteq> demo_start mode"
proof -
  let ?X = "demo_server msgs" and ?u = "Ed25519PubKey (fill32 2)" and ?sig = "demo_sign (fst pubkey_codec (Ed25519PubKey (fill32 2)))"
  let ?p = "add_user_spec ?X demo_pubkey ?u ?sig empty_view"
  have nc: "net_codec ?X" by simp
  have B: "be_store demo_broker_env = lmdb_broker list_rkv" by (simp add: demo_broker_env_def)
  from demo_view [of ?X mode] have view: "holds_view ?X (lmdb_ok list_rkv list_db_ok list_vals) list_vals (demo_start mode) empty_view"
    by (simp add: demo_laws_def)
  from lmdb.add_user_follows [OF nc B view, of demo_pubkey ?u ?sig] obtain st where
    st: "add_user ?X demo_broker_env demo_pubkey ?u ?sig (demo_start mode) = (fst ?p, demo_start mode\<lparr>srv_store := st\<rparr>)"
      "holds_view ?X (lmdb_ok list_rkv list_db_ok list_vals) list_vals (demo_start mode\<lparr>srv_store := st\<rparr>) (snd ?p)" by blast
  have p: "?p = (Ok (), empty_view\<lparr>sw_users := (sw_users empty_view)(?u := (sw_users empty_view ?u)\<lparr>ae_admin := Some False\<rparr>)\<rparr>)"
    by (simp add: add_user_spec_def verify_demo_sign empty_view_def no_account_def)
  let ?q = "compute_property ACCOUNT_PREFIX (ser_pubkey ?X ?u) (Some ACCOUNT_ADMIN)"
  have "list_vals st ?q \<noteq> {}"
    using account_relD(1) [OF server_relD(1) [OF holds_viewD(2) [OF st(2)]], of ?u] p by simp
  then have "st \<noteq> (\<lambda>_. [])" by (auto simp: list_vals_def)
  then have "demo_start mode\<lparr>srv_store := st\<rparr> \<noteq> demo_start mode" by (simp add: demo_start_def)
  with st(1) p show ?thesis by (simp add: handle_broker_request_def)
qed

theorem only_proven_users_act_witness:
  "\<exists>c c' s' r. connection_run (demo_server [add_user_message]) demo_broker_env [WsBinary [1], WsBinary [2]] c (demo_start Local)
    \<and> connection_receive (demo_server [add_user_message]) demo_broker_env 0 (fill32 9) True (WsBinary [3, 0]) (c, demo_start Local) = (r, (c', s'))
    \<and> s' \<noteq> demo_start Local
    \<and> (\<exists>nonce user. proven (demo_server [add_user_message]) nonce [[1], [2]] user)"
proof -
  let ?X = "demo_server [add_user_message]" and ?s = "demo_start Local"
  from demo_connection_run [of "[add_user_message]" Local] obtain c where
    c: "connection_run ?X demo_broker_env [WsBinary [1], WsBinary [2]] c ?s" "con_running c" "\<not> con_closed c"
      "con_handler c = \<lparr>ph_protocol = Broker, ph_auth_protocol = None, ph_broker_protocol = Some demo_pubkey, ph_ext_protocol = False\<rparr>" by blast
  from demo_add_user [of "[add_user_message]" Local] obtain s' where
    s': "handle_broker_request ?X demo_broker_env demo_pubkey (BrokerRequestContentV0.AddUser (AddUser.V0
        \<lparr>au_content = \<lparr>auc_user = Ed25519PubKey (fill32 2)\<rparr>,
         au_sig = demo_sign (fst pubkey_codec (Ed25519PubKey (fill32 2)))\<rparr>)) ?s = (Ok (), s')" "s' \<noteq> ?s" by blast
  obtain r c' s'' where step: "connection_receive ?X demo_broker_env 0 (fill32 9) True (WsBinary [3, 0]) (c, ?s) = (r, (c', s''))"
    by (metis surj_pair)
  have "s'' = s'"
    using step c s'(1) by (auto simp: connection_receive_def protocol_handle_incoming_def protocol_broker_def
        broker_handle_incoming_def add_user_message_def Let_def)
  with only_proven_users_act [OF c(1,2) step] step c(1) s'(2) show ?thesis
    by (auto intro!: exI)
qed

theorem replies_well_typed_witness:
  "\<exists>s' out. broker_handle_incoming (demo_server []) demo_broker_env 1700000000 (fill32 9) demo_pubkey add_user_message (demo_start Local)
      = (Ok out :: (BrokerMessage \<times> BrokerMessage list option, ProtocolError) result, s')
    \<and> responds add_user_message (fst out) \<and> broker_message_id (fst out) = (Ok 7 :: (u64, unit) result)"
proof -
  from demo_add_user [of "[]" Local] obtain s' where
    "handle_broker_request (demo_server []) demo_broker_env demo_pubkey (BrokerRequestContentV0.AddUser (AddUser.V0
        \<lparr>au_content = \<lparr>auc_user = Ed25519PubKey (fill32 2)\<rparr>,
         au_sig = demo_sign (fst pubkey_codec (Ed25519PubKey (fill32 2)))\<rparr>)) (demo_start Local) = (Ok (), s')" by blast
  then have out: "broker_handle_incoming (demo_server []) demo_broker_env 1700000000 (fill32 9) demo_pubkey add_user_message (demo_start Local)
      = (Ok (prepare_reply_broker_message (Inr ()) 7 padding_size, None) :: (BrokerMessage \<times> BrokerMessage list option, ProtocolError) result, s')"
    by (simp add: broker_handle_incoming_def add_user_message_def)
  from replies_well_typed [OF this] out show ?thesis by (auto simp: prepare_reply_broker_message_def)
qed

end
