(* ===== verification/Lofire_Repo_Spec.thy ===== *)
theory Lofire_Repo_Spec
  imports Lofire_Serving
begin

text \<open>
  What the requests for blocks, objects and branches mean on the map of a repository's blocks, and that they do so on
  its LMDB store.
\<close>

section \<open>Synchronizing on any store\<close>

text \<open>An operation on a store that represents the map \<open>m\<close>, with the outcome it has on the map, which it does not change.\<close>

definition holding :: "('s \<Rightarrow> bool) \<Rightarrow> ('s \<Rightarrow> BlockId \<rightharpoonup> Block) \<Rightarrow> (BlockId \<rightharpoonup> Block) \<Rightarrow> 's \<Rightarrow> bool" where
  "holding P \<alpha> m s \<longleftrightarrow> P s \<and> \<alpha> s = m"

definition follows :: "('s \<Rightarrow> bool) \<Rightarrow> (BlockId \<rightharpoonup> Block) \<Rightarrow> ('a, 'e, 's) op \<Rightarrow> ('a, 'e, BlockId \<rightharpoonup> Block) op \<Rightarrow> bool" where
  "follows P m p q \<longleftrightarrow> fst p = fst q \<and> snd q = m \<and> P (snd p)"

lemma follows_then:
  assumes "follows P m p q" "\<And>x s. fst p = Ok x \<Longrightarrow> P s \<Longrightarrow> follows P m (f x s) (g x m)"
  shows "follows P m (op_then p f) (op_then q g)"
  using assms by (cases p; cases q; cases "fst p") (auto simp: follows_def)

context repo_store
begin

lemma load_follows:
  assumes "holding invar \<alpha> m s"
  obtains s' r r' where "object_load X S n i k s = (r, s')" "object_load X (map_store X) n i k m = (r', m)"
    "rel_result (alike_objects X) (=) r r'" "holding invar \<alpha> m s'"
  using object_load_sim [of s n i k] assms that unfolding holding_def by auto

lemma sync_deps_sim:
  assumes rec: "\<And>ob ob' s v ms. holding invar \<alpha> m s \<Longrightarrow> alike_objects X ob ob' \<Longrightarrow> follows (holding invar \<alpha> m) m (rec ob s v ms) (rec' ob' m v ms)"
    and "holding invar \<alpha> m s"
  shows "follows (holding invar \<alpha> m) m (sync_deps rec X S n ds s f v ms) (sync_deps rec' X (map_store X) n ds m f v ms)"
  using assms(2)
proof (induction ds arbitrary: s f v ms)
  case (Cons i ds)
  obtain s' r r' where r: "object_load X S n i None s = (r, s')" "object_load X (map_store X) n i None m = (r', m)"
      "rel_result (alike_objects X) (=) r r'" "holding invar \<alpha> m s'" by (rule load_follows [OF Cons.prems])
  from r(3) show ?case
  proof (cases rule: result.rel_cases)
    case (Ok ob ob')
    have "follows (holding invar \<alpha> m) m (op_then (rec ob s' v ms) (\<lambda>(f', v, ms) st. sync_deps rec X S n ds st (f' \<or> f) v ms))
        (op_then (rec' ob' m v ms) (\<lambda>(f', v, ms) st. sync_deps rec' X (map_store X) n ds st (f' \<or> f) v ms))"
      by (rule follows_then [OF rec [OF r(4) Ok(3)]]) (auto intro: Cons.IH split: prod.split)
    with r Ok Cons.IH [OF r(4)] show ?thesis by simp
  next
    case (Err e e')
    with r Cons.IH [OF r(4)] show ?thesis by (cases e') (simp_all add: follows_def)
  qed (use r in \<open>simp_all add: follows_def\<close>)
qed (simp add: follows_def)

lemma sync_load_branch_sim:
  assumes "holding invar \<alpha> m s" "alike_objects X ob ob'"
  shows "follows (holding invar \<alpha> m) m (sync_load_branch X S n th fuel ob s v ms) (sync_load_branch X (map_store X) n th fuel ob' m v ms)"
  using assms
proof (induction fuel arbitrary: s ob ob' v ms)
  case (Suc fuel)
  have ids: "(object_id X ob :: (ObjectId, ObjectParseError) result) = object_id X ob'" "obj_deps ob = obj_deps ob'"
    using Suc.prems(2) object_id_alike by (auto simp: alike_objects_def)
  have "follows (holding invar \<alpha> m) m (object_id X ob' :: (ObjectId, ObjectParseError) result, s) (object_id X ob', m)"
    using Suc.prems(1) by (simp add: follows_def)
  then show ?case unfolding sync_load_branch.simps ids
    by (rule follows_then) (auto simp: Let_def intro!: sync_deps_sim Suc.IH, simp_all add: follows_def)
qed (simp add: follows_def)

lemma sync_heads_sim:
  assumes "holding invar \<alpha> m s"
  shows "follows (holding invar \<alpha> m) m (sync_heads X S n fuel stop hs s acc ms) (sync_heads X (map_store X) n fuel stop hs m acc ms)"
  using assms
proof (induction hs arbitrary: s acc ms)
  case (Cons i hs)
  obtain s' r r' where r: "object_load X S n i None s = (r, s')" "object_load X (map_store X) n i None m = (r', m)"
      "rel_result (alike_objects X) (=) r r'" "holding invar \<alpha> m s'" by (rule load_follows [OF Cons.prems])
  from r(3) show ?case
  proof (cases rule: result.rel_cases)
    case (Ok ob ob')
    with r show ?thesis by (auto intro!: follows_then [OF sync_load_branch_sim] Cons.IH split: prod.split)
  qed (use r in \<open>simp_all add: follows_def\<close>)
qed (simp add: follows_def)

lemma sync_req_sim:
  assumes "holding invar \<alpha> m s"
  shows "follows (holding invar \<alpha> m) m (sync_req X S n fuel our their bf s) (sync_req X (map_store X) n fuel our their bf m)"
proof -
  have ends: "holding invar \<alpha> m s \<Longrightarrow> follows (holding invar \<alpha> m) m (Ok x, s) (Ok x, m)" for x :: "ObjectId list" and s by (simp add: follows_def)
  show ?thesis unfolding sync_req_def
    by (rule follows_then [OF sync_heads_sim [OF assms]]) (auto intro!: follows_then [OF sync_heads_sim] ends split: prod.split)
qed

end

section \<open>The calls on a map of blocks\<close>

datatype OverlayCall =
    OvPut Block
  | OvGet BlockId "PubKey option"
  | OvGetObject ObjectId "PubKey option"
  | OvDelObject ObjectId
  | OvPinObject ObjectId
  | OvUnpinObject ObjectId
  | OvSyncBranch "ObjectId list" "ObjectId list" BloomFilter

text \<open>An answer holds the blocks as they are serialized, without the cached identifier and key, with the identifiers that the receiver sees.\<close>

datatype ServerAnswer = Done | Sent "(BlockId \<times> Block) list"

definition addressed :: "'x externs_scheme \<Rightarrow> Block \<Rightarrow> BlockId \<times> Block" where
  "addressed X b = (block_id X b, plain b)"

definition load_on :: "'x externs_scheme \<Rightarrow> nat \<Rightarrow> (BlockId \<rightharpoonup> Block) \<Rightarrow> ObjectId \<Rightarrow> (Object, ObjectParseError) result" where
  "load_on X n m i = fst (object_load X (map_store X) n i None m)"

lemma load_on_leaf:
  assumes "m i = Some (Block.V0 b)" "blk_children b = []" "blk_deps b = ObjectIdList ds"
  shows "load_on X (Suc n) m i = Ok \<lparr>obj_blocks = [Block.V0 (b\<lparr>blk_id := Some i, blk_key := None\<rparr>)], obj_deps = ds\<rparr>"
  using assms by (simp add: load_on_def object_load_Suc load_tree.simps(2) map_store_def load_deps_def with_key_def)

fun load_all :: "'x externs_scheme \<Rightarrow> nat \<Rightarrow> (BlockId \<rightharpoonup> Block) \<Rightarrow> ObjectId list \<Rightarrow> (Block list, ObjectParseError) result" where
  "load_all X n m [] = Ok []"
| "load_all X n m (i # ids) = and_then (load_on X n m i) (\<lambda>ob. and_then (load_all X n m ids) (\<lambda>bs. Ok (obj_blocks ob @ bs)))"

text \<open>The first of the blocks with each identifier.\<close>

definition each_once :: "'x server_externs_scheme \<Rightarrow> Block list \<Rightarrow> (BlockId \<times> Block) list" where
  "each_once X bs = map (addressed X) (snd (send_blocks X bs {} []))"

fun repo_spec ::
  "'x server_externs_scheme \<Rightarrow> nat \<Rightarrow> OverlayCall \<Rightarrow> (BlockId \<rightharpoonup> Block) \<Rightarrow> (ServerAnswer, ProtocolError, BlockId \<rightharpoonup> Block) op" where
  "repo_spec X n (OvPut b) m = (Ok Done, m(block_id X b \<mapsto> plain b))"
| "repo_spec X n (OvGet i topic) m = (case m i of None \<Rightarrow> Err ProtocolError.NotFound | Some b \<Rightarrow> Ok (Sent [(i, b)]), m)"
| "repo_spec X n (OvGetObject i topic) m =
     (and_then (map_err (\<lambda>_. ProtocolError.NotFound) (load_on X n m i)) (\<lambda>ob. Ok (Sent (each_once X (obj_blocks ob)))), m)"
| "repo_spec X n (OvDelObject i) m = op_then (map_err (\<lambda>_. ProtocolError.NotFound) (load_on X n m i), m)
     (\<lambda>ob m. (Ok Done, m |` (- block_id X ` set (obj_blocks ob))))"
| "repo_spec X n (OvPinObject i) m = (and_then (map_err (\<lambda>_. ProtocolError.NotFound) (load_on X n m i)) (\<lambda>_. Ok Done), m)"
| "repo_spec X n (OvUnpinObject i) m = (and_then (map_err (\<lambda>_. ProtocolError.NotFound) (load_on X n m i)) (\<lambda>_. Ok Done), m)"
| "repo_spec X n (OvSyncBranch heads known bf) m =
     (and_then (map_err (\<lambda>_. ProtocolError.ObjectParseError) (fst (sync_req X (map_store X) n n heads known bf m))) (\<lambda>ids.
      and_then (map_err from_object_parse_error (load_all X n m ids)) (\<lambda>bs. Ok (Sent (each_once X bs)))), m)"

section \<open>The same on the store\<close>

text \<open>The closures that the requests run on the store of an overlay.\<close>

fun repo_action :: "'x server_externs_scheme \<Rightarrow> ('b, 'd) BrokerEnv \<Rightarrow> u64 \<Rightarrow> OverlayCall \<Rightarrow> 'd \<Rightarrow> (ServerAnswer, ProtocolError, 'd) op" where
  "repo_action X E clock (OvPut b) d =
     op_then (apfst (map_err from_storage_error) (lmdb_repo_put X (be_rkv E) d b)) (\<lambda>_ d. (Ok Done, d))"
| "repo_action X E clock (OvGet i topic) d =
     op_then (apfst (map_err from_storage_error) (lmdb_repo_get X (be_rkv E) clock d i)) (\<lambda>b d. (Ok (Sent (map (addressed X) [b])), d))"
| "repo_action X E clock (OvGetObject i topic) d =
     op_then (load_or_not_found X E clock i d) (\<lambda>ob d. (Ok (Sent (each_once X (obj_blocks ob))), d))"
| "repo_action X E clock (OvDelObject i) d = op_then (op_then (load_or_not_found X E clock i d)
     (\<lambda>ob d. for_each_block X (lmdb_repo_del X (be_rkv E)) (obj_blocks ob) {} d)) (\<lambda>_ d. (Ok Done, d))"
| "repo_action X E clock (OvPinObject i) d = op_then (op_then (load_or_not_found X E clock i d)
     (\<lambda>ob d. for_each_block X (pin X (be_rkv E)) (obj_blocks ob) {} d)) (\<lambda>_ d. (Ok Done, d))"
| "repo_action X E clock (OvUnpinObject i) d = op_then (op_then (load_or_not_found X E clock i d)
     (\<lambda>ob d. for_each_block X (unpin X (be_rkv E)) (obj_blocks ob) {} d)) (\<lambda>_ d. (Ok Done, d))"
| "repo_action X E clock (OvSyncBranch heads known bf) d =
     op_then (apfst (map_err (\<lambda>_. ProtocolError.ObjectParseError))
       (sync_req X (repo_of X E clock) (be_fuel E) (be_fuel E) heads known bf d)) (\<lambda>ids d.
     op_then (send_objects X E clock ids {} [] d) (\<lambda>bs d. (Ok (Sent (map (addressed X) bs)), d)))"

lemma send_blocks_plain:
  assumes "list_all2 (same_block X) bs bs'" "map (addressed X) r = map (addressed X) r'"
  shows "fst (send_blocks X bs D r) = fst (send_blocks X bs' D r')
    \<and> map (addressed X) (snd (send_blocks X bs D r)) = map (addressed X) (snd (send_blocks X bs' D r'))"
  using assms by (induction bs bs' arbitrary: D r r' rule: list_all2_induct) (simp_all add: same_block_def addressed_def Let_def)

lemma send_blocks_append:
  "send_blocks X (as @ bs) D r = (case send_blocks X as D r of (D, r) \<Rightarrow> send_blocks X bs D r)"
  by (induction as arbitrary: D r) (simp_all add: Let_def)

lemma keeps_load:
  assumes "repo_codec X" "clock_ok clock" "keeps X E L k m d"
  obtains r d' where "object_load X (repo_of X E clock) n i None d = (r, d')"
    "rel_result (alike_objects X) (=) r (load_on X n m i)" "keeps X E L k m d'" "r \<noteq> Panic"
    "\<forall>ob. r = Ok ob \<longrightarrow> held X m (obj_blocks ob)"
proof -
  have d: "stored X E L k d" "blocks_in X L d = m" using assms(3) by (simp_all add: keeps_def)
  note inv = stored_lmdb [OF assms(1,2), of E L k]
  from lm.object_load_sim [OF iffD2 [OF inv d(1)], of n i None] act_load [OF assms(1,2) d(1), of n i None] d(2) show ?thesis
    by (auto simp: inv keeps_def load_on_def intro!: that)
qed

lemma keeps_load_or_not_found:
  assumes "repo_codec X" "clock_ok clock" "keeps X E L k m d"
  obtains r d' where "load_or_not_found X E clock i d = (r, d')" "keeps X E L k m d'" "r \<noteq> Panic"
    "rel_result (alike_objects X) (=) r (map_err (\<lambda>_. ProtocolError.NotFound) (load_on X (be_fuel E) m i))"
    "\<forall>ob. r = Ok ob \<longrightarrow> held X m (obj_blocks ob)"
proof -
  obtain r d' where r: "object_load X (repo_of X E clock) (be_fuel E) i None d = (r, d')"
    "rel_result (alike_objects X) (=) r (load_on X (be_fuel E) m i)" "keeps X E L k m d'" "r \<noteq> Panic"
    "\<forall>ob. r = Ok ob \<longrightarrow> held X m (obj_blocks ob)" by (rule keeps_load [OF assms, where n = "be_fuel E" and i = i])
  with that [of "map_err (\<lambda>_. ProtocolError.NotFound) r" d'] show ?thesis
    by (cases r; cases "load_on X (be_fuel E) m i") (simp_all add: load_or_not_found_def)
qed

lemma alike_same: "alike_objects X a b \<Longrightarrow> list_all2 (same_block X) (obj_blocks a) (obj_blocks b)"
  by (simp add: alike_objects_def alike_list_same)

lemma alike_each_once: "alike_objects X a b \<Longrightarrow> each_once X (obj_blocks a) = each_once X (obj_blocks b)"
  using send_blocks_plain [OF alike_same, of X a b "[]" "[]" "{}"] by (simp add: each_once_def)

lemma alike_ids: "list_all2 (same_block X) as bs \<Longrightarrow> block_id X ` set as = block_id X ` set bs"
  by (induction rule: list_all2_induct) (auto simp: same_block_def)

lemma del_each:
  assumes rc: "repo_codec X" and d: "keeps X E L k m d" and bs: "\<forall>b \<in> set bs. block_id X b \<notin> D \<longrightarrow> m (block_id X b) \<noteq> None"
  shows "\<exists>d'. for_each_block X (lmdb_repo_del X (be_rkv E)) bs D d = (Ok (), d')
    \<and> keeps X E L k (m |` (- (block_id X ` set bs - D))) d'"
  using d bs
proof (induction bs arbitrary: D d m)
  case Nil
  then show ?case by simp
next
  case (Cons b bs)
  show ?case
  proof (cases "block_id X b \<in> D")
    case True
    with Cons.IH [OF Cons.prems(1), of D] Cons.prems(2) show ?thesis by (simp add: insert_Diff_if)
  next
    case False
    let ?m = "m(block_id X b := None)"
    from act_del [OF rc, of E L k d "block_id X b"] Cons.prems False obtain x d1 where
      d1: "lmdb_repo_del X (be_rkv E) d (block_id X b) = (Ok x, d1)" "keeps X E L k ?m d1" by (auto simp: keeps_def res_simps)
    have "\<forall>c \<in> set bs. block_id X c \<notin> insert (block_id X b) D \<longrightarrow> ?m (block_id X c) \<noteq> None" using Cons.prems(2) by auto
    from Cons.IH [OF d1(2) this] obtain d' where
      d': "for_each_block X (lmdb_repo_del X (be_rkv E)) bs (insert (block_id X b) D) d1 = (Ok (), d')"
        "keeps X E L k (?m |` (- (block_id X ` set bs - insert (block_id X b) D))) d'" by blast
    have "?m |` (- (block_id X ` set bs - insert (block_id X b) D)) = m |` (- (block_id X ` set (b # bs) - D))"
      using False by (auto simp: restrict_map_def fun_eq_iff)
    with d1(1) d' False show ?thesis by (simp add: Let_def)
  qed
qed

lemma pin_each:
  assumes "repo_codec X" "keeps X E L k m d" "g = pin X (be_rkv E) \<or> g = unpin X (be_rkv E)"
  shows "\<exists>d'. for_each_block X g bs D d = (Ok (), d') \<and> keeps X E L k m d'"
  using assms(2)
proof (induction bs arbitrary: D d)
  case (Cons b bs)
  from act_set_pin [OF assms(1), of E L k d "block_id X b"] Cons.prems assms(3) obtain d1 where
    "g d (block_id X b) = (Ok (), d1)" "keeps X E L k m d1" by (auto simp: keeps_def pin_def unpin_def) metis+
  with Cons.IH Cons.prems show ?case by (auto simp: Let_def)
qed simp

lemma send_objects_follows:
  assumes rc: "repo_codec X" "clock_ok clock" and d: "keeps X E L k m d" and r: "map (addressed X) r = map (addressed X) r'"
  shows "\<exists>res d'. send_objects X E clock ids D r d = (res, d') \<and> res \<noteq> Panic \<and> keeps X E L k m d'
    \<and> and_then res (\<lambda>bs. Ok (map (addressed X) bs)) = and_then (map_err from_object_parse_error (load_all X (be_fuel E) m ids))
        (\<lambda>bs. Ok (map (addressed X) (snd (send_blocks X bs D r'))))"
  using d r
proof (induction ids arbitrary: D r r' d)
  case (Cons i ids)
  obtain q d1 where q: "object_load X (repo_of X E clock) (be_fuel E) i None d = (q, d1)"
    "rel_result (alike_objects X) (=) q (load_on X (be_fuel E) m i)" "keeps X E L k m d1" "q \<noteq> Panic"
    by (rule keeps_load [OF rc Cons.prems(1), where n = "be_fuel E" and i = i])
  from q(2) show ?case
  proof (cases rule: result.rel_cases)
    case (Ok ob ob')
    note same = send_blocks_plain [OF alike_same [OF Ok(3)] Cons.prems(2), of D]
    obtain D1 r1 D2 r2 where sent: "send_blocks X (obj_blocks ob) D r = (D1, r1)" "send_blocks X (obj_blocks ob') D r' = (D2, r2)"
      by (metis surj_pair)
    with same have D: "D2 = D1" and r1: "map (addressed X) r1 = map (addressed X) r2" by auto
    from Cons.IH [OF q(3) r1, of D1] obtain res d' where
      "send_objects X E clock ids D1 r1 d1 = (res, d')" "res \<noteq> Panic" "keeps X E L k m d'"
      "and_then res (\<lambda>bs. Ok (map (addressed X) bs)) = and_then (map_err from_object_parse_error (load_all X (be_fuel E) m ids))
        (\<lambda>bs. Ok (map (addressed X) (snd (send_blocks X bs D1 r2))))" by blast
    with q(1) Ok sent D show ?thesis
      by (cases "load_all X (be_fuel E) m ids") (simp_all add: send_blocks_append)
  qed (use q in auto)
qed simp

lemma repo_follows:
  assumes rc: "repo_codec X" "clock_ok clock" and d: "keeps X E L k m d" and c: "\<And>b. c = OvPut b \<Longrightarrow> honest X b"
  shows "\<exists>d'. repo_action X E clock c d = (fst (repo_spec X (be_fuel E) c m), d')
    \<and> fst (repo_spec X (be_fuel E) c m) \<noteq> Panic \<and> keeps X E L k (snd (repo_spec X (be_fuel E) c m)) d'"
proof (cases c)
  case (OvPut b)
  with act_put [OF rc(1) _ c] d show ?thesis by (fastforce simp: keeps_def)
next
  case (OvGet i topic)
  with act_get [OF rc, of E L k d i] d show ?thesis by (cases "m i") (auto simp: keeps_def addressed_def)
next
  case (OvGetObject i topic)
  obtain r d' where r: "load_or_not_found X E clock i d = (r, d')" "keeps X E L k m d'" "r \<noteq> Panic"
    "rel_result (alike_objects X) (=) r (map_err (\<lambda>_. ProtocolError.NotFound) (load_on X (be_fuel E) m i))"
    by (rule keeps_load_or_not_found [OF rc d])
  from r(4) show ?thesis
    by (cases rule: result.rel_cases) (use r OvGetObject in \<open>auto dest: alike_each_once\<close>)
next
  case (OvDelObject i)
  obtain r d' where r: "load_or_not_found X E clock i d = (r, d')" "keeps X E L k m d'" "r \<noteq> Panic"
    "rel_result (alike_objects X) (=) r (map_err (\<lambda>_. ProtocolError.NotFound) (load_on X (be_fuel E) m i))"
    "\<forall>ob. r = Ok ob \<longrightarrow> held X m (obj_blocks ob)" by (rule keeps_load_or_not_found [OF rc d])
  from r(4) show ?thesis
  proof (cases rule: result.rel_cases)
    case (Ok ob ob')
    with r(5) have "\<forall>b \<in> set (obj_blocks ob). block_id X b \<notin> {} \<longrightarrow> m (block_id X b) \<noteq> None" by (auto simp: held_def)
    from del_each [OF rc(1) r(2) this] Ok r(1) OvDelObject alike_ids [OF alike_same [OF Ok(3)]] show ?thesis by auto
  qed (use r OvDelObject in auto)
next
  case (OvPinObject i)
  obtain r d' where r: "load_or_not_found X E clock i d = (r, d')" "keeps X E L k m d'" "r \<noteq> Panic"
    "rel_result (alike_objects X) (=) r (map_err (\<lambda>_. ProtocolError.NotFound) (load_on X (be_fuel E) m i))"
    by (rule keeps_load_or_not_found [OF rc d])
  from r(4) show ?thesis
  proof (cases rule: result.rel_cases)
    case (Ok ob ob')
    from pin_each [OF rc(1) r(2), of "pin X (be_rkv E)" "obj_blocks ob" "{}"] Ok r(1) OvPinObject show ?thesis by auto
  qed (use r OvPinObject in auto)
next
  case (OvUnpinObject i)
  obtain r d' where r: "load_or_not_found X E clock i d = (r, d')" "keeps X E L k m d'" "r \<noteq> Panic"
    "rel_result (alike_objects X) (=) r (map_err (\<lambda>_. ProtocolError.NotFound) (load_on X (be_fuel E) m i))"
    by (rule keeps_load_or_not_found [OF rc d])
  from r(4) show ?thesis
  proof (cases rule: result.rel_cases)
    case (Ok ob ob')
    from pin_each [OF rc(1) r(2), of "unpin X (be_rkv E)" "obj_blocks ob" "{}"] Ok r(1) OvUnpinObject show ?thesis by auto
  qed (use r OvUnpinObject in auto)
next
  case (OvSyncBranch heads known bf)
  note inv = stored_lmdb [OF rc, of E L k]
  from d have "holding (lmdb_invar X (be_rkv E) (el_rgood L k) (el_single L) (el_multi L) clock) (blocks_in X L) m d"
    by (simp add: keeps_def holding_def inv)
  from lm.sync_req_sim [OF this, of "be_fuel E" "be_fuel E" heads known bf] obtain d1 where
    d1: "sync_req X (repo_of X E clock) (be_fuel E) (be_fuel E) heads known bf d
        = (fst (sync_req X (map_store X) (be_fuel E) (be_fuel E) heads known bf m), d1)" "keeps X E L k m d1"
    by (cases "sync_req X (repo_of X E clock) (be_fuel E) (be_fuel E) heads known bf d")
      (auto simp: follows_def holding_def inv keeps_def)
  have np: "fst (sync_req X (map_store X) (be_fuel E) (be_fuel E) heads known bf m) \<noteq> Panic"
    using sync_req_calm [OF keeps_loads [OF rc] d, of "be_fuel E" "be_fuel E" heads known bf] d1(1) by (auto simp: calm_def)
  show ?thesis
  proof (cases "fst (sync_req X (map_store X) (be_fuel E) (be_fuel E) heads known bf m)")
    case (Ok ids)
    from send_objects_follows [OF rc d1(2) refl, of ids "{}" "[]"] obtain res d' where
      "send_objects X E clock ids {} [] d1 = (res, d')" "res \<noteq> Panic" "keeps X E L k m d'"
      "and_then res (\<lambda>bs. Ok (map (addressed X) bs)) = and_then (map_err from_object_parse_error (load_all X (be_fuel E) m ids))
        (\<lambda>bs. Ok (each_once X bs))" by (auto simp: each_once_def)
    with Ok d1(1) OvSyncBranch show ?thesis
      by (cases res; cases "load_all X (be_fuel E) m ids") auto
  qed (use d1 np OvSyncBranch in auto)
qed

end
