(* ===== verification/Lofire_Server_Spec.thy ===== *)
theory Lofire_Server_Spec
  imports Lofire_Server_Instance Lofire_Repo_Spec
begin

text \<open>
  What a server in the mode \<open>Local\<close> promises: users and overlays in tables, and for every repository a map from
  identifiers to blocks which its overlays share. The server on LMDB stores, its locks and its two hash maps
  included, answers every sequence of calls as this machine does.
\<close>

section \<open>The machine\<close>

record ServerSpec =
  sp_view :: ServerView
  sp_blocks :: "PubKey \<Rightarrow> BlockId \<rightharpoonup> Block"

datatype ServerCall =
    CallAddUser PubKey PubKey Sig
  | CallJoin u64 bytes32 PubKey OverlayId "PubKey option" SymKey "PeerAdvert list"
  | CallOverlay u64 PubKey OverlayId OverlayCall

fun overlay_call ::
  "'x server_externs_scheme \<Rightarrow> ('b, 'd) BrokerEnv \<Rightarrow> u64 \<Rightarrow> PubKey \<Rightarrow> OverlayId \<Rightarrow> OverlayCall \<Rightarrow> ('b, 'd) BrokerServer
   \<Rightarrow> (ServerAnswer, ProtocolError, ('b, 'd) BrokerServer) op" where
  "overlay_call X E clock user ov (OvPut b) s = op_then (put_block X E user ov b s) (\<lambda>_ s. (Ok Done, s))"
| "overlay_call X E clock user ov (OvGet i topic) s =
     op_then (get_block X E clock user ov i False topic s) (\<lambda>bs s. (Ok (Sent (map (addressed X) bs)), s))"
| "overlay_call X E clock user ov (OvGetObject i topic) s =
     op_then (get_block X E clock user ov i True topic s) (\<lambda>bs s. (Ok (Sent (map (addressed X) bs)), s))"
| "overlay_call X E clock user ov (OvDelObject i) s = op_then (del_object X E clock user ov i s) (\<lambda>_ s. (Ok Done, s))"
| "overlay_call X E clock user ov (OvPinObject i) s = op_then (pin_object X E clock user ov i s) (\<lambda>_ s. (Ok Done, s))"
| "overlay_call X E clock user ov (OvUnpinObject i) s = op_then (unpin_object X E clock user ov i s) (\<lambda>_ s. (Ok Done, s))"
| "overlay_call X E clock user ov (OvSyncBranch heads known bf) s =
     op_then (sync_branch X E clock user ov heads known bf s) (\<lambda>bs s. (Ok (Sent (map (addressed X) bs)), s))"

fun server_call ::
  "'x server_externs_scheme \<Rightarrow> ('b, 'd) BrokerEnv \<Rightarrow> ServerCall \<Rightarrow> ('b, 'd) BrokerServer
   \<Rightarrow> (ServerAnswer, ProtocolError, ('b, 'd) BrokerServer) op" where
  "server_call X E (CallAddUser admin_user user sig) s = op_then (add_user X E admin_user user sig s) (\<lambda>_ s. (Ok Done, s))"
| "server_call X E (CallJoin clock random user ov repo secret adverts) s =
     op_then (join_overlay X E clock random user ov repo secret adverts s) (\<lambda>_ s. (Ok Done, s))"
| "server_call X E (CallOverlay clock user ov c) s = overlay_call X E clock user ov c s"

text \<open>The repository of an overlay.\<close>

definition repo_at :: "ServerView \<Rightarrow> OverlayId \<Rightarrow> PubKey option" where
  "repo_at W ov = (case sw_overlays W ov of Some (_, r) \<Rightarrow> r | None \<Rightarrow> None)"

text \<open>The number \<open>n\<close> is the fuel of the walks.\<close>

fun spec_call :: "'x server_externs_scheme \<Rightarrow> nat \<Rightarrow> ServerCall \<Rightarrow> ServerSpec \<Rightarrow> (ServerAnswer, ProtocolError, ServerSpec) op" where
  "spec_call X n (CallAddUser admin_user user sig) w =
     (case add_user_spec X admin_user user sig (sp_view w) of (r, W) \<Rightarrow> (and_then r (\<lambda>_. Ok Done), w\<lparr>sp_view := W\<rparr>))"
| "spec_call X n (CallJoin clock random user ov repo secret adverts) w =
     (case join_spec Local random user ov repo secret adverts (sp_view w) of (r, W) \<Rightarrow> (and_then r (\<lambda>_. Ok Done), w\<lparr>sp_view := W\<rparr>))"
| "spec_call X n (CallOverlay clock user ov c) w = (case repo_at (sp_view w) ov of
       None \<Rightarrow> (Err ProtocolError.NotFound, w)
     | Some p \<Rightarrow> (case repo_spec X n c (sp_blocks w p) of (r, m) \<Rightarrow> (r, w\<lparr>sp_blocks := (sp_blocks w)(p := m)\<rparr>)))"

fun answers :: "('c \<Rightarrow> 's \<Rightarrow> ('a, 'e, 's) op) \<Rightarrow> 'c list \<Rightarrow> 's \<Rightarrow> ('a, 'e) result list \<times> 's" where
  "answers call [] s = ([], s)"
| "answers call (c # cs) s = (let (r, s) = call c s; (rs, s) = answers call cs s in (r # rs, s))"

definition call_ok :: "'x server_externs_scheme \<Rightarrow> ServerCall \<Rightarrow> bool" where
  "call_ok X c \<longleftrightarrow> (case c of CallJoin clock _ _ _ _ _ _ \<Rightarrow> clock_ok clock
     | CallOverlay clock _ _ oc \<Rightarrow> clock_ok clock \<and> (\<forall>b. oc = OvPut b \<longrightarrow> honest X b) | _ \<Rightarrow> True)"

section \<open>The server follows it\<close>

definition spec_rel ::
  "'x server_externs_scheme \<Rightarrow> ('b, 'd) BrokerEnv \<Rightarrow> ('b, 'd) EnvLaws \<Rightarrow> ('b, 'd) BrokerServer \<Rightarrow> ServerSpec \<Rightarrow> bool" where
  "spec_rel X E L s w \<longleftrightarrow> server_invar X E L s (sp_view w) \<and> sp_blocks w = (\<lambda>p. blocks_in X L (srv_disk s (Repo p)))"

lemma spec_relI [intro]:
  "server_invar X E L s W \<Longrightarrow> (\<And>p. m p = blocks_in X L (srv_disk s (Repo p))) \<Longrightarrow>
    spec_rel X E L s \<lparr>sp_view = W, sp_blocks = m\<rparr>"
  by (simp add: spec_rel_def fun_eq_iff)

lemma view_step:
  assumes "spec_rel X E L s w" "p = (r, s\<lparr>srv_store := st\<rparr>)" "server_invar X E L (s\<lparr>srv_store := st\<rparr>) W"
  shows "\<exists>s'. op_then p (\<lambda>_ s. (Ok Done, s)) = (and_then r (\<lambda>_. Ok Done), s') \<and> spec_rel X E L s' (w\<lparr>sp_view := W\<rparr>)"
  using assms by (cases r) (auto simp: spec_rel_def)

text \<open>An action on the store of an overlay's repository.\<close>

lemma repo_at_keyed:
  assumes "server_invar X E L s W" "repo_at W ov = Some p"
  shows "\<exists>secret k. sw_overlays W ov = Some (secret, Some p) \<and> sw_keys W (Repo p) = Some (ChaCha20Key k)"
proof -
  from assms(2) obtain secret where ov: "sw_overlays W ov = Some (secret, Some p)"
    by (auto simp: repo_at_def split: option.splits)
  with server_invarD(6) [OF assms(1)] obtain key where "sw_keys W (Repo p) = Some key" by blast
  with ov show ?thesis by (cases key) blast
qed

lemma repo_at_None:
  assumes "server_invar X E L s W" "repo_at W ov = None"
  shows "sw_overlays W ov = None"
  using server_invarD(6) [OF assms(1)] assms(2) by (cases "sw_overlays W ov") (auto simp: repo_at_def)

lemma block_step:
  assumes env: "lawful_env X E L" and rel: "spec_rel X E L s w" and ov: "repo_at (sp_view w) ov = Some p"
    and f: "\<And>k d. stored X E L k d \<Longrightarrow> blocks_in X L d = sp_blocks w p \<Longrightarrow>
      \<exists>r d'. f d = (r, d') \<and> r \<noteq> Panic \<and> stored X E L k d' \<and> blocks_in X L d' = m \<and> P r"
  shows "\<exists>r s'. get_repostore_from_overlay_id X E ov f s = (r, s') \<and> P r
    \<and> spec_rel X E L s' (w\<lparr>sp_blocks := (sp_blocks w)(p := m)\<rparr>)"
proof -
  from rel have inv: "server_invar X E L s (sp_view w)" and m: "sp_blocks w = (\<lambda>p. blocks_in X L (srv_disk s (Repo p)))"
    by (auto simp: spec_rel_def)
  from repo_at_keyed [OF inv ov] obtain secret k where
    k: "sw_overlays (sp_view w) ov = Some (secret, Some p)" "sw_keys (sp_view w) (Repo p) = Some (ChaCha20Key k)" by blast
  from serve_known [OF env inv k, of f] obtain d0 where d0: "stored X E L k d0" "blocks_in X L d0 = sp_blocks w p"
    and step: "\<forall>r d'. f d0 = (r, d') \<and> r \<noteq> Panic \<and> stored X E L k d' \<longrightarrow>
      (\<exists>s'. get_repostore_from_overlay_id X E ov f s = (r, s') \<and> server_invar X E L s' (sp_view w)
        \<and> srv_disk s' = (srv_disk s)(Repo p := d'))" using m by auto
  from f [OF d0] obtain r d' where r: "f d0 = (r, d')" "r \<noteq> Panic" "stored X E L k d'" "blocks_in X L d' = m" "P r" by blast
  with step obtain s' where "get_repostore_from_overlay_id X E ov f s = (r, s')" "server_invar X E L s' (sp_view w)"
    "srv_disk s' = (srv_disk s)(Repo p := d')" by blast
  with r(4,5) m show ?thesis by (intro exI [of _ r] exI [of _ s']) (auto simp: spec_rel_def fun_eq_iff)
qed

lemma op_then_assoc: "op_then (op_then p f) g = op_then p (\<lambda>x s. op_then (f x s) g)"
  by (cases p; cases "fst p") auto

lemma get_repostore_then:
  fixes f :: "('a, 'd) repo_action" and s :: "('b, 'd) BrokerServer" and h :: "'a \<Rightarrow> 'c"
  shows "op_then (get_repostore_from_overlay_id X E ov f s) (\<lambda>x s. (Ok (h x), s))
    = get_repostore_from_overlay_id X E ov (\<lambda>d. op_then (f d) (\<lambda>x d. (Ok (h x), d))) s"
proof -
  have run: "op_then (run_on sid f s) (\<lambda>x s. (Ok (h x), s)) = run_on sid (\<lambda>d. op_then (f d) (\<lambda>x d. (Ok (h x), d))) s"
    for sid and s :: "('b, 'd) BrokerServer"
    by (cases "f (srv_disk s sid)"; cases "fst (f (srv_disk s sid))") (simp_all add: run_on_def)
  have guard: "op_then (guard_stores p) (\<lambda>x s. (Ok (h x), s)) = guard_stores (op_then p (\<lambda>x s. (Ok (h x), s)))"
    "op_then (guard_overlays p) (\<lambda>x s. (Ok (h x), s)) = guard_overlays (op_then p (\<lambda>x s. (Ok (h x), s)))"
    for p :: "('a, ProtocolError, ('b, 'd) BrokerServer) op"
    by (cases p; cases "fst p"; simp add: guard_stores_def guard_overlays_def)+
  have opens: "op_then (open_or_create_repostore X E rd sid f s) (\<lambda>x s. (Ok (h x), s))
      = open_or_create_repostore X E rd sid (\<lambda>d. op_then (f d) (\<lambda>x d. (Ok (h x), d))) s" for rd sid and s :: "('b, 'd) BrokerServer"
    by (simp add: open_or_create_repostore_def op_then_assoc Let_def if_distrib [where f = "\<lambda>p. op_then p _"] guard run cong: if_cong)
  show ?thesis
    by (simp add: get_repostore_from_overlay_id_def op_then_assoc Let_def guard run opens split: option.split)
qed

lemma overlay_call_action:
  "overlay_call X E clock user ov c s = get_repostore_from_overlay_id X E ov (repo_action X E clock c) s"
  by (cases c; simp add: put_block_def get_block_def del_object_def pin_object_def unpin_object_def sync_branch_def get_repostore_then;
      intro arg_cong [where f = "\<lambda>f. get_repostore_from_overlay_id X E ov f s"] ext; simp add: op_then_assoc each_once_def)

lemma server_call_follows:
  assumes env: "lawful_env X E L" and rel: "spec_rel X E L s w" and c: "call_ok X c"
  shows "\<exists>s'. server_call X E c s = (fst (spec_call X (be_fuel E) c w), s') \<and> spec_rel X E L s' (snd (spec_call X (be_fuel E) c w))"
proof (cases c)
  case (CallAddUser admin_user user sig)
  from add_user_serves [OF env, of s "sp_view w" admin_user user sig] rel obtain st where
    "add_user X E admin_user user sig s = (fst (add_user_spec X admin_user user sig (sp_view w)), s\<lparr>srv_store := st\<rparr>)"
    "server_invar X E L (s\<lparr>srv_store := st\<rparr>) (snd (add_user_spec X admin_user user sig (sp_view w)))" by (auto simp: spec_rel_def)
  from view_step [OF rel this] CallAddUser show ?thesis by (simp add: case_prod_beta)
next
  case (CallJoin clock random user ov repo secret adverts)
  with c have "clock_ok clock" by (simp add: call_ok_def)
  from join_overlay_serves [OF env _ this, of s "sp_view w" random user ov repo secret adverts] rel obtain st where
    "join_overlay X E clock random user ov repo secret adverts s
      = (fst (join_spec Local random user ov repo secret adverts (sp_view w)), s\<lparr>srv_store := st\<rparr>)"
    "server_invar X E L (s\<lparr>srv_store := st\<rparr>) (snd (join_spec Local random user ov repo secret adverts (sp_view w)))"
    by (auto simp: spec_rel_def)
  from view_step [OF rel this] CallJoin show ?thesis by (simp add: case_prod_beta)
next
  case (CallOverlay clock user ov oc)
  with c have clock: "clock_ok clock" and put: "\<And>b. oc = OvPut b \<Longrightarrow> honest X b" by (auto simp: call_ok_def)
  have rc: "repo_codec X" using env by (simp add: lawful_env_def)
  show ?thesis
  proof (cases "repo_at (sp_view w) ov")
    case None
    from rel have inv: "server_invar X E L s (sp_view w)" by (simp add: spec_rel_def)
    show ?thesis using None CallOverlay rel
      by (simp add: overlay_call_action serve_unknown [OF env inv repo_at_None [OF inv None]])
  next
    case (Some p)
    let ?q = "repo_spec X (be_fuel E) oc (sp_blocks w p)"
    have f: "\<exists>r d'. repo_action X E clock oc d = (r, d') \<and> r \<noteq> Panic \<and> stored X E L k d' \<and> blocks_in X L d' = snd ?q \<and> r = fst ?q"
      if "stored X E L k d" "blocks_in X L d = sp_blocks w p" for k d
      using repo_follows [OF rc clock _ put, where E = E and L = L and k = k and d = d and m = "sp_blocks w p"] that
      unfolding keeps_def by blast
    from block_step [OF env rel Some, where f = "repo_action X E clock oc" and P = "\<lambda>r. r = fst ?q", OF f] obtain s' where
      "get_repostore_from_overlay_id X E ov (repo_action X E clock oc) s = (fst ?q, s')"
      "spec_rel X E L s' (w\<lparr>sp_blocks := (sp_blocks w)(p := snd ?q)\<rparr>)" by blast
    with Some CallOverlay show ?thesis by (simp add: overlay_call_action case_prod_beta)
  qed
qed

end
