(* ===== verification/Lofire_Server_Props.thy ===== *)
theory Lofire_Server_Props
  imports Lofire_Server_Spec
begin

text \<open>
  Properties of the server: it refines the machine of \<open>Lofire_Server_Spec\<close>, whatever its clients send keeps it
  serving, and two faults: a second overlay of a repository, and the mode \<open>Core\<close>.
\<close>

section \<open>Requests of all clients\<close>

text \<open>
  A server that has received messages of authenticated users, in any order. A request that panics ends its
  connection and leaves the server as it is then. A block of a message that was deserialized has no cached
  identifier, so it is honest.
\<close>

definition message_ok :: "'x server_externs_scheme \<Rightarrow> BrokerMessage \<Rightarrow> bool" where
  "message_ok X msg \<longleftrightarrow> (case msg of
       BrokerMessage.V0 m \<Rightarrow> (case bm_content m of
         BrokerMessageContentV0.BrokerOverlayMessage omsg \<Rightarrow>
           (case broker_overlay_message_overlay_request omsg :: (BrokerOverlayRequest, unit) result of
              Ok req \<Rightarrow> (case broker_overlay_request_content_v0 req of
                 BrokerOverlayRequestContentV0.BlockPut b \<Rightarrow> honest X (block_put_block b) | _ \<Rightarrow> True)
            | _ \<Rightarrow> True)
       | _ \<Rightarrow> True)
     | _ \<Rightarrow> True)"

abbreviation handled ::
  "'x server_externs_scheme \<Rightarrow> ('b, 'd) BrokerEnv \<Rightarrow> u64 \<Rightarrow> bytes32 \<Rightarrow> PubKey \<Rightarrow> BrokerMessage
   \<Rightarrow> ('b, 'd) BrokerServer \<Rightarrow> (BrokerMessage \<times> BrokerMessage list option, ProtocolError, ('b, 'd) BrokerServer) op" where
  "handled \<equiv> broker_handle_incoming"

inductive server_run ::
  "'x server_externs_scheme \<Rightarrow> ('b, 'd) BrokerEnv \<Rightarrow> ('b, 'd) BrokerServer \<Rightarrow> ('b, 'd) BrokerServer \<Rightarrow> bool" for X E s0 where
  start: "server_run X E s0 s0"
| message: "server_run X E s0 s \<Longrightarrow> clock_ok clock \<Longrightarrow> message_ok X msg \<Longrightarrow>
    handled X E clock random user msg s = (r, s') \<Longrightarrow> server_run X E s0 s'"

definition serving :: "'x server_externs_scheme \<Rightarrow> ('b, 'd) BrokerEnv \<Rightarrow> ('b, 'd) EnvLaws \<Rightarrow> ('a, 'e, ('b, 'd) BrokerServer) op \<Rightarrow> bool" where
  "serving X E L p \<longleftrightarrow> fst p \<noteq> Panic \<and> (\<exists>W. server_invar X E L (snd p) W)"

lemma serving_answer:
  "serving X E L p \<Longrightarrow> (\<And>x s. fst (f x s) \<noteq> Panic \<and> snd (f x s) = s) \<Longrightarrow> serving X E L (answer p f)"
  by (cases p; cases "fst p") (auto simp: serving_def)

lemma requests_serving:
  assumes env: "lawful_env X E L" and inv: "server_invar X E L s W" and clock: "clock_ok clock"
  shows "serving X E L (del_object X E clock user ov i s)" "serving X E L (pin_object X E clock user ov i s)"
    "serving X E L (unpin_object X E clock user ov i s)" "serving X E L (get_block X E clock user ov i ch topic s)"
    "serving X E L (sync_branch X E clock user ov hs ks bf s)" "honest X b \<Longrightarrow> serving X E L (put_block X E user ov b s)"
    "serving X E L (handle_broker_request X E user req s)"
    "serving X E L (join_overlay X E clock random user ov repo secret adverts s)"
proof -
  note blocks = block_requests_keep [OF env inv clock]
  show "serving X E L (del_object X E clock user ov i s)" using blocks(1) [of user ov i] by (auto simp: serving_def)
  show "serving X E L (pin_object X E clock user ov i s)" using blocks(2) [of user ov i] by (auto simp: serving_def)
  show "serving X E L (unpin_object X E clock user ov i s)" using blocks(3) [of user ov i] by (auto simp: serving_def)
  show "serving X E L (get_block X E clock user ov i ch topic s)" using blocks(4) [of user ov i ch topic] by (auto simp: serving_def)
  show "serving X E L (sync_branch X E clock user ov hs ks bf s)" using blocks(5) [of user ov hs ks bf] by (auto simp: serving_def)
  show "honest X b \<Longrightarrow> serving X E L (put_block X E user ov b s)" using blocks(6) [of b user ov] by (auto simp: serving_def)
  show "serving X E L (join_overlay X E clock random user ov repo secret adverts s)"
    using join_overlay_serves [OF env inv clock, of random user ov repo secret adverts]
    by (auto simp: serving_def spec_no_panic)
  have "serving X E L (add_user X E user u sig s)" for u sig
    using add_user_serves [OF env inv, of user u sig] by (auto simp: serving_def spec_no_panic)
  then show "serving X E L (handle_broker_request X E user req s)"
    using inv by (auto simp: handle_broker_request_def serving_def del_user_def add_client_def del_client_def split: BrokerRequestContentV0.split)
qed

lemma handle_overlay_request_serving:
  assumes env: "lawful_env X E L" and inv: "server_invar X E L s W" and clock: "clock_ok clock"
    and req: "\<And>b. req = BrokerOverlayRequestContentV0.BlockPut b \<Longrightarrow> honest X (block_put_block b)"
  shows "serving X E L (handle_overlay_request X E clock random user i ov req s)"
proof -
  have "serving X E L (Ok x, s)" "serving X E L (connect_overlay user ov s)" for x
    using inv by (auto simp: serving_def connect_overlay_def)
  then show ?thesis
    by (cases req) (auto simp: handle_overlay_request_def Let_def req intro!: serving_answer requests_serving [OF env inv clock],
        auto simp: serving_def inv)
qed

lemma handle_incoming_serving:
  fixes s :: "('b, 'd) BrokerServer"
  assumes env: "lawful_env X E L" and inv: "server_invar X E L s W" and clock: "clock_ok clock" and msg: "message_ok X msg"
  shows "(fst (handled X E clock random user msg s) = Panic \<longleftrightarrow> broker_message_id msg = (Panic :: (u64, unit) result))
    \<and> (\<exists>W. server_invar X E L (snd (handled X E clock random user msg s)) W)"
proof (cases msg)
  case (V0 m)
  show ?thesis
  proof (cases "bm_content m")
    case (BrokerRequest req)
    let ?p = "answer (handle_broker_request X E user (broker_request_content_v0 req) s)
        (\<lambda>res s. (Ok (prepare_reply_broker_message res (broker_request_id req) padding_size, None :: BrokerMessage list option), s))
        :: (BrokerMessage \<times> BrokerMessage list option, ProtocolError, ('b, 'd) BrokerServer) op"
    have "serving X E L ?p"
      by (rule serving_answer [OF requests_serving(7) [OF env inv clock]]) simp
    with V0 BrokerRequest show ?thesis by (auto simp: broker_handle_incoming_def serving_def)
  next
    case (BrokerResponse x)
    with V0 inv show ?thesis by (auto simp: broker_handle_incoming_def)
  next
    case (BrokerOverlayMessage omsg)
    obtain ov content where omsg: "omsg = BrokerOverlayMessage.V0 \<lparr>bom_overlay = ov, bom_content = content\<rparr>"
      by (cases omsg) (metis BrokerOverlayMessageV0.cases)
    show ?thesis
    proof (cases content)
      case (BrokerOverlayRequest req)
      with msg V0 BrokerOverlayMessage omsg have "\<And>b. broker_overlay_request_content_v0 req = BrokerOverlayRequestContentV0.BlockPut b \<Longrightarrow> honest X (block_put_block b)"
        by (auto simp: message_ok_def)
      then have "serving X E L (handle_overlay_request X E clock random user (broker_overlay_request_id req) ov
          (broker_overlay_request_content_v0 req) s
          :: (BrokerMessage \<times> BrokerMessage list option, ProtocolError, ('b, 'd) BrokerServer) op)"
        by (rule handle_overlay_request_serving [OF env inv clock])
      with V0 BrokerOverlayMessage omsg BrokerOverlayRequest
      show ?thesis by (auto simp: broker_handle_incoming_def serving_def Let_def)
    qed (use V0 BrokerOverlayMessage omsg inv in \<open>auto simp: broker_handle_incoming_def Let_def\<close>)
  qed
qed (use inv in \<open>auto simp: broker_handle_incoming_def\<close>)

lemma server_run_invar:
  assumes "server_run X E s0 s" "lawful_env X E L" "server_invar X E L s0 W"
  shows "\<exists>W. server_invar X E L s W"
  using assms(1)
proof induction
  case start
  with assms(3) show ?case by blast
next
  case (message s clock msg random user r s')
  then obtain W where "server_invar X E L s W" by blast
  from handle_incoming_serving [OF assms(2) this message.hyps(2,3), of random user] message.hyps(4) show ?case by simp
qed

section \<open>The mode Core\<close>

lemma core_action_hangs:
  assumes "lawful_env X E L" "view_of X L s W" "srv_mode s = Core" "\<not> srv_stores_poisoned s"
    "sw_keys W (RepoStoreId.Overlay ov) = Some (ChaCha20Key k)" "RepoStoreId.Overlay ov \<notin> srv_repo_stores s"
    "el_rgood L k (srv_disk s (RepoStoreId.Overlay ov))"
  shows "fst (get_repostore_from_overlay_id X E ov f s) = Hang
    \<and> srv_repo_stores (snd (get_repostore_from_overlay_id X E ov f s)) = srv_repo_stores s"
proof -
  have nc: "net_codec X" "be_store E = lmdb_broker (el_rkv L)" "\<And>sid. be_create_dir E sid" using assms(1) by (auto simp: lawful_env_def)
  note reads = lmdb.server_reads [OF nc(1) holds_viewD [OF assms(2)]]
  from assms(1,7) obtain d' where "be_open E k (srv_disk s (RepoStoreId.Overlay ov)) = Some d'" unfolding lawful_env_def by metis
  with nc reads(4) [of "RepoStoreId.Overlay ov"] reads(5) [OF assms(5)] assms(3-6) show ?thesis
    by (simp add: get_repostore_from_overlay_id_def open_or_create_repostore_def ask_store_def Let_def)
qed

lemma calls_follow:
  assumes "lawful_env X E L" "spec_rel X E L s w" "\<forall>c \<in> set calls. call_ok X c"
  shows "\<exists>s'. answers (server_call X E) calls s = (fst (answers (spec_call X (be_fuel E)) calls w), s')
    \<and> spec_rel X E L s' (snd (answers (spec_call X (be_fuel E)) calls w))"
  using assms(2,3)
proof (induction calls arbitrary: s w)
  case (Cons c calls)
  from server_call_follows [OF assms(1) Cons.prems(1), of c] Cons.prems(2) obtain s1 where
    s1: "server_call X E c s = (fst (spec_call X (be_fuel E) c w), s1)" "spec_rel X E L s1 (snd (spec_call X (be_fuel E) c w))" by auto
  from Cons.IH [OF s1(2)] Cons.prems(2) s1(1) show ?case by (auto simp: Let_def case_prod_beta)
qed simp

section \<open>Properties\<close>

text \<open>
  C8. The server refines the machine of \<open>Lofire_Server_Spec\<close>: any sequence of calls that add users, join overlays,
  put and get blocks, get, delete, pin and unpin objects and synchronize branches is answered as the machine answers it, errors
  included, where each repository is one map from identifiers to blocks shared by its overlays; and the states
  stay related.
\<close>

theorem server_refines_spec:
  assumes "lawful_env X E L" "spec_rel X E L s w" "\<forall>c \<in> set calls. call_ok X c"
  shows "\<exists>s'. answers (server_call X E) calls s = (fst (answers (spec_call X (be_fuel E)) calls w), s')
    \<and> spec_rel X E L s' (snd (answers (spec_call X (be_fuel E)) calls w))"
  using assms by (rule calls_follow)


text \<open>
  C36. A second overlay of a repository whose store has a key already: the first request to join it is refused
  with a store error, although it creates the overlay; the same request made again then succeeds.
\<close>

theorem second_overlay_joins_twice:
  assumes "lawful_env X E L" "server_invar X E L s W" "clock_ok clock" "clock_ok clock'"
    "sw_overlays W ov = None" "sw_keys W (Repo p) \<noteq> None" "ae_admin (sw_users W user) \<noteq> None"
  shows "\<exists>s1 s2. join_overlay X E clock random user ov (Some p) secret adverts s = (Err StoreError, s1)
    \<and> overlay_open X (be_store E) ov (srv_store s1) = Ok \<lparr>ovl_id = ov\<rparr>
    \<and> join_overlay X E clock' random' user ov (Some p) secret adverts s1 = (Ok (), s2)"
proof -
  let ?W1 = "W\<lparr>sw_overlays := (sw_overlays W)(ov \<mapsto> (secret, Some p))\<rparr>"
  have p1: "join_spec Local random user ov (Some p) secret adverts W = (Err StoreError, ?W1)"
    using assms(5,6) by (simp add: join_spec_def create_overlay_spec_def Let_def del: not_None_eq)
  from join_overlay_serves [OF assms(1-3), of random user ov "Some p" secret adverts] p1 obtain s1 where
    s1: "join_overlay X E clock random user ov (Some p) secret adverts s = (Err StoreError, s1)" "server_invar X E L s1 ?W1" by auto
  have nc: "net_codec X" "be_store E = lmdb_broker (el_rkv L)" using assms(1) by (auto simp: lawful_env_def)
  have opened: "overlay_open X (be_store E) ov (srv_store s1) = Ok \<lparr>ovl_id = ov\<rparr>"
    using lmdb.server_reads(2) [OF nc(1) holds_viewD [OF server_invarD(1) [OF s1(2)]], of ov] nc(2) by simp
  have "fst (join_spec Local random' user ov (Some p) secret adverts ?W1) = Ok ()"
    using assms(7) by (simp add: join_spec_def add_peers_spec_def Let_def del: not_None_eq)
  with join_overlay_serves [OF assms(1) s1(2) assms(4), of random' user ov "Some p" secret adverts]
  obtain s2 where "join_overlay X E clock' random' user ov (Some p) secret adverts s1 = (Ok (), s2)" by auto
  with s1(1) opened show ?thesis by blast
qed

text \<open>
  C37. In the mode \<open>Core\<close> no request for blocks returns: on an overlay that was just joined, every request for
  a block, an object or a branch opens the overlay's store and then waits forever for the write lock of the
  stores, of which it holds the read lock, so no store is ever put into the table of opened ones.
\<close>

theorem core_requests_hang:
  assumes "lawful_env X E L" "view_of X L s0 W" "srv_mode s0 = Core" "\<not> srv_stores_poisoned s0" "clock_ok clock"
    "sw_overlays W ov = None" "join_overlay X E clock random user ov repo secret adverts s0 = (Ok (), s)"
    "RepoStoreId.Overlay ov \<notin> srv_repo_stores s0" "el_rgood L random (srv_disk s0 (RepoStoreId.Overlay ov))"
  shows "fst (put_block X E user ov b s) = Hang \<and> fst (get_block X E clock user ov i ch topic s) = Hang
    \<and> fst (sync_branch X E clock user ov hs ks bf s) = Hang \<and> fst (del_object X E clock user ov i s) = Hang
    \<and> fst (pin_object X E clock user ov i s) = Hang \<and> fst (unpin_object X E clock user ov i s) = Hang
    \<and> srv_repo_stores (snd (put_block X E user ov b s)) = srv_repo_stores s0"
proof -
  let ?p = "join_spec Core random user ov repo secret adverts W"
  have nc: "net_codec X" "be_store E = lmdb_broker (el_rkv L)" using assms(1) by (auto simp: lawful_env_def)
  from assms(5) obtain now where "now_timestamp clock = (Ok now :: (Timestamp, StorageError) result)"
    unfolding clock_ok_def using now_timestamp_any by blast
  from lmdb.join_overlay_follows [OF nc assms(2) this, of random user ov repo secret adverts] assms(3,7) obtain st where
    s: "s = s0\<lparr>srv_store := st\<rparr>" "fst ?p = Ok ()" "view_of X L s (snd ?p)" by auto
  from s(2) assms(6) have key: "sw_keys (snd ?p) (RepoStoreId.Overlay ov) = Some (ChaCha20Key random)"
    by (auto simp: join_spec_def create_overlay_spec_def add_peers_spec_def Let_def split: if_splits)
  have st: "srv_mode s = Core" "\<not> srv_stores_poisoned s" "RepoStoreId.Overlay ov \<notin> srv_repo_stores s"
    "el_rgood L random (srv_disk s (RepoStoreId.Overlay ov))" "srv_repo_stores s = srv_repo_stores s0"
    using s(1) assms(3,4,8,9) by simp_all
  note hangs = core_action_hangs [OF assms(1) s(3) st(1,2) key st(3,4)]
  show ?thesis using st(5)
    by (simp add: hangs put_block_def get_block_def sync_branch_def del_object_def pin_object_def unpin_object_def)
qed

section \<open>Witnesses\<close>

abbreviation demo_user :: PubKey where
  "demo_user \<equiv> Ed25519PubKey (fill32 2)"

definition demo_block :: Block where
  "demo_block = Block.V0 \<lparr>blk_id = None, blk_key = None, blk_children = [], blk_deps = ObjectIdList [], blk_expiry = None, blk_content = [7]\<rparr>"

definition demo_calls :: "ServerCall list" where
  "demo_calls = [CallAddUser demo_pubkey demo_user (demo_sign (fst pubkey_codec demo_user)),
     CallJoin 1700000000 (fill32 5) demo_user (demo_id 1) (Some demo_pubkey) demo_secret []]"

lemma answers_append:
  "answers call (cs @ ds) s = (case answers call cs s of (rs, s) \<Rightarrow> (case answers call ds s of (qs, s) \<Rightarrow> (rs @ qs, s)))"
  by (induction cs arbitrary: s) (simp_all add: Let_def case_prod_beta)

definition joined_view :: ServerView where
  "joined_view = empty_view\<lparr>sw_users := (\<lambda>_. no_account)(demo_user := no_account\<lparr>ae_admin := Some False, ae_overlays := {demo_id 1}\<rparr>),
     sw_overlays := [demo_id 1 \<mapsto> (demo_secret, Some demo_pubkey)], sw_keys := [Repo demo_pubkey \<mapsto> ChaCha20Key (fill32 5)]\<rparr>"

lemma demo_spec_rel: "spec_rel X demo_broker_env demo_laws (demo_start Local) \<lparr>sp_view = empty_view, sp_blocks = (\<lambda>_. Map.empty)\<rparr>"
  by (rule spec_relI) (simp, simp add: demo_start_def demo_laws_def demo_empty_def lmdb_abs_def fun_eq_iff)

lemma demo_calls_ok: "\<forall>c \<in> set demo_calls. call_ok (demo_server msgs) c"
  by (simp add: demo_calls_def call_ok_def some_clock)

lemma demo_calls_spec:
  "answers (spec_call (demo_server msgs) n) demo_calls \<lparr>sp_view = empty_view, sp_blocks = m\<rparr>
    = ([Ok Done, Ok Done], \<lparr>sp_view = joined_view, sp_blocks = m\<rparr>)"
  by (simp add: demo_calls_def add_user_spec_def verify_demo_sign join_spec_def create_overlay_spec_def add_peers_spec_def
      Let_def empty_view_def joined_view_def no_account_def fun_eq_iff)

definition demo_block_read :: "BlockId \<Rightarrow> Block" where
  "demo_block_read i = Block.V0 \<lparr>blk_id = Some i, blk_key = None, blk_children = [], blk_deps = ObjectIdList [], blk_expiry = None, blk_content = [7]\<rparr>"

lemma demo_block_loads:
  "m i = Some demo_block \<Longrightarrow> load_on X 5 m i = Ok \<lparr>obj_blocks = [demo_block_read i], obj_deps = []\<rparr>"
  "each_once X [demo_block_read i] = [(i, demo_block)]" "block_id X (demo_block_read i) = i"
  using load_on_leaf [of m i _ "[]" X 4] by (simp_all add: demo_block_def demo_block_read_def each_once_def addressed_def)

theorem server_refines_spec_witness:
  "\<exists>s'. answers (server_call (demo_server []) demo_broker_env)
      (demo_calls @ [CallOverlay 1700000000 demo_user (demo_id 1) (OvPut demo_block),
         CallOverlay 1700000000 demo_user (demo_id 1) (OvGetObject (block_id (demo_server []) demo_block) None),
         CallOverlay 1700000000 demo_user (demo_id 1) (OvDelObject (block_id (demo_server []) demo_block)),
         CallOverlay 1700000000 demo_user (demo_id 1) (OvGet (block_id (demo_server []) demo_block) None)]) (demo_start Local)
    = ([Ok Done, Ok Done, Ok Done, Ok (Sent [(block_id (demo_server []) demo_block, demo_block)]), Ok Done, Err ProtocolError.NotFound], s')"
proof -
  let ?X = "demo_server []" and ?b = "demo_block"
  let ?calls = "demo_calls @ [CallOverlay 1700000000 demo_user (demo_id 1) (OvPut ?b), CallOverlay 1700000000 demo_user (demo_id 1) (OvGetObject (block_id ?X ?b) None),
    CallOverlay 1700000000 demo_user (demo_id 1) (OvDelObject (block_id ?X ?b)),
    CallOverlay 1700000000 demo_user (demo_id 1) (OvGet (block_id ?X ?b) None)]"
  have ok: "\<forall>c \<in> set ?calls. call_ok ?X c"
    using demo_calls_ok by (auto simp: call_ok_def some_clock demo_block_def honest_def)
  have plain: "plain ?b = ?b" by (simp add: demo_block_def)
  have "fst (answers (spec_call ?X 5) ?calls \<lparr>sp_view = empty_view, sp_blocks = (\<lambda>_. Map.empty)\<rparr>)
      = [Ok Done, Ok Done, Ok Done, Ok (Sent [(block_id ?X ?b, ?b)]), Ok Done, Err ProtocolError.NotFound]"
    by (simp add: answers_append demo_calls_spec Let_def repo_at_def joined_view_def plain demo_block_loads)
  with server_refines_spec [OF demo_lawful demo_spec_rel ok] show ?thesis by auto
qed


lemma demo_joined:
  "\<exists>s. spec_rel (demo_server []) demo_broker_env demo_laws s \<lparr>sp_view = joined_view, sp_blocks = (\<lambda>_. Map.empty)\<rparr>"
proof -
  note user = server_call_follows [OF demo_lawful demo_spec_rel, of "[]" "hd demo_calls"]
  let ?w = "snd (spec_call (demo_server []) 5 (hd demo_calls) \<lparr>sp_view = empty_view, sp_blocks = (\<lambda>_. Map.empty)\<rparr>)"
  from user demo_calls_ok [of "[]"] obtain s1 where s1: "spec_rel (demo_server []) demo_broker_env demo_laws s1 ?w"
    by (auto simp: demo_calls_def)
  from server_call_follows [OF demo_lawful s1, of "demo_calls ! 1"] demo_calls_ok [of "[]"] obtain s2 where
    "spec_rel (demo_server []) demo_broker_env demo_laws s2 (snd (spec_call (demo_server []) 5 (demo_calls ! 1) ?w))"
    by (auto simp: demo_calls_def)
  moreover have "snd (spec_call (demo_server []) 5 (demo_calls ! 1) ?w) = \<lparr>sp_view = joined_view, sp_blocks = (\<lambda>_. Map.empty)\<rparr>"
    using demo_calls_spec [of "[]" 5 "\<lambda>_. Map.empty"] by (simp add: demo_calls_def Let_def case_prod_beta)
  ultimately show ?thesis by auto
qed

theorem second_overlay_joins_twice_witness:
  "\<exists>s s1 s2. join_overlay (demo_server []) demo_broker_env 1700000000 (fill32 6) demo_user (demo_id 2) (Some demo_pubkey) demo_secret [] s
      = (Err StoreError, s1)
    \<and> join_overlay (demo_server []) demo_broker_env 1700000000 (fill32 6) demo_user (demo_id 2) (Some demo_pubkey) demo_secret [] s1 = (Ok (), s2)"
proof -
  from demo_joined obtain s where s: "server_invar (demo_server []) demo_broker_env demo_laws s joined_view" by (auto simp: spec_rel_def)
  have "sw_overlays joined_view (demo_id 2) = None" "sw_keys joined_view (Repo demo_pubkey) \<noteq> None"
    "ae_admin (sw_users joined_view demo_user) \<noteq> None" by (simp_all add: joined_view_def)
  from second_overlay_joins_twice [OF demo_lawful s some_clock some_clock this, of "fill32 6" demo_secret "[]" "fill32 6"]
  show ?thesis by blast
qed

theorem core_requests_hang_witness:
  "\<exists>s0 s. join_overlay (demo_server []) demo_broker_env 1700000000 (fill32 6) demo_user (demo_id 2) None demo_secret [] s0 = (Ok (), s)
    \<and> fst (put_block (demo_server []) demo_broker_env demo_user (demo_id 2) demo_block s) = Hang"
proof -
  let ?X = "demo_server []" and ?sig = "demo_sign (fst pubkey_codec demo_user)"
  let ?W = "snd (add_user_spec ?X demo_pubkey demo_user ?sig empty_view)"
  have E: "net_codec ?X" "be_store demo_broker_env = lmdb_broker list_rkv" by (simp_all add: demo_broker_env_def)
  have view: "view_of X demo_laws s W = holds_view X (lmdb_ok list_rkv list_db_ok list_vals) list_vals s W" for X s W
    by (simp add: demo_laws_def)
  from lmdb.add_user_follows [OF E demo_view [of ?X Core, unfolded view], of demo_pubkey demo_user ?sig] obtain st where
    st: "view_of ?X demo_laws (demo_start Core\<lparr>srv_store := st\<rparr>) ?W" unfolding view by blast
  let ?s0 = "demo_start Core\<lparr>srv_store := st\<rparr>"
  have W: "ae_admin (sw_users ?W demo_user) = Some False" "sw_overlays ?W = Map.empty" "sw_keys ?W = Map.empty"
    by (simp_all add: add_user_spec_def verify_demo_sign empty_view_def no_account_def)
  have s0: "srv_mode ?s0 = Core" "\<not> srv_stores_poisoned ?s0" "RepoStoreId.Overlay (demo_id 2) \<notin> srv_repo_stores ?s0"
    "el_rgood demo_laws (fill32 6) (srv_disk ?s0 (RepoStoreId.Overlay (demo_id 2)))"
    by (simp_all add: demo_start_def demo_laws_def) (simp add: demo_good_def demo_empty_def)
  have "fst (join_spec Core (fill32 6) demo_user (demo_id 2) None demo_secret [] ?W) = Ok ()"
    by (simp add: join_spec_def create_overlay_spec_def add_peers_spec_def Let_def W)
  with lmdb.join_overlay_follows [OF E st [unfolded view] demo_clock, of "fill32 6" demo_user "demo_id 2" None demo_secret "[]"] s0(1)
  obtain s where s: "join_overlay ?X demo_broker_env 1700000000 (fill32 6) demo_user (demo_id 2) None demo_secret [] ?s0 = (Ok (), s)" by auto
  have "sw_overlays ?W (demo_id 2) = None" by (simp add: W)
  from core_requests_hang [OF demo_lawful st s0(1,2) some_clock this s s0(3,4)] s show ?thesis by blast
qed

end
