(* ===== verification/Lofire_Client.thy ===== *)
theory Lofire_Client
  imports Lofire_Server_Props
begin

text \<open>
  The client library of \<^verbatim>\<open>src/lofire-broker/src/connection.rs\<close>: the trait \<^verbatim>\<open>BrokerConnection\<close>, the operations
  of an \<^verbatim>\<open>OverlayConnectionClient\<close> on top of it, and the connection to a broker in the same process. A stream
  of blocks is the list of the blocks it yields until it ends.
\<close>

section \<open>The trait\<close>

text \<open>The methods an implementation gives, on the state \<open>'c\<close> of the connection.\<close>

record 'c BrokerConnection =
  bc_close :: "'c \<Rightarrow> (unit, ProtocolError, 'c) op"
  bc_add_user :: "PubKey \<Rightarrow> PrivKey \<Rightarrow> 'c \<Rightarrow> (unit, ProtocolError, 'c) op"
  bc_request :: "OverlayId \<Rightarrow> BrokerOverlayRequestContentV0 \<Rightarrow> 'c \<Rightarrow> (unit, ProtocolError, 'c) op"
  bc_request_stream :: "OverlayId \<Rightarrow> BrokerOverlayRequestContentV0 \<Rightarrow> 'c \<Rightarrow> (Block list, ProtocolError, 'c) op"
  bc_request_objectid :: "OverlayId \<Rightarrow> BrokerOverlayRequestContentV0 \<Rightarrow> 'c \<Rightarrow> (ObjectId, ProtocolError, 'c) op"

text \<open>The identifier of a repository's overlay, in \<^verbatim>\<open>OverlayConnectionClient::overlay\<close> and \<^verbatim>\<open>process_overlay_connect\<close>.\<close>

definition overlay_of_link :: "'x externs_scheme \<Rightarrow> RepoLink \<Rightarrow> bool \<Rightarrow> OverlayId" where
  "overlay_of_link X repo_link public =
     (if public then Blake3Digest32 (blake3_hash X (bytes_of (pubkey_slice (repo_link_id repo_link))))
      else let key = blake3_derive_key X ''LoFiRe OverlayId BLAKE3 key'' (bytes_of (symkey_slice (repo_link_secret repo_link)))
           in Blake3Digest32 (blake3_keyed_hash X key (bytes_of (pubkey_slice (repo_link_id repo_link)))))"

definition process_overlay_connect ::
  "'x externs_scheme \<Rightarrow> 'c BrokerConnection \<Rightarrow> RepoLink \<Rightarrow> bool \<Rightarrow> 'c \<Rightarrow> (OverlayId, ProtocolError, 'c) op" where
  "process_overlay_connect X C repo_link public c =
     (let overlay = overlay_of_link X repo_link public in
      case bc_request C overlay (BrokerOverlayRequestContentV0.OverlayConnect OverlayConnect.V0) c of
        (Ok _, c) \<Rightarrow> (Ok overlay, c)
      | (Err e, c) \<Rightarrow>
          if e = OverlayNotJoined then
            op_then (bc_request C overlay (BrokerOverlayRequestContentV0.OverlayJoin (OverlayJoin.V0
                \<lparr>oj_secret = repo_link_secret repo_link, oj_repo_pubkey = Some (repo_link_id repo_link),
                 oj_peers = repo_link_peers repo_link\<rparr>)) c) (\<lambda>_ c. (Ok overlay, c))
          else (Err e, c)
      | (Panic, c) \<Rightarrow> (Panic, c)
      | (Hang, c) \<Rightarrow> (Hang, c))"

record OverlayConnectionClient =
  oc_overlay :: OverlayId
  oc_repo_link :: RepoLink

definition overlay_connect ::
  "'x externs_scheme \<Rightarrow> 'c BrokerConnection \<Rightarrow> RepoLink \<Rightarrow> bool \<Rightarrow> 'c \<Rightarrow> (OverlayConnectionClient, ProtocolError, 'c) op" where
  "overlay_connect X C repo_link public c =
     op_then (process_overlay_connect X C repo_link public c)
       (\<lambda>overlay c. (Ok \<lparr>oc_overlay = overlay, oc_repo_link = repo_link\<rparr>, c))"

section \<open>The operations on an overlay\<close>

definition client_sync_branch ::
  "'c BrokerConnection \<Rightarrow> OverlayConnectionClient \<Rightarrow> ObjectId list \<Rightarrow> ObjectId list \<Rightarrow> BloomFilter
   \<Rightarrow> 'c \<Rightarrow> (Block list, ProtocolError, 'c) op" where
  "client_sync_branch C oc heads known_heads known_commits =
     bc_request_stream C (oc_overlay oc) (BrokerOverlayRequestContentV0.BranchSyncReq (BranchSyncReq.V0
       \<lparr>bsy_heads = heads, bsy_known_heads = known_heads, bsy_known_commits = known_commits\<rparr>))"

definition client_delete_object ::
  "'c BrokerConnection \<Rightarrow> OverlayConnectionClient \<Rightarrow> ObjectId \<Rightarrow> 'c \<Rightarrow> (unit, ProtocolError, 'c) op" where
  "client_delete_object C oc i =
     bc_request C (oc_overlay oc) (BrokerOverlayRequestContentV0.ObjectDel (ObjectDel.V0 \<lparr>odl_id = i\<rparr>))"

definition client_pin_object ::
  "'c BrokerConnection \<Rightarrow> OverlayConnectionClient \<Rightarrow> ObjectId \<Rightarrow> 'c \<Rightarrow> (unit, ProtocolError, 'c) op" where
  "client_pin_object C oc i =
     bc_request C (oc_overlay oc) (BrokerOverlayRequestContentV0.ObjectPin (ObjectPin.V0 \<lparr>opn_id = i\<rparr>))"

definition client_unpin_object ::
  "'c BrokerConnection \<Rightarrow> OverlayConnectionClient \<Rightarrow> ObjectId \<Rightarrow> 'c \<Rightarrow> (unit, ProtocolError, 'c) op" where
  "client_unpin_object C oc i =
     bc_request C (oc_overlay oc) (BrokerOverlayRequestContentV0.ObjectUnpin (ObjectUnpin.V0 \<lparr>oun_id = i\<rparr>))"

definition client_copy_object ::
  "'c BrokerConnection \<Rightarrow> OverlayConnectionClient \<Rightarrow> ObjectId \<Rightarrow> Timestamp option \<Rightarrow> 'c \<Rightarrow> (ObjectId, ProtocolError, 'c) op" where
  "client_copy_object C oc i expiry =
     bc_request_objectid C (oc_overlay oc) (BrokerOverlayRequestContentV0.ObjectCopy (ObjectCopy.V0
       \<lparr>ocp_id = i, ocp_expiry = expiry\<rparr>))"

definition client_get_block ::
  "'c BrokerConnection \<Rightarrow> OverlayConnectionClient \<Rightarrow> BlockId \<Rightarrow> bool \<Rightarrow> PubKey option \<Rightarrow> 'c \<Rightarrow> (Block list, ProtocolError, 'c) op" where
  "client_get_block C oc i include_children topic =
     bc_request_stream C (oc_overlay oc) (BrokerOverlayRequestContentV0.BlockGet (BlockGet.V0
       \<lparr>bg_id = i, bg_include_children = include_children, bg_topic = topic\<rparr>))"

text \<open>The loop that puts the received blocks into a store.\<close>

fun collect_stream :: "'x externs_scheme \<Rightarrow> Block list \<Rightarrow> HashMapRepoStore \<Rightarrow> (unit, ProtocolError, HashMapRepoStore) op" where
  "collect_stream X [] store = (Ok (), store)"
| "collect_stream X (block # blocks) store =
     (case hashmap_put X store block of (r, store) \<Rightarrow> op_then (unwrap_res r, store) (\<lambda>_ store. collect_stream X blocks store))"

definition get_object_error :: "ObjectParseError \<Rightarrow> ProtocolError" where
  "get_object_error e = (case e of ObjectParseError.MissingBlocks _ \<Rightarrow> ProtocolError.MissingBlocks | _ \<Rightarrow> ProtocolError.ObjectParseError)"

definition client_get_object ::
  "'x externs_scheme \<Rightarrow> nat \<Rightarrow> 'c BrokerConnection \<Rightarrow> OverlayConnectionClient \<Rightarrow> ObjectId \<Rightarrow> PubKey option
   \<Rightarrow> 'c \<Rightarrow> (Object, ProtocolError, 'c) op" where
  "client_get_object X fuel C oc i topic c =
     op_then (client_get_block C oc i True topic c) (\<lambda>blockstream c.
       case collect_stream X blockstream hashmap_new of (r, store) \<Rightarrow>
         op_then (r, c) (\<lambda>_ c. (map_err get_object_error (fst (object_load X (hashmap_store X) fuel i None store)), c)))"

definition client_put_block ::
  "'x externs_scheme \<Rightarrow> 'c BrokerConnection \<Rightarrow> OverlayConnectionClient \<Rightarrow> Block \<Rightarrow> 'c \<Rightarrow> (BlockId, ProtocolError, 'c) op" where
  "client_put_block X C oc block c =
     op_then (bc_request C (oc_overlay oc) (BrokerOverlayRequestContentV0.BlockPut (BlockPut.V0 block)) c)
       (\<lambda>_ c. (Ok (block_id X block), c))"

fun put_blocks ::
  "'x externs_scheme \<Rightarrow> 'c BrokerConnection \<Rightarrow> OverlayConnectionClient \<Rightarrow> Block list \<Rightarrow> ObjectId set
   \<Rightarrow> 'c \<Rightarrow> (unit, ProtocolError, 'c) op" where
  "put_blocks X C oc [] deduplicated c = (Ok (), c)"
| "put_blocks X C oc (block # blocks) deduplicated c =
     (let i = block_id X block in
      if i \<in> deduplicated then put_blocks X C oc blocks deduplicated c
      else op_then (client_put_block X C oc block c) (\<lambda>_ c. put_blocks X C oc blocks (insert i deduplicated) c))"

definition client_put_object ::
  "'x externs_scheme \<Rightarrow> 'c BrokerConnection \<Rightarrow> OverlayConnectionClient \<Rightarrow> ObjectContent \<Rightarrow> ObjectId list
   \<Rightarrow> Timestamp option \<Rightarrow> usize \<Rightarrow> PubKey \<Rightarrow> SymKey \<Rightarrow> 'c \<Rightarrow> (ObjectId, ProtocolError, 'c) op" where
  "client_put_object X C oc content deps expiry max_object_size repo_pubkey repo_secret c =
     op_then (object_new X content deps expiry max_object_size repo_pubkey repo_secret, c) (\<lambda>ob c.
     op_then (put_blocks X C oc (obj_blocks ob) {} c) (\<lambda>_ c. (object_id X ob, c)))"

section \<open>The connection to a broker in the same process\<close>

text \<open>
  The state is the server with the number of calls made; \<open>clocks\<close> and \<open>randoms\<close> give the clock and the random bytes
  of each call.
\<close>

definition local_call ::
  "(nat \<Rightarrow> u64) \<Rightarrow> (nat \<Rightarrow> bytes32) \<Rightarrow> (u64 \<Rightarrow> bytes32 \<Rightarrow> 's \<Rightarrow> ('a, 'e, 's) op) \<Rightarrow> nat \<times> 's \<Rightarrow> ('a, 'e, nat \<times> 's) op" where
  "local_call clocks randoms f c = (case c of (n, s) \<Rightarrow> (case f (clocks n) (randoms n) s of (r, s) \<Rightarrow> (r, (Suc n, s))))"

definition local_request ::
  "'x server_externs_scheme \<Rightarrow> ('b, 'd) BrokerEnv \<Rightarrow> PubKey \<Rightarrow> OverlayId \<Rightarrow> BrokerOverlayRequestContentV0
   \<Rightarrow> u64 \<Rightarrow> bytes32 \<Rightarrow> ('b, 'd) BrokerServer \<Rightarrow> (unit, ProtocolError, ('b, 'd) BrokerServer) op" where
  "local_request X E user overlay request clock random s = (case request of
       BrokerOverlayRequestContentV0.OverlayConnect _ \<Rightarrow> connect_overlay user overlay s
     | BrokerOverlayRequestContentV0.OverlayJoin j \<Rightarrow>
         join_overlay X E clock random user overlay (overlay_join_repo_pubkey j) (overlay_join_secret j) (overlay_join_peers j) s
     | BrokerOverlayRequestContentV0.ObjectPin op' \<Rightarrow> pin_object X E clock user overlay (object_pin_id op') s
     | BrokerOverlayRequestContentV0.ObjectUnpin op' \<Rightarrow> unpin_object X E clock user overlay (object_unpin_id op') s
     | BrokerOverlayRequestContentV0.ObjectDel op' \<Rightarrow> del_object X E clock user overlay (object_del_id op') s
     | BrokerOverlayRequestContentV0.BlockPut b \<Rightarrow> put_block X E user overlay (block_put_block b) s
     | _ \<Rightarrow> (Err InvalidState, s))"

definition local_request_objectid ::
  "PubKey \<Rightarrow> OverlayId \<Rightarrow> BrokerOverlayRequestContentV0 \<Rightarrow> ('b, 'd) BrokerServer \<Rightarrow> (ObjectId, ProtocolError, ('b, 'd) BrokerServer) op" where
  "local_request_objectid user overlay request s = (case request of
       BrokerOverlayRequestContentV0.ObjectCopy oc \<Rightarrow> copy_object user overlay (object_copy_id oc) (object_copy_expiry oc) s
     | _ \<Rightarrow> (Err InvalidState, s))"

definition local_request_stream ::
  "'x server_externs_scheme \<Rightarrow> ('b, 'd) BrokerEnv \<Rightarrow> PubKey \<Rightarrow> OverlayId \<Rightarrow> BrokerOverlayRequestContentV0
   \<Rightarrow> u64 \<Rightarrow> ('b, 'd) BrokerServer \<Rightarrow> (Block list, ProtocolError, ('b, 'd) BrokerServer) op" where
  "local_request_stream X E user overlay request clock s = (case request of
       BrokerOverlayRequestContentV0.BlockGet b \<Rightarrow>
         get_block X E clock user overlay (block_get_id b) (block_get_include_children b) (block_get_topic b) s
     | BrokerOverlayRequestContentV0.BranchSyncReq b \<Rightarrow>
         sync_branch X E clock user overlay (branch_sync_req_heads b) (branch_sync_req_known_heads b)
           (branch_sync_req_known_commits b) s
     | _ \<Rightarrow> (Err InvalidState, s))"

definition local_add_user ::
  "'x server_externs_scheme \<Rightarrow> ('b, 'd) BrokerEnv \<Rightarrow> PubKey \<Rightarrow> PubKey \<Rightarrow> PrivKey
   \<Rightarrow> ('b, 'd) BrokerServer \<Rightarrow> (unit, ProtocolError, ('b, 'd) BrokerServer) op" where
  "local_add_user X E user user_id admin_user_pk s =
     op_then (map_err from_lofire_error (sign X admin_user_pk user (ser_add_user_content X \<lparr>auc_user = user_id\<rparr>)), s)
       (\<lambda>sig s. add_user X E user user_id sig s)"

definition local_connection ::
  "'x server_externs_scheme \<Rightarrow> ('b, 'd) BrokerEnv \<Rightarrow> PubKey \<Rightarrow> (nat \<Rightarrow> u64) \<Rightarrow> (nat \<Rightarrow> bytes32)
   \<Rightarrow> (nat \<times> ('b, 'd) BrokerServer) BrokerConnection" where
  "local_connection X E user clocks randoms = \<lparr>
     bc_close = (\<lambda>c. (Ok (), c)),
     bc_add_user = (\<lambda>user_id pk. local_call clocks randoms (\<lambda>_ _. local_add_user X E user user_id pk)),
     bc_request = (\<lambda>overlay req. local_call clocks randoms (local_request X E user overlay req)),
     bc_request_stream = (\<lambda>overlay req. local_call clocks randoms (\<lambda>clock _. local_request_stream X E user overlay req clock)),
     bc_request_objectid = (\<lambda>overlay req. local_call clocks randoms (\<lambda>_ _. local_request_objectid user overlay req))\<rparr>"

section \<open>What a client relies on\<close>

text \<open>
  The blocks of one overlay behind a connection: a put adds one, and asking for the root of an object whose
  blocks are all there yields a representative of each.
\<close>

definition represented :: "'x externs_scheme \<Rightarrow> Block list \<Rightarrow> Block list \<Rightarrow> bool" where
  "represented X bs rs \<longleftrightarrow> (\<forall>b \<in> set bs. \<exists>r \<in> set rs. same_block X r b) \<and> (\<forall>r \<in> set rs. \<exists>b \<in> set bs. same_block X r b)"

lemma same_block_honest: "same_block X r b \<Longrightarrow> honest X b \<Longrightarrow> honest X r"
  unfolding same_block_def honest_def by (metis get_id_plain)

lemma collect_stream_adds:
  "hashmap_invar X s \<Longrightarrow> \<forall>r \<in> set rs. honest X r \<Longrightarrow>
    \<exists>s'. collect_stream X rs s = (Ok (), s') \<and> hashmap_invar X s' \<and> adds X rs {} (hashmap_abs s) (hashmap_abs s')"
proof (induction rs arbitrary: s)
  case (Cons r rs)
  from hm.put_stores [OF Cons.prems(1), of r] Cons.prems(2) obtain s1 where
    s1: "hashmap_put X s r = (Ok (block_id X r), s1)" "hashmap_invar X s1"
      "hashmap_abs s1 = (hashmap_abs s)(block_id X r \<mapsto> plain r)" by (auto simp: hashmap_store_def)
  from Cons.IH [OF s1(2)] Cons.prems(2) obtain s' where
    "collect_stream X rs s1 = (Ok (), s')" "hashmap_invar X s'" "adds X rs {} (hashmap_abs s1) (hashmap_abs s')" by auto
  with s1 show ?case by (intro exI [of _ s']) (auto simp: adds_def split: if_splits)
qed (simp add: adds_def)

lemma collect_represented:
  assumes rs: "represented X bs rs" and honest: "\<forall>b \<in> set bs. honest X b" and cf: "collision_free X (set bs)"
  shows "\<exists>store. collect_stream X rs hashmap_new = (Ok (), store) \<and> hashmap_invar X store
    \<and> (\<forall>b \<in> set bs. holds X (hashmap_abs store) b)"
proof -
  have "\<forall>r \<in> set rs. honest X r" using rs honest unfolding represented_def by (metis same_block_honest)
  from collect_stream_adds [OF hashmap_invar_new this] obtain store where
    store: "collect_stream X rs hashmap_new = (Ok (), store)" "hashmap_invar X store"
      "adds X rs {} (hashmap_abs hashmap_new) (hashmap_abs store)" by blast
  have "holds X (hashmap_abs store) b" if b: "b \<in> set bs" for b
  proof -
    from rs b obtain r where r: "r \<in> set rs" "block_id X r = block_id X b" by (auto simp: represented_def same_block_def)
    with store(3) obtain q where q: "q \<in> set rs" "block_id X q = block_id X b" "hashmap_abs store (block_id X b) = Some (plain q)"
      unfolding adds_def by (metis Diff_empty imageI)
    from rs q(1) obtain b2 where b2: "b2 \<in> set bs" "same_block X q b2" by (auto simp: represented_def)
    with q(2) b honest have "same_block X b2 b"
      by (intro collision_free_same [OF cf]) (auto simp: same_block_def)
    with b2 q(3) show ?thesis by (simp add: holds_def same_block_def)
  qed
  with store show ?thesis by blast
qed

locale block_connection =
  fixes X :: "'x externs_scheme"
    and C :: "'c BrokerConnection"
    and ov :: OverlayId
    and fuel :: nat
    and serves :: "'c \<Rightarrow> (BlockId \<rightharpoonup> Block) \<Rightarrow> bool"
  assumes puts: "serves c m \<Longrightarrow> honest X b \<Longrightarrow>
      \<exists>c'. bc_request C ov (BrokerOverlayRequestContentV0.BlockPut (BlockPut.V0 b)) c = (Ok (), c')
        \<and> serves c' (m(block_id X b \<mapsto> plain b))"
    and gets: "serves c m \<Longrightarrow> merkle X bs K ds \<Longrightarrow> \<forall>b \<in> set bs. holds X m b \<Longrightarrow> \<forall>b \<in> set bs. honest X b \<Longrightarrow>
      length bs \<le> fuel \<Longrightarrow> block_deps (last bs) = ObjectIdList deps \<Longrightarrow>
      \<exists>rs c'. bc_request_stream C ov (BrokerOverlayRequestContentV0.BlockGet (BlockGet.V0
          \<lparr>bg_id = block_id X (last bs), bg_include_children = True, bg_topic = topic\<rparr>)) c = (Ok rs, c')
        \<and> represented X bs rs \<and> serves c' m"
begin

lemma put_blocks_adds:
  assumes "oc_overlay oc = ov"
  shows "serves c m \<Longrightarrow> \<forall>b \<in> set bs. honest X b \<Longrightarrow>
    \<exists>c' m'. put_blocks X C oc bs D c = (Ok (), c') \<and> serves c' m' \<and> adds X bs D m m'"
proof (induction bs arbitrary: c m D)
  case (Cons b bs)
  show ?case
  proof (cases "block_id X b \<in> D")
    case True
    with Cons show ?thesis by (force intro: adds_skip simp: Let_def)
  next
    case False
    from puts [OF Cons.prems(1), of b] Cons.prems(2) obtain c1 where
      c1: "bc_request C ov (BrokerOverlayRequestContentV0.BlockPut (BlockPut.V0 b)) c = (Ok (), c1)"
        "serves c1 (m(block_id X b \<mapsto> plain b))" by auto
    from Cons.IH [OF c1(2), of "insert (block_id X b) D"] Cons.prems(2) obtain c' m' where
      "put_blocks X C oc bs (insert (block_id X b) D) c1 = (Ok (), c')" "serves c' m'"
      "adds X bs (insert (block_id X b) D) (m(block_id X b \<mapsto> plain b)) m'" unfolding list.set(2) by blast
    with c1 False assms show ?thesis
      by (intro exI [of _ c'] exI [of _ m']) (simp add: Let_def client_put_block_def adds_Cons)
  qed
qed (auto simp: adds_def)

lemma put_object_stores:
  assumes oc: "oc_overlay oc = ov" and serves: "serves c m"
    and new: "object_new X content deps e sz pk sk = (Ok ob :: (Object, ProtocolError) result)"
    and m: "merkle X (obj_blocks ob) K ds" and honest: "\<forall>b \<in> set (obj_blocks ob). honest X b"
    and cf: "collision_free X (set (obj_blocks ob))"
  shows "\<exists>c' m'. client_put_object X C oc content deps e sz pk sk c = (Ok (block_id X (last (obj_blocks ob))), c')
    \<and> serves c' m' \<and> (\<forall>b \<in> set (obj_blocks ob). holds X m' b)"
proof -
  from put_blocks_adds [OF oc serves honest, of "{}"] obtain c' m' where
    "put_blocks X C oc (obj_blocks ob) {} c = (Ok (), c')" "serves c' m'" "adds X (obj_blocks ob) {} m m'" by blast
  with new adds_holds [OF _ cf honest] show ?thesis
    by (intro exI [of _ c'] exI [of _ m']) (auto simp: client_put_object_def merkle_ids(1) [OF m])
qed

lemma get_object_loads:
  assumes oc: "oc_overlay oc = ov" and serves: "serves c m" "\<forall>b \<in> set bs. holds X m b"
    and m: "merkle X bs K ds" and honest: "\<forall>b \<in> set bs. honest X b" and cf: "collision_free X (set bs)"
    and fuel: "length bs \<le> fuel" and deps: "block_deps (last bs) = ObjectIdList deps"
  shows "\<exists>ob c'. client_get_object X fuel C oc (block_id X (last bs)) topic c = (Ok ob, c') \<and> obj_deps ob = deps
    \<and> list_all2 (same_block X) (obj_blocks ob) bs \<and> block_key (last (obj_blocks ob)) = None \<and> serves c' m"
proof -
  from gets [OF serves(1) m serves(2) honest fuel deps] obtain rs c' where
    rs: "bc_request_stream C ov (BrokerOverlayRequestContentV0.BlockGet (BlockGet.V0
          \<lparr>bg_id = block_id X (last bs), bg_include_children = True, bg_topic = topic\<rparr>)) c = (Ok rs, c')"
      "represented X bs rs" "serves c' m" by blast
  from collect_represented [OF rs(2) honest cf] obtain store where
    store: "collect_stream X rs hashmap_new = (Ok (), store)" "hashmap_invar X store"
      "\<forall>b \<in> set bs. holds X (hashmap_abs store) b" by blast
  from hm.object_load_merkle [OF m store(2,3) fuel deps, of None] obtain ob s' where
    "object_load X (hashmap_store X) fuel (block_id X (last bs)) None store = (Ok ob, s')" "obj_deps ob = deps"
    "list_all2 (same_block X) (obj_blocks ob) bs" "block_key (last (obj_blocks ob)) = None" by blast
  with rs(1,3) store(1) oc show ?thesis
    by (intro exI [of _ ob] exI [of _ c']) (simp add: client_get_object_def client_get_block_def)
qed

end

end
