(* ===== verification/Lofire_Client_Local.thy ===== *)
theory Lofire_Client_Local
  imports Lofire_Client
begin

text \<open>
  The connection to a server in the same process gives what \<open>block_connection\<close> asks for, and with it the
  properties of a client on top of the whole stack: connecting to an overlay, putting and getting objects.
\<close>

section \<open>The contract of the connection\<close>

definition local_serves ::
  "'x server_externs_scheme \<Rightarrow> ('b, 'd) BrokerEnv \<Rightarrow> ('b, 'd) EnvLaws \<Rightarrow> (nat \<Rightarrow> u64) \<Rightarrow> nat \<Rightarrow> OverlayId
   \<Rightarrow> nat \<times> ('b, 'd) BrokerServer \<Rightarrow> (BlockId \<rightharpoonup> Block) \<Rightarrow> bool" where
  "local_serves X E L clocks fuel ov c m \<longleftrightarrow> lawful_env X E L \<and> (\<forall>n. clock_ok (clocks n)) \<and> fuel \<le> be_fuel E
     \<and> (\<exists>w p. spec_rel X E L (snd c) w \<and> repo_at (sp_view w) ov = Some p \<and> sp_blocks w p = m)"

lemma local_put:
  assumes env: "lawful_env X E L" and rel: "spec_rel X E L s w" and ov: "repo_at (sp_view w) ov = Some p" and b: "honest X b"
  shows "\<exists>s'. put_block X E user ov b s = (Ok (), s')
    \<and> spec_rel X E L s' (w\<lparr>sp_blocks := (sp_blocks w)(p := (sp_blocks w p)(block_id X b \<mapsto> plain b))\<rparr>)"
proof -
  from server_call_follows [OF env rel, of "CallOverlay 1700000000 user ov (OvPut b)"] b ov obtain s' where
    s': "op_then (put_block X E user ov b s) (\<lambda>_ s. (Ok Done, s)) = (Ok Done, s')"
      "spec_rel X E L s' (w\<lparr>sp_blocks := (sp_blocks w)(p := (sp_blocks w p)(block_id X b \<mapsto> plain b))\<rparr>)"
    by (auto simp: call_ok_def some_clock)
  then show ?thesis by (cases "put_block X E user ov b s"; cases "fst (put_block X E user ov b s)") auto
qed

text \<open>What is sent: each block once.\<close>

lemma send_blocks_sends:
  "set (snd (send_blocks X bs D r)) \<subseteq> set r \<union> set bs
    \<and> set r \<subseteq> set (snd (send_blocks X bs D r))
    \<and> (\<forall>b \<in> set bs. block_id X b \<in> D \<or> (\<exists>q \<in> set (snd (send_blocks X bs D r)). block_id X q = block_id X b))"
proof (induction bs arbitrary: D r)
  case (Cons b bs)
  show ?case
  proof (cases "block_id X b \<in> D")
    case True
    with Cons [of D r] show ?thesis by (auto simp: Let_def)
  next
    case False
    note IH = Cons [of "insert (block_id X b) D" "r @ [b]"]
    then have "b \<in> set (snd (send_blocks X bs (insert (block_id X b) D) (r @ [b])))" by auto
    with IH False show ?thesis by (auto simp: Let_def) metis
  qed
qed simp

lemma send_blocks_represented:
  assumes same: "list_all2 (same_block X) obs bs" and holds: "\<forall>b \<in> set bs. holds X m b"
  shows "represented X bs (snd (send_blocks X obs {} []))"
proof -
  let ?rs = "snd (send_blocks X obs {} [])"
  have s: "set ?rs \<subseteq> set obs" "\<And>b. b \<in> set obs \<Longrightarrow> \<exists>q \<in> set ?rs. block_id X q = block_id X b"
    using send_blocks_sends [of X obs "{}" "[]"] by auto
  have there: "\<exists>b \<in> set bs. same_block X q b" if "q \<in> set obs" for q
    using same that unfolding list_all2_conv_all_nth by (metis in_set_conv_nth)
  have here: "\<exists>q \<in> set obs. same_block X q b" if "b \<in> set bs" for b
    using same that unfolding list_all2_conv_all_nth by (metis in_set_conv_nth)
  have "\<exists>q \<in> set ?rs. same_block X q b" if b: "b \<in> set bs" for b
  proof -
    from here [OF b] s(2) obtain q where q: "q \<in> set ?rs" "block_id X q = block_id X b" by (metis same_block_def)
    with there s(1) obtain b2 where b2: "b2 \<in> set bs" "same_block X q b2" by blast
    with q holds b have "plain b2 = plain b" unfolding holds_def same_block_def by (metis option.inject)
    with q b2(2) show ?thesis by (intro bexI [of _ q]) (auto simp: same_block_def)
  qed
  with s(1) there show ?thesis by (auto simp: represented_def)
qed

lemma local_get:
  assumes env: "lawful_env X E L" and rel: "spec_rel X E L s w" and ov: "repo_at (sp_view w) ov = Some p"
    and clock: "clock_ok clock"
    and m: "merkle X bs K ds" and holds: "\<forall>b \<in> set bs. holds X (sp_blocks w p) b"
    and fuel: "length bs \<le> be_fuel E" and deps: "block_deps (last bs) = ObjectIdList deps"
  shows "\<exists>rs s'. get_block X E clock user ov (block_id X (last bs)) True topic s = (Ok rs, s') \<and> represented X bs rs
    \<and> spec_rel X E L s' w"
proof -
  let ?f = "\<lambda>d. op_then (load_or_not_found X E clock (block_id X (last bs)) d)
    (\<lambda>o' d. (Ok (snd (send_blocks X (obj_blocks o') {} [])), d))"
  let ?P = "\<lambda>r. \<exists>rs. r = Ok rs \<and> represented X bs rs"
  have rc: "repo_codec X" using env by (simp add: lawful_env_def)
  have f: "\<exists>r d'. ?f d = (r, d') \<and> r \<noteq> Panic \<and> stored X E L k d' \<and> blocks_in X L d' = sp_blocks w p \<and> ?P r"
    if d: "stored X E L k d" "blocks_in X L d = sp_blocks w p" for k d
  proof -
    have "lmdb_invar X (be_rkv E) (el_rgood L k) (el_single L) (el_multi L) clock d"
      by (rule iffD2 [OF stored_lmdb [OF rc clock] d(1)])
    from lm.object_load_merkle [OF m this, of "be_fuel E" deps None] holds d(2) fuel deps obtain ob d' where
      ob: "object_load X (repo_of X E clock) (be_fuel E) (block_id X (last bs)) None d = (Ok ob, d')"
        "list_all2 (same_block X) (obj_blocks ob) bs"
        "lmdb_invar X (be_rkv E) (el_rgood L k) (el_single L) (el_multi L) clock d'" "blocks_in X L d' = sp_blocks w p" by auto
    then have "?f d = (Ok (snd (send_blocks X (obj_blocks ob) {} [])), d')" by (simp add: load_or_not_found_def)
    moreover have "stored X E L k d'" by (rule iffD1 [OF stored_lmdb [OF rc clock] ob(3)])
    ultimately show ?thesis using ob(4) send_blocks_represented [OF ob(2) holds]
      by (intro exI [of _ "Ok (snd (send_blocks X (obj_blocks ob) {} []))"] exI [of _ d']) simp
  qed
  from block_step [OF env rel ov, where f = ?f and P = ?P, OF f] obtain r s' where
    s': "get_repostore_from_overlay_id X E ov ?f s = (r, s')" "?P r"
      "spec_rel X E L s' (w\<lparr>sp_blocks := (sp_blocks w)(p := sp_blocks w p)\<rparr>)" by blast
  from s'(2) obtain rs where "r = Ok rs" "represented X bs rs" by blast
  with s'(1,3) show ?thesis by (intro exI [of _ rs] exI [of _ s']) (simp add: get_block_def fun_upd_triv)
qed

interpretation lc: block_connection X "local_connection X E user clocks randoms" ov fuel "local_serves X E L clocks fuel ov"
  for X E L user clocks randoms ov fuel
proof (unfold_locales, goal_cases)
  case (1 c m b)
  then obtain w p where w: "lawful_env X E L" "\<forall>n. clock_ok (clocks n)" "fuel \<le> be_fuel E" "spec_rel X E L (snd c) w"
    "repo_at (sp_view w) ov = Some p" "sp_blocks w p = m" by (auto simp: local_serves_def)
  from local_put [OF w(1,4,5) 1(2), of user] obtain s' where
    s': "put_block X E user ov b (snd c) = (Ok (), s')"
      "spec_rel X E L s' (w\<lparr>sp_blocks := (sp_blocks w)(p := (sp_blocks w p)(block_id X b \<mapsto> plain b))\<rparr>)" by blast
  from s'(2) w have "local_serves X E L clocks fuel ov (Suc (fst c), s') (m(block_id X b \<mapsto> plain b))"
    unfolding local_serves_def
    by (intro conjI exI [of _ "w\<lparr>sp_blocks := (sp_blocks w)(p := (sp_blocks w p)(block_id X b \<mapsto> plain b))\<rparr>"] exI [of _ p]) auto
  with s'(1) show ?case
    by (intro exI [of _ "(Suc (fst c), s')"]) (simp add: local_connection_def local_call_def local_request_def case_prod_beta)
next
  case (2 c m bs K ds deps topic)
  then obtain w p where w: "lawful_env X E L" "\<forall>n. clock_ok (clocks n)" "fuel \<le> be_fuel E" "spec_rel X E L (snd c) w"
    "repo_at (sp_view w) ov = Some p" "sp_blocks w p = m" by (auto simp: local_serves_def)
  from local_get [OF w(1,4,5) w(2) [rule_format, of "fst c"] 2(2), of deps user topic] 2(3,5,6) w(3,6) obtain rs s' where
    s': "get_block X E (clocks (fst c)) user ov (block_id X (last bs)) True topic (snd c) = (Ok rs, s')"
      "represented X bs rs" "spec_rel X E L s' w" by auto
  from s'(3) w have "local_serves X E L clocks fuel ov (Suc (fst c), s') m" unfolding local_serves_def by auto
  with s'(1,2) show ?case
    by (intro exI [of _ rs] exI [of _ "(Suc (fst c), s')"])
      (simp add: local_connection_def local_call_def local_request_stream_def case_prod_beta)
qed

section \<open>Properties\<close>

text \<open>
  Connecting to the overlay of a repository for the first time joins it: with a client on a server in the
  same process, \<^verbatim>\<open>overlay_connect\<close> answers the overlay's client, after which the overlay is one of the
  account's, has the secret and the repository of the link, and the repository's blocks are served; when the
  repository has another overlay already, or the user has no account, it fails.
\<close>

theorem overlay_connect_joins:
  assumes "lawful_env X E L" "spec_rel X E L s w" "\<forall>n. clock_ok (clocks n)"
    and ov: "ov = overlay_of_link X link public" and new: "sw_overlays (sp_view w) ov = None"
  shows "\<exists>s' w'. overlay_connect X (local_connection X E user clocks randoms) link public (n, s)
      = (if sw_keys (sp_view w) (Repo (repo_link_id link)) \<noteq> None then Err StoreError
         else if ae_admin (sw_users (sp_view w) user) = None then Err ProtocolError.NotFound
         else Ok \<lparr>oc_overlay = ov, oc_repo_link = link\<rparr>, (Suc (Suc n), s'))
    \<and> spec_rel X E L s' w' \<and> repo_at (sp_view w') ov = Some (repo_link_id link) \<and> sp_blocks w' = sp_blocks w
    \<and> (sw_keys (sp_view w) (Repo (repo_link_id link)) = None \<longrightarrow> ae_admin (sw_users (sp_view w) user) \<noteq> None \<longrightarrow>
        ov \<in> ae_overlays (sw_users (sp_view w') user)
        \<and> sw_overlays (sp_view w') ov = Some (repo_link_secret link, Some (repo_link_id link)))"
proof -
  let ?p = "join_spec Local (randoms (Suc n)) user ov (Some (repo_link_id link)) (repo_link_secret link) (repo_link_peers link) (sp_view w)"
  from assms(2) have inv: "server_invar X E L s (sp_view w)" by (simp add: spec_rel_def)
  from join_overlay_serves [OF assms(1) inv, of "clocks (Suc n)" "randoms (Suc n)" user ov "Some (repo_link_id link)"
      "repo_link_secret link" "repo_link_peers link"] assms(3) obtain st where
    st: "join_overlay X E (clocks (Suc n)) (randoms (Suc n)) user ov (Some (repo_link_id link)) (repo_link_secret link) (repo_link_peers link) s
        = (fst ?p, s\<lparr>srv_store := st\<rparr>)" "server_invar X E L (s\<lparr>srv_store := st\<rparr>) (snd ?p)" by blast
  let ?w' = "\<lparr>sp_view = snd ?p, sp_blocks = sp_blocks w\<rparr>"
  have rel: "spec_rel X E L (s\<lparr>srv_store := st\<rparr>) ?w'" using st(2) assms(2) by (auto simp: spec_rel_def)
  have "overlay_connect X (local_connection X E user clocks randoms) link public (n, s)
      = (and_then (fst ?p) (\<lambda>_. Ok \<lparr>oc_overlay = ov, oc_repo_link = link\<rparr>), (Suc (Suc n), s\<lparr>srv_store := st\<rparr>))"
    using st(1) ov by (cases "fst ?p") (simp_all add: overlay_connect_def process_overlay_connect_def local_connection_def
        local_call_def local_request_def connect_overlay_def Let_def)
  moreover have "fst ?p = (if sw_keys (sp_view w) (Repo (repo_link_id link)) \<noteq> None then Err StoreError
         else if ae_admin (sw_users (sp_view w) user) = None then Err ProtocolError.NotFound else Ok ())"
    "repo_at (snd ?p) ov = Some (repo_link_id link)"
    "sw_keys (sp_view w) (Repo (repo_link_id link)) = None \<Longrightarrow> ae_admin (sw_users (sp_view w) user) \<noteq> None \<Longrightarrow>
      ov \<in> ae_overlays (sw_users (snd ?p) user) \<and> sw_overlays (snd ?p) ov = Some (repo_link_secret link, Some (repo_link_id link))"
    using new by (auto simp: join_spec_def create_overlay_spec_def add_peers_spec_def repo_at_def Let_def)
  ultimately show ?thesis using rel
    by (intro exI [of _ "s\<lparr>srv_store := st\<rparr>"] exI [of _ ?w']) (auto split: if_splits)
qed


section \<open>Witnesses\<close>

definition demo_link :: RepoLink where
  "demo_link = RepoLink.V0 \<lparr>rl_id = demo_pubkey, rl_secret = demo_secret, rl_peers = []\<rparr>"

definition demo_connection :: "BrokerMessage list \<Rightarrow> (nat \<times> (demo_db, demo_env) BrokerServer) BrokerConnection" where
  "demo_connection msgs = local_connection (demo_server msgs) demo_broker_env demo_user (\<lambda>_. 1700000000) (\<lambda>_. fill32 5)"

theorem overlay_connect_joins_witness:
  "\<exists>s s' oc. overlay_connect (demo_server []) (demo_connection []) demo_link True (0, s) = (Ok oc, (Suc (Suc 0), s'))"
proof -
  let ?X = "demo_server []" and ?w = "snd (spec_call (demo_server []) 5 (hd demo_calls) \<lparr>sp_view = empty_view, sp_blocks = (\<lambda>_. Map.empty)\<rparr>)"
  from server_call_follows [OF demo_lawful demo_spec_rel, of "[]" "hd demo_calls"] demo_calls_ok [of "[]"]
  obtain s where s: "spec_rel ?X demo_broker_env demo_laws s ?w" by (auto simp: demo_calls_def)
  have w: "sw_overlays (sp_view ?w) = Map.empty" "sw_keys (sp_view ?w) = Map.empty" "ae_admin (sw_users (sp_view ?w) demo_user) = Some False"
    by (simp_all add: demo_calls_def add_user_spec_def verify_demo_sign empty_view_def no_account_def case_prod_beta)
  from overlay_connect_joins [OF demo_lawful s, of "\<lambda>_. 1700000000" "overlay_of_link ?X demo_link True" demo_link True demo_user "\<lambda>_. fill32 5" 0]
  show ?thesis unfolding demo_connection_def by (fastforce simp: some_clock w)
qed

lemma demo_server_laws [simp]:
  "stream_cipher (demo_server msgs)" "block_content_codec (demo_server msgs)" "content_tagged (demo_server msgs)"
  "object_content_codec (demo_server msgs) (demo_file d)"
  using demo_repo_laws(1-3) demo_repo_laws(4) [of d]
  by (simp_all add: demo_server_def auth_externs.defs repo_externs.defs demo_repo_def net_externs.defs
      demo_net_def externs.defs stream_cipher_def block_content_codec_def content_tagged_def object_content_codec_def)

definition demo_stored_object :: Object where
  "demo_stored_object = \<lparr>obj_blocks = [make_leaf (demo_server []) (convergence_key (demo_server []) demo_pubkey demo_secret)
     (ObjectIdList []) None [2, 7]], obj_deps = []\<rparr>"


end
