(* ===== verification/Lofire_Sync.thy ===== *)
theory Lofire_Sync
  imports Lofire_Client_Local
begin

text \<open>
  Synchronizing a branch through the whole stack: what \<^verbatim>\<open>sync_branch\<close> of a client is answered by a server
  whose blocks are in an LMDB store.
\<close>

section \<open>The objects that are sent\<close>

text \<open>The identifiers of the blocks of the object that loads under an identifier.\<close>

definition object_ids :: "'x externs_scheme \<Rightarrow> nat \<Rightarrow> (BlockId \<rightharpoonup> Block) \<Rightarrow> ObjectId \<Rightarrow> BlockId set" where
  "object_ids X n m i = (case fst (object_load X (map_store X) n i None m) of
     Ok ob \<Rightarrow> block_id X ` set (obj_blocks ob) | _ \<Rightarrow> {})"

text \<open>A list of blocks of the store, each once, with the identifiers \<open>I\<close>.\<close>

definition sends :: "'x externs_scheme \<Rightarrow> (BlockId \<rightharpoonup> Block) \<Rightarrow> BlockId set \<Rightarrow> Block list \<Rightarrow> bool" where
  "sends X m I bs \<longleftrightarrow> distinct (map (block_id X) bs) \<and> block_id X ` set bs = I \<and> held X m bs"

lemma sends_Nil [simp]: "sends X m {} []"
  by (simp add: sends_def held_def)

lemma send_blocks_sends_more:
  assumes "sends X m D r" "held X m bs"
  shows "\<exists>r'. send_blocks X bs D r = (D \<union> block_id X ` set bs, r') \<and> sends X m (D \<union> block_id X ` set bs) r'"
  using assms
proof (induction bs arbitrary: D r)
  case (Cons b bs)
  have bs: "held X m bs" and b: "m (block_id X b) = Some (plain b)" using Cons.prems(2) by (simp_all add: held_def)
  show ?case
  proof (cases "block_id X b \<in> D")
    case True
    with Cons.IH [OF Cons.prems(1) bs] show ?thesis by (simp add: insert_absorb)
  next
    case False
    with Cons.prems(1) b have "sends X m (insert (block_id X b) D) (r @ [b])" by (auto simp: sends_def held_def)
    from Cons.IH [OF this bs] False show ?thesis by simp
  qed
qed simp

context repo_store
begin

lemma object_load_ids:
  assumes "invar s" "dep_graph X n (\<alpha> s) i \<noteq> None"
  shows "\<exists>ob s'. object_load X S n i None s = (Ok ob, s') \<and> block_id X ` set (obj_blocks ob) = object_ids X n (\<alpha> s) i
    \<and> held X (\<alpha> s) (obj_blocks ob) \<and> invar s' \<and> \<alpha> s' = \<alpha> s"
proof -
  from object_load_sim [OF assms(1), of n i None] obtain s' r r' where
    r: "object_load X S n i None s = (r, s')" "object_load X (map_store X) n i None (\<alpha> s) = (r', \<alpha> s)"
      "rel_result (alike_objects X) (=) r r'" "invar s'" "\<alpha> s' = \<alpha> s" by blast
  from assms(2) r(2) obtain ob' where ob': "r' = Ok ob'" by (cases r') (simp_all add: dep_graph_def)
  with r(3) obtain ob where ob: "r = Ok ob" "alike_objects X ob ob'" by (cases r) simp_all
  from ob(2) have ids: "map (block_id X) (obj_blocks ob) = map (block_id X) (obj_blocks ob')"
    by (auto simp: alike_objects_def alike_def same_block_def list_all2_conv_all_nth intro: nth_equalityI)
  from arg_cong [OF ids, of set] r(2) ob' have "block_id X ` set (obj_blocks ob) = object_ids X n (\<alpha> s) i"
    by (simp add: object_ids_def)
  with r ob object_load_held [OF assms(1), of n i None] show ?thesis by auto
qed

lemma sync_req_keeps:
  assumes "invar s" "sync_req X S n fuel our their bf s = (Ok res, s')"
  shows "invar s'" "\<alpha> s' = \<alpha> s"
proof -
  from assms(2) obtain o' ms s1 t ms2 where
    h: "sync_heads X S n fuel their our s {} {} = (Ok (o', ms), s1)" "sync_heads X S n fuel [] their s1 {} ms = (Ok (t, ms2), s')"
    by (auto simp: sync_req_def res_simps)
  from sync_heads_reach [OF assms(1) refl h(1)] have s1: "invar s1" "\<alpha> s1 = \<alpha> s" by auto
  from sync_heads_reach [OF s1 h(2)] show "invar s'" "\<alpha> s' = \<alpha> s" by auto
qed

end

lemma send_objects_sends:
  assumes rc: "repo_codec X" "clock_ok clock" and d: "stored X E L k d" "blocks_in X L d = m"
    and ids: "\<forall>i \<in> set ids. dep_graph X (be_fuel E) m i \<noteq> None" and r: "sends X m D r"
  shows "\<exists>r' d'. send_objects X E clock ids D r d = (Ok r', d') \<and> sends X m (D \<union> (\<Union>i \<in> set ids. object_ids X (be_fuel E) m i)) r'
    \<and> stored X E L k d' \<and> blocks_in X L d' = m"
  using d ids r
proof (induction ids arbitrary: D r d)
  case (Cons i ids)
  note inv = stored_lmdb [OF rc, of E L k]
  from lm.object_load_ids [OF iffD2 [OF inv Cons.prems(1)], of "be_fuel E" i] Cons.prems(2,3) obtain ob d1 where
    ob: "object_load X (repo_of X E clock) (be_fuel E) i None d = (Ok ob, d1)"
      "block_id X ` set (obj_blocks ob) = object_ids X (be_fuel E) m i" "held X m (obj_blocks ob)"
      "stored X E L k d1" "blocks_in X L d1 = m" by (auto simp: inv)
  from send_blocks_sends_more [OF Cons.prems(4) ob(3)] ob(2) obtain r1 where
    r1: "send_blocks X (obj_blocks ob) D r = (D \<union> object_ids X (be_fuel E) m i, r1)"
      "sends X m (D \<union> object_ids X (be_fuel E) m i) r1" by auto
  from Cons.IH [OF ob(4,5) _ r1(2)] Cons.prems(3) obtain r' d' where
    "send_objects X E clock ids (D \<union> object_ids X (be_fuel E) m i) r1 d1 = (Ok r', d')"
    "sends X m (D \<union> object_ids X (be_fuel E) m i \<union> (\<Union>i \<in> set ids. object_ids X (be_fuel E) m i)) r'"
    "stored X E L k d'" "blocks_in X L d' = m" by auto
  with ob(1) r1(1) show ?case by (simp add: Un_assoc)
qed simp

lemma sync_reach_loads: "sync_reach G T h i \<Longrightarrow> G i \<noteq> None"
  by (induction rule: sync_reach.induct) (auto simp: expandable_def split: option.splits)

section \<open>Loading from a part of a store\<close>

lemma load_level_grows:
  "load_level S ps s ch bl ms = (Ok (ch', bl', ms'), s') \<Longrightarrow> set bl \<subseteq> set bl' \<and> set ms \<subseteq> set ms'"
proof (induction ps arbitrary: s ch bl ms)
  case (Cons i ps)
  obtain r s1 where r: "rs_get S s i = (r, s1)" by (rule prod.exhaust)
  show ?case
  proof (cases r)
    case (Ok b)
    with Cons.prems r Cons.IH [of s1 "ch @ rev (block_children b)" "b # bl" ms] show ?thesis by auto
  next
    case (Err e)
    with Cons.prems r Cons.IH [of s1 ch bl "ms @ [i]"] show ?thesis by auto
  qed (use Cons.prems r in simp_all)
qed auto

lemma load_tree_grows:
  "load_tree S n ps s bl ms = (Ok (bl', ms'), s') \<Longrightarrow> set bl \<subseteq> set bl' \<and> set ms \<subseteq> set ms'"
proof (induction n arbitrary: ps s bl ms)
  case (Suc n)
  from Suc.prems obtain ch1 bl1 ms1 s1 where l: "load_level S ps s [] bl ms = (Ok (ch1, bl1, ms1), s1)"
    "(if ch1 = [] then (Ok (bl1, ms1), s1) else load_tree S n ch1 s1 bl1 ms1) = (Ok (bl', ms'), s')"
    by (auto simp: load_tree.simps(2) res_simps)
  from load_level_grows [OF l(1)] l(2) Suc.IH [of ch1 s1 bl1 ms1] show ?case by (auto split: if_splits)
qed simp

text \<open>A tree that loads completely loads the same from any map that has its blocks.\<close>

lemma load_level_agrees:
  assumes "load_level (map_store X) ps m ch bl [] = (Ok (ch', bl', []), s')"
    and "\<forall>b \<in> set bl'. m' (block_id X b) = m (block_id X b)"
  shows "load_level (map_store X) ps m' ch bl [] = (Ok (ch', bl', []), m') \<and> s' = m"
  using assms(1)
proof (induction ps arbitrary: ch bl)
  case (Cons i ps)
  show ?case
  proof (cases "m i")
    case None
    with Cons.prems have "load_level (map_store X) ps m ch bl [i] = (Ok (ch', bl', []), s')" by (simp add: map_store_def)
    from load_level_grows [OF this] show ?thesis by simp
  next
    case (Some b)
    obtain b1 where b: "b = Block.V0 b1" by (cases b)
    let ?b = "Block.V0 (b1\<lparr>blk_id := Some i, blk_key := None\<rparr>)"
    from Cons.prems Some b have l: "load_level (map_store X) ps m (ch @ rev (block_children ?b)) (?b # bl) [] = (Ok (ch', bl', []), s')"
      by (simp add: map_store_def)
    from load_level_grows [OF l] assms(2) have "m' (block_id X ?b) = m (block_id X ?b)" by auto
    then have "m' i = Some b" using Some by simp
    with Cons.IH [OF l] b show ?thesis by (simp add: map_store_def)
  qed
qed simp

lemma load_tree_agrees:
  assumes "load_tree (map_store X) n ps m bl [] = (Ok (bl', []), s')"
    and "\<forall>b \<in> set bl'. m' (block_id X b) = m (block_id X b)"
  shows "load_tree (map_store X) n ps m' bl [] = (Ok (bl', []), m')"
  using assms(1)
proof (induction n arbitrary: ps bl)
  case (Suc n)
  from Suc.prems obtain ch1 bl1 ms1 s1 where l: "load_level (map_store X) ps m [] bl [] = (Ok (ch1, bl1, ms1), s1)"
    "(if ch1 = [] then (Ok (bl1, ms1), s1) else load_tree (map_store X) n ch1 s1 bl1 ms1) = (Ok (bl', []), s')"
    by (auto simp: load_tree.simps(2) res_simps)
  from l(2) load_tree_grows [of "map_store X" n ch1 s1 bl1 ms1 bl' "[]" s'] have g: "set bl1 \<subseteq> set bl'" "ms1 = []"
    by (auto split: if_splits)
  with load_level_agrees [OF l(1) [unfolded g(2)]] assms(2) have
    "load_level (map_store X) ps m' [] bl [] = (Ok (ch1, bl1, []), m')" "s1 = m" by (blast, blast)
  with l(2) g(2) Suc.IH [of ch1 bl1] show ?case by (auto simp: load_tree.simps(2) split: if_splits)
qed simp

lemma dep_graph_agrees:
  assumes "plain_map m" "dep_graph X n m i = Some ds" "\<forall>j \<in> object_ids X n m i. m' j = m j"
    and few: "\<forall>j b. m j = Some b \<longrightarrow> (\<exists>ds. block_deps b = ObjectIdList ds)"
  shows "dep_graph X n m' i = Some ds"
proof -
  from assms(2) obtain ob s' where ob: "object_load X (map_store X) n i None m = (Ok ob, s')" "obj_deps ob = ds"
    by (cases "object_load X (map_store X) n i None m"; cases "fst (object_load X (map_store X) n i None m)")
      (auto simp: dep_graph_def)
  then obtain n' where n: "n = Suc n'" by (cases n) auto
  from ob(1) obtain bl s1 where bl: "load_tree (map_store X) n [i] m [] [] = (Ok (bl, []), s1)" "bl \<noteq> []"
    "load_deps X (map_store X) n' (butlast bl @ [last bl]) (last bl) s1 = (Ok ob, s')"
    unfolding n by (auto simp: object_load_Suc res_simps with_key_def split: if_splits)
  from load_deps_Ok [OF bl(3)] bl(2) have blocks: "obj_blocks ob = bl" by simp
  from mp.object_load_held [OF assms(1), of X n i None] ob(1) blocks have "held X m bl" by auto
  with bl(2) have "m (block_id X (last bl)) = Some (plain (last bl))" by (simp add: held_def)
  with few obtain es where es: "block_deps (last bl) = ObjectIdList es" by (metis plain_fields(3))
  with bl(3) ob(2) have "es = ds" by (auto simp: load_deps_def)
  from assms(3) ob(1) blocks have "\<forall>b \<in> set bl. m' (block_id X b) = m (block_id X b)" by (simp add: object_ids_def)
  from load_tree_agrees [OF bl(1) this] es \<open>es = ds\<close> bl(2) show ?thesis
    unfolding n by (simp add: dep_graph_def object_load_Suc with_key_def load_deps_def)
qed

section \<open>The answer of the server\<close>

text \<open>The commits a synchronization is for.\<close>

definition wanted ::
  "'x externs_scheme \<Rightarrow> (ObjectId \<Rightarrow> ObjectId list option) \<Rightarrow> ObjectId list \<Rightarrow> ObjectId list \<Rightarrow> BloomFilter \<Rightarrow> ObjectId set" where
  "wanted X G heads known bf = {i. (\<exists>h \<in> set heads. sync_reach G (set known) h i)
     \<and> \<not> (\<exists>h \<in> set known. sync_reach G {} h i) \<and> \<not> bloom_has X bf i}"

lemma synced_blocks:
  fixes s :: "('b, 'd) BrokerServer"
  assumes env: "lawful_env X E L" and rel: "spec_rel X E L s w" and ov: "repo_at (sp_view w) (oc_overlay oc) = Some p"
    and clocks: "\<forall>n. clock_ok (clocks n)" and G: "G = dep_graph X (be_fuel E) (sp_blocks w p)"
    and loads: "loads_or_misses X (be_fuel E) (sp_blocks w p)"
    and fuel: "finite (dom (sp_blocks w p))" "card (dom (sp_blocks w p)) < be_fuel E"
    and heads: "\<forall>h \<in> set heads \<union> set known. G h \<noteq> None"
  shows "\<exists>bs s'. client_sync_branch (local_connection X E user clocks randoms) oc heads known bf (n, s) = (Ok bs, (Suc n, s'))
    \<and> spec_rel X E L s' w \<and> sends X (sp_blocks w p) (\<Union>i \<in> wanted X G heads known bf. object_ids X (be_fuel E) (sp_blocks w p) i) bs"
proof -
  let ?clock = "clocks n" and ?m = "sp_blocks w p"
  let ?I = "wanted X G heads known bf"
  let ?f = "\<lambda>d. op_then (apfst (map_err (\<lambda>_. ProtocolError.ObjectParseError))
      (sync_req X (repo_of X E ?clock) (be_fuel E) (be_fuel E) heads known bf d)) (\<lambda>res d. send_objects X E ?clock res {} [] d)"
  let ?P = "\<lambda>r. \<exists>bs. r = Ok bs \<and> sends X ?m (\<Union>i \<in> ?I. object_ids X (be_fuel E) ?m i) bs"
  have rc: "repo_codec X" using env by (simp add: lawful_env_def)
  have clock: "clock_ok ?clock" using clocks by blast
  have f: "\<exists>r d'. ?f d = (r, d') \<and> r \<noteq> Panic \<and> stored X E L k d' \<and> blocks_in X L d' = ?m \<and> ?P r"
    if d: "stored X E L k d" "blocks_in X L d = ?m" for k d
  proof -
    note inv = stored_lmdb [OF rc clock, of E L k]
    from lm.sync_req_returns [OF _ _ _ iffD2 [OF inv d(1)], of "be_fuel E" "be_fuel E" heads known bf]
      loads fuel heads d(2) G obtain res d1 where
      res: "sync_req X (repo_of X E ?clock) (be_fuel E) (be_fuel E) heads known bf d = (Ok res, d1)" "set res = ?I" by (auto simp: wanted_def)
    from lm.sync_req_keeps [OF iffD2 [OF inv d(1)] res(1)] inv d(2) have d1: "stored X E L k d1" "blocks_in X L d1 = ?m" by auto
    have "\<forall>i \<in> set res. dep_graph X (be_fuel E) ?m i \<noteq> None" using sync_reach_loads by (auto simp: res(2) G wanted_def)
    from send_objects_sends [OF rc clock d1 this sends_Nil] res show ?thesis by auto
  qed
  from block_step [OF env rel ov, where f = ?f and P = ?P, OF f] obtain r s' where
    s': "get_repostore_from_overlay_id X E (oc_overlay oc) ?f s = (r, s')" "?P r"
      "spec_rel X E L s' (w\<lparr>sp_blocks := (sp_blocks w)(p := sp_blocks w p)\<rparr>)" by blast
  from s'(2) obtain bs where bs: "r = Ok bs" "sends X ?m (\<Union>i \<in> ?I. object_ids X (be_fuel E) ?m i) bs" by blast
  have "client_sync_branch (local_connection X E user clocks randoms) oc heads known bf (n, s) = (r, (Suc n, s'))"
    using s'(1) by (simp add: client_sync_branch_def local_connection_def local_call_def local_request_stream_def sync_branch_def)
  with bs s'(3) show ?thesis by (intro exI [of _ bs] exI [of _ s']) simp
qed

section \<open>Properties\<close>

text \<open>
  Synchronizing a branch with a client on a server in the same process answers exactly the blocks of the
  commits the client lacks, each block once and as the repository of the overlay has it: the commits are those
  reachable from the requested heads up to the known ones, less those reachable from the known heads, less those in the Bloom
  filter. Nothing the server promises changes.
\<close>

theorem sync_branch_sends_blocks:
  fixes s :: "('b, 'd) BrokerServer"
  assumes env: "lawful_env X E L" and rel: "spec_rel X E L s w" and ov: "repo_at (sp_view w) (oc_overlay oc) = Some p"
    and clocks: "\<forall>n. clock_ok (clocks n)" and G: "G = dep_graph X (be_fuel E) (sp_blocks w p)"
    and loads: "loads_or_misses X (be_fuel E) (sp_blocks w p)"
    and fuel: "finite (dom (sp_blocks w p))" "card (dom (sp_blocks w p)) < be_fuel E"
    and heads: "\<forall>h \<in> set heads \<union> set known. G h \<noteq> None"
  shows "\<exists>bs s'. client_sync_branch (local_connection X E user clocks randoms) oc heads known bf (n, s) = (Ok bs, (Suc n, s'))
    \<and> spec_rel X E L s' w \<and> distinct (map (block_id X) bs)
    \<and> block_id X ` set bs = (\<Union>i \<in> {i. (\<exists>h \<in> set heads. sync_reach G (set known) h i)
        \<and> \<not> (\<exists>h \<in> set known. sync_reach G {} h i) \<and> \<not> bloom_has X bf i}. object_ids X (be_fuel E) (sp_blocks w p) i)
    \<and> (\<forall>b \<in> set bs. sp_blocks w p (block_id X b) = Some (plain b))"
  using synced_blocks [OF env rel ov clocks G loads fuel heads, of user randoms bf n]
  unfolding wanted_def sends_def held_def by blast

text \<open>
  Blocks stored under their own identifiers, with their dependencies in themselves: no object has a dependency list
  of its own, whose blocks are not sent.
\<close>

definition own_ids :: "'x externs_scheme \<Rightarrow> (BlockId \<rightharpoonup> Block) \<Rightarrow> bool" where
  "own_ids X m \<longleftrightarrow> (\<forall>i b. m i = Some b \<longrightarrow> plain b = b \<and> get_id X b = i \<and> (\<exists>ds. block_deps b = ObjectIdList ds))"

lemma received_blocks_added:
  assumes m: "own_ids X m" and c: "hashmap_invar X c" "hashmap_abs c \<subseteq>\<^sub>m m"
    and bs: "\<forall>b \<in> set bs. m (block_id X b) = Some (plain b)"
  shows "\<exists>c'. collect_stream X bs c = (Ok (), c') \<and> hashmap_invar X c' \<and> hashmap_abs c \<subseteq>\<^sub>m hashmap_abs c'
    \<and> hashmap_abs c' \<subseteq>\<^sub>m m \<and> dom (hashmap_abs c') = dom (hashmap_abs c) \<union> block_id X ` set bs"
proof -
  have "\<forall>b \<in> set bs. honest X b" using m bs unfolding own_ids_def honest_def by (metis get_id_plain)
  from collect_stream_adds [OF c(1) this] obtain c' where
    c': "collect_stream X bs c = (Ok (), c')" "hashmap_invar X c'" "adds X bs {} (hashmap_abs c) (hashmap_abs c')" by blast
  have new: "hashmap_abs c' i = m i" if "i \<in> block_id X ` set bs" for i
    using c'(3) [unfolded adds_def, rule_format, of i] that bs by auto
  have old: "hashmap_abs c' i = hashmap_abs c i" if "i \<notin> block_id X ` set bs" for i
    using c'(3) [unfolded adds_def, rule_format, of i] that by simp
  have "hashmap_abs c' i = m i" if "i \<in> dom (hashmap_abs c) \<union> block_id X ` set bs" for i
    using that new old c(2) by (cases "i \<in> block_id X ` set bs") (auto simp: map_le_def)
  moreover have "dom (hashmap_abs c') = dom (hashmap_abs c) \<union> block_id X ` set bs"
  proof (rule set_eqI)
    fix i show "i \<in> dom (hashmap_abs c') \<longleftrightarrow> i \<in> dom (hashmap_abs c) \<union> block_id X ` set bs"
      using new [of i] old [of i] bs by (cases "i \<in> block_id X ` set bs") (auto simp: domIff)
  qed
  ultimately show ?thesis using c' c(2) by (intro exI [of _ c']) (auto simp: map_le_def)
qed

text \<open>
  C5. A synchronization gives the client the whole branch: a client whose store agrees with the repository and
  has the commits reachable from the heads it names can, once it has put the blocks it receives into its
  store, load every commit between the requested heads and its own, with the repository's dependencies, but those that
  its Bloom filter claimed it had.
\<close>

theorem sync_branch_completes_client:
  fixes s :: "('b, 'd) BrokerServer"
  assumes env: "lawful_env X E L" and rel: "spec_rel X E L s w" and ov: "repo_at (sp_view w) (oc_overlay oc) = Some p"
    and clocks: "\<forall>n. clock_ok (clocks n)" and G: "G = dep_graph X (be_fuel E) (sp_blocks w p)"
    and loads: "loads_or_misses X (be_fuel E) (sp_blocks w p)"
    and fuel: "finite (dom (sp_blocks w p))" "card (dom (sp_blocks w p)) < be_fuel E"
    and heads: "\<forall>h \<in> set heads \<union> set known. G h \<noteq> None"
    and own: "own_ids X (sp_blocks w p)" and c: "hashmap_invar X c" "hashmap_abs c \<subseteq>\<^sub>m sp_blocks w p"
    and has: "\<forall>h \<in> set known. \<forall>i. sync_reach G {} h i \<longrightarrow> object_ids X (be_fuel E) (sp_blocks w p) i \<subseteq> dom (hashmap_abs c)"
  shows "\<exists>bs s' c'. client_sync_branch (local_connection X E user clocks randoms) oc heads known bf (n, s) = (Ok bs, (Suc n, s'))
    \<and> collect_stream X bs c = (Ok (), c') \<and> hashmap_abs c \<subseteq>\<^sub>m hashmap_abs c' \<and> hashmap_abs c' \<subseteq>\<^sub>m sp_blocks w p
    \<and> (\<forall>h \<in> set heads. \<forall>i. sync_reach G (set known) h i \<and> \<not> bloom_has X bf i \<longrightarrow>
         dep_graph X (be_fuel E) (hashmap_abs c') i = G i)"
proof -
  let ?m = "sp_blocks w p" and ?ids = "object_ids X (be_fuel E) (sp_blocks w p)"
  from synced_blocks [OF env rel ov clocks G loads fuel heads, of user randoms bf n] obtain bs s' where
    bs: "client_sync_branch (local_connection X E user clocks randoms) oc heads known bf (n, s) = (Ok bs, (Suc n, s'))"
      "block_id X ` set bs = \<Union> (?ids ` wanted X G heads known bf)" "\<forall>b \<in> set bs. ?m (block_id X b) = Some (plain b)"
    by (auto simp: sends_def held_def)
  from received_blocks_added [OF own c bs(3)] obtain c' where
    c': "collect_stream X bs c = (Ok (), c')" "hashmap_abs c \<subseteq>\<^sub>m hashmap_abs c'" "hashmap_abs c' \<subseteq>\<^sub>m ?m"
      "dom (hashmap_abs c') = dom (hashmap_abs c) \<union> block_id X ` set bs" by blast
  have plain: "plain_map ?m" and few: "\<forall>j b. ?m j = Some b \<longrightarrow> (\<exists>ds. block_deps b = ObjectIdList ds)"
    using own by (auto simp: own_ids_def plain_map_def)
  have "dep_graph X (be_fuel E) (hashmap_abs c') i = G i"
    if h: "h \<in> set heads" "sync_reach G (set known) h i" "\<not> bloom_has X bf i" for h i
  proof -
    from sync_reach_loads [OF h(2)] obtain ds where ds: "G i = Some ds" by blast
    have "?ids i \<subseteq> dom (hashmap_abs c')"
    proof (cases "\<exists>k \<in> set known. sync_reach G {} k i")
      case True
      with has c'(4) show ?thesis by blast
    next
      case False
      with h have "i \<in> wanted X G heads known bf" by (auto simp: wanted_def)
      with bs(2) c'(4) show ?thesis by blast
    qed
    with c'(3) have "\<forall>j \<in> ?ids i. hashmap_abs c' j = ?m j" by (auto simp: map_le_def)
    from dep_graph_agrees [OF plain _ this few] ds show ?thesis by (simp add: G)
  qed
  with bs(1) c'(1-3) show ?thesis by blast
qed

section \<open>Witnesses\<close>

text \<open>A repository with a root, a commit on it and a commit on that; the identifiers are those of the instance's hash.\<close>

definition demo_commit :: "u8 \<Rightarrow> ObjectId list \<Rightarrow> Block" where
  "demo_commit v ds = Block.V0 \<lparr>blk_id = None, blk_key = None, blk_children = [], blk_deps = ObjectIdList ds,
     blk_expiry = None, blk_content = [v]\<rparr>"

definition demo_history :: "BlockId \<rightharpoonup> Block" where
  "demo_history = [demo_id 154 \<mapsto> demo_commit 1 [], demo_id 155 \<mapsto> demo_commit 2 [demo_id 154],
     demo_id 156 \<mapsto> demo_commit 3 [demo_id 155]]"

lemma demo_commit_id [simp]: "get_id (demo_server []) (demo_commit v ds) = demo_id (153 + v)"
  "block_id (demo_server []) (demo_commit v ds) = demo_id (153 + v)" "plain (demo_commit v ds) = demo_commit v ds"
  "block_deps (demo_commit v ds) = ObjectIdList ds" "block_key (demo_commit v ds) = None"
  by (simp_all add: demo_commit_def demo_server_def auth_externs.defs repo_externs.defs demo_repo_def net_externs.defs
      demo_net_def externs.defs demo_externs_def tag_block_def checksum_def demo_id_def add.commute,
    simp_all add: iszero_def take_bit_eq_mod)

lemma demo_history_stored:
  "\<exists>s. spec_rel (demo_server []) demo_broker_env demo_laws s
     \<lparr>sp_view = joined_view, sp_blocks = (\<lambda>_. Map.empty)(demo_pubkey := demo_history)\<rparr>"
proof -
  let ?X = "demo_server []" and ?w = "\<lambda>m. \<lparr>sp_view = joined_view, sp_blocks = (\<lambda>_. Map.empty)(demo_pubkey := m)\<rparr>"
  have put: "\<exists>s'. spec_rel ?X demo_broker_env demo_laws s' (?w (m(demo_id (153 + v) \<mapsto> demo_commit v ds)))"
    if "spec_rel ?X demo_broker_env demo_laws s (?w m)" for s m v ds
    using local_put [OF demo_lawful that, of "demo_id 1" demo_pubkey "demo_commit v ds" demo_user]
    by (auto simp: repo_at_def joined_view_def honest_def)
  from demo_joined obtain s where "spec_rel ?X demo_broker_env demo_laws s (?w Map.empty)" by (auto simp: fun_upd_idem)
  from put [OF this, of 1 "[]"] obtain s1 where "spec_rel ?X demo_broker_env demo_laws s1 (?w [demo_id 154 \<mapsto> demo_commit 1 []])" by auto
  from put [OF this, of 2 "[demo_id 154]"] obtain s2 where
    "spec_rel ?X demo_broker_env demo_laws s2 (?w [demo_id 154 \<mapsto> demo_commit 1 [], demo_id 155 \<mapsto> demo_commit 2 [demo_id 154]])" by auto
  from put [OF this, of 3 "[demo_id 155]"] show ?thesis by (auto simp: demo_history_def)
qed

lemma demo_history_load:
  "fst (object_load X (map_store X) (Suc n) i None demo_history) = (case demo_history i of
     None \<Rightarrow> Err (ObjectParseError.MissingBlocks [i])
   | Some (Block.V0 b) \<Rightarrow> Ok \<lparr>obj_blocks = [Block.V0 (b\<lparr>blk_id := Some i, blk_key := None\<rparr>)],
       obj_deps = (case blk_deps b of ObjectIdList ds \<Rightarrow> ds | _ \<Rightarrow> [])\<rparr>)"
  by (auto simp: object_load_Suc load_tree.simps(2) map_store_def demo_history_def demo_commit_def load_deps_def with_key_def)

definition demo_graph :: "ObjectId \<Rightarrow> ObjectId list option" where
  "demo_graph = [demo_id 154 \<mapsto> [], demo_id 155 \<mapsto> [demo_id 154], demo_id 156 \<mapsto> [demo_id 155]]"

lemma demo_history_graph: "dep_graph X (Suc n) demo_history = demo_graph"
  by (rule ext) (simp add: dep_graph_def demo_history_load, simp add: demo_history_def demo_commit_def demo_graph_def)

lemma demo_history_ids: "object_ids X (Suc n) demo_history i = (if i \<in> {demo_id 154, demo_id 155, demo_id 156} then {i} else {})"
  by (simp add: object_ids_def demo_history_load, simp add: demo_history_def demo_commit_def)

lemma demo_history_loads: "loads_or_misses X (Suc n) demo_history"
  by (simp add: loads_or_misses_def demo_history_load split: option.split Block.split)

lemmas demo_history_facts = demo_history_graph [where n = 4, simplified] demo_history_ids [where n = 4, simplified]
  demo_history_loads [where n = 4, simplified]

lemma demo_history_own: "own_ids (demo_server []) demo_history" "finite (dom demo_history)" "card (dom demo_history) = 3"
  by (auto simp: own_ids_def demo_history_def split: if_splits)

lemma demo_history_reach:
  "sync_reach demo_graph {demo_id 155} (demo_id 156) i \<longleftrightarrow> i = demo_id 156"
  "sync_reach demo_graph {} (demo_id 155) i \<longleftrightarrow> i = demo_id 155"
proof -
  have "expandable demo_graph {demo_id 155} (demo_id 156)" "expandable demo_graph {} (demo_id 155)" by (simp_all add: expandable_def demo_graph_def)
  note start = this [THEN sync_reach.start]
  have "i = demo_id 156" if "sync_reach demo_graph {demo_id 155} (demo_id 156) i"
    using that by induction (auto simp: expandable_def demo_graph_def)
  with start show "sync_reach demo_graph {demo_id 155} (demo_id 156) i \<longleftrightarrow> i = demo_id 156" by blast
  have "i = demo_id 155" if "sync_reach demo_graph {} (demo_id 155) i"
    using that by induction (auto simp: expandable_def demo_graph_def)
  with start show "sync_reach demo_graph {} (demo_id 155) i \<longleftrightarrow> i = demo_id 155" by blast
qed

abbreviation "demo_overlay \<equiv> \<lparr>oc_overlay = demo_id 1, oc_repo_link = demo_link\<rparr>"

abbreviation "demo_filter \<equiv> \<lparr>bf_k = 1, bf_f = []\<rparr>"

lemma demo_filter_empty [simp]: "\<not> bloom_has (demo_server []) demo_filter i"
  by (simp add: bloom_has_def demo_server_def auth_externs.defs repo_externs.defs demo_repo_def net_externs.defs
      demo_net_def externs.defs demo_externs_def split: Digest.split)

abbreviation "demo_repository \<equiv> \<lparr>sp_view = joined_view, sp_blocks = (\<lambda>_. Map.empty)(demo_pubkey := demo_history)\<rparr>"

lemma demo_repository:
  "repo_at (sp_view demo_repository) (oc_overlay demo_overlay) = Some demo_pubkey"
  "demo_graph = dep_graph X (be_fuel demo_broker_env) (sp_blocks demo_repository demo_pubkey)"
  "loads_or_misses X (be_fuel demo_broker_env) (sp_blocks demo_repository demo_pubkey)"
  "finite (dom (sp_blocks demo_repository demo_pubkey))"
  "card (dom (sp_blocks demo_repository demo_pubkey)) < be_fuel demo_broker_env"
  "own_ids (demo_server []) (sp_blocks demo_repository demo_pubkey)"
  "\<forall>h \<in> set [demo_id 156] \<union> set [demo_id 155]. demo_graph h \<noteq> None" "\<forall>n. clock_ok 1700000000"
  by (simp_all add: demo_history_facts demo_history_own repo_at_def joined_view_def some_clock demo_graph_def [THEN fun_cong])

theorem sync_branch_sends_blocks_witness:
  "\<exists>bs s s'. client_sync_branch (demo_connection []) demo_overlay [demo_id 156] [demo_id 155] demo_filter (0, s) = (Ok bs, (1, s'))
    \<and> block_id (demo_server []) ` set bs = {demo_id 156}"
proof -
  have one: "{i. i = demo_id 156 \<and> i \<noteq> demo_id 155} = {demo_id 156}" by auto
  from demo_history_stored obtain s where s: "spec_rel (demo_server []) demo_broker_env demo_laws s demo_repository" by blast
  from sync_branch_sends_blocks [OF demo_lawful s demo_repository(1,8,2,3,4,5,7), of demo_user "\<lambda>_. fill32 5" demo_filter 0]
  obtain bs s' where "client_sync_branch (demo_connection []) demo_overlay [demo_id 156] [demo_id 155] demo_filter (0, s) = (Ok bs, (1, s'))"
    "block_id (demo_server []) ` set bs = {demo_id 156}"
    unfolding demo_connection_def by (auto simp: demo_history_facts demo_history_reach one)
  then show ?thesis by blast
qed

theorem sync_branch_completes_client_witness:
  "\<exists>bs s s' c'. client_sync_branch (demo_connection []) demo_overlay [demo_id 156] [demo_id 155] demo_filter (0, s) = (Ok bs, (1, s'))
    \<and> collect_stream (demo_server []) bs \<lparr>hm_blocks = [(demo_id 155, demo_commit 2 [demo_id 154])]\<rparr> = (Ok (), c')
    \<and> dep_graph (demo_server []) 5 (hashmap_abs c') (demo_id 156) = Some [demo_id 155]"
proof -
  let ?X = "demo_server []" and ?c = "\<lparr>hm_blocks = [(demo_id 155, demo_commit 2 [demo_id 154])]\<rparr>"
  from demo_history_stored obtain s where s: "spec_rel ?X demo_broker_env demo_laws s demo_repository" by blast
  have c: "hashmap_invar ?X ?c" "hashmap_abs ?c = [demo_id 155 \<mapsto> demo_commit 2 [demo_id 154]]"
    by (auto simp: hashmap_invar_def hashmap_abs_def fun_eq_iff)
  then have le: "hashmap_abs ?c \<subseteq>\<^sub>m sp_blocks demo_repository demo_pubkey" by (simp add: map_le_def demo_history_def)
  have has: "\<forall>h \<in> set [demo_id 155]. \<forall>i. sync_reach demo_graph {} h i \<longrightarrow>
      object_ids ?X (be_fuel demo_broker_env) (sp_blocks demo_repository demo_pubkey) i \<subseteq> dom (hashmap_abs ?c)"
    by (simp add: demo_history_reach demo_history_facts c(2))
  from sync_branch_completes_client [OF demo_lawful s demo_repository(1,8,2,3,4,5,7,6) c(1) le has, of demo_user "\<lambda>_. fill32 5" demo_filter 0]
  show ?thesis unfolding demo_connection_def by (auto simp: demo_history_reach demo_graph_def [THEN fun_cong])
qed

end
