(* ===== verification/Lofire_Remote.thy ===== *)
theory Lofire_Remote
  imports Lofire_Client_Local
begin

text \<open>
  The remote connection of \<^verbatim>\<open>src/lofire-broker/src/connection.rs\<close>: the actors that wait for the replies of
  requests, the loop that reads messages and hands them to the actors, the requests, and the handshake that
  opens a connection. An actor is its state: it handles each message that is sent to it, in order, until it
  stops; the identifiers of actors, which are those of the requests, are an argument.
\<close>

section \<open>The actors\<close>

record BrokerMessageActor =
  ma_reply :: "BrokerMessage option"
  ma_running :: bool

definition message_actor_new :: BrokerMessageActor where
  "message_actor_new = \<lparr>ma_reply = None, ma_running = True\<rparr>"

definition message_actor_resolve :: "BrokerMessage \<Rightarrow> BrokerMessageActor \<Rightarrow> BrokerMessageActor" where
  "message_actor_resolve msg a = a\<lparr>ma_reply := Some msg\<rparr>"

definition message_actor_handle :: "BrokerMessage \<Rightarrow> BrokerMessageActor \<Rightarrow> BrokerMessageActor" where
  "message_actor_handle msg a = (message_actor_resolve msg a)\<lparr>ma_running := False\<rparr>"

text \<open>
  The blocks received so far, whether the channel is open, and what was sent through the one-shot channel that
  the request waits on: an error, or none at the first reply that is not one. The request holds the receiver of the blocks.
\<close>

record BrokerMessageStreamActor =
  sa_blocks :: "Block list"
  sa_open :: bool
  sa_first :: "ProtocolError option option"
  sa_running :: bool

definition stream_actor_new :: BrokerMessageStreamActor where
  "stream_actor_new = \<lparr>sa_blocks = [], sa_open = True, sa_first = None, sa_running = True\<rparr>"

definition stream_actor_partial ::
  "Block \<Rightarrow> BrokerMessageStreamActor \<Rightarrow> (unit, ProtocolError, BrokerMessageStreamActor) op" where
  "stream_actor_partial block a =
     (if sa_open a then (Ok (), a\<lparr>sa_blocks := sa_blocks a @ [block]\<rparr>) else (Err WriteError, a))"

definition stream_actor_send_error :: "ProtocolError option \<Rightarrow> BrokerMessageStreamActor \<Rightarrow> BrokerMessageStreamActor" where
  "stream_actor_send_error err a = (if sa_first a = None then a\<lparr>sa_first := Some err\<rparr> else a)"

definition stream_actor_close :: "BrokerMessageStreamActor \<Rightarrow> BrokerMessageStreamActor" where
  "stream_actor_close a = a\<lparr>sa_open := False\<rparr>"

definition stream_actor_handle :: "BrokerMessage \<Rightarrow> BrokerMessageStreamActor \<Rightarrow> BrokerMessageStreamActor" where
  "stream_actor_handle msg a = (case option_block_of_message msg of
       Err e \<Rightarrow> stream_actor_close ((stream_actor_send_error (Some e) a)\<lparr>sa_running := False\<rparr>)
     | Ok (Some b) \<Rightarrow> (case stream_actor_partial b (stream_actor_send_error None a) of
         (Err _, a) \<Rightarrow> stream_actor_close (a\<lparr>sa_running := False\<rparr>)
       | (_, a) \<Rightarrow> a)
     | Ok None \<Rightarrow> stream_actor_close ((stream_actor_send_error None a)\<lparr>sa_running := False\<rparr>)
     | _ \<Rightarrow> stream_actor_close (a\<lparr>sa_running := False\<rparr>))"

section \<open>The reader loop\<close>

text \<open>
  The two maps of actors, whether the reader loop goes on and whether the writer takes messages. The user is an
  argument of the requests that need it.
\<close>

record RemoteConnection =
  rc_actors :: "u64 \<rightharpoonup> BrokerMessageActor"
  rc_stream_actors :: "u64 \<rightharpoonup> BrokerMessageStreamActor"
  rc_reading :: bool
  rc_writable :: bool

definition remote_open :: RemoteConnection where
  "remote_open = \<lparr>rc_actors = Map.empty, rc_stream_actors = Map.empty, rc_reading = True, rc_writable = True\<rparr>"

definition stop_all :: "RemoteConnection \<Rightarrow> RemoteConnection" where
  "stop_all rc = rc\<lparr>rc_actors := (\<lambda>i. map_option (\<lambda>a. a\<lparr>ma_running := False\<rparr>) (rc_actors rc i)),
     rc_stream_actors := (\<lambda>i. map_option (\<lambda>a. stream_actor_close (a\<lparr>sa_running := False\<rparr>)) (rc_stream_actors rc i))\<rparr>"

text \<open>A message for an actor that has stopped, or for none, ends the loop.\<close>

definition deliver :: "u64 \<Rightarrow> BrokerMessage \<Rightarrow> RemoteConnection \<Rightarrow> (unit, ProtocolError, RemoteConnection) op" where
  "deliver i msg rc = (case rc_actors rc i of
       Some a \<Rightarrow> if ma_running a then (Ok (), rc\<lparr>rc_actors := (rc_actors rc)(i \<mapsto> message_actor_handle msg a)\<rparr>)
                 else (Err Closing, rc)
     | None \<Rightarrow> (case rc_stream_actors rc i of
         Some a \<Rightarrow> if sa_running a then (Ok (), rc\<lparr>rc_stream_actors := (rc_stream_actors rc)(i \<mapsto> stream_actor_handle msg a)\<rparr>)
                   else (Err Closing, rc)
       | None \<Rightarrow> (Err Closing, rc)))"

definition reader_message :: "BrokerMessage \<Rightarrow> RemoteConnection \<Rightarrow> (unit, ProtocolError, RemoteConnection) op" where
  "reader_message msg rc =
     (if is_close msg then (Err Closing, stop_all rc)
      else op_then (is_request msg, rc) (\<lambda>req rc. if req then (Err Closing, rc)
        else op_then (is_response msg, rc) (\<lambda>res rc. if res
          then op_then (broker_message_id msg, rc) (\<lambda>i rc. deliver i msg rc)
          else (Ok (), rc))))"

text \<open>One turn of the loop: an error ends it and closes the writer.\<close>

definition reader_step :: "BrokerMessage \<Rightarrow> RemoteConnection \<Rightarrow> RemoteConnection" where
  "reader_step msg rc =
     (if \<not> rc_reading rc then rc
      else case reader_message msg rc of
          (Ok _, rc) \<Rightarrow> rc
        | (Err _, rc) \<Rightarrow> rc\<lparr>rc_reading := False, rc_writable := False\<rparr>
        | (_, rc) \<Rightarrow> rc\<lparr>rc_reading := False\<rparr>)"

section \<open>Messages as frames\<close>

text \<open>The closures of \<^verbatim>\<open>open_broker_connection\<close> between the messages and the frames.\<close>

definition write_frame :: "'x server_externs_scheme \<Rightarrow> BrokerMessage \<Rightarrow> bytes" where
  "write_frame X msg = (if is_close msg then [] else ser_broker_message X msg)"

definition read_frame :: "'x server_externs_scheme \<Rightarrow> bytes \<Rightarrow> BrokerMessage" where
  "read_frame X frame = (if length frame = 0 then BrokerMessage.Close
     else case de_broker_message X frame of None \<Rightarrow> BrokerMessage.Close | Some m \<Rightarrow> m)"

section \<open>Requests\<close>

definition request_message :: "u64 \<Rightarrow> OverlayId \<Rightarrow> BrokerOverlayRequestContentV0 \<Rightarrow> BrokerMessage" where
  "request_message request_id overlay request = BrokerMessage.V0 \<lparr>bm_content = BrokerMessageContentV0.BrokerOverlayMessage
     (BrokerOverlayMessage.V0 \<lparr>bom_overlay = overlay, bom_content = BrokerOverlayMessageContentV0.BrokerOverlayRequest
       (BrokerOverlayRequest.V0 \<lparr>borq_id = request_id, borq_content = request\<rparr>)\<rparr>), bm_padding = []\<rparr>"

definition add_user_message_of :: "u64 \<Rightarrow> PubKey \<Rightarrow> Sig \<Rightarrow> BrokerMessage" where
  "add_user_message_of request_id user_id sig = BrokerMessage.V0 \<lparr>bm_content = BrokerMessageContentV0.BrokerRequest
     (BrokerRequest.V0 \<lparr>brq_id = request_id, brq_content = BrokerRequestContentV0.AddUser (AddUser.V0
        \<lparr>au_content = \<lparr>auc_user = user_id\<rparr>, au_sig = sig\<rparr>)\<rparr>), bm_padding = []\<rparr>"

text \<open>The macros \<^verbatim>\<open>before!\<close> and \<^verbatim>\<open>after!\<close> of \<^verbatim>\<open>src/lofire-broker/src/lib.rs\<close>.\<close>

definition before :: "u64 \<Rightarrow> RemoteConnection \<Rightarrow> RemoteConnection" where
  "before request_id rc = rc\<lparr>rc_actors := (rc_actors rc)(request_id \<mapsto> message_actor_new)\<rparr>"

definition after :: "u64 \<Rightarrow> RemoteConnection \<Rightarrow> (BrokerMessage, ProtocolError, RemoteConnection) op" where
  "after request_id rc =
     op_then (unwrap (rc_actors rc request_id), rc) (\<lambda>a rc.
       if ma_running a then (Hang, rc)
       else op_then (ok_or Closing (ma_reply a), rc) (\<lambda>reply rc.
         (Ok reply, rc\<lparr>rc_actors := (rc_actors rc)(request_id := None)\<rparr>)))"

text \<open>
  The wait for the first reply, and for the end of the stream that is returned: its blocks are all there when
  the actor has stopped.
\<close>

definition stream_after :: "u64 \<Rightarrow> RemoteConnection \<Rightarrow> (Block list, ProtocolError, RemoteConnection) op" where
  "stream_after request_id rc =
     op_then (unwrap (rc_stream_actors rc request_id), rc) (\<lambda>a rc. case sa_first a of
         None \<Rightarrow> if sa_running a then (Hang, rc) else (Err Closing, rc)
       | Some (Some e) \<Rightarrow> (Err e, rc\<lparr>rc_stream_actors := (rc_stream_actors rc)(request_id := None)\<rparr>)
       | Some None \<Rightarrow> if sa_running a then (Hang, rc)
           else (Ok (sa_blocks a), rc\<lparr>rc_stream_actors := (rc_stream_actors rc)(request_id := None)\<rparr>))"

section \<open>The connection and the server\<close>

text \<open>
  A remote connection whose peer is the broker protocol of a server: the frame goes to the handler \<open>h\<close> of the
  connection, and the frames that come back, the reply first, go to the reader in order. When the handler
  closes the connection or dies, an empty frame is read, as \<^verbatim>\<open>src/lofire-demo/src/main.rs\<close> maps the end of the websocket.
\<close>

definition exchange ::
  "'x server_externs_scheme \<Rightarrow> ('b, 'd) BrokerEnv \<Rightarrow> ProtocolHandler \<Rightarrow> u64 \<Rightarrow> bytes32 \<Rightarrow> BrokerMessage
   \<Rightarrow> RemoteConnection \<times> ('b, 'd) BrokerServer \<Rightarrow> RemoteConnection \<times> ('b, 'd) BrokerServer" where
  "exchange X E h clock random msg cs = (case cs of (rc, s) \<Rightarrow>
     (case protocol_broker X E clock random (write_frame X msg) h s of
        (Ok (reply, future), s) \<Rightarrow>
          (fold (\<lambda>f. reader_step (read_frame X f)) (reply # (case future of None \<Rightarrow> [] | Some (frames, _) \<Rightarrow> frames)) rc, s)
      | (Hang, s) \<Rightarrow> (rc, s)
      | (_, s) \<Rightarrow> (reader_step (read_frame X []) rc, s)))"

type_synonym ('b, 'd) remote_state = "RemoteConnection \<times> ('b, 'd) BrokerServer"

definition send_request ::
  "'x server_externs_scheme \<Rightarrow> ('b, 'd) BrokerEnv \<Rightarrow> ProtocolHandler \<Rightarrow> u64 \<Rightarrow> bytes32 \<Rightarrow> BrokerMessage
   \<Rightarrow> ('b, 'd) remote_state \<Rightarrow> (unit, ProtocolError, ('b, 'd) remote_state) op" where
  "send_request X E h clock random msg cs =
     (if rc_writable (fst cs) then (Ok (), exchange X E h clock random msg cs) else (Err WriteError, cs))"

definition await_reply ::
  "(u64 \<Rightarrow> RemoteConnection \<Rightarrow> ('a, ProtocolError, RemoteConnection) op) \<Rightarrow> u64 \<Rightarrow> ('b, 'd) remote_state
   \<Rightarrow> ('a, ProtocolError, ('b, 'd) remote_state) op" where
  "await_reply f request_id cs = (case f request_id (fst cs) of (r, rc) \<Rightarrow> (r, (rc, snd cs)))"

definition remote_request ::
  "'x server_externs_scheme \<Rightarrow> ('b, 'd) BrokerEnv \<Rightarrow> ProtocolHandler \<Rightarrow> u64 \<Rightarrow> OverlayId \<Rightarrow> BrokerOverlayRequestContentV0
   \<Rightarrow> u64 \<Rightarrow> bytes32 \<Rightarrow> ('b, 'd) remote_state \<Rightarrow> (unit, ProtocolError, ('b, 'd) remote_state) op" where
  "remote_request X E h request_id overlay request clock random cs =
     op_then (send_request X E h clock random (request_message request_id overlay request) (apfst (before request_id) cs)) (\<lambda>_ cs.
     op_then (await_reply after request_id cs) (\<lambda>reply cs. (unit_of_message reply, cs)))"

definition remote_request_objectid ::
  "'x server_externs_scheme \<Rightarrow> ('b, 'd) BrokerEnv \<Rightarrow> ProtocolHandler \<Rightarrow> u64 \<Rightarrow> OverlayId \<Rightarrow> BrokerOverlayRequestContentV0
   \<Rightarrow> u64 \<Rightarrow> bytes32 \<Rightarrow> ('b, 'd) remote_state \<Rightarrow> (ObjectId, ProtocolError, ('b, 'd) remote_state) op" where
  "remote_request_objectid X E h request_id overlay request clock random cs =
     op_then (send_request X E h clock random (request_message request_id overlay request) (apfst (before request_id) cs)) (\<lambda>_ cs.
     op_then (await_reply after request_id cs) (\<lambda>reply cs. (object_id_of_message reply, cs)))"

definition remote_request_stream ::
  "'x server_externs_scheme \<Rightarrow> ('b, 'd) BrokerEnv \<Rightarrow> ProtocolHandler \<Rightarrow> u64 \<Rightarrow> OverlayId \<Rightarrow> BrokerOverlayRequestContentV0
   \<Rightarrow> u64 \<Rightarrow> bytes32 \<Rightarrow> ('b, 'd) remote_state \<Rightarrow> (Block list, ProtocolError, ('b, 'd) remote_state) op" where
  "remote_request_stream X E h request_id overlay request clock random cs =
     op_then (send_request X E h clock random (request_message request_id overlay request)
         (apfst (\<lambda>rc. rc\<lparr>rc_stream_actors := (rc_stream_actors rc)(request_id \<mapsto> stream_actor_new)\<rparr>) cs)) (\<lambda>_ cs.
     await_reply stream_after request_id cs)"

definition remote_add_user ::
  "'x server_externs_scheme \<Rightarrow> ('b, 'd) BrokerEnv \<Rightarrow> ProtocolHandler \<Rightarrow> u64 \<Rightarrow> PubKey \<Rightarrow> PubKey \<Rightarrow> PrivKey
   \<Rightarrow> u64 \<Rightarrow> bytes32 \<Rightarrow> ('b, 'd) remote_state \<Rightarrow> (unit, ProtocolError, ('b, 'd) remote_state) op" where
  "remote_add_user X E h request_id user user_id admin_user_pk clock random cs =
     op_then (map_err from_lofire_error (sign X admin_user_pk user (ser_add_user_content X \<lparr>auc_user = user_id\<rparr>)),
         apfst (before request_id) cs) (\<lambda>sig cs.
     op_then (send_request X E h clock random (add_user_message_of request_id user_id sig) cs) (\<lambda>_ cs.
     op_then (await_reply after request_id cs) (\<lambda>reply cs. (unit_of_message reply, cs))))"

text \<open>
  \<^verbatim>\<open>close\<close>: the reader loop is shut down, the message \<^verbatim>\<open>Close\<close> is sent, which ends the connection's loop on the
  other side and does not touch the server, and the writer is closed.
\<close>

definition remote_close :: "RemoteConnection \<Rightarrow> RemoteConnection" where
  "remote_close rc = rc\<lparr>rc_reading := False, rc_writable := False\<rparr>"

definition remote_connection ::
  "'x server_externs_scheme \<Rightarrow> ('b, 'd) BrokerEnv \<Rightarrow> ProtocolHandler \<Rightarrow> PubKey \<Rightarrow> (nat \<Rightarrow> u64) \<Rightarrow> (nat \<Rightarrow> u64) \<Rightarrow> (nat \<Rightarrow> bytes32)
   \<Rightarrow> (nat \<times> ('b, 'd) remote_state) BrokerConnection" where
  "remote_connection X E h user ids clocks randoms = \<lparr>
     bc_close = (\<lambda>c. (Ok (), apsnd (apfst remote_close) c)),
     bc_add_user = (\<lambda>user_id pk c. local_call clocks randoms (remote_add_user X E h (ids (fst c)) user user_id pk) c),
     bc_request = (\<lambda>overlay req c. local_call clocks randoms (remote_request X E h (ids (fst c)) overlay req) c),
     bc_request_stream = (\<lambda>overlay req c. local_call clocks randoms (remote_request_stream X E h (ids (fst c)) overlay req) c),
     bc_request_objectid = (\<lambda>overlay req c. local_call clocks randoms (remote_request_objectid X E h (ids (fst c)) overlay req) c)\<rparr>"

section \<open>Opening a connection\<close>

text \<open>The writer and the reader of frames that a connection is opened on, with their state \<open>'p\<close>.\<close>

record 'p Transport =
  tr_send :: "bytes \<Rightarrow> 'p \<Rightarrow> (unit, ProtocolError, 'p) op"
  tr_next :: "'p \<Rightarrow> (bytes option, ProtocolError, 'p) op"
  tr_close :: "'p \<Rightarrow> 'p"

record client_externs = server_externs +
  ser_start_protocol :: "StartProtocol \<Rightarrow> bytes"
  de_server_hello :: "bytes \<Rightarrow> ServerHello option"
  ser_client_auth :: "ClientAuth \<Rightarrow> bytes"
  de_auth_result :: "bytes \<Rightarrow> AuthResult option"

definition close_with :: "'p Transport \<Rightarrow> ProtocolError \<Rightarrow> 'p \<Rightarrow> ('a, ProtocolError, 'p) op" where
  "close_with T err p = (Err err, tr_close T p)"

definition open_broker_connection ::
  "'x client_externs_scheme \<Rightarrow> 'p Transport \<Rightarrow> PubKey \<Rightarrow> PrivKey \<Rightarrow> PubKey \<Rightarrow> 'p \<Rightarrow> (RemoteConnection, ProtocolError, 'p) op" where
  "open_broker_connection X T user user_pk client p =
     op_then (apfst (map_err (\<lambda>_. WriteError)) (tr_send T (ser_start_protocol X (StartProtocol.Auth ClientHello.V0)) p)) (\<lambda>_ p.
     op_then (tr_next T p) (\<lambda>answer p. case answer of
         None \<Rightarrow> close_with T InvalidState p
       | Some frame \<Rightarrow>
     op_then (ok_or ProtocolError.SerializationError (de_server_hello X frame), p) (\<lambda>server_hello p.
       let content = \<lparr>cac_user = user, cac_client = client, cac_nonce = server_hello_nonce server_hello\<rparr> in
     op_then (map_err (\<lambda>_. SignatureError) (sign X user_pk user (ser_client_auth_content X content)), p) (\<lambda>sig p.
     op_then (apfst (map_err (\<lambda>_. WriteError)) (tr_send T (ser_client_auth X (ClientAuth.V0 \<lparr>ca_content = content, ca_sig = sig\<rparr>)) p)) (\<lambda>_ p.
     op_then (tr_next T p) (\<lambda>answer p. case answer of
         None \<Rightarrow> close_with T InvalidState p
       | Some frame \<Rightarrow>
     op_then (ok_or ProtocolError.SerializationError (de_auth_result X frame), p) (\<lambda>auth_result p.
       if auth_result_result auth_result = 0 then (Ok remote_open, p)
       else op_then (unwrap (try_from_code (auth_result_result auth_result)), p) (\<lambda>e p. close_with T e p))))))))"

text \<open>
  A websocket to a connection of the node: what is sent is received by the connection's loop, an empty frame as
  a close; what the connection has sent is read in order, and its end as an empty frame.
\<close>

type_synonym ('b, 'd) node_state = "nat \<times> Connection \<times> ('b, 'd) BrokerServer"

definition node_send ::
  "'x server_externs_scheme \<Rightarrow> ('b, 'd) BrokerEnv \<Rightarrow> u64 \<Rightarrow> bytes32 \<Rightarrow> bytes \<Rightarrow> ('b, 'd) node_state
   \<Rightarrow> (unit, ProtocolError, ('b, 'd) node_state) op" where
  "node_send X E clock random frame p = (case p of (n, cs) \<Rightarrow>
     (case connection_receive X E clock random True (if frame = [] then WsClose else WsBinary frame) cs of
        (Hang, cs) \<Rightarrow> (Hang, (n, cs))
      | (Panic, (c, s)) \<Rightarrow> (Ok (), (n, c\<lparr>con_running := False\<rparr>, s))
      | (_, cs) \<Rightarrow> (Ok (), (n, cs))))"

definition node_next :: "('b, 'd) node_state \<Rightarrow> (bytes option, ProtocolError, ('b, 'd) node_state) op" where
  "node_next p = (case p of (n, c, s) \<Rightarrow>
     if n < length (con_sent c) then (Ok (Some (con_sent c ! n)), (Suc n, c, s))
     else if con_running c then (Hang, p) else (Ok (Some []), p))"

definition node_close :: "('b, 'd) node_state \<Rightarrow> ('b, 'd) node_state" where
  "node_close p = (case p of (n, c, s) \<Rightarrow> (n, c\<lparr>con_running := False\<rparr>, s))"

definition node_transport ::
  "'x server_externs_scheme \<Rightarrow> ('b, 'd) BrokerEnv \<Rightarrow> u64 \<Rightarrow> bytes32 \<Rightarrow> ('b, 'd) node_state Transport" where
  "node_transport X E clock random = \<lparr>tr_send = node_send X E clock random, tr_next = node_next, tr_close = node_close\<rparr>"

end
