(* ===== verification/Lofire_Remote_Props.thy ===== *)
theory Lofire_Remote_Props
  imports Lofire_Remote
begin

text \<open>
  Properties of the remote connection: it keeps the streams of several requests apart, it answers as the local
  connection does, and the handshake makes the server speak for the user who opened it.
\<close>

section \<open>Messages on the wire\<close>

text \<open>A message as it arrives: the cached identifier and key of a block are not serialized.\<close>

fun wire_request :: "BrokerOverlayRequestContentV0 \<Rightarrow> BrokerOverlayRequestContentV0" where
  "wire_request (BrokerOverlayRequestContentV0.BlockPut b) =
     BrokerOverlayRequestContentV0.BlockPut (BlockPut.V0 (plain (block_put_block b)))"
| "wire_request req = req"

fun wire_response :: "BrokerOverlayResponseContentV0 \<Rightarrow> BrokerOverlayResponseContentV0" where
  "wire_response (BrokerOverlayResponseContentV0.Block b) = BrokerOverlayResponseContentV0.Block (plain b)"
| "wire_response c = c"

fun wire_overlay :: "BrokerOverlayMessageContentV0 \<Rightarrow> BrokerOverlayMessageContentV0" where
  "wire_overlay (BrokerOverlayMessageContentV0.BrokerOverlayRequest (BrokerOverlayRequest.V0 r)) =
     BrokerOverlayMessageContentV0.BrokerOverlayRequest (BrokerOverlayRequest.V0 (r\<lparr>borq_content := wire_request (borq_content r)\<rparr>))"
| "wire_overlay (BrokerOverlayMessageContentV0.BrokerOverlayResponse (BrokerOverlayResponse.V0 r)) =
     BrokerOverlayMessageContentV0.BrokerOverlayResponse (BrokerOverlayResponse.V0 (r\<lparr>bors_content := map_option wire_response (bors_content r)\<rparr>))"
| "wire_overlay (BrokerOverlayMessageContentV0.Event e) = BrokerOverlayMessageContentV0.Event e"

fun wire_content :: "BrokerMessageContentV0 \<Rightarrow> BrokerMessageContentV0" where
  "wire_content (BrokerMessageContentV0.BrokerOverlayMessage (BrokerOverlayMessage.V0 m)) =
     BrokerMessageContentV0.BrokerOverlayMessage (BrokerOverlayMessage.V0 (m\<lparr>bom_content := wire_overlay (bom_content m)\<rparr>))"
| "wire_content c = c"

fun on_wire :: "BrokerMessage \<Rightarrow> BrokerMessage" where
  "on_wire (BrokerMessage.V0 m) = BrokerMessage.V0 (m\<lparr>bm_content := wire_content (bm_content m)\<rparr>)"
| "on_wire BrokerMessage.Close = BrokerMessage.Close"

text \<open>What deserializing a serialized message gives, and that a serialized message is not empty.\<close>

definition carried :: "'x server_externs_scheme \<Rightarrow> BrokerMessage \<Rightarrow> bool" where
  "carried X m \<longleftrightarrow> ser_broker_message X m \<noteq> [] \<and> de_broker_message X (ser_broker_message X m) = Some (on_wire m)"

text \<open>The messages of one request: the request, the reply and the messages that follow it.\<close>

definition conversation ::
  "'x server_externs_scheme \<Rightarrow> ('b, 'd) BrokerEnv \<Rightarrow> PubKey \<Rightarrow> u64 \<Rightarrow> bytes32 \<Rightarrow> BrokerMessage \<Rightarrow> ('b, 'd) BrokerServer \<Rightarrow> BrokerMessage list" where
  "conversation X E user clock random msg s = msg # (case handled X E clock random user (on_wire msg) s of
       (Ok (reply, future), _) \<Rightarrow> reply # (case future of None \<Rightarrow> [] | Some ms \<Rightarrow> ms)
     | _ \<Rightarrow> [])"

section \<open>Streams\<close>

definition stream_messages :: "u64 \<Rightarrow> OverlayId \<Rightarrow> Block list \<Rightarrow> BrokerMessage list" where
  "stream_messages i ov blocks =
     map (\<lambda>b. prepare_reply_broker_overlay_message_stream (Inr b) i ov padding_size) blocks
       @ [prepare_reply_broker_overlay_message_stream (Inl EndOfStream) i ov padding_size]"

lemma stream_messages_simps [simp]:
  "stream_messages i ov [] = [prepare_reply_broker_overlay_message_stream (Inl EndOfStream) i ov padding_size]"
  "stream_messages i ov (b # bs) = prepare_reply_broker_overlay_message_stream (Inr b) i ov padding_size # stream_messages i ov bs"
  by (simp_all add: stream_messages_def)

lemma stream_message_reads [simp]:
  "\<not> is_close (prepare_reply_broker_overlay_message_stream res i ov p)"
  "is_request (prepare_reply_broker_overlay_message_stream res i ov p) = Ok False"
  "is_response (prepare_reply_broker_overlay_message_stream res i ov p) = Ok True"
  by (simp_all add: prepare_reply_broker_overlay_message_stream_def)

definition streaming :: "Block list \<Rightarrow> BrokerMessageStreamActor" where
  "streaming bs = \<lparr>sa_blocks = bs, sa_open = True, sa_first = (if bs = [] then None else Some None), sa_running = True\<rparr>"

definition streamed :: "Block list \<Rightarrow> BrokerMessageStreamActor" where
  "streamed bs = \<lparr>sa_blocks = bs, sa_open = False, sa_first = Some None, sa_running = False\<rparr>"

lemma streaming_new: "stream_actor_new = streaming []"
  by (simp add: stream_actor_new_def streaming_def)

lemma stream_actor_steps [simp]:
  "stream_actor_handle (prepare_reply_broker_overlay_message_stream (Inr b) i ov p) (streaming bs) = streaming (bs @ [b])"
  "stream_actor_handle (prepare_reply_broker_overlay_message_stream (Inl EndOfStream) i ov p) (streaming bs) = streamed bs"
  by (simp_all add: stream_actor_handle_def prepare_stream_reads streaming_def streamed_def stream_actor_send_error_def
      stream_actor_partial_def stream_actor_close_def is_stream_def)

lemma reader_step_stream:
  assumes "rc_reading rc" "rc_actors rc i = None" "rc_stream_actors rc i = Some a" "sa_running a"
  shows "reader_step (prepare_reply_broker_overlay_message_stream res i ov p) rc
    = rc\<lparr>rc_stream_actors := (rc_stream_actors rc)(i \<mapsto>
        stream_actor_handle (prepare_reply_broker_overlay_message_stream res i ov p) a)\<rparr>"
  using assms by (simp add: reader_step_def reader_message_def prepare_stream_reads deliver_def)

text \<open>Some streams in flight: each actor has got a part of its blocks, and the rest is still to come.\<close>

abbreviation has_id :: "u64 \<Rightarrow> BrokerMessage \<Rightarrow> bool" where
  "has_id i m \<equiv> broker_message_id m = (Ok i :: (u64, unit) result)"

definition in_flight :: "(u64 \<rightharpoonup> OverlayId \<times> Block list) \<Rightarrow> BrokerMessage list \<Rightarrow> RemoteConnection \<Rightarrow> bool" where
  "in_flight S ms rc \<longleftrightarrow> rc_reading rc \<and> (\<forall>m \<in> set ms. \<exists>i \<in> dom S. has_id i m)
    \<and> (\<forall>i ov bs. S i = Some (ov, bs) \<longrightarrow> rc_actors rc i = None
        \<and> ((\<exists>got rest. bs = got @ rest \<and> filter (has_id i) ms = stream_messages i ov rest
              \<and> rc_stream_actors rc i = Some (streaming got))
           \<or> filter (has_id i) ms = [] \<and> rc_stream_actors rc i = Some (streamed bs)))"

lemma in_flightD:
  assumes "in_flight S ms rc" "S i = Some (ov, bs)"
  shows "rc_actors rc i = None"
    "(\<exists>got rest. bs = got @ rest \<and> filter (has_id i) ms = stream_messages i ov rest \<and> rc_stream_actors rc i = Some (streaming got))
      \<or> filter (has_id i) ms = [] \<and> rc_stream_actors rc i = Some (streamed bs)"
  using assms unfolding in_flight_def by blast+

lemma in_flight_step:
  assumes fl: "in_flight S (m # ms) rc"
  shows "\<exists>i a. i \<in> dom S \<and> reader_step m rc = rc\<lparr>rc_stream_actors := (rc_stream_actors rc)(i \<mapsto> a)\<rparr> \<and> in_flight S ms (reader_step m rc)"
proof -
  from fl obtain i ov bs where i: "S i = Some (ov, bs)" "has_id i m" by (auto simp: in_flight_def)
  from in_flightD [OF fl i(1)] i(2) obtain got rest where
    none: "rc_actors rc i = None" and r: "bs = got @ rest" "m # filter (has_id i) ms = stream_messages i ov rest"
      "rc_stream_actors rc i = Some (streaming got)" by auto
  have reading: "rc_reading rc" using fl by (simp add: in_flight_def)
  have run: "sa_running (streaming got)" by (simp add: streaming_def)
  have other: "j \<noteq> i \<Longrightarrow> filter (has_id j) ms = filter (has_id j) (m # ms)" for j using i(2) by simp
  show ?thesis
  proof (cases rest)
    case Nil
    with r(2) have m: "m = prepare_reply_broker_overlay_message_stream (Inl EndOfStream) i ov padding_size"
      "filter (has_id i) ms = []" by simp_all
    then have step: "reader_step m rc = rc\<lparr>rc_stream_actors := (rc_stream_actors rc)(i \<mapsto> streamed got)\<rparr>"
      using reader_step_stream [OF reading none r(3) run] by simp
    have "in_flight S ms (reader_step m rc)" unfolding step in_flight_def
    proof (intro conjI allI impI)
      fix j ov' bs' assume j: "S j = Some (ov', bs')"
      show "rc_actors (rc\<lparr>rc_stream_actors := (rc_stream_actors rc)(i \<mapsto> streamed got)\<rparr>) j = None"
        using in_flightD(1) [OF fl j] by simp
      show "(\<exists>got' rest. bs' = got' @ rest \<and> filter (has_id j) ms = stream_messages j ov' rest
            \<and> rc_stream_actors (rc\<lparr>rc_stream_actors := (rc_stream_actors rc)(i \<mapsto> streamed got)\<rparr>) j = Some (streaming got'))
          \<or> filter (has_id j) ms = [] \<and> rc_stream_actors (rc\<lparr>rc_stream_actors := (rc_stream_actors rc)(i \<mapsto> streamed got)\<rparr>) j = Some (streamed bs')"
      proof (cases "j = i")
        case True
        with i(1) j m(2) r(1) Nil show ?thesis by simp
      next
        case False
        with in_flightD(2) [OF fl j] other [OF False] show ?thesis by simp
      qed
    qed (use fl in \<open>auto simp: in_flight_def\<close>)
    with step i(1) show ?thesis by blast
  next
    case (Cons b rest')
    with r(2) have m: "m = prepare_reply_broker_overlay_message_stream (Inr b) i ov padding_size"
      "filter (has_id i) ms = stream_messages i ov rest'" by simp_all
    then have step: "reader_step m rc = rc\<lparr>rc_stream_actors := (rc_stream_actors rc)(i \<mapsto> streaming (got @ [b]))\<rparr>"
      using reader_step_stream [OF reading none r(3) run] by simp
    have "in_flight S ms (reader_step m rc)" unfolding step in_flight_def
    proof (intro conjI allI impI)
      fix j ov' bs' assume j: "S j = Some (ov', bs')"
      show "rc_actors (rc\<lparr>rc_stream_actors := (rc_stream_actors rc)(i \<mapsto> streaming (got @ [b]))\<rparr>) j = None"
        using in_flightD(1) [OF fl j] by simp
      show "(\<exists>got' rest. bs' = got' @ rest \<and> filter (has_id j) ms = stream_messages j ov' rest
            \<and> rc_stream_actors (rc\<lparr>rc_stream_actors := (rc_stream_actors rc)(i \<mapsto> streaming (got @ [b]))\<rparr>) j = Some (streaming got'))
          \<or> filter (has_id j) ms = [] \<and> rc_stream_actors (rc\<lparr>rc_stream_actors := (rc_stream_actors rc)(i \<mapsto> streaming (got @ [b]))\<rparr>) j = Some (streamed bs')"
      proof (cases "j = i")
        case True
        with i(1) j m(2) r(1) Cons show ?thesis
          by (intro disjI1 exI [of _ "got @ [b]"] exI [of _ rest']) simp
      next
        case False
        with in_flightD(2) [OF fl j] other [OF False] show ?thesis by simp
      qed
    qed (use fl in \<open>auto simp: in_flight_def\<close>)
    with step i(1) show ?thesis by blast
  qed
qed

lemma streams_delivered:
  assumes "in_flight S ms rc"
  shows "in_flight S [] (fold reader_step ms rc) \<and> rc_actors (fold reader_step ms rc) = rc_actors rc
    \<and> rc_writable (fold reader_step ms rc) = rc_writable rc
    \<and> (\<forall>i. i \<notin> dom S \<longrightarrow> rc_stream_actors (fold reader_step ms rc) i = rc_stream_actors rc i)"
  using assms
proof (induction ms arbitrary: rc)
  case (Cons m ms)
  from in_flight_step [OF Cons.prems] obtain i a where
    i: "i \<in> dom S" "reader_step m rc = rc\<lparr>rc_stream_actors := (rc_stream_actors rc)(i \<mapsto> a)\<rparr>" "in_flight S ms (reader_step m rc)" by blast
  from Cons.IH [OF i(3)] i(1,2) show ?case by auto
qed simp

lemma in_flight_done: "in_flight S [] rc \<Longrightarrow> S i = Some (ov, bs) \<Longrightarrow> rc_stream_actors rc i = Some (streamed bs)"
  by (drule (1) in_flightD(2)) (auto simp: stream_messages_def)

lemma in_flight_start:
  assumes "rc_reading rc" "\<forall>m \<in> set ms. \<exists>i \<in> dom S. has_id i m"
    "\<forall>i ov bs. S i = Some (ov, bs) \<longrightarrow> rc_actors rc i = None \<and> rc_stream_actors rc i = Some stream_actor_new
      \<and> filter (has_id i) ms = stream_messages i ov bs"
  shows "in_flight S ms rc"
  unfolding in_flight_def
proof (intro conjI allI impI assms(1,2))
  fix i ov bs assume "S i = Some (ov, bs)"
  with assms(3) have i: "rc_actors rc i = None" "rc_stream_actors rc i = Some (streaming [])" "filter (has_id i) ms = stream_messages i ov bs"
    by (auto simp: streaming_new)
  then show "rc_actors rc i = None" by simp
  show "(\<exists>got rest. bs = got @ rest \<and> filter (has_id i) ms = stream_messages i ov rest \<and> rc_stream_actors rc i = Some (streaming got))
     \<or> filter (has_id i) ms = [] \<and> rc_stream_actors rc i = Some (streamed bs)"
    by (intro disjI1 exI [of _ "[]"] exI [of _ bs]) (simp add: i(2,3))
qed

section \<open>One request\<close>

lemma on_wire_replies [simp]:
  "on_wire (prepare_reply_broker_message res i p) = prepare_reply_broker_message res i p"
  "on_wire (prepare_reply_broker_overlay_message res i ov None p) = prepare_reply_broker_overlay_message res i ov None p"
  "on_wire (prepare_reply_broker_overlay_message_stream (Inr b) i ov p) = prepare_reply_broker_overlay_message_stream (Inr (plain b)) i ov p"
  "on_wire (prepare_reply_broker_overlay_message_stream (Inl e) i ov p) = prepare_reply_broker_overlay_message_stream (Inl e) i ov p"
  "on_wire (request_message i ov req) = request_message i ov (wire_request req)"
  "on_wire (add_user_message_of i u sig) = add_user_message_of i u sig"
  by (simp_all add: prepare_reply_broker_message_def prepare_reply_broker_overlay_message_def
      prepare_reply_broker_overlay_message_stream_def request_message_def add_user_message_of_def)

lemma unit_replies [simp]:
  "unit_of_message (prepare_reply_broker_message res i p) = (case res of Inr _ \<Rightarrow> Ok () | Inl e \<Rightarrow> Err e)"
  "unit_of_message (prepare_reply_broker_overlay_message res i ov None p) = (case res of Inr _ \<Rightarrow> Ok () | Inl e \<Rightarrow> Err e)"
  "object_id_of_message (prepare_reply_broker_overlay_message (Inl e) i ov None p) = Err e"
  by (auto simp: unit_of_message_def object_id_of_message_def prepare_reply_broker_message_def
      prepare_reply_broker_overlay_message_def result_code_def split: sum.split simp del: error_code.simps)

definition unit_reply :: "u64 \<Rightarrow> BrokerMessage \<Rightarrow> bool" where
  "unit_reply i m \<longleftrightarrow> \<not> is_close m \<and> is_request m = (Ok False :: (bool, ProtocolError) result)
     \<and> is_response m = (Ok True :: (bool, ProtocolError) result) \<and> broker_message_id m = (Ok i :: (u64, ProtocolError) result)"

lemma unit_reply_replies [simp]:
  "unit_reply i (prepare_reply_broker_message res i p)" "unit_reply i (prepare_reply_broker_overlay_message res i ov None p)"
  by (simp_all add: unit_reply_def prepare_reply_broker_message_def prepare_reply_broker_overlay_message_def)

lemma reply_resolves:
  assumes "rc_actors rc i = None" "rc_reading rc" "unit_reply i m"
  shows "after i (reader_step m (before i rc)) = (Ok m, rc)"
proof -
  have "rc\<lparr>rc_actors := (rc_actors rc)(i := None)\<rparr> = rc" using assms(1) by (simp add: fun_upd_idem)
  with assms(2,3) show ?thesis
    by (simp add: reader_step_def reader_message_def unit_reply_def before_def deliver_def message_actor_new_def
        message_actor_handle_def message_actor_resolve_def after_def)
qed

lemma close_releases:
  "rc_reading rc \<Longrightarrow> rc_actors rc i = Some a \<Longrightarrow> ma_reply a = None \<Longrightarrow> fst (after i (reader_step (read_frame X []) rc)) = Err Closing"
  "rc_reading rc \<Longrightarrow> rc_stream_actors rc i = Some b \<Longrightarrow> sa_first b = None \<Longrightarrow>
    fst (stream_after i (reader_step (read_frame X []) rc)) = Err Closing"
  by (simp_all add: reader_step_def reader_message_def read_frame_def stop_all_def after_def stream_after_def stream_actor_close_def)

lemma exchange_result:
  assumes user: "ph_broker_protocol h = Some user" and conv: "\<forall>m \<in> set (conversation X E user clock random msg s). carried X m"
    and open': "\<not> is_close msg"
  shows "exchange X E h clock random msg (rc, s) = (case handled X E clock random user (on_wire msg) s of
       (Ok (reply, future), s') \<Rightarrow> (fold reader_step (map on_wire (reply # (case future of None \<Rightarrow> [] | Some ms \<Rightarrow> ms))) rc, s')
     | (Hang, s') \<Rightarrow> (rc, s') | (_, s') \<Rightarrow> (reader_step (read_frame X []) rc, s'))"
proof -
  have read: "read_frame X (ser_broker_message X m) = on_wire m" if "carried X m" for m
    using that by (simp add: carried_def read_frame_def)
  have "carried X msg" using conv by (simp add: conversation_def)
  then have pb: "protocol_broker X E clock random (write_frame X msg) h s =
      op_then (handled X E clock random user (on_wire msg) s) (\<lambda>(reply, future) s.
           (Ok (ser_broker_message X reply, map_option (\<lambda>msgs. (map (ser_broker_message X) msgs, 0)) future), s))"
    using user open' by (simp add: protocol_broker_def write_frame_def carried_def)
  obtain r s' where r: "handled X E clock random user (on_wire msg) s = (r, s')" by (rule prod.exhaust)
  show ?thesis
  proof (cases r)
    case (Ok rf)
    obtain reply future where rf: "rf = (reply, future)" by (cases rf)
    with conv r Ok have c: "carried X reply" "\<And>ms. future = Some ms \<Longrightarrow> \<forall>m \<in> set ms. carried X m" by (auto simp: conversation_def)
    have fold: "fold (\<lambda>f. reader_step (read_frame X f)) (map (ser_broker_message X) ms) c = fold reader_step (map on_wire ms) c"
      if "future = Some ms" for ms c
      using c(2) [OF that] by (induction ms arbitrary: c) (simp_all add: read)
    with pb r Ok rf read [OF c(1)] show ?thesis
      by (cases future) (simp_all add: exchange_def)
  qed (use pb r in \<open>simp_all add: exchange_def\<close>)
qed

text \<open>The requests each method of the trait is made for, and what the server answers to them.\<close>

definition unit_request :: "BrokerOverlayRequestContentV0 \<Rightarrow> bool" where
  "unit_request req \<longleftrightarrow> (case req of
       BrokerOverlayRequestContentV0.OverlayConnect _ \<Rightarrow> True | BrokerOverlayRequestContentV0.OverlayJoin _ \<Rightarrow> True
     | BrokerOverlayRequestContentV0.ObjectDel _ \<Rightarrow> True | BrokerOverlayRequestContentV0.ObjectPin _ \<Rightarrow> True
     | BrokerOverlayRequestContentV0.ObjectUnpin _ \<Rightarrow> True | BrokerOverlayRequestContentV0.BlockPut _ \<Rightarrow> True | _ \<Rightarrow> False)"

definition stream_request :: "BrokerOverlayRequestContentV0 \<Rightarrow> bool" where
  "stream_request req \<longleftrightarrow> (case req of
       BrokerOverlayRequestContentV0.BlockGet _ \<Rightarrow> True | BrokerOverlayRequestContentV0.BranchSyncReq _ \<Rightarrow> True | _ \<Rightarrow> False)"

lemma wire_request_kind [simp]: "unit_request (wire_request req) = unit_request req" "stream_request req \<Longrightarrow> wire_request req = req"
  by (cases req; simp add: unit_request_def stream_request_def)+

lemma handled_request:
  "handled X E clock random user (request_message i ov req) s = handle_overlay_request X E clock random user i ov req s"
  by (simp add: broker_handle_incoming_def request_message_def Let_def)

lemma handled_unit:
  "unit_request req \<Longrightarrow> handled X E clock random user (request_message i ov req) s
    = answer (local_request X E user ov req clock random s)
        (\<lambda>res s. (Ok (prepare_reply_broker_overlay_message res i ov None padding_size, None), s))"
  unfolding handled_request by (cases req) (simp_all add: unit_request_def handle_overlay_request_def local_request_def Let_def)

lemma handled_stream:
  "stream_request req \<Longrightarrow> handled X E clock random user (request_message i ov req) s
    = answer (local_request_stream X E user ov req clock s)
        (\<lambda>res s. (Ok (send_block_stream_response_to_client res i ov padding_size), s))"
  unfolding handled_request by (cases req) (simp_all add: stream_request_def handle_overlay_request_def local_request_stream_def Let_def)

lemma handled_add_user:
  "handled X E clock random user (add_user_message_of i u sig) s
    = answer (add_user X E user u sig s) (\<lambda>res s. (Ok (prepare_reply_broker_message res i padding_size, None), s))"
  by (simp add: broker_handle_incoming_def add_user_message_of_def handle_broker_request_def)

text \<open>A request that panics in the server closes the connection.\<close>

fun as_remote :: "('a, ProtocolError) result \<Rightarrow> ('a, ProtocolError) result" where
  "as_remote Panic = Err Closing"
| "as_remote r = r"

definition settled :: "('a, 'e) result \<Rightarrow> bool" where
  "settled r \<longleftrightarrow> r \<noteq> Panic \<and> r \<noteq> Hang"

lemma before_simps [simp]:
  "rc_reading (before i rc) = rc_reading rc" "rc_writable (before i rc) = rc_writable rc"
  "rc_actors (before i rc) i = Some message_actor_new" "ma_reply message_actor_new = None" "ma_running message_actor_new"
  by (simp_all add: before_def message_actor_new_def)

lemma remote_unit:
  assumes user: "ph_broker_protocol h = Some user" and conv: "\<forall>m \<in> set (conversation X E user clock random msg s). carried X m"
    and msg: "\<not> is_close msg" and rc: "rc_reading rc" "rc_writable rc" "rc_actors rc i = None"
    and p: "handled X E clock random user (on_wire msg) s = answer p (\<lambda>res s. (Ok (R res, None), s))"
    and R: "\<And>res. unit_reply i (R res)" "\<And>res. on_wire (R res) = R res"
      "\<And>res. unit_of_message (R res) = (case res of Inr _ \<Rightarrow> Ok () | Inl e \<Rightarrow> Err e)"
  shows "\<exists>rc'. op_then (send_request X E h clock random msg (before i rc, s)) (\<lambda>_ cs.
      op_then (await_reply after i cs) (\<lambda>reply cs. (unit_of_message reply, cs))) = (as_remote (fst p), (rc', snd p))
    \<and> (settled (fst p) \<longrightarrow> rc' = rc)"
proof -
  obtain r s' where r: "p = (r, s')" by (rule prod.exhaust)
  note ex = exchange_result [OF user conv msg, of "before i rc", unfolded p]
  note closed = close_releases(1) [where rc = "before i rc" and i = i and X = X]
  show ?thesis
  proof (cases r)
    case (Ok u)
    with ex r R rc reply_resolves [OF rc(3,1) R(1)] show ?thesis
      by (intro exI [of _ rc]) (simp add: send_request_def await_reply_def)
  next
    case (Err e)
    with ex r R rc reply_resolves [OF rc(3,1) R(1)] show ?thesis
      by (intro exI [of _ rc]) (simp add: send_request_def await_reply_def)
  next
    case Panic
    obtain q rc' where "after i (reader_step (read_frame X []) (before i rc)) = (q, rc')" by (rule prod.exhaust)
    with Panic ex r rc closed show ?thesis
      by (intro exI [of _ rc']) (simp add: send_request_def await_reply_def settled_def)
  next
    case Hang
    with ex r rc show ?thesis
      by (intro exI [of _ "before i rc"]) (simp add: send_request_def await_reply_def settled_def after_def)
  qed
qed

text \<open>No request for blocks fails with one of the codes that mark a stream.\<close>

definition steady :: "('a, ProtocolError, 's) op \<Rightarrow> bool" where
  "steady p \<longleftrightarrow> (\<forall>e. fst p = Err e \<longrightarrow> \<not> is_stream e)"

lemma steady_then: "steady p \<Longrightarrow> (\<And>x s. steady (f x s)) \<Longrightarrow> steady (op_then p f)"
  by (cases p; cases "fst p") (auto simp: steady_def)

lemma steady_errors [simp]:
  "steady (Ok x, s)" "steady (Panic, s)" "steady (Hang, s)"
  "steady (apfst (map_err from_storage_error) q)" "steady (map_err from_storage_error r, s)"
  "steady (apfst (map_err from_object_parse_error) o')"
  "\<not> is_stream e \<Longrightarrow> steady (Err e, s)" "\<not> is_stream e \<Longrightarrow> steady (apfst (map_err (\<lambda>_. e)) t)"
  "\<not> is_stream e \<Longrightarrow> steady (map_err (\<lambda>_. e) v, s)" "steady (unwrap z, s)"
proof -
  have st: "\<not> is_stream (from_storage_error a)" for a by (cases a) (simp_all add: is_stream_def)
  have ob: "\<not> is_stream (from_object_parse_error a)" for a by (cases a) (simp_all add: is_stream_def from_object_parse_error_def)
  show "steady (apfst (map_err from_storage_error) q)" by (cases q; cases "fst q") (simp_all add: steady_def st)
  show "steady (map_err from_storage_error r, s)" by (cases r) (simp_all add: steady_def st)
  show "steady (apfst (map_err from_object_parse_error) o')" by (cases o'; cases "fst o'") (simp_all add: steady_def ob)
  show "\<not> is_stream e \<Longrightarrow> steady (apfst (map_err (\<lambda>_. e)) t)" by (cases t; cases "fst t") (simp_all add: steady_def)
  show "\<not> is_stream e \<Longrightarrow> steady (map_err (\<lambda>_. e) v, s)" by (cases v) (simp_all add: steady_def)
  show "steady (unwrap z, s)" by (cases z) (simp_all add: steady_def)
qed (simp_all add: steady_def)

lemma steady_guards:
  "steady p \<Longrightarrow> steady (guard_stores p)" "steady p \<Longrightarrow> steady (guard_overlays p)"
  by (cases p; cases "fst p"; simp add: guard_stores_def guard_overlays_def steady_def)+

lemma steady_run_on: "(\<And>d. steady (f d)) \<Longrightarrow> steady (run_on i f s)"
  by (auto simp: run_on_def steady_def split: prod.split) (metis fst_conv)

lemma errors_not_stream [simp]:
  "\<not> is_stream WriteError" "\<not> is_stream ProtocolError.OverlayNotFound" "\<not> is_stream ProtocolError.BrokerError"
  "\<not> is_stream ProtocolError.NotFound" "\<not> is_stream ProtocolError.ObjectParseError" "\<not> is_stream InvalidState"
  by (simp_all add: is_stream_def)

lemma steady_open: "(\<And>d. steady (f d)) \<Longrightarrow> steady (open_or_create_repostore X E b i f s)"
  unfolding open_or_create_repostore_def ask_store_def Let_def
  by (auto intro!: steady_then steady_guards steady_run_on)

lemma steady_repostore: "(\<And>d. steady (f d)) \<Longrightarrow> steady (get_repostore_from_overlay_id X E ov f s)"
  unfolding get_repostore_from_overlay_id_def ask_store_def Let_def
  by (auto intro!: steady_then steady_guards steady_run_on steady_open split: option.split)

lemma steady_send_objects: "steady (send_objects X E clock ids D r d)"
  by (induction ids arbitrary: D r d) (auto intro!: steady_then split: prod.split)

lemma steady_streams: "steady (local_request_stream X E user ov req clock s)"
proof -
  have "steady (load_or_not_found X E clock i d)" for i d by (simp add: load_or_not_found_def)
  then show ?thesis
    by (auto simp: local_request_stream_def get_block_def sync_branch_def split: BrokerOverlayRequestContentV0.split
        intro!: steady_repostore steady_then steady_send_objects)
qed

definition plain_blocks :: "(Block list, 'e) result \<Rightarrow> (Block list, 'e) result" where
  "plain_blocks r = and_then r (\<lambda>bs. Ok (map plain bs))"

lemma stream_response_messages:
  "send_block_stream_response_to_client (Inr bs) i ov padding_size = (reply, future) \<Longrightarrow>
    map on_wire (reply # (case future of None \<Rightarrow> [] | Some ms \<Rightarrow> ms)) = stream_messages i ov (map plain bs)"
  by (cases bs) (auto simp: send_block_stream_response_to_client_def stream_messages_def Let_def comp_def)

lemma stream_message_ids: "m \<in> set (stream_messages i ov bs) \<Longrightarrow> has_id i m"
  by (auto simp: stream_messages_def prepare_stream_reads)

abbreviation waiting :: "u64 \<Rightarrow> RemoteConnection \<Rightarrow> RemoteConnection" where
  "waiting i rc \<equiv> rc\<lparr>rc_stream_actors := (rc_stream_actors rc)(i \<mapsto> stream_actor_new)\<rparr>"

lemma stream_received:
  assumes "rc_reading rc" "rc_actors rc i = None" "rc_stream_actors rc i = None"
  shows "stream_after i (fold reader_step (stream_messages i ov bs) (waiting i rc)) = (Ok bs, rc)"
proof -
  let ?S = "[i \<mapsto> (ov, bs)]" and ?rc = "fold reader_step (stream_messages i ov bs) (waiting i rc)"
  have ids: "filter (has_id i) (stream_messages i ov bs) = stream_messages i ov bs"
    using stream_message_ids by (intro filter_True) blast
  have "in_flight ?S (stream_messages i ov bs) (waiting i rc)"
    by (rule in_flight_start) (use assms ids stream_message_ids in \<open>auto split: if_splits\<close>)
  from streams_delivered [OF this] have fl: "in_flight ?S [] ?rc" "rc_actors ?rc = rc_actors rc" "rc_writable ?rc = rc_writable rc"
    "\<forall>j. j \<noteq> i \<longrightarrow> rc_stream_actors ?rc j = rc_stream_actors rc j" by auto
  from in_flight_done [OF fl(1)] have got: "rc_stream_actors ?rc i = Some (streamed bs)" by simp
  have "rc_reading ?rc" using fl(1) by (simp add: in_flight_def)
  moreover have "(rc_stream_actors ?rc)(i := None) = rc_stream_actors rc" using fl(4) assms(3) by (auto simp: fun_eq_iff)
  ultimately have "?rc\<lparr>rc_stream_actors := (rc_stream_actors ?rc)(i := None)\<rparr> = rc" using fl(2,3) assms(1)
    by (cases ?rc; cases rc) simp
  with got show ?thesis by (simp add: stream_after_def streamed_def)
qed

lemma stream_error_received:
  assumes "rc_reading rc" "rc_actors rc i = None" "rc_stream_actors rc i = None" "\<not> is_stream e"
  shows "stream_after i (reader_step (prepare_reply_broker_overlay_message_stream (Inl e) i ov p) (waiting i rc)) = (Err e, rc)"
proof -
  have "rc\<lparr>rc_stream_actors := (rc_stream_actors rc)(i := None)\<rparr> = rc" using assms(3) by (simp add: fun_upd_idem)
  moreover have "sa_running stream_actor_new" by (simp add: stream_actor_new_def)
  ultimately show ?thesis using reader_step_stream [of "waiting i rc" i stream_actor_new "Inl e" ov p] assms
    by (simp add: stream_actor_handle_def prepare_stream_reads stream_actor_new_def stream_actor_send_error_def
        stream_actor_close_def stream_after_def)
qed

lemma remote_stream:
  assumes user: "ph_broker_protocol h = Some user"
    and conv: "\<forall>m \<in> set (conversation X E user clock random (request_message i ov req) s). carried X m"
    and rc: "rc_reading rc" "rc_writable rc" "rc_actors rc i = None" "rc_stream_actors rc i = None" and req: "stream_request req"
  shows "\<exists>rc'. remote_request_stream X E h i ov req clock random (rc, s)
      = (as_remote (plain_blocks (fst (local_request_stream X E user ov req clock s))),
         (rc', snd (local_request_stream X E user ov req clock s)))
    \<and> (settled (fst (local_request_stream X E user ov req clock s)) \<longrightarrow> rc' = rc)"
proof -
  obtain r s' where r: "local_request_stream X E user ov req clock s = (r, s')" by (rule prod.exhaust)
  have "\<not> is_close (request_message i ov req)" by (simp add: request_message_def)
  note ex = exchange_result [OF user conv this, of "waiting i rc", simplified wire_request_kind(2) [OF req] on_wire_replies handled_stream [OF req] r]
  have w: "rc_reading (waiting i rc)" "rc_writable (waiting i rc)" using rc by simp_all
  have start: "remote_request_stream X E h i ov req clock random (rc, s)
      = await_reply stream_after i (exchange X E h clock random (request_message i ov req) (waiting i rc, s))"
    using rc(2) by (simp add: remote_request_stream_def send_request_def)
  show ?thesis
  proof (cases r)
    case (Ok bs)
    obtain reply future where f: "send_block_stream_response_to_client (Inr bs) i ov padding_size = (reply, future)" by (rule prod.exhaust)
    from ex Ok f have "exchange X E h clock random (request_message i ov req) (waiting i rc, s)
        = (fold reader_step (stream_messages i ov (map plain bs)) (waiting i rc), s')"
      by (simp add: stream_response_messages [OF f, symmetric])
    with start r Ok stream_received [OF rc(1,3,4), of ov "map plain bs"] show ?thesis
      by (simp add: await_reply_def plain_blocks_def)
  next
    case (Err e)
    have "\<not> is_stream e" using steady_streams [of X E user ov req clock s] r Err by (simp add: steady_def)
    with start r Err ex stream_error_received [OF rc(1,3,4)] show ?thesis
      by (simp add: await_reply_def plain_blocks_def send_block_stream_response_to_client_def)
  next
    case Panic
    obtain q rc' where "stream_after i (reader_step (read_frame X []) (waiting i rc)) = (q, rc')" by (rule prod.exhaust)
    moreover have "fst (stream_after i (reader_step (read_frame X []) (waiting i rc))) = Err Closing"
      by (rule close_releases(2) [OF w(1), of i stream_actor_new]) (simp_all add: stream_actor_new_def)
    ultimately show ?thesis using start r Panic ex
      by (intro exI [of _ rc']) (simp add: await_reply_def plain_blocks_def settled_def)
  next
    case Hang
    with start r ex show ?thesis
      by (intro exI [of _ "waiting i rc"]) (simp add: await_reply_def plain_blocks_def settled_def stream_after_def stream_actor_new_def)
  qed
qed

lemma remote_unit_request:
  assumes user: "ph_broker_protocol h = Some user" and rc: "rc_reading rc" "rc_writable rc" "rc_actors rc i = None"
    and conv: "\<forall>m \<in> set (conversation X E user clock random (request_message i ov req) s). carried X m" and req: "unit_request req"
  shows "\<exists>rc'. remote_request X E h i ov req clock random (rc, s)
      = (as_remote (fst (local_request X E user ov (wire_request req) clock random s)),
         (rc', snd (local_request X E user ov (wire_request req) clock random s)))
    \<and> (settled (fst (local_request X E user ov (wire_request req) clock random s)) \<longrightarrow> rc' = rc)"
proof -
  have "handled X E clock random user (on_wire (request_message i ov req)) s
      = answer (local_request X E user ov (wire_request req) clock random s)
          (\<lambda>res s. (Ok (prepare_reply_broker_overlay_message res i ov None padding_size, None), s))"
    using req by (simp add: handled_unit)
  from remote_unit [OF user conv _ rc this] show ?thesis by (simp add: remote_request_def request_message_def)
qed

lemma remote_user_request:
  assumes user: "ph_broker_protocol h = Some user" and rc: "rc_reading rc" "rc_writable rc" "rc_actors rc i = None"
    and sign: "sign X pk user (ser_add_user_content X \<lparr>auc_user = u\<rparr>) = Ok sig"
    and conv: "\<forall>m \<in> set (conversation X E user clock random (add_user_message_of i u sig) s). carried X m"
  shows "\<exists>rc'. remote_add_user X E h i user u pk clock random (rc, s)
      = (as_remote (fst (local_add_user X E user u pk s)), (rc', snd (local_add_user X E user u pk s)))
    \<and> (settled (fst (local_add_user X E user u pk s)) \<longrightarrow> rc' = rc)"
proof -
  have "handled X E clock random user (on_wire (add_user_message_of i u sig)) s
      = answer (add_user X E user u sig s) (\<lambda>res s. (Ok (prepare_reply_broker_message res i padding_size, None), s))"
    by (simp add: handled_add_user)
  from remote_unit [OF user conv _ rc this] sign show ?thesis
    by (simp add: remote_add_user_def local_add_user_def add_user_message_of_def)
qed

section \<open>Properties\<close>

text \<open>
  C40. Streams do not mix: when several requests for blocks are in flight and the messages of their answers
  arrive in any interleaving that keeps each stream's own order, every request receives exactly its own
  blocks, in order, and then the end of its stream; the reader goes on, and other requests are not touched.
\<close>

theorem interleaved_streams:
  assumes "rc_reading rc" "\<forall>m \<in> set ms. \<exists>i \<in> dom S. has_id i m"
    "\<forall>i ov bs. S i = Some (ov, bs) \<longrightarrow> rc_actors rc i = None \<and> rc_stream_actors rc i = Some stream_actor_new
      \<and> filter (has_id i) ms = stream_messages i ov bs"
  shows "rc_reading (fold reader_step ms rc)
    \<and> (\<forall>i ov bs. S i = Some (ov, bs) \<longrightarrow> fst (stream_after i (fold reader_step ms rc)) = Ok bs)
    \<and> rc_actors (fold reader_step ms rc) = rc_actors rc
    \<and> (\<forall>i. i \<notin> dom S \<longrightarrow> rc_stream_actors (fold reader_step ms rc) i = rc_stream_actors rc i)"
proof -
  from streams_delivered [OF in_flight_start [OF assms]] have fl: "in_flight S [] (fold reader_step ms rc)"
    "rc_actors (fold reader_step ms rc) = rc_actors rc"
    "\<forall>i. i \<notin> dom S \<longrightarrow> rc_stream_actors (fold reader_step ms rc) i = rc_stream_actors rc i" by auto
  have "fst (stream_after i (fold reader_step ms rc)) = Ok bs" if "S i = Some (ov, bs)" for i ov bs
    using in_flight_done [OF fl(1) that] by (simp add: stream_after_def streamed_def)
  with fl show ?thesis by (auto simp: in_flight_def)
qed

text \<open>
  C13. A remote connection answers as a local one: for a fresh request identifier, a request of the kinds its
  method is made for gives the same result and leaves the server the same as the same request on a local
  connection to the same server, and the connection as it was; blocks arrive without what is not serialized,
  and a panic of the server is the error \<^verbatim>\<open>Closing\<close>. So does \<^verbatim>\<open>add_user\<close>. Only \<^verbatim>\<open>copy_object\<close> differs: it panics locally and
  is an error remotely.
\<close>

theorem remote_equals_local:
  fixes s :: "('b, 'd) BrokerServer"
  assumes user: "ph_broker_protocol h = Some user" and rc: "rc_reading rc" "rc_writable rc"
    and fresh: "rc_actors rc (ids n) = None" "rc_stream_actors rc (ids n) = None"
    and conv: "\<forall>m \<in> set (conversation X E user (clocks n) (randoms n) (request_message (ids n) ov req) s). carried X m"
    and conv_user: "\<forall>sig. sign X pk user (ser_add_user_content X \<lparr>auc_user = u\<rparr>) = Ok sig \<longrightarrow>
      (\<forall>m \<in> set (conversation X E user (clocks n) (randoms n) (add_user_message_of (ids n) u sig) s). carried X m)"
  shows "(unit_request req \<longrightarrow> (case bc_request (local_connection X E user clocks randoms) ov (wire_request req) (n, s) of (r, (n', s')) \<Rightarrow>
        \<exists>rc'. bc_request (remote_connection X E h user ids clocks randoms) ov req (n, (rc, s)) = (as_remote r, (n', (rc', s'))) \<and> (settled r \<longrightarrow> rc' = rc)))
    \<and> (stream_request req \<longrightarrow> (case bc_request_stream (local_connection X E user clocks randoms) ov req (n, s) of (r, (n', s')) \<Rightarrow>
        \<exists>rc'. bc_request_stream (remote_connection X E h user ids clocks randoms) ov req (n, (rc, s)) = (as_remote (plain_blocks r), (n', (rc', s')))
          \<and> (settled r \<longrightarrow> rc' = rc)))
    \<and> (case bc_add_user (local_connection X E user clocks randoms) u pk (n, s) of (r, (n', s')) \<Rightarrow>
        \<exists>rc'. bc_add_user (remote_connection X E h user ids clocks randoms) u pk (n, (rc, s)) = (as_remote r, (n', (rc', s'))))
    \<and> (req = BrokerOverlayRequestContentV0.ObjectCopy oc \<longrightarrow>
        fst (bc_request_objectid (local_connection X E user clocks randoms) ov req (n, s)) = Panic
        \<and> fst (bc_request_objectid (remote_connection X E h user ids clocks randoms) ov req (n, (rc, s))) = Err InvalidState)"
proof (intro conjI impI)
  let ?i = "ids n"
  note simps = remote_connection_def local_connection_def local_call_def
  have open': "\<not> is_close (request_message ?i ov req)" by (simp add: request_message_def)
  show "case bc_request (local_connection X E user clocks randoms) ov (wire_request req) (n, s) of (r, (n', s')) \<Rightarrow>
      \<exists>rc'. bc_request (remote_connection X E h user ids clocks randoms) ov req (n, (rc, s)) = (as_remote r, (n', (rc', s'))) \<and> (settled r \<longrightarrow> rc' = rc)"
    if "unit_request req"
    using remote_unit_request [OF user rc fresh(1) conv that] by (auto simp: simps split: prod.split)
  show "case bc_request_stream (local_connection X E user clocks randoms) ov req (n, s) of (r, (n', s')) \<Rightarrow>
        \<exists>rc'. bc_request_stream (remote_connection X E h user ids clocks randoms) ov req (n, (rc, s)) = (as_remote (plain_blocks r), (n', (rc', s')))
          \<and> (settled r \<longrightarrow> rc' = rc)"
    if "stream_request req"
    using remote_stream [OF user conv rc fresh that] by (auto simp: simps split: prod.split)
  show "case bc_add_user (local_connection X E user clocks randoms) u pk (n, s) of (r, (n', s')) \<Rightarrow>
        \<exists>rc'. bc_add_user (remote_connection X E h user ids clocks randoms) u pk (n, (rc, s)) = (as_remote r, (n', (rc', s')))"
  proof (cases "sign X pk user (ser_add_user_content X \<lparr>auc_user = u\<rparr>)")
    case (Ok sig)
    from remote_user_request [OF user rc fresh(1) Ok conv_user [THEN spec, THEN mp, OF Ok]] show ?thesis
      by (auto simp: simps split: prod.split)
  next
    case Panic
    moreover have "sign X pk user (ser_add_user_content X \<lparr>auc_user = u\<rparr>) \<noteq> Panic"
      by (cases pk; cases user) (simp add: sign_def split: option.split)
    ultimately show ?thesis by simp
  qed (auto simp: simps remote_add_user_def local_add_user_def)
  assume oc: "req = BrokerOverlayRequestContentV0.ObjectCopy oc"
  then show "fst (bc_request_objectid (local_connection X E user clocks randoms) ov req (n, s)) = Panic"
    by (simp add: simps local_request_objectid_def copy_object_def)
  have "handled X E (clocks n) (randoms n) user (on_wire (request_message ?i ov req)) s
      = (Ok (prepare_reply_broker_overlay_message (Inl InvalidState) ?i ov None padding_size, None), s)"
    using oc by (simp add: handled_request handle_overlay_request_def Let_def)
  with exchange_result [OF user conv open', of "before ?i rc"] rc
    reply_resolves [OF fresh(1) rc(1) unit_reply_replies(2)]
  show "fst (bc_request_objectid (remote_connection X E h user ids clocks randoms) ov req (n, (rc, s))) = Err InvalidState"
    by (simp add: simps remote_request_objectid_def send_request_def await_reply_def)
qed

text \<open>What deserializing gives of the four messages of the handshake.\<close>

definition handshake_codec :: "'x client_externs_scheme \<Rightarrow> bool" where
  "handshake_codec X \<longleftrightarrow>
     ser_start_protocol X (StartProtocol.Auth ClientHello.V0) \<noteq> []
   \<and> de_start_protocol X (ser_start_protocol X (StartProtocol.Auth ClientHello.V0)) = Some (StartProtocol.Auth ClientHello.V0)
   \<and> (\<forall>m. de_server_hello X (ser_server_hello X m) = Some m)
   \<and> (\<forall>m. ser_client_auth X m \<noteq> [] \<and> de_client_auth X (ser_client_auth X m) = Some m)
   \<and> (\<forall>m. de_auth_result X (ser_auth_result X m) = Some m)"

lemma node_transport_fields [simp]:
  "tr_send (node_transport X E clock random) = node_send X E clock random" "tr_next (node_transport X E clock random) = node_next"
  "tr_close (node_transport X E clock random) = node_close"
  by (simp_all add: node_transport_def)

text \<open>The two frames of the client, at the server.\<close>

lemma server_receives_start:
  assumes "handshake_codec X"
  shows "node_send X E clock random (ser_start_protocol X (StartProtocol.Auth ClientHello.V0)) (n, connection_new, s)
    = (Ok (), (n, connection_new\<lparr>con_handler := protocol_handler\<lparr>ph_protocol := Auth, ph_auth_protocol := Some
        \<lparr>ah_machine = AuthProtocolServerState.ServerHelloSent, ah_nonce = Some (bytes_of random), ah_user = None\<rparr>\<rparr>,
        con_sent := [ser_server_hello X (ServerHello.V0 \<lparr>sh_nonce = bytes_of random\<rparr>)]\<rparr>, s))"
  using assms by (simp add: handshake_codec_def node_send_def connection_receive_def connection_new_def
      protocol_handle_incoming_def protocol_handler_def protocol_start_def handle_init_new)

lemma server_receives_auth:
  assumes "handshake_codec X" "con_running c" "ph_protocol (con_handler c) = Auth"
    "ph_auth_protocol (con_handler c) = Some \<lparr>ah_machine = AuthProtocolServerState.ServerHelloSent,
       ah_nonce = Some (bytes_of random), ah_user = None\<rparr>" "cac_nonce content = bytes_of random"
  shows "\<exists>h c'. node_send X E clock random (ser_client_auth X (ClientAuth.V0 \<lparr>ca_content = content, ca_sig = sig\<rparr>)) (n, c, s) = (Ok (), (n, c', s))
    \<and> con_handler c' = h
    \<and> (if verify X (ser_client_auth_content X content) sig (cac_user content) = Ok ()
       then con_sent c' = con_sent c @ [ser_auth_result X (AuthResult.V0 \<lparr>ar_result = 0, ar_metadata = []\<rparr>)] \<and> con_running c'
         \<and> ph_protocol h = Broker \<and> ph_broker_protocol h = Some (cac_user content)
       else con_sent c' = con_sent c @ [ser_auth_result X (AuthResult.V0 \<lparr>ar_result = error_code AccessDenied, ar_metadata = []\<rparr>)]
         \<and> \<not> con_running c')"
proof -
  let ?f = "ser_client_auth X (ClientAuth.V0 \<lparr>ca_content = content, ca_sig = sig\<rparr>)"
  have f: "?f \<noteq> []" "de_client_auth X ?f = Some (ClientAuth.V0 \<lparr>ca_content = content, ca_sig = sig\<rparr>)"
    using assms(1) by (simp_all add: handshake_codec_def)
  from verify_cases [of X "ser_client_auth_content X content" sig "cac_user content"] show ?thesis
  proof
    assume "verify X (ser_client_auth_content X content) sig (cac_user content) = Ok ()"
    with f assms(2-5) show ?thesis
      by (simp add: node_send_def connection_receive_def protocol_handle_incoming_def protocol_auth_def
          auth_handle_incoming_def process_state_def consume_def auth_prepare_reply_def get_user_def Let_def)
  next
    assume "verify X (ser_client_auth_content X content) sig (cac_user content) = Err LofireError.InvalidSignature"
    with f assms(2-5) show ?thesis
      by (simp add: node_send_def connection_receive_def protocol_handle_incoming_def protocol_auth_def
          auth_handle_incoming_def process_state_def consume_def auth_prepare_reply_def Let_def)
  qed
qed

lemma opened_connection:
  fixes s :: "('b, 'd) BrokerServer"
  assumes codec: "handshake_codec X"
    and content: "content = \<lparr>cac_user = user, cac_client = client, cac_nonce = bytes_of random\<rparr>"
  shows "\<exists>r n c'. open_broker_connection X (node_transport X E clock random) user user_pk client (0, connection_new, s) = (r, (n, c', s))
    \<and> (case sign X user_pk user (ser_client_auth_content X content) of
         Ok sig \<Rightarrow>
           if verify X (ser_client_auth_content X content) sig user = Ok ()
           then r = Ok remote_open \<and> con_running c' \<and> ph_protocol (con_handler c') = Broker
             \<and> ph_broker_protocol (con_handler c') = Some user
           else r = Err AccessDenied \<and> \<not> con_running c'
       | _ \<Rightarrow> r = Err SignatureError)"
proof -
  let ?T = "node_transport X E clock random"
  have hello: "de_server_hello X (ser_server_hello X m) = Some m" "de_auth_result X (ser_auth_result X a) = Some a" for m a
    using codec by (simp_all add: handshake_codec_def)
  from server_receives_start [OF codec, of E clock random 0 s] obtain c1 where
    start: "node_send X E clock random (ser_start_protocol X (StartProtocol.Auth ClientHello.V0)) (0, connection_new, s) = (Ok (), (0, c1, s))"
    and c1: "con_running c1" "ph_protocol (con_handler c1) = Auth" "con_sent c1 = [ser_server_hello X (ServerHello.V0 \<lparr>sh_nonce = bytes_of random\<rparr>)]"
    "ph_auth_protocol (con_handler c1) = Some \<lparr>ah_machine = AuthProtocolServerState.ServerHelloSent,
       ah_nonce = Some (bytes_of random), ah_user = None\<rparr>" by (simp add: connection_new_def)
  have next1: "node_next (0, c1, s) = (Ok (Some (ser_server_hello X (ServerHello.V0 \<lparr>sh_nonce = bytes_of random\<rparr>))), (1, c1, s))"
    using c1(3) by (simp add: node_next_def)
  have first: "open_broker_connection X ?T user user_pk client (0, connection_new, s)
      = op_then (map_err (\<lambda>_. SignatureError) (sign X user_pk user (ser_client_auth_content X content)), (1, c1, s)) (\<lambda>sig p.
         op_then (apfst (map_err (\<lambda>_. WriteError)) (tr_send ?T (ser_client_auth X (ClientAuth.V0 \<lparr>ca_content = content, ca_sig = sig\<rparr>)) p)) (\<lambda>_ p.
         op_then (tr_next ?T p) (\<lambda>answer p. case answer of
             None \<Rightarrow> close_with ?T InvalidState p
           | Some frame \<Rightarrow>
         op_then (ok_or ProtocolError.SerializationError (de_auth_result X frame), p) (\<lambda>auth_result p.
           if auth_result_result auth_result = 0 then (Ok remote_open, p)
           else op_then (unwrap (try_from_code (auth_result_result auth_result)), p) (\<lambda>e p. close_with ?T e p)))))"
    using start next1 hello(1) by (simp add: open_broker_connection_def content Let_def)
  show ?thesis
  proof (cases "sign X user_pk user (ser_client_auth_content X content)")
    case (Ok sig)
    have nonce: "cac_nonce content = bytes_of random" and u: "cac_user content = user" by (simp_all add: content)
    from server_receives_auth [OF codec c1(1,2,4) nonce, of E clock sig 1 s] obtain c' where
      c': "node_send X E clock random (ser_client_auth X (ClientAuth.V0 \<lparr>ca_content = content, ca_sig = sig\<rparr>)) (1, c1, s) = (Ok (), (1, c', s))"
        "if verify X (ser_client_auth_content X content) sig user = Ok ()
         then con_sent c' = con_sent c1 @ [ser_auth_result X (AuthResult.V0 \<lparr>ar_result = 0, ar_metadata = []\<rparr>)] \<and> con_running c'
           \<and> ph_protocol (con_handler c') = Broker \<and> ph_broker_protocol (con_handler c') = Some user
         else con_sent c' = con_sent c1 @ [ser_auth_result X (AuthResult.V0 \<lparr>ar_result = error_code AccessDenied, ar_metadata = []\<rparr>)]
           \<and> \<not> con_running c'" unfolding u by blast
    have second: "open_broker_connection X ?T user user_pk client (0, connection_new, s)
      = op_then (node_next (1, c', s)) (\<lambda>answer p. case answer of
             None \<Rightarrow> close_with ?T InvalidState p
           | Some frame \<Rightarrow>
         op_then (ok_or ProtocolError.SerializationError (de_auth_result X frame), p) (\<lambda>auth_result p.
           if auth_result_result auth_result = 0 then (Ok remote_open, p)
           else op_then (unwrap (try_from_code (auth_result_result auth_result)), p) (\<lambda>e p. close_with ?T e p)))"
      unfolding first using Ok c'(1) by simp
    show ?thesis
    proof (cases "verify X (ser_client_auth_content X content) sig user = Ok ()")
      case True
      with c'(2) c1(3) Ok hello(2) show ?thesis unfolding second by (simp add: node_next_def)
    next
      case False
      with c'(2) c1(3) Ok hello(2) show ?thesis unfolding second
        by (simp add: node_next_def close_with_def node_close_def del: error_code.simps)
    qed
  next
    case (Err e)
    then show ?thesis unfolding first by simp
  qed (cases user_pk; cases user; simp add: sign_def split: option.splits)+
qed

text \<open>
  C38. Opening a connection: with a signature of the session's nonce that verifies under the user's key, the
  client gets an open connection and the server's end speaks the broker protocol for that user; with one that
  does not verify, the client gets \<^verbatim>\<open>AccessDenied\<close> and the server has left the connection; when the client
  cannot sign it gets a signature error. The server's state is not touched.
\<close>

theorem open_connection_outcome:
  fixes s :: "('b, 'd) BrokerServer"
  assumes codec: "handshake_codec X"
    and content: "content = \<lparr>cac_user = user, cac_client = client, cac_nonce = bytes_of random\<rparr>"
  shows "\<exists>r n c'. open_broker_connection X (node_transport X E clock random) user user_pk client (0, connection_new, s) = (r, (n, c', s))
    \<and> (case sign X user_pk user (ser_client_auth_content X content) of
         Ok sig \<Rightarrow>
           if verify X (ser_client_auth_content X content) sig user = Ok ()
           then r = Ok remote_open \<and> con_running c' \<and> ph_protocol (con_handler c') = Broker
             \<and> ph_broker_protocol (con_handler c') = Some user
           else r = Err AccessDenied \<and> \<not> con_running c'
       | _ \<Rightarrow> r = Err SignatureError)"
  by (rule opened_connection [OF codec content])

section \<open>Lost connections\<close>

lemma reader_stopped: "\<not> rc_reading rc \<Longrightarrow> fold reader_step ms rc = rc"
  by (induction ms) (simp_all add: reader_step_def)

lemma reader_stray:
  assumes "rc_reading rc" "\<not> is_close m" "is_request m = (Ok True :: (bool, ProtocolError) result)
      \<or> is_request m = (Ok False :: (bool, ProtocolError) result) \<and> is_response m = (Ok True :: (bool, ProtocolError) result)
        \<and> broker_message_id m = (Ok k :: (u64, ProtocolError) result) \<and> rc_actors rc k = None \<and> rc_stream_actors rc k = None"
  shows "fold reader_step (m # ms) rc = rc\<lparr>rc_reading := False, rc_writable := False\<rparr>"
proof -
  have "reader_message m rc = (Err Closing, rc)" using assms(2,3) by (auto simp: reader_message_def deliver_def)
  then have "reader_step m rc = rc\<lparr>rc_reading := False, rc_writable := False\<rparr>" using assms(1) by (simp add: reader_step_def)
  with reader_stopped [of "reader_step m rc" ms] show ?thesis by simp
qed

text \<open>
  C20. What becomes of the calls in flight when a connection is lost: a \<^verbatim>\<open>Close\<close> releases every one of them with the
  error \<^verbatim>\<open>Closing\<close>; after a request from the server, or a response with an identifier that is not known, the reader loop ends and
  every call in flight waits for ever, whatever is sent afterwards. In either case nothing can be written any more.
\<close>

theorem calls_of_lost_connection:
  assumes "rc_reading rc" "rc_actors rc i = Some message_actor_new" "rc_stream_actors rc j = Some stream_actor_new"
  shows "(let rc' = fold reader_step (BrokerMessage.Close # ms) rc in
      fst (after i rc') = Err Closing \<and> fst (stream_after j rc') = Err Closing \<and> \<not> rc_writable rc')
    \<and> (\<not> is_close m \<and> (is_request m = (Ok True :: (bool, ProtocolError) result)
        \<or> is_request m = (Ok False :: (bool, ProtocolError) result) \<and> is_response m = (Ok True :: (bool, ProtocolError) result)
          \<and> broker_message_id m = (Ok k :: (u64, ProtocolError) result) \<and> rc_actors rc k = None \<and> rc_stream_actors rc k = None) \<longrightarrow>
      (let rc' = fold reader_step (m # ms) rc in fst (after i rc') = Hang \<and> fst (stream_after j rc') = Hang \<and> \<not> rc_writable rc'))"
proof -
  have "reader_step BrokerMessage.Close rc = (stop_all rc)\<lparr>rc_reading := False, rc_writable := False\<rparr>"
    using assms(1) by (simp add: reader_step_def reader_message_def)
  with reader_stopped [of "reader_step BrokerMessage.Close rc" ms]
  have closed: "fold reader_step (BrokerMessage.Close # ms) rc = (stop_all rc)\<lparr>rc_reading := False, rc_writable := False\<rparr>" by simp
  have "fst (after i ((stop_all rc)\<lparr>rc_reading := False, rc_writable := False\<rparr>)) = Err Closing"
    "fst (stream_after j ((stop_all rc)\<lparr>rc_reading := False, rc_writable := False\<rparr>)) = Err Closing"
    using assms(2,3) by (simp_all add: after_def stream_after_def stop_all_def message_actor_new_def stream_actor_new_def stream_actor_close_def)
  moreover have "fst (after i (rc\<lparr>rc_reading := False, rc_writable := False\<rparr>)) = Hang"
    "fst (stream_after j (rc\<lparr>rc_reading := False, rc_writable := False\<rparr>)) = Hang"
    using assms(2,3) by (simp_all add: after_def stream_after_def message_actor_new_def stream_actor_new_def)
  ultimately show ?thesis unfolding closed using reader_stray [OF assms(1), of m k ms] by (auto simp: Let_def)
qed

section \<open>Witnesses\<close>

theorem calls_of_lost_connection_witness:
  "\<exists>rc. rc_reading rc \<and> fst (after 1 (fold reader_step [BrokerMessage.Close] rc)) = Err Closing
    \<and> fst (after 1 (fold reader_step [prepare_reply_broker_message (Inr ()) 3 padding_size] rc)) = Hang"
proof -
  let ?rc = "remote_open\<lparr>rc_actors := [1 \<mapsto> message_actor_new], rc_stream_actors := [2 \<mapsto> stream_actor_new]\<rparr>"
  have rc: "rc_reading ?rc" "rc_actors ?rc 1 = Some message_actor_new" "rc_stream_actors ?rc 2 = Some stream_actor_new"
    by (simp_all add: remote_open_def)
  have m: "unit_reply 3 (prepare_reply_broker_message (Inr ()) 3 padding_size)" by (rule unit_reply_replies)
  from calls_of_lost_connection [OF rc, of "[]" "prepare_reply_broker_message (Inr ()) 3 padding_size" 3] rc(1) m
  show ?thesis unfolding unit_reply_def by (intro exI [of _ ?rc]) (simp add: Let_def)
qed

theorem interleaved_streams_witness:
  "\<exists>rc1. rc_reading rc1
    \<and> fst (stream_after 1 (fold reader_step
        [prepare_reply_broker_overlay_message_stream (Inr demo_block) 2 (demo_id 1) padding_size,
         prepare_reply_broker_overlay_message_stream (Inr demo_block) 1 (demo_id 1) padding_size,
         prepare_reply_broker_overlay_message_stream (Inl EndOfStream) 2 (demo_id 1) padding_size,
         prepare_reply_broker_overlay_message_stream (Inl EndOfStream) 1 (demo_id 1) padding_size] rc1)) = Ok [demo_block]"
proof -
  let ?S = "[1 \<mapsto> (demo_id 1, [demo_block]), 2 \<mapsto> (demo_id 1, [demo_block])]"
  let ?ms = "[prepare_reply_broker_overlay_message_stream (Inr demo_block) 2 (demo_id 1) padding_size,
         prepare_reply_broker_overlay_message_stream (Inr demo_block) 1 (demo_id 1) padding_size,
         prepare_reply_broker_overlay_message_stream (Inl EndOfStream) 2 (demo_id 1) padding_size,
         prepare_reply_broker_overlay_message_stream (Inl EndOfStream) 1 (demo_id 1) padding_size]"
  let ?rc = "remote_open\<lparr>rc_stream_actors := [1 \<mapsto> stream_actor_new, 2 \<mapsto> stream_actor_new]\<rparr>"
  have "\<forall>m \<in> set ?ms. \<exists>i \<in> dom ?S. has_id i m" by (simp add: prepare_stream_reads)
  moreover have "\<forall>i ov bs. ?S i = Some (ov, bs) \<longrightarrow> rc_actors ?rc i = None \<and> rc_stream_actors ?rc i = Some stream_actor_new
      \<and> filter (has_id i) ?ms = stream_messages i ov bs"
    by (auto simp: remote_open_def prepare_stream_reads)
  ultimately show ?thesis using interleaved_streams [of ?rc ?ms ?S] by (intro exI [of _ ?rc]) (auto simp: remote_open_def)
qed

lemma demo_carried: "m \<in> set msgs \<Longrightarrow> length msgs < 256 \<Longrightarrow> on_wire m = m \<Longrightarrow> carried (demo_server msgs) m"
proof -
  assume m: "m \<in> set msgs" "length msgs < 256" "on_wire m = m"
  let ?k = "length (takeWhile (\<lambda>x. x \<noteq> m) msgs)"
  have "?k \<noteq> length msgs" using m(1) takeWhile_eq_take [of "\<lambda>x. x \<noteq> m" msgs] takeWhile_eq_all_conv [of "\<lambda>x. x \<noteq> m" msgs] by auto
  then have k: "?k < length msgs" using length_takeWhile_le [of "\<lambda>x. x \<noteq> m" msgs] by simp
  then have nth: "msgs ! ?k = m" using nth_length_takeWhile [of "\<lambda>x. x \<noteq> m" msgs] by simp
  from k have "unat (of_nat ?k :: u8) = ?k" using m(2) by (simp add: unat_of_nat)
  with k nth m(3) show ?thesis by (simp add: carried_def)
qed

definition demo_exchange :: "BrokerMessage list" where
  "demo_exchange = [request_message 1 (demo_id 1) (BrokerOverlayRequestContentV0.OverlayConnect OverlayConnect.V0),
     prepare_reply_broker_overlay_message (Inl OverlayNotJoined) 1 (demo_id 1) None padding_size,
     add_user_message_of 1 demo_user (demo_sign (fst pubkey_codec demo_user)),
     prepare_reply_broker_message (Inr ()) 1 padding_size]"

definition demo_handler :: ProtocolHandler where
  "demo_handler = protocol_handler\<lparr>ph_protocol := Broker, ph_broker_protocol := Some demo_pubkey\<rparr>"

theorem remote_equals_local_witness:
  "\<exists>n' s' rc'. bc_request (remote_connection (demo_server demo_exchange) demo_broker_env demo_handler demo_pubkey (\<lambda>_. 1) (\<lambda>_. 1700000000) (\<lambda>_. fill32 5))
      (demo_id 1) (BrokerOverlayRequestContentV0.OverlayConnect OverlayConnect.V0) (0, (remote_open, demo_start Local))
    = (Err OverlayNotJoined, (n', (rc', s')))"
proof -
  let ?X = "demo_server demo_exchange" and ?s = "demo_start Local"
  let ?req = "BrokerOverlayRequestContentV0.OverlayConnect OverlayConnect.V0"
  have carried: "carried ?X m" if "m \<in> set demo_exchange" for m
    by (rule demo_carried [OF that]) (use that in \<open>auto simp: demo_exchange_def\<close>)
  have user: "ph_broker_protocol demo_handler = Some demo_pubkey" by (simp add: demo_handler_def)
  have "handled ?X demo_broker_env 1700000000 (fill32 5) demo_pubkey (request_message 1 (demo_id 1) ?req) ?s
      = (Ok (prepare_reply_broker_overlay_message (Inl OverlayNotJoined) 1 (demo_id 1) None padding_size, None), ?s)"
    by (simp add: handled_request handle_overlay_request_def connect_overlay_def Let_def)
  then have conv: "\<forall>m \<in> set (conversation ?X demo_broker_env demo_pubkey 1700000000 (fill32 5) (request_message 1 (demo_id 1) ?req) ?s). carried ?X m"
    using carried by (simp add: conversation_def) (simp add: demo_exchange_def)
  have sign: "sign ?X (Ed25519PrivKey (fill32 9)) demo_pubkey (ser_add_user_content ?X \<lparr>auc_user = demo_user\<rparr>)
      = Ok (demo_sign (fst pubkey_codec demo_user))"
    by (simp add: sign_def demo_pubkey_def demo_sign_def demo_server_def auth_externs.defs repo_externs.defs
        demo_repo_def net_externs.defs demo_net_def externs.defs demo_externs_def)
  from demo_add_user [of demo_exchange Local] obtain s' where
    "add_user ?X demo_broker_env demo_pubkey demo_user (demo_sign (fst pubkey_codec demo_user)) ?s = (Ok (), s')"
    by (auto simp: handle_broker_request_def)
  then have "handled ?X demo_broker_env 1700000000 (fill32 5) demo_pubkey
      (add_user_message_of 1 demo_user (demo_sign (fst pubkey_codec demo_user))) ?s
      = (Ok (prepare_reply_broker_message (Inr ()) 1 padding_size, None), s')" by (simp add: handled_add_user)
  then have conv_user: "\<forall>sig. sign ?X (Ed25519PrivKey (fill32 9)) demo_pubkey (ser_add_user_content ?X \<lparr>auc_user = demo_user\<rparr>) = Ok sig \<longrightarrow>
      (\<forall>m \<in> set (conversation ?X demo_broker_env demo_pubkey 1700000000 (fill32 5) (add_user_message_of 1 demo_user sig) ?s). carried ?X m)"
    using carried sign by (simp add: conversation_def) (simp add: demo_exchange_def)
  have local: "bc_request (local_connection ?X demo_broker_env demo_pubkey (\<lambda>_. 1700000000) (\<lambda>_. fill32 5)) (demo_id 1) ?req (0, ?s)
      = (Err OverlayNotJoined, (Suc 0, ?s))"
    by (simp add: local_connection_def local_call_def local_request_def connect_overlay_def)
  have req: "unit_request ?req" by (simp add: unit_request_def)
  have rc: "rc_reading remote_open" "rc_writable remote_open" "rc_actors remote_open 1 = None" "rc_stream_actors remote_open 1 = None"
    by (simp_all add: remote_open_def)
  from remote_equals_local [where ids = "\<lambda>_. 1" and clocks = "\<lambda>_. 1700000000" and randoms = "\<lambda>_. fill32 5" and n = 0,
      OF user rc conv conv_user] req local show ?thesis by auto
qed

text \<open>Serializers for the handshake.\<close>

definition client_auth_codec :: "ClientAuth codec" where
  "client_auth_codec = map_codec (\<lambda>a. case a of ClientAuth.V0 c \<Rightarrow> (ca_content c, ca_sig c))
     (\<lambda>(c, sig). ClientAuth.V0 \<lparr>ca_content = c, ca_sig = sig\<rparr>) (pair_codec auth_content_codec sig_codec)"

definition auth_result_codec :: "AuthResult codec" where
  "auth_result_codec = map_codec (\<lambda>r. (auth_result_result r, auth_result_metadata r))
     (\<lambda>(r, m). AuthResult.V0 \<lparr>ar_result = r, ar_metadata = m\<rparr>) (pair_codec word_codec (list_codec byte_codec))"

lemma good_handshake [intro]: "good_codec client_auth_codec" "good_codec auth_result_codec"
proof -
  have "good_codec auth_content_codec" unfolding auth_content_codec_def by (intro good_map good_pair good_keys good_list good_byte) simp
  then show "good_codec client_auth_codec" unfolding client_auth_codec_def by (intro good_map good_pair good_keys) (auto split: ClientAuth.split)
  have "\<And>r. AuthResult.V0 \<lparr>ar_result = auth_result_result r, ar_metadata = auth_result_metadata r\<rparr> = r"
    by (metis AuthResult.exhaust AuthResultV0.surjective auth_result_metadata.simps auth_result_result.simps old.unit.exhaust)
  then show "good_codec auth_result_codec" unfolding auth_result_codec_def by (intro good_map good_pair good_word good_list good_byte) simp
qed

definition demo_client :: client_externs where
  "demo_client = server_externs.extend
     ((demo_server [])\<lparr>de_client_auth := (\<lambda>f. case f of [] \<Rightarrow> None | _ # r \<Rightarrow> decode client_auth_codec r),
        ser_auth_result := fst auth_result_codec\<rparr>)
     \<lparr>ser_start_protocol = (\<lambda>_. [1]), de_server_hello = (\<lambda>f. Some (ServerHello.V0 \<lparr>sh_nonce = f\<rparr>)),
      ser_client_auth = (\<lambda>m. 5 # fst client_auth_codec m), de_auth_result = decode auth_result_codec\<rparr>"

lemma demo_client_codec: "handshake_codec demo_client"
proof -
  have "ServerHello.V0 \<lparr>sh_nonce = server_hello_nonce m\<rparr> = m" for m by (cases m) (metis ServerHelloV0.surjective old.unit.exhaust server_hello_nonce.simps)
  then show ?thesis
    by (simp add: handshake_codec_def demo_client_def demo_server_def server_externs.defs auth_externs.defs repo_externs.defs good_handshake)
qed

theorem open_connection_outcome_witness:
  "\<exists>n c'. open_broker_connection demo_client (node_transport demo_client demo_broker_env 0 (fill32 9)) demo_pubkey (Ed25519PrivKey (fill32 9))
      demo_pubkey (0, connection_new, demo_start Local) = (Ok remote_open, (n, c', demo_start Local))
    \<and> ph_broker_protocol (con_handler c') = Some demo_pubkey"
proof -
  let ?content = "\<lparr>cac_user = demo_pubkey, cac_client = demo_pubkey, cac_nonce = bytes_of (fill32 9)\<rparr>"
  have "sign demo_client (Ed25519PrivKey (fill32 9)) demo_pubkey m = Ok (demo_sign m)" "verify demo_client m (demo_sign m) demo_pubkey = Ok ()" for m
    by (simp_all add: sign_def verify_def demo_pubkey_def demo_sign_def demo_client_def demo_server_def server_externs.defs
        auth_externs.defs repo_externs.defs demo_repo_def net_externs.defs demo_net_def externs.defs demo_externs_def)
  with open_connection_outcome [OF demo_client_codec refl, of demo_broker_env 0 "fill32 9" demo_pubkey "Ed25519PrivKey (fill32 9)" demo_pubkey "demo_start Local"]
  show ?thesis by auto
qed

end
