(* ===== verification/Lofire_Connection.thy ===== *)
theory Lofire_Connection
  imports Lofire_Sync Lofire_Remote_Props
begin

text \<open>
  The contract of the trait \<^verbatim>\<open>BrokerConnection\<close>: whichever its implementation, a client sees the machine of
  \<open>Lofire_Server_Spec\<close>. What a client does over it is proved once; the connection to a broker in the same
  process and the remote one both give it.
\<close>

section \<open>The contract\<close>

text \<open>The requests for the calls that change a repository, and for those that read it.\<close>

fun change_request :: "OverlayCall \<Rightarrow> BrokerOverlayRequestContentV0 option" where
  "change_request (OvPut b) = Some (BrokerOverlayRequestContentV0.BlockPut (BlockPut.V0 b))"
| "change_request (OvDelObject i) = Some (BrokerOverlayRequestContentV0.ObjectDel (ObjectDel.V0 \<lparr>odl_id = i\<rparr>))"
| "change_request (OvPinObject i) = Some (BrokerOverlayRequestContentV0.ObjectPin (ObjectPin.V0 \<lparr>opn_id = i\<rparr>))"
| "change_request (OvUnpinObject i) = Some (BrokerOverlayRequestContentV0.ObjectUnpin (ObjectUnpin.V0 \<lparr>oun_id = i\<rparr>))"
| "change_request _ = None"

fun read_request :: "OverlayCall \<Rightarrow> BrokerOverlayRequestContentV0 option" where
  "read_request (OvGet i topic) = Some (BrokerOverlayRequestContentV0.BlockGet (BlockGet.V0
     \<lparr>bg_id = i, bg_include_children = False, bg_topic = topic\<rparr>))"
| "read_request (OvGetObject i topic) = Some (BrokerOverlayRequestContentV0.BlockGet (BlockGet.V0
     \<lparr>bg_id = i, bg_include_children = True, bg_topic = topic\<rparr>))"
| "read_request (OvSyncBranch heads known bf) = Some (BrokerOverlayRequestContentV0.BranchSyncReq (BranchSyncReq.V0
     \<lparr>bsy_heads = heads, bsy_known_heads = known, bsy_known_commits = bf\<rparr>))"
| "read_request _ = None"

text \<open>The machine's answer to a call on an overlay.\<close>

abbreviation asked :: "'x server_externs_scheme \<Rightarrow> nat \<Rightarrow> PubKey \<Rightarrow> OverlayId \<Rightarrow> OverlayCall \<Rightarrow> ServerSpec \<Rightarrow> (ServerAnswer, ProtocolError, ServerSpec) op" where
  "asked X n user ov call w \<equiv> spec_call X n (CallOverlay 0 user ov call) w"

text \<open>Blocks stored under their own identifiers.\<close>

definition self_addressed :: "'x externs_scheme \<Rightarrow> (BlockId \<rightharpoonup> Block) \<Rightarrow> bool" where
  "self_addressed X m \<longleftrightarrow> (\<forall>i b. m i = Some b \<longrightarrow> plain b = b \<and> get_id X b = i)"

locale spec_connection =
  fixes X :: "'x server_externs_scheme"
    and C :: "'c BrokerConnection"
    and user :: PubKey
    and n :: nat
    and serves :: "'c \<Rightarrow> ServerSpec \<Rightarrow> bool"
  assumes adds_user: "serves c w \<Longrightarrow> sign X pk user (ser_add_user_content X \<lparr>auc_user = u\<rparr>) = Ok sig \<Longrightarrow>
      \<exists>c'. bc_add_user C u pk c = (fst (add_user_spec X user u sig (sp_view w)), c')
        \<and> serves c' (w\<lparr>sp_view := snd (add_user_spec X user u sig (sp_view w))\<rparr>)"
    and connects: "serves c w \<Longrightarrow> \<exists>c'. bc_request C ov (BrokerOverlayRequestContentV0.OverlayConnect OverlayConnect.V0) c
      = (Err OverlayNotJoined, c') \<and> serves c' w"
    and joins: "serves c w \<Longrightarrow> \<exists>random c'. bc_request C ov (BrokerOverlayRequestContentV0.OverlayJoin (OverlayJoin.V0
          \<lparr>oj_secret = secret, oj_repo_pubkey = repo, oj_peers = peers\<rparr>)) c
        = (fst (join_spec Local random user ov repo secret peers (sp_view w)), c')
      \<and> serves c' (w\<lparr>sp_view := snd (join_spec Local random user ov repo secret peers (sp_view w))\<rparr>)"
    and changes: "serves c w \<Longrightarrow> change_request call = Some req \<Longrightarrow> (\<And>b. call = OvPut b \<Longrightarrow> honest X b) \<Longrightarrow>
      settled (fst (asked X n user ov call w)) \<Longrightarrow>
      \<exists>c'. bc_request C ov req c = (and_then (fst (asked X n user ov call w)) (\<lambda>_. Ok ()), c') \<and> serves c' (snd (asked X n user ov call w))"
    and reads: "serves c w \<Longrightarrow> read_request call = Some req \<Longrightarrow>
      (\<And>p. repo_at (sp_view w) ov = Some p \<Longrightarrow> self_addressed X (sp_blocks w p)) \<Longrightarrow>
      settled (fst (asked X n user ov call w)) \<Longrightarrow>
      \<exists>r c'. bc_request_stream C ov req c = (r, c') \<and> serves c' (snd (asked X n user ov call w))
        \<and> and_then r (\<lambda>bs. Ok (Sent (map (addressed X) bs))) = fst (asked X n user ov call w)"

section \<open>What is read\<close>

lemma each_once_held:
  assumes "held X m bs" "(i, b) \<in> set (each_once X bs)"
  shows "m i = Some b"
proof -
  from assms(2) obtain c where "c \<in> set (snd (send_blocks X bs {} []))" "(i, b) = addressed X c" by (auto simp: each_once_def)
  with send_blocks_sends [of X bs "{}" "[]"] assms(1) show ?thesis by (auto simp: held_def addressed_def)
qed

lemma load_on_held: "plain_map m \<Longrightarrow> load_on X n m i = Ok ob \<Longrightarrow> held X m (obj_blocks ob)"
  using mp.object_load_held [of m X n i None] by (auto simp: load_on_def)

lemma load_all_held: "plain_map m \<Longrightarrow> load_all X n m ids = Ok bs \<Longrightarrow> held X m bs"
proof (induction ids arbitrary: bs)
  case (Cons i ids)
  then obtain ob bs' where "load_on X n m i = Ok ob" "load_all X n m ids = Ok bs'" "bs = obj_blocks ob @ bs'" by (auto simp: res_simps)
  with Cons.IH [OF Cons.prems(1)] load_on_held [OF Cons.prems(1), of X n i ob] show ?case unfolding held_def by auto
qed (simp add: held_def)

lemma sent_from_map:
  assumes "plain_map m" "fst (repo_spec X n call m) = Ok (Sent ps)" "(i, b) \<in> set ps"
  shows "m i = Some b"
proof (cases call)
  case (OvGet j topic)
  with assms(2,3) show ?thesis by (auto split: option.splits)
next
  case (OvGetObject j topic)
  with assms(2) obtain ob where "load_on X n m j = Ok ob" "ps = each_once X (obj_blocks ob)" by (auto simp: res_simps)
  with each_once_held [OF load_on_held [OF assms(1)]] assms(3) show ?thesis by blast
next
  case (OvSyncBranch heads known bf)
  with assms(2) obtain ids bs where "load_all X n m ids = Ok bs" "ps = each_once X bs" by (auto simp: res_simps)
  with each_once_held [OF load_all_held [OF assms(1)]] assms(3) show ?thesis by blast
next
  case (OvDelObject j)
  with assms(2) show ?thesis by (cases "load_on X n m j") auto
qed (use assms(2) in \<open>auto simp: res_simps\<close>)

lemma self_addressed_plain: "self_addressed X m \<Longrightarrow> plain_map m"
  by (auto simp: self_addressed_def plain_map_def)

lemma asked_plain:
  assumes self: "\<And>p. repo_at (sp_view w) ov = Some p \<Longrightarrow> self_addressed X (sp_blocks w p)"
    and r: "and_then r (\<lambda>bs. Ok (Sent (map (addressed X) bs))) = fst (asked X n user ov call w)"
  shows "and_then (plain_blocks r) (\<lambda>bs. Ok (Sent (map (addressed X) bs))) = fst (asked X n user ov call w)"
proof (cases r)
  case (Ok bs)
  have "addressed X (plain b) = addressed X b" if b: "b \<in> set bs" for b
  proof -
    from r Ok obtain p where p: "repo_at (sp_view w) ov = Some p"
      "fst (repo_spec X n call (sp_blocks w p)) = Ok (Sent (map (addressed X) bs))" by (auto split: option.splits prod.splits)
    from sent_from_map [OF self_addressed_plain [OF self [OF p(1)]] p(2), of "block_id X b" "plain b"] b
    have "sp_blocks w p (block_id X b) = Some (plain b)" by (auto simp: addressed_def)
    with self [OF p(1)] have "get_id X (plain b) = block_id X b" unfolding self_addressed_def by blast
    then show ?thesis by (simp add: addressed_def)
  qed
  then have "map (addressed X) (map plain bs) = map (addressed X) bs" by simp
  with r Ok show ?thesis by (simp add: plain_blocks_def del: spec_call.simps map_map map_eq_conv)
qed (use r in \<open>simp_all add: plain_blocks_def\<close>)

section \<open>The local connection\<close>

definition local_at ::
  "'x server_externs_scheme \<Rightarrow> ('b, 'd) BrokerEnv \<Rightarrow> ('b, 'd) EnvLaws \<Rightarrow> (nat \<Rightarrow> u64) \<Rightarrow> nat
   \<Rightarrow> nat \<times> ('b, 'd) BrokerServer \<Rightarrow> ServerSpec \<Rightarrow> bool" where
  "local_at X E L clocks n c w \<longleftrightarrow> lawful_env X E L \<and> (\<forall>k. clock_ok (clocks k)) \<and> n = be_fuel E \<and> spec_rel X E L (snd c) w"

lemma op_then_Done:
  "op_then p (\<lambda>_ s. (Ok Done, s)) = (r, s') \<Longrightarrow> p = (and_then r (\<lambda>_. Ok ()), s')" for p :: "(unit, 'e, 's) op"
  by (cases p; cases "fst p") auto

lemma op_then_pure:
  "op_then p (\<lambda>x s. (Ok (h x), s)) = (r, s') \<Longrightarrow> \<exists>q. p = (q, s') \<and> and_then q (\<lambda>x. Ok (h x)) = r"
  by (cases p; cases "fst p") auto

lemma local_asked:
  assumes "local_at X E L clocks n (k, s) w" "\<And>b. call = OvPut b \<Longrightarrow> honest X b"
  shows "\<exists>s'. overlay_call X E (clocks k) user ov call s = (fst (asked X n user ov call w), s') \<and> spec_rel X E L s' (snd (asked X n user ov call w))"
  using server_call_follows [of X E L s w "CallOverlay (clocks k) user ov call"] assms
  by (auto simp: local_at_def call_ok_def)

lemma local_change:
  assumes "local_at X E L clocks n (k, s) w" "change_request call = Some req" "\<And>b. call = OvPut b \<Longrightarrow> honest X b"
  shows "\<exists>s'. local_request X E user ov req (clocks k) random s = (and_then (fst (asked X n user ov call w)) (\<lambda>_. Ok ()), s')
    \<and> spec_rel X E L s' (snd (asked X n user ov call w))"
proof -
  from local_asked [OF assms(1,3), of call user ov] obtain s' where
    s': "overlay_call X E (clocks k) user ov call s = (fst (asked X n user ov call w), s')" "spec_rel X E L s' (snd (asked X n user ov call w))" by blast
  from assms(2) have "overlay_call X E (clocks k) user ov call s = op_then (local_request X E user ov req (clocks k) random s) (\<lambda>_ s. (Ok Done, s))"
    by (cases call) (auto simp: local_request_def)
  with s'(1) have "op_then (local_request X E user ov req (clocks k) random s) (\<lambda>_ s. (Ok Done, s)) = (fst (asked X n user ov call w), s')" by simp
  from op_then_Done [OF this] s'(2) show ?thesis by blast
qed

lemma local_read:
  assumes "local_at X E L clocks n (k, s) w" "read_request call = Some req"
  shows "\<exists>r s'. local_request_stream X E user ov req (clocks k) s = (r, s') \<and> spec_rel X E L s' (snd (asked X n user ov call w))
    \<and> and_then r (\<lambda>bs. Ok (Sent (map (addressed X) bs))) = fst (asked X n user ov call w)"
proof -
  from local_asked [OF assms(1), of call user ov] assms(2) obtain s' where
    s': "overlay_call X E (clocks k) user ov call s = (fst (asked X n user ov call w), s')" "spec_rel X E L s' (snd (asked X n user ov call w))"
    by (cases call) auto
  from assms(2) have "overlay_call X E (clocks k) user ov call s
      = op_then (local_request_stream X E user ov req (clocks k) s) (\<lambda>bs s. (Ok (Sent (map (addressed X) bs)), s))"
    by (cases call) (auto simp: local_request_stream_def)
  with s' op_then_pure [of "local_request_stream X E user ov req (clocks k) s" "\<lambda>bs. Sent (map (addressed X) bs)"] show ?thesis by auto
qed

interpretation ls: spec_connection X "local_connection X E user clocks randoms" user n "local_at X E L clocks n"
  for X E L user clocks randoms n
proof (unfold_locales, goal_cases)
  case (1 c w pk u sig)
  then obtain k s where c: "c = (k, s)" "lawful_env X E L" "server_invar X E L s (sp_view w)" "spec_rel X E L s w"
    by (cases c) (auto simp: local_at_def spec_rel_def)
  from add_user_serves [OF c(2,3), of user u sig] 1 c view_step [OF c(4)] show ?case
    by (auto simp: local_connection_def local_call_def local_add_user_def local_at_def) (auto simp: spec_rel_def)
next
  case (2 c w ov)
  then show ?case by (cases c) (simp add: local_connection_def local_call_def local_request_def connect_overlay_def local_at_def)
next
  case (3 c w ov secret repo peers)
  then obtain k s where c: "c = (k, s)" "lawful_env X E L" "server_invar X E L s (sp_view w)" "clock_ok (clocks k)"
    by (cases c) (auto simp: local_at_def spec_rel_def)
  from join_overlay_serves [OF c(2,3,4), of "randoms k" user ov repo secret peers] 3 c(1) show ?case
    by (intro exI [of _ "randoms k"]) (auto simp: local_connection_def local_call_def local_request_def local_at_def spec_rel_def)
next
  case (4 c w call req ov)
  obtain k s where c: "c = (k, s)" by (cases c)
  from local_change [OF 4(1) [unfolded c] 4(2,3), of user ov "randoms k"] 4(1) c show ?case
    by (auto simp: local_connection_def local_call_def local_at_def simp del: spec_call.simps)
next
  case (5 c w call req ov)
  obtain k s where c: "c = (k, s)" by (cases c)
  from local_read [OF 5(1) [unfolded c] 5(2), of user ov] 5(1) c show ?case
    by (auto simp: local_connection_def local_call_def local_at_def simp del: spec_call.simps)
qed

section \<open>The remote connection\<close>

text \<open>
  The connection is open, no request is under way, its peer's handler speaks for the user, and the serializer carries every message.
\<close>

definition remote_at ::
  "'x server_externs_scheme \<Rightarrow> ('b, 'd) BrokerEnv \<Rightarrow> ('b, 'd) EnvLaws \<Rightarrow> ProtocolHandler \<Rightarrow> PubKey \<Rightarrow> (nat \<Rightarrow> u64) \<Rightarrow> nat
   \<Rightarrow> nat \<times> ('b, 'd) remote_state \<Rightarrow> ServerSpec \<Rightarrow> bool" where
  "remote_at X E L h user clocks n c w \<longleftrightarrow> (case c of (k, (rc, s)) \<Rightarrow> local_at X E L clocks n (k, s) w
     \<and> ph_broker_protocol h = Some user \<and> rc = remote_open \<and> (\<forall>m. carried X m))"

lemma wire_change:
  assumes "change_request call = Some req" "\<And>b. call = OvPut b \<Longrightarrow> honest X b"
  obtains call' where "change_request call' = Some (wire_request req)" "unit_request req" "\<And>b. call' = OvPut b \<Longrightarrow> honest X b"
    "asked X n user ov call' w = asked X n user ov call w"
proof (cases call)
  case (OvPut b)
  have "block_id X (plain b) = block_id X b" "plain (plain b) = plain b" "honest X (plain b)"
    using assms(2) [OF OvPut] by (auto simp: honest_def)
  with OvPut assms(1) show ?thesis by (intro that [of "OvPut (plain b)"]) (auto simp: unit_request_def split: option.split)
qed (use assms in \<open>auto intro!: that [of call] simp: unit_request_def\<close>)

lemma remote_open_idle [simp]:
  "rc_reading remote_open" "rc_writable remote_open" "rc_actors remote_open i = None" "rc_stream_actors remote_open i = None"
  by (simp_all add: remote_open_def)

lemma settled_remote [simp]: "settled r \<Longrightarrow> as_remote r = r"
  by (cases r) (simp_all add: settled_def)

lemma settled_and_then [simp]: "settled (and_then r (\<lambda>x. Ok (f x))) = settled r"
  by (cases r) (simp_all add: settled_def)

lemma spec_settled [simp]: "settled (fst (add_user_spec X user u sig W))" "settled (fst (join_spec mode random user ov repo secret peers W))"
  by (auto simp: settled_def add_user_spec_def join_spec_def create_overlay_spec_def Let_def case_prod_beta split: if_splits)

lemma remote_unit_step:
  assumes at: "remote_at X E L h user clocks n (k, (remote_open, s)) w" and req: "unit_request req"
    and loc: "local_request X E user ov (wire_request req) (clocks k) (randoms k) s = (r, s')" "settled r" "spec_rel X E L s' w'"
  shows "\<exists>c'. bc_request (remote_connection X E h user ids clocks randoms) ov req (k, (remote_open, s)) = (r, c')
    \<and> remote_at X E L h user clocks n c' w'"
proof -
  from at have "ph_broker_protocol h = Some user" "\<forall>m. carried X m" "local_at X E L clocks n (k, s) w" by (auto simp: remote_at_def)
  with remote_unit_request [of h user remote_open "ids k" X E "clocks k" "randoms k" ov req s] req loc show ?thesis
    by (auto simp: remote_connection_def local_call_def remote_at_def local_at_def)
qed

interpretation rs: spec_connection X "remote_connection X E h user ids clocks randoms" user n "remote_at X E L h user clocks n"
  for X E L h user ids clocks randoms n
proof (unfold_locales, goal_cases)
  case (1 c w pk u sig)
  obtain k s where c: "c = (k, (remote_open, s))" "local_at X E L clocks n (k, s) w" "ph_broker_protocol h = Some user" "\<forall>m. carried X m"
    using 1(1) by (cases c) (auto simp: remote_at_def)
  from ls.adds_user [OF c(2) 1(2), of randoms] obtain c' where
    "bc_add_user (local_connection X E user clocks randoms) u pk (k, s) = (fst (add_user_spec X user u sig (sp_view w)), c')"
    "local_at X E L clocks n c' (w\<lparr>sp_view := snd (add_user_spec X user u sig (sp_view w))\<rparr>)" by blast
  with remote_user_request [of h user remote_open "ids k" X pk u sig E "clocks k" "randoms k" s] c 1(2) spec_settled(1) show ?case
    by (cases "local_add_user X E user u pk s")
      (auto simp: remote_connection_def local_connection_def local_call_def remote_at_def)
next
  case (2 c w ov)
  obtain k s where c: "c = (k, (remote_open, s))" "local_at X E L clocks n (k, s) w"
    using 2(1) by (cases c) (auto simp: remote_at_def)
  let ?req = "BrokerOverlayRequestContentV0.OverlayConnect OverlayConnect.V0"
  have "local_request X E user ov (wire_request ?req) (clocks k) (randoms k) s = (Err OverlayNotJoined, s)"
    by (simp add: local_request_def connect_overlay_def)
  from remote_unit_step [where randoms = randoms and req = ?req and ids = ids, OF 2(1) [unfolded c(1)] _ this] c(2) show ?case
    by (simp add: c(1) unit_request_def settled_def local_at_def)
next
  case (3 c w ov secret repo peers)
  obtain k s where c: "c = (k, (remote_open, s))" "local_at X E L clocks n (k, s) w"
    using 3(1) by (cases c) (auto simp: remote_at_def)
  let ?req = "BrokerOverlayRequestContentV0.OverlayJoin (OverlayJoin.V0 \<lparr>oj_secret = secret, oj_repo_pubkey = repo, oj_peers = peers\<rparr>)"
  let ?p = "join_spec Local (randoms k) user ov repo secret peers (sp_view w)"
  from c(2) have "lawful_env X E L" "server_invar X E L s (sp_view w)" "clock_ok (clocks k)" "spec_rel X E L s w"
    by (auto simp: local_at_def spec_rel_def)
  from join_overlay_serves [OF this(1-3), of "randoms k" user ov repo secret peers] this(4) obtain st where
    "local_request X E user ov (wire_request ?req) (clocks k) (randoms k) s = (fst ?p, s\<lparr>srv_store := st\<rparr>)"
    "spec_rel X E L (s\<lparr>srv_store := st\<rparr>) (w\<lparr>sp_view := snd ?p\<rparr>)" by (auto simp: local_request_def spec_rel_def)
  from remote_unit_step [where randoms = randoms and req = ?req and ids = ids, OF 3(1) [unfolded c(1)] _ this(1) spec_settled(2) this(2)] show ?case
    by (intro exI [of _ "randoms k"]) (simp add: c(1) unit_request_def)
next
  case (4 c w call req ov)
  obtain k s where c: "c = (k, (remote_open, s))" "local_at X E L clocks n (k, s) w"
    using 4(1) by (cases c) (auto simp: remote_at_def)
  obtain call' where call': "change_request call' = Some (wire_request req)" "unit_request req" "\<And>b. call' = OvPut b \<Longrightarrow> honest X b"
    "asked X n user ov call' w = asked X n user ov call w" using wire_change [OF 4(2,3)] by blast
  from local_change [OF c(2) call'(1,3), of user ov "randoms k"] obtain s' where
    "local_request X E user ov (wire_request req) (clocks k) (randoms k) s = (and_then (fst (asked X n user ov call w)) (\<lambda>_. Ok ()), s')"
    "spec_rel X E L s' (snd (asked X n user ov call w))" unfolding call'(4) by blast
  from remote_unit_step [where randoms = randoms and req = req and ids = ids, OF 4(1) [unfolded c(1)] call'(2) this(1) _ this(2)] 4(4) show ?case by (simp add: c(1) del: spec_call.simps)
next
  case (5 c w call req ov)
  obtain k s where c: "c = (k, (remote_open, s))" "local_at X E L clocks n (k, s) w" "ph_broker_protocol h = Some user" "\<forall>m. carried X m"
    using 5(1) by (cases c) (auto simp: remote_at_def)
  from local_read [OF c(2) 5(2), of user ov] obtain r s' where
    r: "local_request_stream X E user ov req (clocks k) s = (r, s')" "spec_rel X E L s' (snd (asked X n user ov call w))"
      "and_then r (\<lambda>bs. Ok (Sent (map (addressed X) bs))) = fst (asked X n user ov call w)" by blast
  have "stream_request req" using 5(2) by (cases call) (auto simp: stream_request_def)
  moreover have "settled r" using 5(4) r(3) by (metis settled_and_then)
  then have "settled (plain_blocks r)" by (simp add: plain_blocks_def)
  ultimately have "bc_request_stream (remote_connection X E h user ids clocks randoms) ov req c = (plain_blocks r, (Suc k, (remote_open, s')))"
    using remote_stream [of h user X E "clocks k" "randoms k" "ids k" ov req s remote_open] c(3,4) r(1) \<open>settled r\<close>
    by (auto simp: c(1) remote_connection_def local_call_def)
  with asked_plain [OF 5(3) r(3)] r(2) c show ?case by (auto simp: remote_at_def local_at_def simp del: spec_call.simps)
qed

end
