(* ===== verification/Lofire_Node.thy ===== *)
theory Lofire_Node
  imports Lofire_Server_Props
begin

text \<open>
  The node, \<^verbatim>\<open>run_server\<close> of \<^verbatim>\<open>src/lofire-node/src/main.rs\<close>: a server in the mode \<open>Local\<close> and the connections it has accepted,
  whose tasks run interleaved, a message at a time. Whatever clients send over however many connections, the
  server's state is what the messages of authenticated users make of it, one after the other.
\<close>

section \<open>The node\<close>

record ('b, 'd) Node =
  nd_server :: "('b, 'd) BrokerServer"
  nd_connections :: "Connection list"

definition run_server ::
  "'x server_externs_scheme \<Rightarrow> ('b, 'd) BrokerEnv \<Rightarrow> 'b \<Rightarrow> (RepoStoreId \<Rightarrow> 'd) \<Rightarrow> (('b, 'd) Node, unit) result" where
  "run_server X E store disk =
     and_then (unwrap_res (fst (broker_new X E store Local disk))) (\<lambda>s. Ok \<lparr>nd_server = s, nd_connections = []\<rparr>)"

text \<open>
  What can happen next: a socket is accepted, and its task started with a new handler; the task of a connection
  receives a message, with the clock and the random bytes of that moment and whether the socket takes
  a reply; a connection forwards an async frame; or the loop of a connection that has ended closes the socket.
  A panic ends the task of its connection.
\<close>

datatype NodeEvent =
    Accept
  | Receive nat u64 bytes32 bool WsMessage
  | Forward nat bool
  | Finish nat

fun node_step ::
  "'x server_externs_scheme \<Rightarrow> ('b, 'd) BrokerEnv \<Rightarrow> NodeEvent \<Rightarrow> ('b, 'd) Node \<Rightarrow> (unit, unit, ('b, 'd) Node) op" where
  "node_step X E Accept n = (Ok (), n\<lparr>nd_connections := nd_connections n @ [connection_new]\<rparr>)"
| "node_step X E (Receive i clock random sends msg) n =
     (if length (nd_connections n) \<le> i then (Ok (), n)
      else let c = nd_connections n ! i in
        case connection_receive X E clock random (sends \<and> \<not> con_closed c) msg (c, nd_server n) of (r, (c, s)) \<Rightarrow>
          (case r of
             Hang \<Rightarrow> (Hang, n\<lparr>nd_server := s\<rparr>)
           | Panic \<Rightarrow> (Ok (), n\<lparr>nd_server := s, nd_connections := (nd_connections n)[i := c\<lparr>con_running := False\<rparr>]\<rparr>)
           | _ \<Rightarrow> (Ok (), n\<lparr>nd_server := s, nd_connections := (nd_connections n)[i := c]\<rparr>)))"
| "node_step X E (Forward i sends) n =
     (Ok (), n\<lparr>nd_connections := (nd_connections n)[i := connection_forward sends (nd_connections n ! i)]\<rparr>)"
| "node_step X E (Finish i) n =
     (Ok (), n\<lparr>nd_connections := (nd_connections n)[i := connection_close (nd_connections n ! i)]\<rparr>)"

fun node_run ::
  "'x server_externs_scheme \<Rightarrow> ('b, 'd) BrokerEnv \<Rightarrow> NodeEvent list \<Rightarrow> ('b, 'd) Node \<Rightarrow> (unit, unit, ('b, 'd) Node) op" where
  "node_run X E [] n = (Ok (), n)"
| "node_run X E (e # es) n = op_then (node_step X E e n) (\<lambda>_ n. node_run X E es n)"

text \<open>The messages that connection \<open>i\<close> was sent.\<close>

fun messages_to :: "nat \<Rightarrow> NodeEvent list \<Rightarrow> WsMessage list" where
  "messages_to i [] = []"
| "messages_to i (Receive j clock random sends msg # es) = (if i = j then msg # messages_to i es else messages_to i es)"
| "messages_to i (_ # es) = messages_to i es"

lemma messages_to_append [simp]: "messages_to i (es @ fs) = messages_to i es @ messages_to i fs"
  by (induction es rule: messages_to.induct) auto

lemma node_run_append:
  "node_run X E (es @ fs) n = op_then (node_run X E es n) (\<lambda>_ n. node_run X E fs n)"
proof (induction es arbitrary: n)
  case (Cons e es)
  then show ?case by (cases "node_step X E e n"; cases "fst (node_step X E e n)") auto
qed simp

section \<open>Every connection speaks for its own user\<close>

definition same_start :: "Connection \<Rightarrow> Connection \<Rightarrow> bool" where
  "same_start c c' \<longleftrightarrow> (con_sent c \<noteq> [] \<longrightarrow> con_sent c' \<noteq> [] \<and> hd (con_sent c') = hd (con_sent c))"

lemma same_start_trans: "same_start a b \<Longrightarrow> same_start b c \<Longrightarrow> same_start a c"
  by (auto simp: same_start_def)

lemma same_start_steps [simp]:
  "same_start c c" "same_start c (connection_forward sends c)" "same_start c (connection_close c)"
  "same_start c (c\<lparr>con_running := b\<rparr>)"
  by (auto simp: same_start_def connection_forward_def connection_close_def hd_append split: list.splits)

lemma receive_same_start:
  "connection_receive X E clock random sends m (c, s) = (r, (c', s')) \<Longrightarrow> same_start c c'"
  by (auto simp: same_start_def connection_receive_def Let_def hd_append
      split: prod.splits result.splits option.splits if_splits WsMessage.splits)

definition connection_known ::
  "'x server_externs_scheme \<Rightarrow> ('b, 'd) BrokerEnv \<Rightarrow> WsMessage list \<Rightarrow> ('b, 'd) BrokerServer \<Rightarrow> Connection \<Rightarrow> bool" where
  "connection_known X E msgs s c \<longleftrightarrow> (con_running c \<longrightarrow> (\<exists>ms. connection_run X E ms c s \<and> set ms \<subseteq> set msgs))"

lemma known_others: "connection_known X E msgs s c \<Longrightarrow> set msgs \<subseteq> set msgs' \<Longrightarrow> connection_known X E msgs' s' c"
  unfolding connection_known_def using connection_run.others by blast

lemma tasks_running [simp]:
  "con_running (connection_forward sends c) = con_running c" "con_running (connection_close c) = con_running c"
  by (simp_all add: connection_forward_def connection_close_def split: list.split)

lemma known_tasks:
  "connection_known X E msgs s c \<Longrightarrow> connection_known X E msgs s (connection_forward sends c)"
  "connection_known X E msgs s c \<Longrightarrow> connection_known X E msgs s (connection_close c)"
  "connection_known X E msgs s connection_new" "\<not> con_running c' \<Longrightarrow> connection_known X E msgs s c'"
  unfolding connection_known_def
  using connection_run.forward connection_run.close connection_run.start [of X E s] by (fastforce, fastforce, fastforce, simp)

lemma known_receive:
  assumes "connection_known X E msgs s c"
    "connection_receive X E clock random (sends \<and> \<not> con_closed c) m (c, s) = (Ok (), (c', s'))"
  shows "connection_known X E (msgs @ [m]) s' c'"
proof (cases "con_running c")
  case True
  with assms(1) obtain ms where "connection_run X E ms c s" "set ms \<subseteq> set msgs" by (auto simp: connection_known_def)
  from connection_run.receive [OF this(1) True _ assms(2)] this(2) show ?thesis
    unfolding connection_known_def by (intro impI exI [of _ "ms @ [m]"]) auto
next
  case False
  with assms(2) show ?thesis by (auto simp: connection_receive_def connection_known_def)
qed

lemma connection_receive_no_error: "fst (connection_receive X E clock random sends m cs) \<noteq> Err e"
  by (auto simp: connection_receive_def Let_def split: prod.split result.split option.split WsMessage.split)

definition node_known :: "'x server_externs_scheme \<Rightarrow> ('b, 'd) BrokerEnv \<Rightarrow> NodeEvent list \<Rightarrow> ('b, 'd) Node \<Rightarrow> bool" where
  "node_known X E es n \<longleftrightarrow> (\<forall>i < length (nd_connections n).
     connection_known X E (messages_to i es) (nd_server n) (nd_connections n ! i))"

text \<open>A message of a user that changes the server.\<close>

type_synonym action = "u64 \<times> bytes32 \<times> PubKey \<times> BrokerMessage"

definition act :: "'x server_externs_scheme \<Rightarrow> ('b, 'd) BrokerEnv \<Rightarrow> action \<Rightarrow> ('b, 'd) BrokerServer \<Rightarrow> ('b, 'd) BrokerServer" where
  "act X E a s = (case a of (clock, random, user, msg) \<Rightarrow> snd (handled X E clock random user msg s))"

text \<open>
  The message was received on a connection on which the user had signed the nonce with which the node had opened
  the authentication.
\<close>

definition justified :: "'x server_externs_scheme \<Rightarrow> NodeEvent list \<Rightarrow> ('b, 'd) Node \<Rightarrow> action \<Rightarrow> bool" where
  "justified X es n a \<longleftrightarrow> (case a of (clock, random, user, msg) \<Rightarrow>
     \<exists>i nonce sends frame. i < length (nd_connections n) \<and> Receive i clock random sends (WsBinary frame) \<in> set es
       \<and> de_broker_message X frame = Some msg \<and> con_sent (nd_connections n ! i) \<noteq> []
       \<and> hd (con_sent (nd_connections n ! i)) = ser_server_hello X (ServerHello.V0 \<lparr>sh_nonce = bytes_of nonce\<rparr>)
       \<and> proven X nonce (frames_of (messages_to i es)) user)"

definition node_extends :: "('b, 'd) Node \<Rightarrow> ('b, 'd) Node \<Rightarrow> bool" where
  "node_extends n n' \<longleftrightarrow> length (nd_connections n) \<le> length (nd_connections n')
     \<and> (\<forall>i < length (nd_connections n). same_start (nd_connections n ! i) (nd_connections n' ! i))"

lemma frames_of_set: "f \<in> set (frames_of ms) \<longleftrightarrow> WsBinary f \<in> set ms"
  by (induction ms rule: frames_of.induct) auto

lemma proven_mono: "proven X nonce fs user \<Longrightarrow> set fs \<subseteq> set gs \<Longrightarrow> proven X nonce gs user"
  unfolding proven_def by blast

lemma proven_received: "proven X nonce (frames_of ms) user \<Longrightarrow> set ms \<subseteq> set ms' \<Longrightarrow> proven X nonce (frames_of ms') user"
  by (erule proven_mono) (auto simp: frames_of_set)

lemma justified_later:
  assumes "justified X es n a" "node_extends n n'"
  shows "justified X (es @ fs) n' a"
proof -
  obtain clock random user msg where a: "a = (clock, random, user, msg)" by (metis prod_cases4)
  from assms(1) obtain i nonce sends frame where
    i: "i < length (nd_connections n)" "Receive i clock random sends (WsBinary frame) \<in> set es" "de_broker_message X frame = Some msg"
      "con_sent (nd_connections n ! i) \<noteq> []"
      "hd (con_sent (nd_connections n ! i)) = ser_server_hello X (ServerHello.V0 \<lparr>sh_nonce = bytes_of nonce\<rparr>)"
      "proven X nonce (frames_of (messages_to i es)) user" by (auto simp: justified_def a)
  have "proven X nonce (frames_of (messages_to i (es @ fs))) user" by (rule proven_received [OF i(6)]) simp
  moreover from assms(2) i(1) have "i < length (nd_connections n')" "same_start (nd_connections n ! i) (nd_connections n' ! i)"
    by (auto simp: node_extends_def)
  ultimately show ?thesis unfolding justified_def a prod.case
    using i(2-5) by (intro exI [of _ i] exI [of _ nonce] exI [of _ sends] exI [of _ frame]) (simp add: same_start_def)
qed

lemma node_extends_refl [simp]: "node_extends n n"
  by (simp add: node_extends_def)

lemma node_extends_trans: "node_extends a b \<Longrightarrow> node_extends b c \<Longrightarrow> node_extends a c"
  unfolding node_extends_def by (meson order.trans order.strict_trans2 same_start_trans)

lemma nth_update_in: "j < length xs \<Longrightarrow> xs[i := x] ! j = (if i = j then x else xs ! j)"
  by (cases "i = j") simp_all

lemma node_extends_update:
  "same_start (nd_connections n ! i) c \<Longrightarrow> node_extends n (n\<lparr>nd_server := s, nd_connections := (nd_connections n)[i := c]\<rparr>)"
  by (auto simp: node_extends_def nth_update_in)

text \<open>What one event does to the server and to the other connections.\<close>

definition node_effect ::
  "'x server_externs_scheme \<Rightarrow> ('b, 'd) BrokerEnv \<Rightarrow> NodeEvent list \<Rightarrow> ('b, 'd) Node \<Rightarrow> ('b, 'd) Node \<Rightarrow> bool" where
  "node_effect X E es n n' \<longleftrightarrow> node_known X E es n' \<and> node_extends n n'
     \<and> (nd_server n' = nd_server n \<or> (\<exists>a. nd_server n' = act X E a (nd_server n) \<and> justified X es n' a))"

lemma node_known_update:
  assumes "node_known X E es n" "i < length (nd_connections n) \<Longrightarrow> connection_known X E (messages_to i (es @ [e])) s c"
  shows "node_known X E (es @ [e]) (n\<lparr>nd_server := s, nd_connections := (nd_connections n)[i := c]\<rparr>)"
  using assms by (auto simp: node_known_def nth_update_in intro: known_others)

lemma task_effect:
  assumes known: "node_known X E es n" and c: "same_start (nd_connections n ! i) c"
    "\<And>msgs. connection_known X E msgs (nd_server n) (nd_connections n ! i) \<Longrightarrow> connection_known X E msgs (nd_server n) c"
  shows "node_effect X E (es @ [e]) n (n\<lparr>nd_connections := (nd_connections n)[i := c]\<rparr>)"
proof -
  have n: "n\<lparr>nd_connections := (nd_connections n)[i := c]\<rparr> = n\<lparr>nd_server := nd_server n, nd_connections := (nd_connections n)[i := c]\<rparr>" by simp
  have "connection_known X E (messages_to i (es @ [e])) (nd_server n) c" if "i < length (nd_connections n)"
    using known that by (intro c(2)) (auto simp: node_known_def intro: known_others)
  from node_known_update [OF known this] node_extends_update [OF c(1), of "nd_server n"] show ?thesis unfolding node_effect_def n by simp
qed

lemma receive_effect:
  assumes known: "node_known X E es n" and i: "i < length (nd_connections n)"
    and recv: "connection_receive X E clock random (sends \<and> \<not> con_closed (nd_connections n ! i)) m (nd_connections n ! i, nd_server n) = (r, (c', s'))"
    and c: "c'' = c' \<and> r = Ok () \<or> c'' = c'\<lparr>con_running := False\<rparr>"
  shows "node_effect X E (es @ [Receive i clock random sends m]) n
    (n\<lparr>nd_server := s', nd_connections := (nd_connections n)[i := c'']\<rparr>)"
proof -
  let ?c = "nd_connections n ! i" and ?n = "n\<lparr>nd_server := s', nd_connections := (nd_connections n)[i := c'']\<rparr>"
  let ?es = "es @ [Receive i clock random sends m]"
  from known i have ck: "connection_known X E (messages_to i es) (nd_server n) ?c" by (simp add: node_known_def)
  have "connection_known X E (messages_to i ?es) s' c''"
    using c known_receive [OF ck] recv by (auto intro: known_tasks(4))
  then have "node_known X E ?es ?n" by (rule node_known_update [OF known])
  moreover have start: "same_start ?c c''"
    using receive_same_start [OF recv] c by (auto intro: same_start_trans [OF _ same_start_steps(4)])
  then have "node_extends n ?n" by (rule node_extends_update)
  moreover have "\<exists>a. s' = act X E a (nd_server n) \<and> justified X ?es ?n a" if new: "s' \<noteq> nd_server n"
  proof -
    from recv new obtain frame where run: "con_running ?c" and frame: "m = WsBinary frame"
      by (cases m) (auto simp: connection_receive_def split: if_splits)
    from ck run obtain ms where ms: "connection_run X E ms ?c (nd_server n)" "set ms \<subseteq> set (messages_to i es)"
      by (auto simp: connection_known_def)
    from receive_acts_for_user [OF ms(1) run recv [unfolded frame] new] obtain nonce user msg where
      u: "con_sent ?c \<noteq> []" "hd (con_sent ?c) = ser_server_hello X (ServerHello.V0 \<lparr>sh_nonce = bytes_of nonce\<rparr>)"
        "proven X nonce (frames_of ms) user" "de_broker_message X frame = Some msg"
        "s' = snd (handled X E clock random user msg (nd_server n))" by blast
    have "proven X nonce (frames_of (messages_to i ?es)) user" by (rule proven_received [OF u(3)]) (use ms(2) in auto)
    with u start i frame have "justified X ?es ?n (clock, random, user, msg)"
      unfolding justified_def prod.case
      by (intro exI [of _ i] exI [of _ nonce] exI [of _ sends] exI [of _ frame]) (simp add: same_start_def)
    with u(5) show ?thesis by (intro exI [of _ "(clock, random, user, msg)"]) (simp add: act_def)
  qed
  ultimately show ?thesis unfolding node_effect_def by auto
qed

lemma node_step_effect:
  assumes known: "node_known X E es n" and step: "node_step X E e n = (Ok (), n')"
  shows "node_effect X E (es @ [e]) n n'"
proof (cases e)
  case Accept
  with step have n': "n' = n\<lparr>nd_connections := nd_connections n @ [connection_new]\<rparr>" by simp
  have "node_known X E (es @ [e]) n'" unfolding n' node_known_def
    using known Accept by (auto simp: node_known_def nth_append less_Suc_eq intro: known_tasks known_others)
  moreover have "node_extends n n'" by (simp add: n' node_extends_def nth_append)
  ultimately show ?thesis by (simp add: node_effect_def n')
next
  case (Receive i clock random sends m)
  show ?thesis
  proof (cases "i < length (nd_connections n)")
    case True
    obtain r c' s' where recv: "connection_receive X E clock random (sends \<and> \<not> con_closed (nd_connections n ! i)) m
        (nd_connections n ! i, nd_server n) = (r, (c', s'))" by (metis prod_cases3)
    from connection_receive_no_error recv have "\<And>e. r \<noteq> Err e" by (metis fst_conv)
    with step Receive True recv obtain c'' where c'': "c'' = c' \<and> r = Ok () \<or> c'' = c'\<lparr>con_running := False\<rparr>"
      "n' = n\<lparr>nd_server := s', nd_connections := (nd_connections n)[i := c'']\<rparr>"
      by (cases r) (auto simp: Let_def)
    with receive_effect [OF known True recv c''(1)] Receive show ?thesis by simp
  next
    case False
    with step Receive known show ?thesis by (auto simp: node_effect_def node_known_def intro: known_others)
  qed
next
  case (Forward i sends)
  with step task_effect [OF known, of i "connection_forward sends (nd_connections n ! i)" e] show ?thesis
    by (auto intro: known_tasks)
next
  case (Finish i)
  with step task_effect [OF known, of i "connection_close (nd_connections n ! i)" e] show ?thesis
    by (auto intro: known_tasks)
qed

lemma node_run_sequential:
  assumes "nd_connections n0 = []" "node_run X E es n0 = (Ok (), n)"
  shows "node_known X E es n \<and> (\<exists>acts. nd_server n = fold (act X E) acts (nd_server n0) \<and> (\<forall>a \<in> set acts. justified X es n a))"
  using assms(2)
proof (induction es arbitrary: n rule: rev_induct)
  case Nil
  with assms(1) show ?case by (auto simp: node_known_def intro: exI [of _ "[]"])
next
  case (snoc e es)
  from snoc.prems obtain n1 where n1: "node_run X E es n0 = (Ok (), n1)" "node_step X E e n1 = (Ok (), n)"
    by (auto simp: node_run_append res_simps)
  from snoc.IH [OF n1(1)] obtain acts where known: "node_known X E es n1"
    and acts: "nd_server n1 = fold (act X E) acts (nd_server n0)" "\<forall>a \<in> set acts. justified X es n1 a" by blast
  from node_step_effect [OF known n1(2)] have eff: "node_known X E (es @ [e]) n" "node_extends n1 n"
    "nd_server n = nd_server n1 \<or> (\<exists>a. nd_server n = act X E a (nd_server n1) \<and> justified X (es @ [e]) n a)"
    by (auto simp: node_effect_def)
  from acts(2) eff(2) have old: "\<forall>a \<in> set acts. justified X (es @ [e]) n a" by (blast intro: justified_later)
  from eff(3) show ?case
  proof
    assume "nd_server n = nd_server n1"
    with eff(1) acts(1) old show ?thesis by auto
  next
    assume "\<exists>a. nd_server n = act X E a (nd_server n1) \<and> justified X (es @ [e]) n a"
    then obtain a where "nd_server n = act X E a (nd_server n1)" "justified X (es @ [e]) n a" by blast
    with eff(1) acts(1) old show ?thesis by (intro conjI exI [of _ "acts @ [a]"]) auto
  qed
qed

section \<open>Starting the server\<close>

text \<open>A server is started on the property store and the environments of another one, if the mode is the stored one.\<close>

lemma broker_new_serves:
  assumes env: "lawful_env X E L" and rel: "spec_rel X E L s w" and mode: "sw_mode (sp_view w) \<in> {None, Some Local}"
  shows "\<exists>s' st. broker_new X E (srv_store s) Local (srv_disk s) = (Ok s', st)
    \<and> spec_rel X E L s' (w\<lparr>sp_view := (sp_view w)\<lparr>sw_mode := Some Local\<rparr>\<rparr>)"
proof -
  have nc: "net_codec X" "be_store E = lmdb_broker (el_rkv L)" using env by (auto simp: lawful_env_def)
  from rel have inv: "server_invar X E L s (sp_view w)" and blocks: "sp_blocks w = (\<lambda>p. blocks_in X L (srv_disk s (Repo p)))"
    by (auto simp: spec_rel_def)
  note I = server_invarD [OF inv] and V = holds_viewD [OF server_invarD(1) [OF inv]]
  let ?W = "(sp_view w)\<lparr>sw_mode := Some Local\<rparr>"
  have vals: "el_vals L (srv_store s) (mode_prop X) = ser_config_mode X ` set_option (sw_mode (sp_view w))"
    using server_relD(5) [OF V(2)] by (simp add: mode_rel_def)
  have "\<exists>st. config_get_or_create X (be_store E) Local (srv_store s) = (Ok (), st) \<and> lmdb_ok (el_rkv L) (el_good L) (el_vals L) st
    \<and> el_vals L st (mode_prop X) = {ser_config_mode X Local} \<and> server_rel X (el_vals L st) ?W"
  proof (cases "sw_mode (sp_view w)")
    case None
    with vals have "el_vals L (srv_store s) (mode_prop X) = {}" by simp
    from lmdb.config_get_or_create_new [OF nc(1) V(1) this, of Local] obtain st where
      st: "config_get_or_create X (be_store E) Local (srv_store s) = (Ok (), st)" "lmdb_ok (el_rkv L) (el_good L) (el_vals L) st"
        "el_vals L st = (el_vals L (srv_store s))(mode_prop X := {ser_config_mode X Local})" using nc(2) by auto
    have "server_rel X (el_vals L st) ?W" by (rule server_rel_update(5) [OF V(2) _ refl]) (simp_all add: st(3) mode_rel_def)
    with st show ?thesis by auto
  next
    case (Some m)
    with mode have m: "sw_mode (sp_view w) = Some Local" by simp
    with vals have old: "el_vals L (srv_store s) (mode_prop X) = {ser_config_mode X Local}" by simp
    from m have "?W = sp_view w" by (cases "sp_view w") simp
    with lmdb.config_get_or_create_old(1) [OF nc(1) V(1) old, of Local] V old nc(2) show ?thesis by auto
  qed
  then obtain st where st: "config_get_or_create X (be_store E) Local (srv_store s) = (Ok (), st)" "lmdb_ok (el_rkv L) (el_good L) (el_vals L) st"
    "el_vals L st (mode_prop X) = {ser_config_mode X Local}" "server_rel X (el_vals L st) ?W" by blast
  let ?s = "\<lparr>srv_store = st, srv_mode = Local, srv_repo_stores = {}, srv_stores_poisoned = False,
      srv_overlayid_to_repostore = Map.empty, srv_overlays_poisoned = False, srv_disk = srv_disk s\<rparr>"
  have "broker_new X E (srv_store s) Local (srv_disk s) = (Ok ?s, st)"
    using st(1) lmdb.config_get_or_create_old(2) [OF nc(1) st(2,3)] nc(2) by (simp add: broker_new_def)
  moreover have "server_invar X E L ?s ?W"
    using I(5,6) st(2,4) by (auto simp: server_invar_def holds_view_def overlays_keyed_def)
  ultimately show ?thesis using blocks by (intro exI [of _ ?s] exI [of _ st]) (simp add: spec_rel_def)
qed

lemma broker_new_other_mode:
  assumes env: "lawful_env X E L" and rel: "spec_rel X E L s w" and mode: "sw_mode (sp_view w) = Some m" "mode \<noteq> m"
  shows "broker_new X E (srv_store s) mode (srv_disk s) = (Err (broker_error_of_storage StorageError.InvalidValue), srv_store s)"
proof -
  have nc: "net_codec X" "be_store E = lmdb_broker (el_rkv L)" using env by (auto simp: lawful_env_def)
  from rel have "server_invar X E L s (sp_view w)" by (simp add: spec_rel_def)
  note V = holds_viewD [OF server_invarD(1) [OF this]]
  have "el_vals L (srv_store s) (mode_prop X) = {ser_config_mode X m}"
    using server_relD(5) [OF V(2)] mode(1) by (simp add: mode_rel_def)
  from lmdb.config_get_or_create_old(1) [OF nc(1) V(1) this, of mode] mode(2) nc(2) show ?thesis by (simp add: broker_new_def)
qed

lemma spec_call_mode: "sw_mode (sp_view (snd (spec_call X n c w))) = sw_mode (sp_view w)"
  by (cases c) (auto simp: add_user_spec_def join_spec_def create_overlay_spec_def add_peers_spec_def Let_def case_prod_beta split: result.splits option.splits)

lemma spec_calls_mode: "sw_mode (sp_view (snd (answers (spec_call X n) cs w))) = sw_mode (sp_view w)"
  by (induction cs arbitrary: w) (simp_all add: Let_def case_prod_beta spec_call_mode)

text \<open>Nothing stored yet, on environments that can be opened with any key.\<close>

definition fresh :: "'x server_externs_scheme \<Rightarrow> ('b, 'd) BrokerEnv \<Rightarrow> ('b, 'd) EnvLaws \<Rightarrow> 'b \<Rightarrow> (RepoStoreId \<Rightarrow> 'd) \<Rightarrow> bool" where
  "fresh X E L store disk \<longleftrightarrow> lmdb_ok (el_rkv L) (el_good L) (el_vals L) store \<and> (\<forall>k. el_vals L store k = {})
     \<and> (\<forall>sid k. stored X E L k (disk sid)) \<and> (\<forall>sid. blocks_in X L (disk sid) = Map.empty)"

abbreviation "started_spec \<equiv> \<lparr>sp_view = empty_view\<lparr>sw_mode := Some Local\<rparr>, sp_blocks = (\<lambda>_. Map.empty)\<rparr>"

lemma empty_server_rel: "(\<And>k. v k = {}) \<Longrightarrow> server_rel X v empty_view"
  by (simp add: server_rel_def account_rel_def peer_rel_def overlay_rel_def key_rel_def mode_rel_def empty_view_def no_account_def)

lemma fresh_server:
  assumes env: "lawful_env X E L" and fresh: "fresh X E L store disk"
  shows "\<exists>s st. broker_new X E store Local disk = (Ok s, st) \<and> spec_rel X E L s started_spec"
proof -
  let ?s = "\<lparr>srv_store = store, srv_mode = Local, srv_repo_stores = {}, srv_stores_poisoned = False,
      srv_overlayid_to_repostore = Map.empty, srv_overlays_poisoned = False, srv_disk = disk\<rparr>"
  have "spec_rel X E L ?s \<lparr>sp_view = empty_view, sp_blocks = (\<lambda>_. Map.empty)\<rparr>"
    using fresh empty_server_rel [of "el_vals L store" X]
    by (auto simp: fresh_def spec_rel_def server_invar_def holds_view_def overlays_keyed_def) (simp add: empty_view_def)
  from broker_new_serves [OF env this] show ?thesis by (simp add: empty_view_def)
qed

lemma actions_keep_invar:
  assumes env: "lawful_env X E L" and inv: "server_invar X E L s W"
    and acts: "\<forall>(clock, random, user, msg) \<in> set acts. clock_ok clock \<and> message_ok X msg"
  shows "\<exists>W. server_invar X E L (fold (act X E) acts s) W"
  using inv acts
proof (induction acts arbitrary: s W)
  case (Cons a acts)
  obtain clock random user msg where a: "a = (clock, random, user, msg)" by (metis prod_cases4)
  with Cons.prems(2) have "clock_ok clock" "message_ok X msg" by auto
  from handle_incoming_serving [OF env Cons.prems(1) this, of random user] obtain W' where
    "server_invar X E L (act X E a s) W'" by (auto simp: act_def a)
  from Cons.IH [OF this] Cons.prems(2) show ?case by simp
qed auto

section \<open>Properties\<close>



text \<open>
  C19. Nothing is lost when the node is started again: after any calls to a server that was started on an empty store, a server
  on the property store and the environments it has left starts, with no store opened, and answers every
  sequence of calls as the first one would have gone on to do; started in the mode \<open>Core\<close> it is refused.
\<close>

theorem restart_keeps_repositories:
  assumes env: "lawful_env X E L" and fresh: "fresh X E L store disk"
    and start: "broker_new X E store Local disk = (Ok s0, st0)"
    and ok: "\<forall>c \<in> set (before @ later). call_ok X c"
    and calls: "answers (server_call X E) before s0 = (replies, s)"
  shows "(\<exists>s' st. broker_new X E (srv_store s) Local (srv_disk s) = (Ok s', st)
      \<and> srv_repo_stores s' = {} \<and> srv_overlayid_to_repostore s' = Map.empty
      \<and> fst (answers (server_call X E) later s') = fst (answers (server_call X E) later s))
    \<and> fst (broker_new X E (srv_store s) Core (srv_disk s)) = Err (broker_error_of_storage StorageError.InvalidValue)"
proof -
  let ?w = "snd (answers (spec_call X (be_fuel E)) before started_spec)"
  from fresh_server [OF env fresh] start have "spec_rel X E L s0 started_spec" by simp
  from calls_follow [OF env this, of before] ok calls have rel: "spec_rel X E L s ?w" by auto
  have mode: "sw_mode (sp_view ?w) = Some Local" by (simp add: spec_calls_mode)
  then have w: "?w\<lparr>sp_view := (sp_view ?w)\<lparr>sw_mode := Some Local\<rparr>\<rparr> = ?w" by (cases ?w; cases "sp_view ?w") simp
  from broker_new_serves [OF env rel] mode obtain s' st where
    s': "broker_new X E (srv_store s) Local (srv_disk s) = (Ok s', st)" "spec_rel X E L s' ?w" using w by auto
  from s'(1) have "srv_repo_stores s' = {} \<and> srv_overlayid_to_repostore s' = Map.empty"
    by (auto simp: broker_new_def res_simps)
  with s' calls_follow [OF env s'(2), of later] calls_follow [OF env rel, of later] ok
    broker_new_other_mode [OF env rel mode, of Core] show ?thesis by auto
qed

section \<open>Witnesses\<close>

text \<open>A connection is accepted, the demo user authenticates on it and adds the user with key 2.\<close>

definition demo_events :: "NodeEvent list" where
  "demo_events = Accept # map (\<lambda>f. Receive 0 1700000000 (fill32 9) True (WsBinary f)) [[1], [2], [3, 0]]"

abbreviation "demo_node_server \<equiv> demo_server [add_user_message]"

lemma demo_fresh: "fresh (demo_server msgs) demo_broker_env demo_laws (\<lambda>_. []) (\<lambda>_. demo_empty)"
  by (auto simp: fresh_def) (simp_all add: demo_laws_def list_vals_def demo_empty_def lmdb_abs_def fun_eq_iff)

lemma demo_node_run:
  "\<exists>n0 n. run_server demo_node_server demo_broker_env (\<lambda>_. []) (\<lambda>_. demo_empty) = Ok n0
    \<and> node_run demo_node_server demo_broker_env demo_events n0 = (Ok (), n) \<and> nd_server n \<noteq> nd_server n0"
proof -
  let ?X = demo_node_server and ?sig = "demo_sign (fst pubkey_codec demo_user)"
  from fresh_server [OF demo_lawful demo_fresh] obtain s st where
    s: "broker_new ?X demo_broker_env (\<lambda>_. []) Local (\<lambda>_. demo_empty) = (Ok s, st)" "spec_rel ?X demo_broker_env demo_laws s started_spec" by blast
  from demo_receives [of "[add_user_message]" 1700000000 s] obtain c1 c2 where
    c1: "connection_receive ?X demo_broker_env 1700000000 (fill32 9) True (WsBinary [1]) (connection_new, s) = (Ok (), (c1, s))"
      "con_running c1" "\<not> con_closed c1"
    and c2: "connection_receive ?X demo_broker_env 1700000000 (fill32 9) True (WsBinary [2]) (c1, s) = (Ok (), (c2, s))"
      "con_running c2" "\<not> con_closed c2" "con_handler c2 = \<lparr>ph_protocol = Broker, ph_auth_protocol = None,
         ph_broker_protocol = Some demo_pubkey, ph_ext_protocol = False\<rparr>" by blast
  from add_user_serves [OF demo_lawful, of _ s "sp_view started_spec" demo_pubkey demo_user ?sig] s(2) obtain st' where
    st': "add_user ?X demo_broker_env demo_pubkey demo_user ?sig s = (Ok (), s\<lparr>srv_store := st'\<rparr>)"
      "server_invar ?X demo_broker_env demo_laws (s\<lparr>srv_store := st'\<rparr>) (snd (add_user_spec ?X demo_pubkey demo_user ?sig (sp_view started_spec)))"
    by (auto simp: spec_rel_def add_user_spec_def verify_demo_sign empty_view_def no_account_def)
  obtain c3 where "connection_receive ?X demo_broker_env 1700000000 (fill32 9) True (WsBinary [3, 0]) (c2, s) = (Ok (), (c3, s\<lparr>srv_store := st'\<rparr>))"
    using c2(2-4) st'(1) by (simp add: connection_receive_def protocol_handle_incoming_def protocol_broker_def
        broker_handle_incoming_def handle_broker_request_def Let_def add_user_message_def)
  moreover have "\<not> con_closed connection_new" by (simp add: connection_new_def)
  ultimately have run: "node_run ?X demo_broker_env demo_events \<lparr>nd_server = s, nd_connections = []\<rparr>
      = (Ok (), \<lparr>nd_server = s\<lparr>srv_store := st'\<rparr>, nd_connections = [c3]\<rparr>)"
    using c1 c2 by (simp add: demo_events_def Let_def)
  have "s\<lparr>srv_store := st'\<rparr> \<noteq> s"
  proof
    assume same: "s\<lparr>srv_store := st'\<rparr> = s"
    let ?q = "compute_property ACCOUNT_PREFIX (ser_pubkey ?X demo_user) (Some ACCOUNT_ADMIN)"
    have "el_vals demo_laws (srv_store s) ?q = {}"
      using account_relD(1) [OF server_relD(1) [OF holds_viewD(2) [OF server_invarD(1)]], of ?X demo_broker_env demo_laws s "sp_view started_spec" demo_user] s(2)
      by (simp add: spec_rel_def empty_view_def no_account_def)
    moreover have "el_vals demo_laws (srv_store (s\<lparr>srv_store := st'\<rparr>)) ?q \<noteq> {}"
      using account_relD(1) [OF server_relD(1) [OF holds_viewD(2) [OF server_invarD(1) [OF st'(2)]]], of demo_user]
      by (simp add: add_user_spec_def verify_demo_sign empty_view_def no_account_def)
    ultimately show False using same by simp
  qed
  with run s(1) show ?thesis by (simp add: run_server_def)
qed



theorem restart_keeps_repositories_witness:
  "\<exists>(s :: (demo_db, demo_env) BrokerServer) s' st. broker_new (demo_server []) demo_broker_env (srv_store s) Local (srv_disk s) = (Ok s', st)
    \<and> fst (answers (server_call (demo_server []) demo_broker_env)
        [CallOverlay 1700000000 demo_user (demo_id 1) (OvGetObject (block_id (demo_server []) demo_block) None)] s') = [Ok (Sent [(block_id (demo_server []) demo_block, demo_block)])]"
proof -
  let ?X = "demo_server []" and ?b = demo_block
  let ?before = "demo_calls @ [CallOverlay 1700000000 demo_user (demo_id 1) (OvPut ?b)]" and ?later = "[CallOverlay 1700000000 demo_user (demo_id 1) (OvGetObject (block_id ?X ?b) None)]"
  from fresh_server [OF demo_lawful demo_fresh, of "[]"] obtain s0 st0 where
    s0: "broker_new ?X demo_broker_env (\<lambda>_. []) Local (\<lambda>_. demo_empty) = (Ok s0, st0)" "spec_rel ?X demo_broker_env demo_laws s0 started_spec" by blast
  have ok: "\<forall>c \<in> set (?before @ ?later). call_ok ?X c"
    using demo_calls_ok by (auto simp: call_ok_def some_clock demo_block_def honest_def)
  have plain: "plain ?b = ?b" by (simp add: demo_block_def)
  let ?w = "snd (answers (spec_call ?X 5) ?before started_spec)"
  have spec: "fst (answers (spec_call ?X 5) ?later ?w) = [Ok (Sent [(block_id ?X ?b, ?b)])]"
    by (simp add: demo_calls_def add_user_spec_def verify_demo_sign join_spec_def create_overlay_spec_def add_peers_spec_def
        Let_def empty_view_def no_account_def repo_at_def plain demo_block_loads)
  from calls_follow [OF demo_lawful s0(2), of ?before] ok obtain s replies where
    s: "answers (server_call ?X demo_broker_env) ?before s0 = (replies, s)" "spec_rel ?X demo_broker_env demo_laws s ?w" by auto
  from calls_follow [OF demo_lawful s(2), of ?later] ok spec have "fst (answers (server_call ?X demo_broker_env) ?later s) = [Ok (Sent [(block_id ?X ?b, ?b)])]" by auto
  moreover from restart_keeps_repositories [OF demo_lawful demo_fresh s0(1) ok s(1)] obtain s' st where
    "broker_new ?X demo_broker_env (srv_store s) Local (srv_disk s) = (Ok s', st)"
    "fst (answers (server_call ?X demo_broker_env) ?later s') = fst (answers (server_call ?X demo_broker_env) ?later s)" by blast
  ultimately show ?thesis by (intro exI [of _ s] exI [of _ s'] exI [of _ st]) simp
qed

end
