(* ===== verification/Lofire_Wire.thy ===== *)
theory Lofire_Wire
  imports Lofire_Remote_Props
begin

text \<open>
  A serializer that carries every message of the broker protocol, for the witnesses: the fields of a message are
  collected in one record, which is written with the codecs of \<open>Lofire_Net_Instance\<close>.
\<close>

section \<open>The fields of a message\<close>

record Parts =
  pt_tag :: u8
  pt_ids :: "Digest list"
  pt_known :: "Digest list"
  pt_keys :: "PubKey list"
  pt_secrets :: "SymKey list"
  pt_sigs :: "Sig list"
  pt_nums :: "u32 list"
  pt_bytes :: bytes
  pt_hashes :: "bytes32 list"
  pt_flag :: bool
  pt_adverts :: "PeerAdvert list"
  pt_blocks :: "(BlockId list \<times> ObjectDeps \<times> Timestamp option \<times> bytes) list"

definition no_parts :: "u8 \<Rightarrow> Parts" where
  "no_parts t = \<lparr>pt_tag = t, pt_ids = [], pt_known = [], pt_keys = [], pt_secrets = [], pt_sigs = [], pt_nums = [], pt_bytes = [],
     pt_hashes = [], pt_flag = False, pt_adverts = [], pt_blocks = []\<rparr>"

definition parts_codec :: "Parts codec" where
  "parts_codec = map_codec
     (\<lambda>p. (pt_tag p, pt_ids p, pt_known p, pt_keys p, pt_secrets p, pt_sigs p, pt_nums p, pt_bytes p, pt_hashes p, pt_flag p, pt_adverts p, pt_blocks p))
     (\<lambda>(t, i, kn, k, s, g, n, b, h, f, a, bl). \<lparr>pt_tag = t, pt_ids = i, pt_known = kn, pt_keys = k, pt_secrets = s, pt_sigs = g, pt_nums = n, pt_bytes = b,
        pt_hashes = h, pt_flag = f, pt_adverts = a, pt_blocks = bl\<rparr>)
     (pair_codec byte_codec (pair_codec (list_codec digest_codec) (pair_codec (list_codec digest_codec) (pair_codec (list_codec pubkey_codec)
       (pair_codec (list_codec symkey_codec) (pair_codec (list_codec sig_codec) (pair_codec (list_codec word_codec) (pair_codec (list_codec byte_codec)
       (pair_codec (list_codec bytes32_codec) (pair_codec bool_codec (pair_codec (list_codec advert_codec) (list_codec block_fields_codec))))))))))))"

lemma good_parts: "good_codec parts_codec"
  unfolding parts_codec_def
  by (intro good_map good_pair good_list good_byte good_keys good_word good_bytes32 good_bool good_advert good_block_fields) simp

definition first :: "'a list \<Rightarrow> 'a option" where
  "first xs = (case xs of [] \<Rightarrow> None | x # _ \<Rightarrow> Some x)"

definition at_most :: "'a option \<Rightarrow> 'a list" where
  "at_most x = (case x of None \<Rightarrow> [] | Some a \<Rightarrow> [a])"

lemma first_at_most [simp]: "first (at_most x) = x" "first [] = None" "first (y # ys) = Some y"
  by (simp_all add: first_def at_most_def split: option.split)

section \<open>Requests, responses and events\<close>

fun event_out :: "u8 \<Rightarrow> Event \<Rightarrow> Parts" where
  "event_out t (Event.V0 e) = (no_parts t)\<lparr>pt_keys := [evc_topic (ev_content e)], pt_hashes := [evc_publisher (ev_content e)],
     pt_nums := [evc_seq (ev_content e)], pt_flag := (evc_body (ev_content e) = EventBodyV0.SubAck), pt_sigs := [ev_sig e]\<rparr>"

definition event_in :: "Parts \<Rightarrow> Event" where
  "event_in p = Event.V0 \<lparr>ev_content = \<lparr>evc_topic = hd (pt_keys p), evc_publisher = hd (pt_hashes p), evc_seq = hd (pt_nums p),
     evc_body = (if pt_flag p then EventBodyV0.SubAck else EventBodyV0.Change)\<rparr>, ev_sig = hd (pt_sigs p)\<rparr>"

lemma event_in_out [simp]: "event_in (event_out t e) = e" "pt_tag (event_out t e) = t"
  by (cases e; auto simp: event_in_def no_parts_def intro: EventBodyV0.exhaust)+

fun request_out :: "BrokerOverlayRequestContentV0 \<Rightarrow> Parts" where
  "request_out (BrokerOverlayRequestContentV0.OverlayConnect OverlayConnect.V0) = no_parts 0"
| "request_out (BrokerOverlayRequestContentV0.OverlayStatusReq OverlayStatusReq.V0) = no_parts 1"
| "request_out (BrokerOverlayRequestContentV0.OverlayJoin (OverlayJoin.V0 j)) =
     (no_parts 2)\<lparr>pt_secrets := [oj_secret j], pt_keys := at_most (oj_repo_pubkey j), pt_adverts := oj_peers j\<rparr>"
| "request_out (BrokerOverlayRequestContentV0.OverlayLeave OverlayLeave.V0) = no_parts 3"
| "request_out (BrokerOverlayRequestContentV0.TopicSub (TopicSub.V0 t)) = (case tsu_advert t of
       None \<Rightarrow> (no_parts 4)\<lparr>pt_keys := [tsu_topic t]\<rparr>
     | Some (TopicAdvert.V0 a) \<Rightarrow> (no_parts 4)\<lparr>pt_keys := [tsu_topic t, tac_topic (tad_content a), tac_peer (tad_content a)], pt_sigs := [tad_sig a]\<rparr>)"
| "request_out (BrokerOverlayRequestContentV0.TopicUnsub (TopicUnsub.V0 t)) = (no_parts 5)\<lparr>pt_keys := [tun_topic t]\<rparr>"
| "request_out (BrokerOverlayRequestContentV0.TopicConnect (TopicConnect.V0 t)) = (no_parts 6)\<lparr>pt_keys := [tco_topic t]\<rparr>"
| "request_out (BrokerOverlayRequestContentV0.TopicDisconnect (TopicDisconnect.V0 t)) = (no_parts 7)\<lparr>pt_keys := [tdi_topic t]\<rparr>"
| "request_out (BrokerOverlayRequestContentV0.Event e) = event_out 8 e"
| "request_out (BrokerOverlayRequestContentV0.BlockGet (BlockGet.V0 g)) =
     (no_parts 9)\<lparr>pt_ids := [bg_id g], pt_flag := bg_include_children g, pt_keys := at_most (bg_topic g)\<rparr>"
| "request_out (BrokerOverlayRequestContentV0.BlockPut (BlockPut.V0 b)) = (no_parts 10)\<lparr>pt_blocks := [block_fields b]\<rparr>"
| "request_out (BrokerOverlayRequestContentV0.ObjectPin (ObjectPin.V0 r)) = (no_parts 11)\<lparr>pt_ids := [opn_id r]\<rparr>"
| "request_out (BrokerOverlayRequestContentV0.ObjectUnpin (ObjectUnpin.V0 r)) = (no_parts 12)\<lparr>pt_ids := [oun_id r]\<rparr>"
| "request_out (BrokerOverlayRequestContentV0.ObjectCopy (ObjectCopy.V0 r)) = (no_parts 13)\<lparr>pt_ids := [ocp_id r], pt_nums := at_most (ocp_expiry r)\<rparr>"
| "request_out (BrokerOverlayRequestContentV0.ObjectDel (ObjectDel.V0 r)) = (no_parts 14)\<lparr>pt_ids := [odl_id r]\<rparr>"
| "request_out (BrokerOverlayRequestContentV0.BranchHeadsReq (BranchHeadsReq.V0 r)) = (no_parts 15)\<lparr>pt_keys := [bhr_topic r], pt_ids := bhr_known_heads r\<rparr>"
| "request_out (BrokerOverlayRequestContentV0.BranchSyncReq (BranchSyncReq.V0 r)) = (no_parts 16)\<lparr>pt_ids := bsy_heads r, pt_known := bsy_known_heads r,
     pt_nums := [bf_k (bsy_known_commits r)], pt_bytes := bf_f (bsy_known_commits r)\<rparr>"

definition request_in :: "Parts \<Rightarrow> BrokerOverlayRequestContentV0" where
  "request_in p = (let t = pt_tag p; k = hd (pt_keys p); i = hd (pt_ids p) in
     if t = 0 then BrokerOverlayRequestContentV0.OverlayConnect OverlayConnect.V0
     else if t = 1 then BrokerOverlayRequestContentV0.OverlayStatusReq OverlayStatusReq.V0
     else if t = 2 then BrokerOverlayRequestContentV0.OverlayJoin (OverlayJoin.V0
       \<lparr>oj_secret = hd (pt_secrets p), oj_repo_pubkey = first (pt_keys p), oj_peers = pt_adverts p\<rparr>)
     else if t = 3 then BrokerOverlayRequestContentV0.OverlayLeave OverlayLeave.V0
     else if t = 4 then BrokerOverlayRequestContentV0.TopicSub (TopicSub.V0 \<lparr>tsu_topic = k, tsu_advert = (case pt_keys p of
         [_, t, q] \<Rightarrow> Some (TopicAdvert.V0 \<lparr>tad_content = \<lparr>tac_topic = t, tac_peer = q\<rparr>, tad_sig = hd (pt_sigs p)\<rparr>) | _ \<Rightarrow> None)\<rparr>)
     else if t = 5 then BrokerOverlayRequestContentV0.TopicUnsub (TopicUnsub.V0 \<lparr>tun_topic = k\<rparr>)
     else if t = 6 then BrokerOverlayRequestContentV0.TopicConnect (TopicConnect.V0 \<lparr>tco_topic = k\<rparr>)
     else if t = 7 then BrokerOverlayRequestContentV0.TopicDisconnect (TopicDisconnect.V0 \<lparr>tdi_topic = k\<rparr>)
     else if t = 8 then BrokerOverlayRequestContentV0.Event (event_in p)
     else if t = 9 then BrokerOverlayRequestContentV0.BlockGet (BlockGet.V0 \<lparr>bg_id = i, bg_include_children = pt_flag p, bg_topic = first (pt_keys p)\<rparr>)
     else if t = 10 then BrokerOverlayRequestContentV0.BlockPut (BlockPut.V0 (fields_block (hd (pt_blocks p))))
     else if t = 11 then BrokerOverlayRequestContentV0.ObjectPin (ObjectPin.V0 \<lparr>opn_id = i\<rparr>)
     else if t = 12 then BrokerOverlayRequestContentV0.ObjectUnpin (ObjectUnpin.V0 \<lparr>oun_id = i\<rparr>)
     else if t = 13 then BrokerOverlayRequestContentV0.ObjectCopy (ObjectCopy.V0 \<lparr>ocp_id = i, ocp_expiry = first (pt_nums p)\<rparr>)
     else if t = 14 then BrokerOverlayRequestContentV0.ObjectDel (ObjectDel.V0 \<lparr>odl_id = i\<rparr>)
     else if t = 15 then BrokerOverlayRequestContentV0.BranchHeadsReq (BranchHeadsReq.V0 \<lparr>bhr_topic = k, bhr_known_heads = pt_ids p\<rparr>)
     else BrokerOverlayRequestContentV0.BranchSyncReq (BranchSyncReq.V0 \<lparr>bsy_heads = pt_ids p, bsy_known_heads = pt_known p,
       bsy_known_commits = \<lparr>bf_k = hd (pt_nums p), bf_f = pt_bytes p\<rparr>\<rparr>))"

lemma no_parts_simps [simp]:
  "pt_tag (no_parts t) = t" "pt_keys (no_parts t) = []" "pt_ids (no_parts t) = []" "pt_nums (no_parts t) = []" "pt_sigs (no_parts t) = []"
  "pt_blocks (no_parts t) = []" "pt_flag (no_parts t) = False" "pt_adverts (no_parts t) = []"
  by (simp_all add: no_parts_def)

lemma request_in_out [simp]: "request_in (request_out r) = wire_request r"
  by (cases r rule: request_out.cases; simp add: request_in_def Let_def split: option.split TopicAdvert.split)

fun response_out :: "BrokerOverlayResponseContentV0 option \<Rightarrow> Parts" where
  "response_out None = no_parts 0"
| "response_out (Some (BrokerOverlayResponseContentV0.Block b)) = (no_parts 1)\<lparr>pt_blocks := [block_fields b]\<rparr>"
| "response_out (Some (BrokerOverlayResponseContentV0.ObjectId i)) = (no_parts 2)\<lparr>pt_ids := [i]\<rparr>"
| "response_out (Some (BrokerOverlayResponseContentV0.OverlayStatusResp (OverlayStatusResp.V0 r))) =
     (no_parts 3)\<lparr>pt_flag := osr_joined r, pt_adverts := osr_peers r\<rparr>"

definition response_in :: "Parts \<Rightarrow> BrokerOverlayResponseContentV0 option" where
  "response_in p = (if pt_tag p = 0 then None
     else if pt_tag p = 1 then Some (BrokerOverlayResponseContentV0.Block (fields_block (hd (pt_blocks p))))
     else if pt_tag p = 2 then Some (BrokerOverlayResponseContentV0.ObjectId (hd (pt_ids p)))
     else Some (BrokerOverlayResponseContentV0.OverlayStatusResp (OverlayStatusResp.V0 \<lparr>osr_joined = pt_flag p, osr_peers = pt_adverts p\<rparr>)))"

lemma response_in_out [simp]: "response_in (response_out r) = map_option wire_response r"
  by (cases r rule: response_out.cases; simp add: response_in_def)

fun user_out :: "BrokerRequestContentV0 \<Rightarrow> Parts" where
  "user_out (BrokerRequestContentV0.AddUser (AddUser.V0 r)) = (no_parts 0)\<lparr>pt_keys := [auc_user (au_content r)], pt_sigs := [au_sig r]\<rparr>"
| "user_out (BrokerRequestContentV0.DelUser (DelUser.V0 r)) = (no_parts 1)\<lparr>pt_keys := [duc_user (du_content r)], pt_sigs := [du_sig r]\<rparr>"
| "user_out (BrokerRequestContentV0.AddClient (AddClient.V0 r)) = (no_parts 2)\<lparr>pt_keys := [acc_client (ac_content r)], pt_sigs := [ac_sig r]\<rparr>"
| "user_out (BrokerRequestContentV0.DelClient (DelClient.V0 r)) = (no_parts 3)\<lparr>pt_keys := [dcc_client (dc_content r)], pt_sigs := [dc_sig r]\<rparr>"

definition user_in :: "Parts \<Rightarrow> BrokerRequestContentV0" where
  "user_in p = (let k = hd (pt_keys p); s = hd (pt_sigs p) in
     if pt_tag p = 0 then BrokerRequestContentV0.AddUser (AddUser.V0 \<lparr>au_content = \<lparr>auc_user = k\<rparr>, au_sig = s\<rparr>)
     else if pt_tag p = 1 then BrokerRequestContentV0.DelUser (DelUser.V0 \<lparr>du_content = \<lparr>duc_user = k\<rparr>, du_sig = s\<rparr>)
     else if pt_tag p = 2 then BrokerRequestContentV0.AddClient (AddClient.V0 \<lparr>ac_content = \<lparr>acc_client = k\<rparr>, ac_sig = s\<rparr>)
     else BrokerRequestContentV0.DelClient (DelClient.V0 \<lparr>dc_content = \<lparr>dcc_client = k\<rparr>, dc_sig = s\<rparr>))"

lemma user_in_out [simp]: "user_in (user_out r) = r"
  by (cases r rule: user_out.cases; simp add: user_in_def Let_def)

section \<open>Messages\<close>

text \<open>Its kind, its identifier, its result, its overlay, its padding and its fields.\<close>

type_synonym wire_message = "u8 \<times> u64 \<times> u16 \<times> Digest \<times> bytes \<times> Parts"

abbreviation no_overlay :: Digest where
  "no_overlay \<equiv> Blake3Digest32 (fill32 0)"

fun overlay_out :: "BrokerOverlayMessageContentV0 \<Rightarrow> u8 \<times> u64 \<times> u16 \<times> Parts" where
  "overlay_out (BrokerOverlayMessageContentV0.BrokerOverlayRequest (BrokerOverlayRequest.V0 r)) = (3, borq_id r, 0, request_out (borq_content r))"
| "overlay_out (BrokerOverlayMessageContentV0.BrokerOverlayResponse (BrokerOverlayResponse.V0 r)) =
     (4, bors_id r, bors_result r, response_out (bors_content r))"
| "overlay_out (BrokerOverlayMessageContentV0.Event e) = (5, 0, 0, event_out 0 e)"

definition overlay_in :: "u8 \<Rightarrow> u64 \<Rightarrow> u16 \<Rightarrow> Parts \<Rightarrow> BrokerOverlayMessageContentV0" where
  "overlay_in t i r p =
     (if t = 3 then BrokerOverlayMessageContentV0.BrokerOverlayRequest (BrokerOverlayRequest.V0 \<lparr>borq_id = i, borq_content = request_in p\<rparr>)
      else if t = 4 then BrokerOverlayMessageContentV0.BrokerOverlayResponse (BrokerOverlayResponse.V0
        \<lparr>bors_id = i, bors_result = r, bors_content = response_in p\<rparr>)
      else BrokerOverlayMessageContentV0.Event (event_in p))"

fun message_out :: "BrokerMessage \<Rightarrow> wire_message" where
  "message_out BrokerMessage.Close = (0, 0, 0, no_overlay, [], no_parts 0)"
| "message_out (BrokerMessage.V0 m) = (case bm_content m of
       BrokerMessageContentV0.BrokerRequest (BrokerRequest.V0 r) \<Rightarrow> (1, brq_id r, 0, no_overlay, bm_padding m, user_out (brq_content r))
     | BrokerMessageContentV0.BrokerResponse (BrokerResponse.V0 r) \<Rightarrow> (2, brs_id r, brs_result r, no_overlay, bm_padding m, no_parts 0)
     | BrokerMessageContentV0.BrokerOverlayMessage (BrokerOverlayMessage.V0 o') \<Rightarrow>
         (case overlay_out (bom_content o') of (t, i, r, p) \<Rightarrow> (t, i, r, bom_overlay o', bm_padding m, p)))"

fun message_in :: "wire_message \<Rightarrow> BrokerMessage" where
  "message_in (t, i, r, ov, pad, p) =
     (if t = 0 then BrokerMessage.Close
      else BrokerMessage.V0 \<lparr>bm_content =
        (if t = 1 then BrokerMessageContentV0.BrokerRequest (BrokerRequest.V0 \<lparr>brq_id = i, brq_content = user_in p\<rparr>)
         else if t = 2 then BrokerMessageContentV0.BrokerResponse (BrokerResponse.V0 \<lparr>brs_id = i, brs_result = r\<rparr>)
         else BrokerMessageContentV0.BrokerOverlayMessage (BrokerOverlayMessage.V0 \<lparr>bom_overlay = ov, bom_content = overlay_in t i r p\<rparr>)),
        bm_padding = pad\<rparr>)"

lemma overlay_in_out:
  "overlay_out c = (t, i, r, p) \<Longrightarrow> overlay_in t i r p = wire_overlay c \<and> t \<noteq> 0 \<and> t \<noteq> 1 \<and> t \<noteq> 2"
  by (cases c rule: overlay_out.cases) (auto simp: overlay_in_def)

lemma message_in_out: "message_in (message_out m) = on_wire m"
proof (cases m)
  case (V0 m1)
  show ?thesis
  proof (cases "bm_content m1")
    case (BrokerOverlayMessage o')
    obtain o1 where o1: "o' = BrokerOverlayMessage.V0 o1" by (cases o')
    obtain t i r p where t: "overlay_out (bom_content o1) = (t, i, r, p)" by (metis prod_cases4)
    from overlay_in_out [OF t] t V0 BrokerOverlayMessage o1 show ?thesis by simp
  qed (use V0 in \<open>auto split: BrokerRequest.split BrokerResponse.split\<close>)
qed simp

definition message_codec :: "wire_message codec" where
  "message_codec = pair_codec byte_codec (pair_codec word_codec (pair_codec word_codec (pair_codec digest_codec
     (pair_codec (list_codec byte_codec) parts_codec))))"

lemma good_message: "good_codec message_codec"
  unfolding message_codec_def by (intro good_pair good_list good_byte good_keys good_word good_parts)

definition wire_ser :: "BrokerMessage \<Rightarrow> bytes" where
  "wire_ser m = fst message_codec (message_out m)"

definition wire_de :: "bytes \<Rightarrow> BrokerMessage option" where
  "wire_de f = map_option message_in (decode message_codec f)"

lemma wire_carries:
  assumes "ser_broker_message X = wire_ser" "de_broker_message X = wire_de"
  shows "carried X m"
proof -
  have "wire_ser m \<noteq> []" by (simp add: wire_ser_def message_codec_def pair_codec_def byte_codec_def split: prod.split)
  with assms show ?thesis by (simp add: carried_def wire_ser_def wire_de_def decode_encode [OF good_message] message_in_out)
qed

end
