(* ===== verification/Lofire_Demo.thy ===== *)
theory Lofire_Demo
  imports Lofire_Connection Lofire_Node Lofire_Wire
begin

text \<open>
  The demo program \<^verbatim>\<open>src/lofire-demo/src/main.rs\<close>, which drives the client library over both connections: users,
  an overlay, a block, an object and its deletion, and a branch of eight commits that is sent to the broker and
  synchronized back. \<^verbatim>\<open>expect\<close>, \<^verbatim>\<open>unwrap\<close> and \<^verbatim>\<open>assert_eq!\<close> panic; what is only printed is left out.
\<close>

section \<open>Building the branch\<close>

definition demo_block_size :: usize where
  "demo_block_size = store_max_value_size"

definition add_obj ::
  "'x externs_scheme \<Rightarrow> ObjectContent \<Rightarrow> ObjectId list \<Rightarrow> Timestamp option \<Rightarrow> PubKey \<Rightarrow> SymKey
   \<Rightarrow> HashMapRepoStore \<Rightarrow> (ObjectRef, ProtocolError, HashMapRepoStore) op" where
  "add_obj X content deps expiry repo_pubkey repo_secret store =
     op_then (object_new X content deps expiry 4000 repo_pubkey repo_secret, store) (\<lambda>obj store.
     op_then (object_id X obj, store) (\<lambda>_ store.
     op_then (unwrap_op (object_save X (hashmap_store X) obj store)) (\<lambda>_ store.
     op_then (object_reference X obj, store) (\<lambda>r store. (unwrap r, store)))))"

definition add_commit ::
  "'x externs_scheme \<Rightarrow> ObjectRef \<Rightarrow> PrivKey \<Rightarrow> PubKey \<Rightarrow> u32 \<Rightarrow> ObjectRef list \<Rightarrow> ObjectRef list \<Rightarrow> ObjectRef
   \<Rightarrow> PubKey \<Rightarrow> SymKey \<Rightarrow> HashMapRepoStore \<Rightarrow> (ObjectRef, ProtocolError, HashMapRepoStore) op" where
  "add_commit X branch author_privkey author_pubkey seq deps acks body_ref repo_pubkey repo_secret store =
     (let obj_deps = map ref_id deps @ map ref_id acks;
          refs = [\<lparr>ref_id = Blake3Digest32 (fill32 1), ref_key = ChaCha20Key (fill32 2)\<rparr>];
          metadata = replicate 55 5 in
      op_then (unwrap_res (commit_new X author_privkey author_pubkey seq branch deps acks refs metadata body_ref None), store)
        (\<lambda>commit store. add_obj X (ObjectContent.Commit commit) obj_deps None repo_pubkey repo_secret store))"

definition add_body_branch ::
  "'x externs_scheme \<Rightarrow> Branch \<Rightarrow> PubKey \<Rightarrow> SymKey \<Rightarrow> HashMapRepoStore \<Rightarrow> (ObjectRef, ProtocolError, HashMapRepoStore) op" where
  "add_body_branch X branch = add_obj X (ObjectContent.CommitBody (CommitBody.Branch branch)) [] None"

definition add_body_trans ::
  "'x externs_scheme \<Rightarrow> ObjectId list \<Rightarrow> PubKey \<Rightarrow> SymKey \<Rightarrow> HashMapRepoStore \<Rightarrow> (ObjectRef, ProtocolError, HashMapRepoStore) op" where
  "add_body_trans X deps = add_obj X (ObjectContent.CommitBody (CommitBody.Transaction (Transaction.V0 (replicate 777 7)))) deps None"

definition add_body_ack ::
  "'x externs_scheme \<Rightarrow> ObjectId list \<Rightarrow> PubKey \<Rightarrow> SymKey \<Rightarrow> HashMapRepoStore \<Rightarrow> (ObjectRef, ProtocolError, HashMapRepoStore) op" where
  "add_body_ack X deps = add_obj X (ObjectContent.CommitBody (CommitBody.Ack Ack.V0)) deps None"

text \<open>The key pairs that the demo generates.\<close>

record DemoKeys =
  dk_repo :: bytes32
  dk_branch :: bytes32
  dk_member_secret :: bytes32
  dk_member :: bytes32

definition demo_repo_secret :: SymKey where
  "demo_repo_secret = ChaCha20Key (fill32 9)"

definition demo_branch_of :: "DemoKeys \<Rightarrow> Branch" where
  "demo_branch_of K =
     (let branch_pubkey = Ed25519PubKey (dk_branch K); member_pubkey = Ed25519PubKey (dk_member K);
          metadata = replicate 64 66; commit_types = [CommitType.Ack, CommitType.Transaction];
          secret = ChaCha20Key (fill32 0); member = memberv0_new member_pubkey commit_types metadata;
          quorum = [CommitType.Transaction \<mapsto> 3]; ack_delay = Minutes 3; tags = replicate 32 99 in
      branch_new branch_pubkey branch_pubkey secret [member] quorum ack_delay tags metadata)"

text \<open>A commit of the demo's member on its branch.\<close>

definition demo_commit_on ::
  "'x externs_scheme \<Rightarrow> DemoKeys \<Rightarrow> ObjectRef \<Rightarrow> u32 \<Rightarrow> ObjectRef list \<Rightarrow> ObjectRef list \<Rightarrow> ObjectRef
   \<Rightarrow> HashMapRepoStore \<Rightarrow> (ObjectRef, ProtocolError, HashMapRepoStore) op" where
  "demo_commit_on X K branch_body seq deps acks body =
     add_commit X branch_body (Ed25519PrivKey (dk_member_secret K)) (Ed25519PubKey (dk_member K)) seq deps acks body
       (Ed25519PubKey (dk_repo K)) demo_repo_secret"

text \<open>The references to the three bodies and the eight commits.\<close>

record BranchRefs =
  rf_branch_body :: ObjectRef
  rf_ack_body :: ObjectRef
  rf_trans_body :: ObjectRef
  rf_br :: ObjectRef
  rf_t1 :: ObjectRef
  rf_t2 :: ObjectRef
  rf_a3 :: ObjectRef
  rf_t4 :: ObjectRef
  rf_t5 :: ObjectRef
  rf_a6 :: ObjectRef
  rf_a7 :: ObjectRef

definition build_branch ::
  "'x externs_scheme \<Rightarrow> DemoKeys \<Rightarrow> HashMapRepoStore \<Rightarrow> (BranchRefs, ProtocolError, HashMapRepoStore) op" where
  "build_branch X K store =
     (let repo_pubkey = Ed25519PubKey (dk_repo K) in
      op_then (add_body_branch X (demo_branch_of K) repo_pubkey demo_repo_secret store) (\<lambda>branch_body store.
      op_then (add_body_ack X [] repo_pubkey demo_repo_secret store) (\<lambda>ack_body store.
      op_then (add_body_trans X [] repo_pubkey demo_repo_secret store) (\<lambda>trans_body store.
      op_then (demo_commit_on X K branch_body 0 [] [] branch_body store) (\<lambda>br store.
      op_then (demo_commit_on X K branch_body 1 [br] [] trans_body store) (\<lambda>t1 store.
      op_then (demo_commit_on X K branch_body 2 [br] [] trans_body store) (\<lambda>t2 store.
      op_then (demo_commit_on X K branch_body 3 [t1] [] ack_body store) (\<lambda>a3 store.
      op_then (demo_commit_on X K branch_body 4 [t2] [t1] trans_body store) (\<lambda>t4 store.
      op_then (demo_commit_on X K branch_body 5 [t1, t2] [t4] trans_body store) (\<lambda>t5 store.
      op_then (demo_commit_on X K branch_body 6 [t4] [] ack_body store) (\<lambda>a6 store.
      op_then (demo_commit_on X K branch_body 7 [t4] [] ack_body store) (\<lambda>a7 store.
        (Ok \<lparr>rf_branch_body = branch_body, rf_ack_body = ack_body, rf_trans_body = trans_body, rf_br = br, rf_t1 = t1, rf_t2 = t2,
          rf_a3 = a3, rf_t4 = t4, rf_t5 = t5, rf_a6 = a6, rf_a7 = a7\<rparr>,
         store)))))))))))))"

section \<open>Sending and synchronizing it\<close>

fun send_all ::
  "'x externs_scheme \<Rightarrow> 'c BrokerConnection \<Rightarrow> OverlayConnectionClient \<Rightarrow> Block list \<Rightarrow> 'c \<Rightarrow> (unit, ProtocolError, 'c) op" where
  "send_all X C oc [] c = (Ok (), c)"
| "send_all X C oc (v # vs) c = op_then (unwrap_op (client_put_block X C oc v c)) (\<lambda>_ c. send_all X C oc vs c)"

text \<open>The result of the put is dropped.\<close>

fun receive_all :: "'x externs_scheme \<Rightarrow> Block list \<Rightarrow> HashMapRepoStore \<Rightarrow> HashMapRepoStore" where
  "receive_all X [] store = store"
| "receive_all X (b # bs) store = receive_all X bs (snd (hashmap_put X store b))"

text \<open>
  The second half of \<^verbatim>\<open>test_sync\<close>, with the store it ends with; \<open>make_filter\<close> is a filter of fastbloom for 10
  entries with the given digests added.
\<close>

definition sync_back ::
  "'x externs_scheme \<Rightarrow> (bytes32 list \<Rightarrow> BloomFilter) \<Rightarrow> DemoKeys \<Rightarrow> 'c BrokerConnection \<Rightarrow> OverlayConnectionClient \<Rightarrow> BranchRefs
   \<Rightarrow> 'c \<Rightarrow> (HashMapRepoStore, ProtocolError, 'c) op" where
  "sync_back X make_filter K C oc R c =
     (case op_then (demo_commit_on X K (rf_branch_body R) 0 [] [] (rf_branch_body R) hashmap_new) (\<lambda>br store.
             op_then (demo_commit_on X K (rf_branch_body R) 5 [rf_t1 R, rf_t2 R] [rf_t4 R] (rf_trans_body R) store) (\<lambda>t5 store.
               (Ok (br, t5), store))) of (r, store) \<Rightarrow>
      op_then (r, c) (\<lambda>(br, t5) c.
        let known_commits = make_filter (map (\<lambda>r. case ref_id r of Blake3Digest32 d \<Rightarrow> d) [br, t5]) in
        op_then (unwrap_op (client_sync_branch C oc [ref_id (rf_a6 R), ref_id (rf_a7 R)] [ref_id br] known_commits c)) (\<lambda>bs c.
          (Ok (receive_all X bs store), c))))"

text \<open>The store of the client at the end, which the source drops, is returned.\<close>

definition test_sync ::
  "'x externs_scheme \<Rightarrow> (bytes32 list \<Rightarrow> BloomFilter) \<Rightarrow> DemoKeys \<Rightarrow> 'c BrokerConnection \<Rightarrow> 'c \<Rightarrow> (HashMapRepoStore, ProtocolError, 'c) op" where
  "test_sync X make_filter K C c =
     (let repolink = RepoLink.V0 \<lparr>rl_id = Ed25519PubKey (dk_repo K), rl_secret = demo_repo_secret, rl_peers = []\<rparr> in
      case build_branch X K hashmap_new of (r, store) \<Rightarrow>
      op_then (r, c) (\<lambda>R c.
      op_then (unwrap_op (overlay_connect X C repolink True c)) (\<lambda>oc c.
      op_then (send_all X C oc (hashmap_get_all store) c) (\<lambda>_ c.
      sync_back X make_filter K C oc R c))))"

section \<open>The whole test\<close>

definition assert_err :: "('a, ProtocolError) result \<Rightarrow> ProtocolError \<Rightarrow> (unit, ProtocolError) result" where
  "assert_err r expected = (case r of Err e \<Rightarrow> if e = expected then Ok () else Panic | Hang \<Rightarrow> Hang | _ \<Rightarrow> Panic)"

definition demo_test ::
  "'x externs_scheme \<Rightarrow> nat \<Rightarrow> (bytes32 list \<Rightarrow> BloomFilter) \<Rightarrow> DemoKeys \<Rightarrow> 'c BrokerConnection \<Rightarrow> PubKey \<Rightarrow> PrivKey
   \<Rightarrow> 'c \<Rightarrow> (unit, ProtocolError, 'c) op" where
  "demo_test X n make_filter K C pub_key priv_key c =
     op_then (bc_add_user C (Ed25519PubKey (fill32 1)) priv_key c) (\<lambda>_ c.
     op_then (bc_add_user C pub_key priv_key c) (\<lambda>_ c.
     op_then (case bc_add_user C (Ed25519PubKey (fill32 1)) priv_key c of (r, c) \<Rightarrow> (assert_err r UserAlreadyExists, c)) (\<lambda>_ c.
       let repo = RepoLink.V0 \<lparr>rl_id = Ed25519PubKey (fill32 1), rl_secret = ChaCha20Key (fill32 0), rl_peers = []\<rparr> in
     op_then (overlay_connect X C repo True c) (\<lambda>oc c.
     op_then (client_put_block X C oc (block_new X [] (ObjectIdList []) None (replicate 150 27) None) c) (\<lambda>my_block_id c.
     op_then (client_put_object X C oc (ObjectContent.File (File.V0 \<lparr>file_content_type = [], file_metadata = [],
         file_content = replicate 69000 48\<rparr>)) [] None demo_block_size (repo_link_id repo) (repo_link_secret repo) c) (\<lambda>object_id c.
     op_then (client_get_block C oc my_block_id True None c) (\<lambda>_ c.
     op_then (client_get_block C oc object_id True None c) (\<lambda>_ c.
     op_then (client_get_object X n C oc object_id None c) (\<lambda>_ c.
     op_then (client_delete_object C oc object_id c) (\<lambda>_ c.
     op_then (case client_get_object X n C oc object_id None c of (r, c) \<Rightarrow> (assert_err r ProtocolError.NotFound, c)) (\<lambda>_ c.
     op_then (test_sync X make_filter K C c) (\<lambda>_ c. (Ok (), c)))))))))))))"

text \<open>What is left of an outcome that is dropped or only printed: a panic.\<close>

definition dropped :: "('a, 'e) result \<Rightarrow> (unit, 'f) result" where
  "dropped r = (case r of Panic \<Rightarrow> Panic | Hang \<Rightarrow> Hang | _ \<Rightarrow> Ok ())"

definition test_local_connection ::
  "'x server_externs_scheme \<Rightarrow> ('b, 'd) BrokerEnv \<Rightarrow> (bytes32 list \<Rightarrow> BloomFilter) \<Rightarrow> DemoKeys \<Rightarrow> PrivKey \<times> PubKey
   \<Rightarrow> (nat \<Rightarrow> u64) \<Rightarrow> (nat \<Rightarrow> bytes32) \<Rightarrow> 'b \<Rightarrow> (RepoStoreId \<Rightarrow> 'd) \<Rightarrow> (unit, unit) result" where
  "test_local_connection X E make_filter K keypair clocks randoms store disk =
     and_then (unwrap_res (fst (broker_new X E store Local disk))) (\<lambda>server. case keypair of (priv_key, pub_key) \<Rightarrow>
       dropped (fst (demo_test X (be_fuel E) make_filter K (local_connection X E pub_key clocks randoms) pub_key priv_key (0, server))))"

text \<open>
  The websocket is one that the node has accepted; the connection is closed only when the test returned \<^verbatim>\<open>Ok\<close>. \<open>clock\<close> and \<open>random\<close> are
  the node's while the connection is opened.
\<close>

definition test_remote_connection ::
  "'x client_externs_scheme \<Rightarrow> ('b, 'd) BrokerEnv \<Rightarrow> (bytes32 list \<Rightarrow> BloomFilter) \<Rightarrow> DemoKeys \<Rightarrow> PrivKey \<times> PubKey \<Rightarrow> u64 \<Rightarrow> bytes32
   \<Rightarrow> (nat \<Rightarrow> u64) \<Rightarrow> (nat \<Rightarrow> u64) \<Rightarrow> (nat \<Rightarrow> bytes32) \<Rightarrow> ('b, 'd) BrokerServer \<Rightarrow> (unit, unit, ('b, 'd) remote_state) op" where
  "test_remote_connection X E make_filter K keypair clock random ids clocks randoms server =
     (case keypair of (priv_key, pub_key) \<Rightarrow>
      case open_broker_connection X (node_transport X E clock random) pub_key priv_key (Ed25519PubKey (fill32 1)) (0, connection_new, server) of
        (Ok rc, (n, con, server)) \<Rightarrow>
          (let C = remote_connection X E (con_handler con) pub_key ids clocks randoms in
           case demo_test X (be_fuel E) make_filter K C pub_key priv_key (0, (rc, server)) of
             (Ok _, c) \<Rightarrow> (case bc_close C c of (r, c) \<Rightarrow> (dropped r, snd c))
           | (r, c) \<Rightarrow> (dropped r, snd c))
      | (r, (n, con, server)) \<Rightarrow> (dropped r, (remote_open\<lparr>rc_reading := False, rc_writable := False\<rparr>, server)))"

section \<open>Repositories of single blocks\<close>

text \<open>Blocks under their own identifiers, without children and with their dependencies in themselves.\<close>

definition leaf_block :: "Block \<Rightarrow> bool" where
  "leaf_block b \<longleftrightarrow> block_children b = [] \<and> (\<exists>ds. block_deps b = ObjectIdList ds)"

definition leafy :: "'x externs_scheme \<Rightarrow> (BlockId \<rightharpoonup> Block) \<Rightarrow> bool" where
  "leafy X m \<longleftrightarrow> self_addressed X m \<and> (\<forall>i b. m i = Some b \<longrightarrow> leaf_block b)"

lemma leafy_empty [simp]: "leafy X Map.empty"
  by (simp add: leafy_def self_addressed_def)

lemma leafy_put: "leafy X m \<Longrightarrow> honest X b \<Longrightarrow> leaf_block b \<Longrightarrow> leafy X (m(block_id X b \<mapsto> plain b))"
  by (auto simp: leafy_def self_addressed_def honest_def leaf_block_def)

lemma leafy_del: "leafy X m \<Longrightarrow> leafy X (m |` A)"
  by (auto simp: leafy_def self_addressed_def restrict_map_def)

lemma leafyD:
  assumes "leafy X m" "m i = Some b"
  shows "plain b = b" "get_id X b = i" "leaf_block b"
  using assms unfolding leafy_def self_addressed_def by blast+

lemma leafy_held:
  assumes "leafy X m" "m i = Some b"
  shows "\<exists>r ds. load_on X (Suc k) m i = Ok \<lparr>obj_blocks = [r], obj_deps = ds\<rparr> \<and> plain r = b \<and> block_id X r = i"
proof -
  obtain b1 where b1: "b = Block.V0 b1" by (cases b)
  from leafyD(3) [OF assms] obtain ds where "blk_children b1 = []" "blk_deps b1 = ObjectIdList ds" by (auto simp: leaf_block_def b1)
  from load_on_leaf [where m = m and i = i and b = b1 and ds = ds, OF assms(2) [unfolded b1] this, of X k] leafyD(1) [OF assms] show ?thesis
    by (auto simp: b1)
qed

lemma load_on_missing: "m i = None \<Longrightarrow> load_on X (Suc k) m i = Err (ObjectParseError.MissingBlocks [i])"
  by (simp add: load_on_def object_load_Suc load_tree.simps(2) map_store_def)

lemma leafy_loads_or_misses:
  assumes m: "leafy X m"
  shows "loads_or_misses X (Suc k) m"
  unfolding loads_or_misses_def load_on_def [symmetric]
proof
  fix i show "case load_on X (Suc k) m i of Ok ob \<Rightarrow> True | Err (ObjectParseError.MissingBlocks b) \<Rightarrow> True | _ \<Rightarrow> False"
  proof (cases "m i")
    case (Some b)
    from leafy_held [where k = k, OF m Some] show ?thesis by auto
  qed (simp add: load_on_missing)
qed

lemma leafy_graph: "leafy X m \<Longrightarrow> dep_graph X (Suc k) m i \<noteq> None \<longleftrightarrow> i \<in> dom m"
  using leafy_held [where X = X and m = m and i = i and k = k] load_on_missing [of m i X k]
  by (cases "m i") (auto simp: dep_graph_def load_on_def)

lemma leafy_load_all:
  assumes "leafy X m" "set ids \<subseteq> dom m"
  shows "\<exists>bs. load_all X (Suc k) m ids = Ok bs"
  using assms(2)
proof (induction ids)
  case (Cons i ids)
  then obtain b where "m i = Some b" by auto
  from leafy_held [where k = k, OF assms(1) this] Cons show ?case by auto
qed simp

lemma leafy_plain: "leafy X m \<Longrightarrow> plain_map m"
  by (auto simp: leafy_def intro: self_addressed_plain)

lemma leafy_sync:
  assumes m: "leafy X m" "finite (dom m)" "card (dom m) < n" and heads: "set heads \<union> set known \<subseteq> dom m"
  shows "\<exists>ps. fst (repo_spec X n (OvSyncBranch heads known bf) m) = Ok (Sent ps)"
proof -
  obtain k where n: "n = Suc k" using m(3) by (cases n) auto
  have "\<forall>h \<in> set heads \<union> set known. dep_graph X n m h \<noteq> None" using heads leafy_graph [OF m(1), of k] by (auto simp: n)
  from mp.sync_req_returns [OF leafy_loads_or_misses [OF m(1), of k] m(2) m(3) leafy_plain [OF m(1)], folded n, OF this, of bf] obtain ids s where
    ids: "sync_req X (map_store X) n n heads known bf m = (Ok ids, s)"
      "\<forall>i \<in> set ids. \<exists>h T. sync_reach (dep_graph X n m) T h i" by fastforce
  then have "set ids \<subseteq> dom m" using sync_reach_loads leafy_graph [OF m(1), of k] unfolding n by blast
  from leafy_load_all [OF m(1) this, of k] ids(1) show ?thesis unfolding n by auto
qed

section \<open>The blocks of the branch\<close>

definition obj_block :: "'x externs_scheme \<Rightarrow> DemoKeys \<Rightarrow> ObjectContent \<Rightarrow> ObjectId list \<Rightarrow> Block" where
  "obj_block X K content deps = make_leaf X (convergence_key X (Ed25519PubKey (dk_repo K)) demo_repo_secret) (ObjectIdList deps) None
     (ser_object_content X content)"

definition block_ref :: "'x externs_scheme \<Rightarrow> Block \<Rightarrow> ObjectRef" where
  "block_ref X b = \<lparr>ref_id = block_id X b, ref_key = the (block_key b)\<rparr>"

lemma block_ref_id [simp]: "ref_id (block_ref X b) = block_id X b"
  by (simp add: block_ref_def)

lemma obj_block_simps [simp]:
  "leaf_block (obj_block X K content deps)" "honest X (obj_block X K content deps)" "block_deps (obj_block X K content deps) = ObjectIdList deps"
  by (simp_all add: obj_block_def leaf_block_def make_leaf_def make_block_def Let_def)

definition made_content ::
  "DemoKeys \<Rightarrow> ObjectRef \<Rightarrow> u32 \<Rightarrow> ObjectRef list \<Rightarrow> ObjectRef list \<Rightarrow> ObjectRef \<Rightarrow> CommitContentV0" where
  "made_content K branch seq deps acks body = \<lparr>cc_author = Ed25519PubKey (dk_member K), cc_seq = seq, cc_branch = branch, cc_deps = deps, cc_acks = acks,
     cc_refs = [\<lparr>ref_id = Blake3Digest32 (fill32 1), ref_key = ChaCha20Key (fill32 2)\<rparr>], cc_metadata = replicate 55 5, cc_body = body, cc_expiry = None\<rparr>"

definition made_commit ::
  "'x externs_scheme \<Rightarrow> DemoKeys \<Rightarrow> ObjectRef \<Rightarrow> u32 \<Rightarrow> ObjectRef list \<Rightarrow> ObjectRef list \<Rightarrow> ObjectRef \<Rightarrow> CommitV0" where
  "made_commit X K branch seq deps acks body = (let content = made_content K branch seq deps acks body in
     \<lparr>com_id = None, com_key = None, com_content = content,
      com_sig = Ed25519Sig (the (ed25519_sign X (dk_member_secret K) (dk_member K) (ser_commit_content X content)))\<rparr>)"

abbreviation "branch_body X K \<equiv> obj_block X K (ObjectContent.CommitBody (CommitBody.Branch (demo_branch_of K))) []"
abbreviation "ack_body X K \<equiv> obj_block X K (ObjectContent.CommitBody (CommitBody.Ack Ack.V0)) []"
abbreviation "trans_body X K \<equiv> obj_block X K (ObjectContent.CommitBody (CommitBody.Transaction (Transaction.V0 (replicate 777 7)))) []"

definition commit_block :: "'x externs_scheme \<Rightarrow> DemoKeys \<Rightarrow> u32 \<Rightarrow> Block list \<Rightarrow> Block list \<Rightarrow> Block \<Rightarrow> Block" where
  "commit_block X K seq deps acks body = obj_block X K (ObjectContent.Commit (Commit.V0 (made_commit X K (block_ref X (branch_body X K)) seq
     (map (block_ref X) deps) (map (block_ref X) acks) (block_ref X body)))) (map (block_id X) (deps @ acks))"

definition br_block where "br_block X K = commit_block X K 0 [] [] (branch_body X K)"
definition t1_block where "t1_block X K = commit_block X K 1 [br_block X K] [] (trans_body X K)"
definition t2_block where "t2_block X K = commit_block X K 2 [br_block X K] [] (trans_body X K)"
definition a3_block where "a3_block X K = commit_block X K 3 [t1_block X K] [] (ack_body X K)"
definition t4_block where "t4_block X K = commit_block X K 4 [t2_block X K] [t1_block X K] (trans_body X K)"
definition t5_block where "t5_block X K = commit_block X K 5 [t1_block X K, t2_block X K] [t4_block X K] (trans_body X K)"
definition a6_block where "a6_block X K = commit_block X K 6 [t4_block X K] [] (ack_body X K)"
definition a7_block where "a7_block X K = commit_block X K 7 [t4_block X K] [] (ack_body X K)"

definition branch_blocks :: "'x externs_scheme \<Rightarrow> DemoKeys \<Rightarrow> Block list" where
  "branch_blocks X K = [branch_body X K, ack_body X K, trans_body X K, br_block X K, t1_block X K, t2_block X K, a3_block X K, t4_block X K, t5_block X K, a6_block X K, a7_block X K]"

definition branch_refs :: "'x externs_scheme \<Rightarrow> DemoKeys \<Rightarrow> BranchRefs" where
  "branch_refs X K = \<lparr>rf_branch_body = block_ref X (branch_body X K), rf_ack_body = block_ref X (ack_body X K), rf_trans_body = block_ref X (trans_body X K),
     rf_br = block_ref X (br_block X K), rf_t1 = block_ref X (t1_block X K), rf_t2 = block_ref X (t2_block X K), rf_a3 = block_ref X (a3_block X K), rf_t4 = block_ref X (t4_block X K),
     rf_t5 = block_ref X (t5_block X K), rf_a6 = block_ref X (a6_block X K), rf_a7 = block_ref X (a7_block X K)\<rparr>"

text \<open>A store that has been given a list of blocks.\<close>

definition blocks_map :: "'x externs_scheme \<Rightarrow> (BlockId \<rightharpoonup> Block) \<Rightarrow> Block list \<Rightarrow> BlockId \<rightharpoonup> Block" where
  "blocks_map X m bs = foldl (\<lambda>m b. m(block_id X b \<mapsto> plain b)) m bs"

lemma blocks_map_simps [simp]:
  "blocks_map X m [] = m" "blocks_map X m (b # bs) = blocks_map X (m(block_id X b \<mapsto> plain b)) bs"
  "blocks_map X m (bs @ cs) = blocks_map X (blocks_map X m bs) cs"
  by (simp_all add: blocks_map_def)

lemma blocks_map_dom [simp]: "dom (blocks_map X m bs) = dom m \<union> block_id X ` set bs"
  by (induction bs arbitrary: m) auto

lemma blocks_map_leafy: "leafy X m \<Longrightarrow> \<forall>b \<in> set bs. honest X b \<and> leaf_block b \<Longrightarrow> leafy X (blocks_map X m bs)"
  by (induction bs arbitrary: m) (simp_all add: leafy_put del: fun_upd_apply)

definition built :: "'x externs_scheme \<Rightarrow> Block list \<Rightarrow> HashMapRepoStore \<Rightarrow> bool" where
  "built X bs s \<longleftrightarrow> hashmap_invar X s \<and> hashmap_abs s = blocks_map X Map.empty bs"

lemma built_new [simp]: "built X [] hashmap_new"
  by (simp add: built_def)

section \<open>Building the branch returns\<close>

text \<open>
  BARE keeps the demo's contents small: a commit with three references takes less than 700 bytes. The key of the
  member signs.
\<close>

definition demo_fits :: "'x externs_scheme \<Rightarrow> DemoKeys \<Rightarrow> bool" where
  "demo_fits X K \<longleftrightarrow>
     (\<forall>c. length (cc_deps (com_content c)) + length (cc_acks (com_content c)) \<le> 3 \<and> length (cc_refs (com_content c)) = 1
        \<and> length (cc_metadata (com_content c)) = 55 \<longrightarrow> length (ser_object_content X (ObjectContent.Commit (Commit.V0 c))) \<le> 3900)
     \<and> (\<forall>body \<in> {CommitBody.Branch (demo_branch_of K), CommitBody.Transaction (Transaction.V0 (replicate 777 7)), CommitBody.Ack Ack.V0}.
          length (ser_object_content X (ObjectContent.CommitBody body)) \<le> 3900)
     \<and> length (ser_object_content X (ObjectContent.File (File.V0 \<lparr>file_content_type = [], file_metadata = [],
         file_content = replicate 69000 48\<rparr>))) \<le> 1000000
     \<and> (\<forall>m. ed25519_sign X (dk_member_secret K) (dk_member K) m \<noteq> None)"

lemma obj_block_new:
  assumes "length deps \<le> 3" "length (ser_object_content X content) \<le> 3900"
  shows "object_new X content deps None 4000 (Ed25519PubKey (dk_repo K)) demo_repo_secret
    = (Ok \<lparr>obj_blocks = [obj_block X K content deps], obj_deps = deps\<rparr> :: (Object, 'e) result)"
  using assms by (simp add: object_new.simps make_deps.simps store_valid_value_size_eq make_blocks_def obj_block_def lofire_defs Let_def)

lemma add_obj_built:
  assumes "built X bs s" "length deps \<le> 3" "length (ser_object_content X content) \<le> 3900"
  shows "\<exists>s'. add_obj X content deps None (Ed25519PubKey (dk_repo K)) demo_repo_secret s = (Ok (block_ref X (obj_block X K content deps)), s')
    \<and> built X (bs @ [obj_block X K content deps]) s'"
proof -
  let ?b = "obj_block X K content deps"
  obtain key where key: "block_key ?b = Some key" by (simp add: obj_block_def make_leaf_def make_block_def Let_def)
  from assms(1) have inv: "hashmap_invar X s" by (simp add: built_def)
  from hm.put_stores [OF inv, of ?b] obtain s' where "rs_put (hashmap_store X) s ?b = (Ok (block_id X ?b), s')" "hashmap_invar X s'"
    "hashmap_abs s' = (hashmap_abs s)(block_id X ?b \<mapsto> plain ?b)" by auto
  with key assms(1) show ?thesis
    by (simp add: add_obj_def obj_block_new [OF assms(2,3)] object_id_def object_root_def object_reference_def object_key_def object_save_def
        Let_def built_def block_ref_def)
qed

lemma bodies_built:
  assumes "demo_fits X K" "built X bs s"
  shows "\<exists>s'. add_body_branch X (demo_branch_of K) (Ed25519PubKey (dk_repo K)) demo_repo_secret s = (Ok (block_ref X (branch_body X K)), s')
      \<and> built X (bs @ [branch_body X K]) s'"
    "\<exists>s'. add_body_ack X [] (Ed25519PubKey (dk_repo K)) demo_repo_secret s = (Ok (block_ref X (ack_body X K)), s') \<and> built X (bs @ [ack_body X K]) s'"
    "\<exists>s'. add_body_trans X [] (Ed25519PubKey (dk_repo K)) demo_repo_secret s = (Ok (block_ref X (trans_body X K)), s') \<and> built X (bs @ [trans_body X K]) s'"
  using assms by (auto simp: demo_fits_def add_body_branch_def add_body_ack_def add_body_trans_def intro!: add_obj_built)

lemma commit_built:
  assumes "demo_fits X K" "built X bs s" "length deps + length acks \<le> 3"
  shows "\<exists>s'. demo_commit_on X K (block_ref X (branch_body X K)) seq (map (block_ref X) deps) (map (block_ref X) acks) (block_ref X body) s
      = (Ok (block_ref X (commit_block X K seq deps acks body)), s') \<and> built X (bs @ [commit_block X K seq deps acks body]) s'"
proof -
  let ?c = "made_commit X K (block_ref X (branch_body X K)) seq (map (block_ref X) deps) (map (block_ref X) acks) (block_ref X body)"
  obtain ss where "ed25519_sign X (dk_member_secret K) (dk_member K) (ser_commit_content X (com_content ?c)) = Some ss"
    using assms(1) unfolding demo_fits_def by blast
  then have "demo_commit_on X K (block_ref X (branch_body X K)) seq (map (block_ref X) deps) (map (block_ref X) acks) (block_ref X body)
      = add_obj X (ObjectContent.Commit (Commit.V0 ?c)) (map (block_id X) (deps @ acks)) None (Ed25519PubKey (dk_repo K)) demo_repo_secret"
    by (simp add: demo_commit_on_def add_commit_def commit_new_def commitv0_new_def made_commit_def made_content_def Let_def fun_eq_iff comp_def)
  moreover have "length (ser_object_content X (ObjectContent.Commit (Commit.V0 ?c))) \<le> 3900"
    using assms(1,3) by (auto simp: demo_fits_def made_commit_def made_content_def Let_def)
  ultimately show ?thesis using add_obj_built [OF assms(2), of "map (block_id X) (deps @ acks)" "ObjectContent.Commit (Commit.V0 ?c)" K] assms(3)
    by (simp add: commit_block_def)
qed

lemma commits_built:
  assumes "demo_fits X K" "built X bs s"
  shows "\<exists>s'. demo_commit_on X K (block_ref X (branch_body X K)) 0 [] [] (block_ref X (branch_body X K)) s = (Ok (block_ref X (br_block X K)), s') \<and> built X (bs @ [br_block X K]) s'"
    "\<exists>s'. demo_commit_on X K (block_ref X (branch_body X K)) 1 [block_ref X (br_block X K)] [] (block_ref X (trans_body X K)) s = (Ok (block_ref X (t1_block X K)), s') \<and> built X (bs @ [t1_block X K]) s'"
    "\<exists>s'. demo_commit_on X K (block_ref X (branch_body X K)) 2 [block_ref X (br_block X K)] [] (block_ref X (trans_body X K)) s = (Ok (block_ref X (t2_block X K)), s') \<and> built X (bs @ [t2_block X K]) s'"
    "\<exists>s'. demo_commit_on X K (block_ref X (branch_body X K)) 3 [block_ref X (t1_block X K)] [] (block_ref X (ack_body X K)) s = (Ok (block_ref X (a3_block X K)), s') \<and> built X (bs @ [a3_block X K]) s'"
    "\<exists>s'. demo_commit_on X K (block_ref X (branch_body X K)) 4 [block_ref X (t2_block X K)] [block_ref X (t1_block X K)] (block_ref X (trans_body X K)) s = (Ok (block_ref X (t4_block X K)), s') \<and> built X (bs @ [t4_block X K]) s'"
    "\<exists>s'. demo_commit_on X K (block_ref X (branch_body X K)) 5 [block_ref X (t1_block X K), block_ref X (t2_block X K)] [block_ref X (t4_block X K)] (block_ref X (trans_body X K)) s = (Ok (block_ref X (t5_block X K)), s') \<and> built X (bs @ [t5_block X K]) s'"
    "\<exists>s'. demo_commit_on X K (block_ref X (branch_body X K)) 6 [block_ref X (t4_block X K)] [] (block_ref X (ack_body X K)) s = (Ok (block_ref X (a6_block X K)), s') \<and> built X (bs @ [a6_block X K]) s'"
    "\<exists>s'. demo_commit_on X K (block_ref X (branch_body X K)) 7 [block_ref X (t4_block X K)] [] (block_ref X (ack_body X K)) s = (Ok (block_ref X (a7_block X K)), s') \<and> built X (bs @ [a7_block X K]) s'"
  unfolding br_block_def t1_block_def t2_block_def a3_block_def t4_block_def t5_block_def a6_block_def a7_block_def
  using commit_built [OF assms, of "[]" "[]"] commit_built [OF assms, of "[b]" "[]" for b] commit_built [OF assms, of "[b]" "[c]" for b c]
    commit_built [OF assms, of "[b, c]" "[d]" for b c d] by simp_all

lemma build_branch_built:
  assumes fits: "demo_fits X K"
  shows "\<exists>s. build_branch X K hashmap_new = (Ok (branch_refs X K), s) \<and> built X (branch_blocks X K) s"
proof -
  note bodies = bodies_built [OF fits] and commits = commits_built [OF fits]
  from bodies(1) [OF built_new] obtain s1 where s1: "add_body_branch X (demo_branch_of K) (Ed25519PubKey (dk_repo K)) demo_repo_secret hashmap_new
    = (Ok (block_ref X (branch_body X K)), s1)" "built X ([] @ [branch_body X K]) s1" by blast
  from bodies(2) [OF s1(2)] obtain s2 where s2: "add_body_ack X [] (Ed25519PubKey (dk_repo K)) demo_repo_secret s1 = (Ok (block_ref X (ack_body X K)), s2)"
    "built X (([] @ [branch_body X K]) @ [ack_body X K]) s2" by blast
  note b3 = bodies(3) [OF s2(2)]
  then obtain s3 where s3: "add_body_trans X [] (Ed25519PubKey (dk_repo K)) demo_repo_secret s2 = (Ok (block_ref X (trans_body X K)), s3)"
    "built X (take 3 (branch_blocks X K)) s3" by (auto simp: branch_blocks_def)
  from commits(1) [OF s3(2)] obtain s4 where s4: "demo_commit_on X K (block_ref X (branch_body X K)) 0 [] [] (block_ref X (branch_body X K)) s3 = (Ok (block_ref X (br_block X K)), s4)"
    "built X (take 4 (branch_blocks X K)) s4" by (auto simp: branch_blocks_def)
  from commits(2) [OF s4(2)] obtain s5 where s5: "demo_commit_on X K (block_ref X (branch_body X K)) 1 [block_ref X (br_block X K)] [] (block_ref X (trans_body X K)) s4 = (Ok (block_ref X (t1_block X K)), s5)"
    "built X (take 5 (branch_blocks X K)) s5" by (auto simp: branch_blocks_def)
  from commits(3) [OF s5(2)] obtain s6 where s6: "demo_commit_on X K (block_ref X (branch_body X K)) 2 [block_ref X (br_block X K)] [] (block_ref X (trans_body X K)) s5 = (Ok (block_ref X (t2_block X K)), s6)"
    "built X (take 6 (branch_blocks X K)) s6" by (auto simp: branch_blocks_def)
  from commits(4) [OF s6(2)] obtain s7 where s7: "demo_commit_on X K (block_ref X (branch_body X K)) 3 [block_ref X (t1_block X K)] [] (block_ref X (ack_body X K)) s6 = (Ok (block_ref X (a3_block X K)), s7)"
    "built X (take 7 (branch_blocks X K)) s7" by (auto simp: branch_blocks_def)
  from commits(5) [OF s7(2)] obtain s8 where s8: "demo_commit_on X K (block_ref X (branch_body X K)) 4 [block_ref X (t2_block X K)] [block_ref X (t1_block X K)] (block_ref X (trans_body X K)) s7 = (Ok (block_ref X (t4_block X K)), s8)"
    "built X (take 8 (branch_blocks X K)) s8" by (auto simp: branch_blocks_def)
  from commits(6) [OF s8(2)] obtain s9 where s9: "demo_commit_on X K (block_ref X (branch_body X K)) 5 [block_ref X (t1_block X K), block_ref X (t2_block X K)] [block_ref X (t4_block X K)] (block_ref X (trans_body X K)) s8 = (Ok (block_ref X (t5_block X K)), s9)"
    "built X (take 9 (branch_blocks X K)) s9" by (auto simp: branch_blocks_def)
  from commits(7) [OF s9(2)] obtain s10 where s10: "demo_commit_on X K (block_ref X (branch_body X K)) 6 [block_ref X (t4_block X K)] [] (block_ref X (ack_body X K)) s9 = (Ok (block_ref X (a6_block X K)), s10)"
    "built X (take 10 (branch_blocks X K)) s10" by (auto simp: branch_blocks_def)
  from commits(8) [OF s10(2)] obtain s11 where s11: "demo_commit_on X K (block_ref X (branch_body X K)) 7 [block_ref X (t4_block X K)] [] (block_ref X (ack_body X K)) s10 = (Ok (block_ref X (a7_block X K)), s11)"
    "built X (branch_blocks X K) s11" by (auto simp: branch_blocks_def)
  show ?thesis using s1(1) s2(1) s3(1) s4(1) s5(1) s6(1) s7(1) s8(1) s9(1) s10(1) s11
    by (intro exI [of _ s11]) (simp add: build_branch_def branch_refs_def)
qed

lemma branch_blocks_leafy:
  "leafy X (blocks_map X Map.empty (branch_blocks X K))"
proof (rule blocks_map_leafy)
  show "\<forall>b \<in> set (branch_blocks X K). honest X b \<and> leaf_block b"
    by (simp add: branch_blocks_def commit_block_def br_block_def t1_block_def t2_block_def a3_block_def t4_block_def t5_block_def a6_block_def a7_block_def)
qed simp

section \<open>The test over a connection\<close>

text \<open>The machine with the blocks \<open>m\<close> in the repository \<open>p\<close>.\<close>

definition with_blocks :: "ServerSpec \<Rightarrow> PubKey \<Rightarrow> (BlockId \<rightharpoonup> Block) \<Rightarrow> ServerSpec" where
  "with_blocks w p m = w\<lparr>sp_blocks := (sp_blocks w)(p := m)\<rparr>"

lemma with_blocks_simps [simp]:
  "sp_view (with_blocks w p m) = sp_view w" "sp_blocks (with_blocks w p m) p = m"
  "with_blocks (with_blocks w p m) p m' = with_blocks w p m'"
  by (simp_all add: with_blocks_def)

text \<open>A user is known, and the overlays and the repositories with keys are among those given.\<close>

definition ready :: "ServerView \<Rightarrow> PubKey \<Rightarrow> OverlayId set \<Rightarrow> PubKey set \<Rightarrow> bool" where
  "ready W user ovs repos \<longleftrightarrow> ae_admin (sw_users W user) \<noteq> None \<and> dom (sw_overlays W) \<subseteq> ovs \<and> (\<forall>p. sw_keys W (Repo p) \<noteq> None \<longrightarrow> p \<in> repos)"

lemma join_ready:
  assumes "ready W user ovs repos" "ov \<notin> ovs" "p \<notin> repos"
  shows "\<exists>W'. join_spec Local random user ov (Some p) secret peers W = (Ok (), W') \<and> ready W' user (insert ov ovs) (insert p repos)
    \<and> repo_at W' ov = Some p"
proof -
  from assms have "sw_overlays W ov = None" "sw_keys W (Repo p) = None" by (auto simp: ready_def)
  with assms(1) show ?thesis
    by (auto simp: join_spec_def create_overlay_spec_def add_peers_spec_def ready_def repo_at_def Let_def)
qed

text \<open>A store that holds the branch commit and \<open>t5\<close> and was given what a synchronization of the whole branch sends.\<close>

definition synced :: "'x server_externs_scheme \<Rightarrow> nat \<Rightarrow> (bytes32 list \<Rightarrow> BloomFilter) \<Rightarrow> DemoKeys \<Rightarrow> HashMapRepoStore \<Rightarrow> bool" where
  "synced X n make_filter K s \<longleftrightarrow> (\<exists>s0 bs. built X [br_block X K, t5_block X K] s0 \<and> s = receive_all X bs s0
     \<and> fst (repo_spec X n (OvSyncBranch [block_id X (a6_block X K), block_id X (a7_block X K)] [block_id X (br_block X K)]
         (make_filter (map (\<lambda>i. case i of Blake3Digest32 d \<Rightarrow> d) [block_id X (br_block X K), block_id X (t5_block X K)])))
         (blocks_map X Map.empty (branch_blocks X K))) = Ok (Sent (map (addressed X) bs)))"

context spec_connection
begin

lemma change_ok:
  assumes "serves c (with_blocks w p m)" "repo_at (sp_view w) ov = Some p" "change_request call = Some req"
    "\<And>b. call = OvPut b \<Longrightarrow> honest X b" "repo_spec X n call m = (Ok Done, m')"
  shows "\<exists>c'. bc_request C ov req c = (Ok (), c') \<and> serves c' (with_blocks w p m')"
  using changes [OF assms(1,3,4), of ov] assms(2,5) by (auto simp: settled_def with_blocks_def)

lemma read_settled:
  assumes "serves c (with_blocks w p m)" "repo_at (sp_view w) ov = Some p" "read_request call = Some req"
    "self_addressed X m" "settled (fst (repo_spec X n call m))" "snd (repo_spec X n call m) = m"
  shows "\<exists>r c'. bc_request_stream C ov req c = (r, c') \<and> serves c' (with_blocks w p m)
    \<and> and_then r (\<lambda>bs. Ok (Sent (map (addressed X) bs))) = fst (repo_spec X n call m)"
  using reads [OF assms(1,3), of ov] assms(2,4-6) by (auto simp: with_blocks_def case_prod_beta)

lemma put_block_ok:
  assumes "serves c (with_blocks w p m)" "repo_at (sp_view w) (oc_overlay oc) = Some p" "honest X b"
  shows "\<exists>c'. client_put_block X C oc b c = (Ok (block_id X b), c') \<and> serves c' (with_blocks w p (m(block_id X b \<mapsto> plain b)))"
  using change_ok [OF assms(1,2), of "OvPut b", OF change_request.simps(1) _ repo_spec.simps(1)] assms(3) by (auto simp: client_put_block_def)

lemma get_leaf_ok:
  assumes "serves c (with_blocks w p m)" "repo_at (sp_view w) (oc_overlay oc) = Some p" "leafy X m" "m i = Some b" "0 < n"
  shows "\<exists>b' c'. client_get_block C oc i True topic c = (Ok [b'], c') \<and> serves c' (with_blocks w p m) \<and> addressed X b' = (i, b)"
proof -
  obtain k where n: "n = Suc k" using assms(5) by (cases n) auto
  from leafy_held [where k = k, OF assms(3,4)] obtain r ds where
    r: "load_on X n m i = Ok \<lparr>obj_blocks = [r], obj_deps = ds\<rparr>" "plain r = b" "block_id X r = i" by (auto simp: n)
  then have spec: "repo_spec X n (OvGetObject i topic) m = (Ok (Sent [(i, b)]), m)" by (simp add: each_once_def addressed_def)
  from assms(3) have "self_addressed X m" by (simp add: leafy_def)
  from read_settled [OF assms(1,2) _ this, of "OvGetObject i topic"] spec show ?thesis
    by (auto simp: client_get_block_def settled_def res_simps)
qed

lemma get_missing:
  assumes "serves c (with_blocks w p m)" "repo_at (sp_view w) (oc_overlay oc) = Some p" "leafy X m" "m i = None" "0 < n"
  shows "\<exists>c'. client_get_object X f C oc i topic c = (Err ProtocolError.NotFound, c') \<and> serves c' (with_blocks w p m)"
proof -
  obtain k where n: "n = Suc k" using assms(5) by (cases n) auto
  have spec: "repo_spec X n (OvGetObject i topic) m = (Err ProtocolError.NotFound, m)"
    using load_on_missing [of m i X k] assms(4) by (simp add: n)
  from assms(3) have "self_addressed X m" by (simp add: leafy_def)
  from read_settled [OF assms(1,2) _ this, of "OvGetObject i topic"] spec obtain r c' where
    "client_get_block C oc i True topic c = (r, c')" "serves c' (with_blocks w p m)"
    "and_then r (\<lambda>bs. Ok (Sent (map (addressed X) bs))) = Err ProtocolError.NotFound"
    by (auto simp: client_get_block_def settled_def)
  then show ?thesis by (cases r) (auto simp: client_get_object_def)
qed

lemma delete_leaf_ok:
  assumes "serves c (with_blocks w p m)" "repo_at (sp_view w) (oc_overlay oc) = Some p" "leafy X m" "m i = Some b" "0 < n"
  shows "\<exists>c'. client_delete_object C oc i c = (Ok (), c') \<and> serves c' (with_blocks w p (m |` (- {i})))"
proof -
  obtain k where n: "n = Suc k" using assms(5) by (cases n) auto
  from leafy_held [where k = k, OF assms(3,4)] obtain r ds where
    "load_on X n m i = Ok \<lparr>obj_blocks = [r], obj_deps = ds\<rparr>" "block_id X r = i" by (auto simp: n)
  then have "repo_spec X n (OvDelObject i) m = (Ok Done, m |` (- {i}))" by simp
  from change_ok [OF assms(1,2) _ _ this] show ?thesis by (simp add: client_delete_object_def)
qed

lemma get_object_ok:
  assumes "serves c (with_blocks w p m)" "repo_at (sp_view w) (oc_overlay oc) = Some p" "leafy X m" "m i = Some b" "0 < n"
  shows "\<exists>ob c'. client_get_object X n C oc i topic c = (Ok ob, c') \<and> serves c' (with_blocks w p m)"
proof -
  obtain k where n: "n = Suc k" using assms(5) by (cases n) auto
  from get_leaf_ok [OF assms, of topic] obtain b' c' where
    b': "client_get_block C oc i True topic c = (Ok [b'], c')" "serves c' (with_blocks w p m)" "block_id X b' = i" "plain b' = b"
    by (auto simp: addressed_def)
  from leafyD [OF assms(3,4)] b'(3,4) have honest: "honest X b'" "leaf_block b'" by (auto simp: honest_def leaf_block_def)
  from collect_stream_adds [of X hashmap_new "[b']"] honest(1) obtain s where
    s: "collect_stream X [b'] hashmap_new = (Ok (), s)" "hashmap_invar X s" "adds X [b'] {} Map.empty (hashmap_abs s)" by auto
  have "hashmap_abs s j = [i \<mapsto> b] j" for j using s(3) [unfolded adds_def, rule_format, of j] b'(3,4) by (auto split: if_splits)
  then have "hashmap_abs s = [i \<mapsto> b]" by (rule ext)
  moreover have "leafy X [i \<mapsto> b]" using assms(3,4) by (auto simp: leafy_def self_addressed_def)
  ultimately obtain ob where ob: "load_on X n (hashmap_abs s) i = Ok ob" using leafy_held [where k = k and i = i] by (fastforce simp: n)
  from hm.object_load_sim [OF s(2), of n i None] ob obtain ob' s' where
    "object_load X (hashmap_store X) n i None s = (Ok ob', s')" by (auto simp: load_on_def elim: result.rel_cases)
  with b'(1,2) s(1) show ?thesis by (simp add: client_get_object_def)
qed

lemma connect_new:
  assumes "serves c w" "ready (sp_view w) user ovs repos" "overlay_of_link X link public \<notin> ovs" "repo_link_id link \<notin> repos"
  shows "\<exists>c' W. overlay_connect X C link public c = (Ok \<lparr>oc_overlay = overlay_of_link X link public, oc_repo_link = link\<rparr>, c')
    \<and> serves c' (w\<lparr>sp_view := W\<rparr>) \<and> ready W user (insert (overlay_of_link X link public) ovs) (insert (repo_link_id link) repos)
    \<and> repo_at W (overlay_of_link X link public) = Some (repo_link_id link)"
proof -
  let ?ov = "overlay_of_link X link public"
  from connects [OF assms(1), of ?ov] obtain c1 where
    c1: "bc_request C ?ov (BrokerOverlayRequestContentV0.OverlayConnect OverlayConnect.V0) c = (Err OverlayNotJoined, c1)" "serves c1 w" by blast
  from joins [OF c1(2), where ov = ?ov and secret = "repo_link_secret link" and repo = "Some (repo_link_id link)" and peers = "repo_link_peers link"]
    join_ready [OF assms(2-4)] obtain random c' W where
    "bc_request C ?ov (BrokerOverlayRequestContentV0.OverlayJoin (OverlayJoin.V0 \<lparr>oj_secret = repo_link_secret link,
        oj_repo_pubkey = Some (repo_link_id link), oj_peers = repo_link_peers link\<rparr>)) c1 = (Ok (), c')"
    "serves c' (w\<lparr>sp_view := W\<rparr>)" "ready W user (insert ?ov ovs) (insert (repo_link_id link) repos)"
    "repo_at W ?ov = Some (repo_link_id link)" by (metis fst_conv snd_conv)
  with c1(1) show ?thesis by (auto simp: overlay_connect_def process_overlay_connect_def Let_def)
qed

lemma send_all_ok:
  assumes "serves c (with_blocks w p m)" "repo_at (sp_view w) (oc_overlay oc) = Some p" "\<forall>b \<in> set bs. honest X b"
  shows "\<exists>c'. send_all X C oc bs c = (Ok (), c') \<and> serves c' (with_blocks w p (foldl (\<lambda>m b. m(block_id X b \<mapsto> plain b)) m bs))"
  using assms(1,3)
proof (induction bs arbitrary: c m)
  case (Cons b bs)
  from put_block_ok [OF Cons.prems(1) assms(2), of b] Cons.prems(2) obtain c1 where
    "client_put_block X C oc b c = (Ok (block_id X b), c1)" "serves c1 (with_blocks w p (m(block_id X b \<mapsto> plain b)))" by auto
  with Cons.IH [of c1 "m(block_id X b \<mapsto> plain b)"] Cons.prems(2) show ?case by (simp add: unwrap_op_def del: fun_upd_apply)
qed auto

lemma put_file_ok:
  assumes "serves c (with_blocks w p m)" "repo_at (sp_view w) (oc_overlay oc) = Some p" "leafy X m"
    "length (ser_object_content X content) \<le> 1000000"
  shows "\<exists>i c' m'. client_put_object X C oc content [] None demo_block_size pk sk c = (Ok i, c') \<and> serves c' (with_blocks w p m')
    \<and> leafy X m' \<and> i \<in> dom m' \<and> dom m \<subseteq> dom m'"
proof -
  let ?b = "make_leaf X (convergence_key X pk sk) (ObjectIdList []) None (ser_object_content X content)"
  have new: "object_new X content [] None demo_block_size pk sk = (Ok \<lparr>obj_blocks = [?b], obj_deps = []\<rparr> :: (Object, ProtocolError) result)"
    using assms(4) by (simp add: object_new.simps make_deps.simps store_valid_value_size_eq make_blocks_def demo_block_size_def
        store_max_value_size_def lofire_defs Let_def)
  have b: "leaf_block ?b" "honest X ?b" by (simp_all add: leaf_block_def make_leaf_def make_block_def Let_def)
  from put_block_ok [OF assms(1,2) b(2)] obtain c' where
    "client_put_block X C oc ?b c = (Ok (block_id X ?b), c')" "serves c' (with_blocks w p (m(block_id X ?b \<mapsto> plain ?b)))" by blast
  with leafy_put [OF assms(3) b(2,1)] show ?thesis
    by (intro exI [of _ "block_id X ?b"] exI [of _ c'] exI [of _ "m(block_id X ?b \<mapsto> plain ?b)"])
      (auto simp: client_put_object_def new object_id_def object_root_def Let_def)
qed

lemma sync_back_ok:
  assumes "serves c (with_blocks w p m)" "repo_at (sp_view w) (oc_overlay oc) = Some p" "demo_fits X K"
    and m: "m = blocks_map X Map.empty (branch_blocks X K)" and n: "11 < n"
  shows "\<exists>s c'. sync_back X make_filter K C oc (branch_refs X K) c = (Ok s, c') \<and> serves c' (with_blocks w p m) \<and> synced X n make_filter K s"
proof -
  from commits_built(1) [OF assms(3) built_new] obtain s1 where
    s1: "demo_commit_on X K (block_ref X (branch_body X K)) 0 [] [] (block_ref X (branch_body X K)) hashmap_new = (Ok (block_ref X (br_block X K)), s1)"
      "built X [br_block X K] s1" by auto
  from commits_built(6) [OF assms(3) s1(2)] obtain s2 where
    s2: "demo_commit_on X K (block_ref X (branch_body X K)) 5 [block_ref X (t1_block X K), block_ref X (t2_block X K)] [block_ref X (t4_block X K)]
      (block_ref X (trans_body X K)) s1 = (Ok (block_ref X (t5_block X K)), s2)" "built X [br_block X K, t5_block X K] s2" by auto
  let ?heads = "[block_id X (a6_block X K), block_id X (a7_block X K)]" and ?known = "[block_id X (br_block X K)]"
  let ?bf = "make_filter (map (\<lambda>i. case i of Blake3Digest32 d \<Rightarrow> d) [block_id X (br_block X K), block_id X (t5_block X K)])"
  let ?call = "OvSyncBranch ?heads ?known ?bf"
  have leafy: "leafy X m" by (simp add: m branch_blocks_leafy)
  have dom: "dom m = block_id X ` set (branch_blocks X K)" by (simp add: m)
  have "card (dom m) < n" using n card_image_le [of "set (branch_blocks X K)" "block_id X"] card_length [of "branch_blocks X K"]
    by (simp add: dom branch_blocks_def)
  moreover have "set ?heads \<union> set ?known \<subseteq> dom m" by (simp add: dom branch_blocks_def)
  ultimately obtain ps where spec: "fst (repo_spec X n ?call m) = Ok (Sent ps)" using leafy_sync [OF leafy] dom by (metis List.finite_set finite_imageI)
  have "self_addressed X m" using leafy by (simp add: leafy_def)
  moreover have "snd (repo_spec X n ?call m) = m" "settled (fst (repo_spec X n ?call m))" unfolding spec by (simp_all add: settled_def)
  ultimately obtain r c' where
    c': "client_sync_branch C oc ?heads ?known ?bf c = (r, c')" "serves c' (with_blocks w p m)"
      "and_then r (\<lambda>bs. Ok (Sent (map (addressed X) bs))) = Ok (Sent ps)"
    using read_settled [OF assms(1,2) read_request.simps(3)] unfolding spec [symmetric] client_sync_branch_def by blast
  from c'(3) obtain bs where bs: "r = Ok bs" "ps = map (addressed X) bs" by (auto simp: res_simps)
  with s2(2) spec have "synced X n make_filter K (receive_all X bs s2)" unfolding synced_def m by blast
  with bs(1) s1(1) s2(1) c'(1,2) show ?thesis by (simp add: sync_back_def unwrap_op_def branch_refs_def Let_def)
qed

end

lemma foldl_blocks:
  "distinct (map fst xs) \<Longrightarrow> \<forall>(i, b) \<in> set xs. block_id X b = i \<Longrightarrow>
    foldl (\<lambda>m b. m(block_id X b \<mapsto> plain b)) m (map snd xs) = m ++ (\<lambda>i. map_option plain (map_of xs i))"
proof (induction xs arbitrary: m)
  case (Cons x xs)
  obtain i b where x: "x = (i, b)" by (cases x)
  with Cons show ?case by (auto simp: fun_eq_iff map_add_def map_of_eq_None_iff split: option.split) (metis fst_conv image_eqI)
qed (simp add: map_add_def)

lemma built_get_all:
  assumes "built X bs s" "leafy X (hashmap_abs s)"
  shows "blocks_map X Map.empty (hashmap_get_all s) = hashmap_abs s" "\<forall>b \<in> set (hashmap_get_all s). honest X b"
proof -
  have inv: "distinct (map fst (hm_blocks s))" "\<forall>(i, b) \<in> set (hm_blocks s). block_id X b = i"
    using assms by (auto simp: built_def hashmap_invar_def)
  show "blocks_map X Map.empty (hashmap_get_all s) = hashmap_abs s"
    using foldl_blocks [OF inv, of Map.empty] by (simp add: blocks_map_def hashmap_get_all_def hashmap_abs_def)
  show "\<forall>b \<in> set (hashmap_get_all s). honest X b"
  proof
    fix b assume "b \<in> set (hashmap_get_all s)"
    then obtain i where i: "(i, b) \<in> set (hm_blocks s)" by (auto simp: hashmap_get_all_def)
    then have "hashmap_abs s i = Some (plain b)" using inv(1) by (simp add: hashmap_abs_def)
    from leafyD(2) [OF assms(2) this] i inv(2) show "honest X b" by (auto simp: honest_def)
  qed
qed

lemma with_blocks_triv: "sp_blocks w p = m \<Longrightarrow> with_blocks w p m = w"
  by (auto simp: with_blocks_def)

text \<open>A key pair that signs what its public key verifies.\<close>

definition signing_pair :: "'x externs_scheme \<Rightarrow> PrivKey \<Rightarrow> PubKey \<Rightarrow> bool" where
  "signing_pair X priv pub \<longleftrightarrow> (\<forall>m. \<exists>sig. sign X priv pub m = Ok sig \<and> verify X m sig pub = Ok ())"

lemma demo_links [simp]:
  "overlay_of_link X (RepoLink.V0 \<lparr>rl_id = Ed25519PubKey k, rl_secret = sk, rl_peers = ps\<rparr>) True = Blake3Digest32 (blake3_hash X (bytes_of k))"
  by (simp add: overlay_of_link_def)

context spec_connection
begin

lemma test_sync_ok:
  assumes "serves c w" "ready (sp_view w) user ovs repos"
    and new: "Blake3Digest32 (blake3_hash X (bytes_of (dk_repo K))) \<notin> ovs" "Ed25519PubKey (dk_repo K) \<notin> repos"
    and w: "sp_blocks w (Ed25519PubKey (dk_repo K)) = Map.empty" and fits: "demo_fits X K" "11 < n"
  shows "\<exists>st c' w'. test_sync X make_filter K C c = (Ok st, c') \<and> serves c' w' \<and> synced X n make_filter K st"
proof -
  let ?p = "Ed25519PubKey (dk_repo K)" and ?ov = "Blake3Digest32 (blake3_hash X (bytes_of (dk_repo K)))"
  let ?link = "RepoLink.V0 \<lparr>rl_id = ?p, rl_secret = demo_repo_secret, rl_peers = []\<rparr>"
  let ?m = "blocks_map X Map.empty (branch_blocks X K)"
  from build_branch_built [OF fits(1)] obtain s where
    s: "build_branch X K hashmap_new = (Ok (branch_refs X K), s)" "built X (branch_blocks X K) s" "hashmap_abs s = ?m" by (auto simp: built_def)
  note all = built_get_all [OF s(2), unfolded s(3), OF branch_blocks_leafy]
  let ?oc = "\<lparr>oc_overlay = ?ov, oc_repo_link = ?link\<rparr>"
  from connect_new [OF assms(1,2), of ?link True] new obtain c1 W where
    c1: "overlay_connect X C ?link True c = (Ok ?oc, c1)" "serves c1 (w\<lparr>sp_view := W\<rparr>)" "repo_at W ?ov = Some ?p" by auto
  let ?w = "w\<lparr>sp_view := W\<rparr>"
  have serves: "serves c1 (with_blocks ?w ?p Map.empty)" using c1(2) w with_blocks_triv [of ?w ?p Map.empty] by simp
  have ov: "repo_at (sp_view ?w) (oc_overlay ?oc) = Some ?p" using c1(3) by simp
  from send_all_ok [OF serves ov all(2)] all(1) obtain c2 where
    c2: "send_all X C ?oc (hashmap_get_all s) c1 = (Ok (), c2)" "serves c2 (with_blocks ?w ?p ?m)" by (auto simp: blocks_map_def)
  from sync_back_ok [OF c2(2) ov fits(1) refl fits(2), of make_filter] obtain st c3 where
    c3: "sync_back X make_filter K C ?oc (branch_refs X K) c2 = (Ok st, c3)" "serves c3 (with_blocks ?w ?p ?m)" "synced X n make_filter K st" by blast
  have "test_sync X make_filter K C c = (Ok st, c3)" using s(1) c1(1) c2(1) c3(1) by (simp add: test_sync_def unwrap_op_def)
  with c3(2,3) show ?thesis by blast
qed

lemma add_user_ok:
  assumes "serves c w" "signing_pair X priv user"
  shows "\<exists>c'. ae_admin (sw_users (sp_view w) u) = None \<longrightarrow> bc_add_user C u priv c = (Ok (), c')
      \<and> serves c' (w\<lparr>sp_view := (sp_view w)\<lparr>sw_users := (sw_users (sp_view w))(u := (sw_users (sp_view w) u)\<lparr>ae_admin := Some False\<rparr>)\<rparr>\<rparr>)"
    "\<exists>c'. ae_admin (sw_users (sp_view w) u) \<noteq> None \<longrightarrow> bc_add_user C u priv c = (Err UserAlreadyExists, c') \<and> serves c' w"
proof -
  from assms(2) obtain sig where sig: "sign X priv user (ser_add_user_content X \<lparr>auc_user = u\<rparr>) = Ok sig"
    "verify X (ser_add_user_content X \<lparr>auc_user = u\<rparr>) sig user = Ok ()" by (auto simp: signing_pair_def)
  from adds_user [OF assms(1) sig(1)] sig(2) show
    "\<exists>c'. ae_admin (sw_users (sp_view w) u) = None \<longrightarrow> bc_add_user C u priv c = (Ok (), c')
      \<and> serves c' (w\<lparr>sp_view := (sp_view w)\<lparr>sw_users := (sw_users (sp_view w))(u := (sw_users (sp_view w) u)\<lparr>ae_admin := Some False\<rparr>)\<rparr>\<rparr>)"
    "\<exists>c'. ae_admin (sw_users (sp_view w) u) \<noteq> None \<longrightarrow> bc_add_user C u priv c = (Err UserAlreadyExists, c') \<and> serves c' w"
    by (auto simp: add_user_spec_def)
qed

lemma users_ok:
  assumes "serves c started_spec" "signing_pair X priv user" "user \<noteq> u"
  shows "\<exists>c1 c2 c3 w. bc_add_user C u priv c = (Ok (), c1) \<and> bc_add_user C user priv c1 = (Ok (), c2)
    \<and> bc_add_user C u priv c2 = (Err UserAlreadyExists, c3) \<and> serves c3 w \<and> ready (sp_view w) user {} {} \<and> sp_blocks w = (\<lambda>_. Map.empty)"
proof -
  let ?add = "\<lambda>u w. w\<lparr>sp_view := (sp_view w)\<lparr>sw_users := (sw_users (sp_view w))(u := (sw_users (sp_view w) u)\<lparr>ae_admin := Some False\<rparr>)\<rparr>\<rparr>"
  let ?w1 = "?add u started_spec" and ?w2 = "?add user (?add u started_spec)"
  from add_user_ok(1) [OF assms(1,2), of u] obtain c1 where c1: "bc_add_user C u priv c = (Ok (), c1)" "serves c1 ?w1"
    by (auto simp: empty_view_def no_account_def)
  from add_user_ok(1) [OF c1(2) assms(2), of user] assms(3) obtain c2 where c2: "bc_add_user C user priv c1 = (Ok (), c2)" "serves c2 ?w2"
    by (auto simp: empty_view_def no_account_def)
  from add_user_ok(2) [OF c2(2) assms(2), of u] obtain c3 where "bc_add_user C u priv c2 = (Err UserAlreadyExists, c3)" "serves c3 ?w2"
    by auto
  with c1(1) c2(1) show ?thesis by (intro exI [of _ c1] exI [of _ c2] exI [of _ c3] exI [of _ ?w2]) (simp add: ready_def empty_view_def)
qed

lemma demo_test_ok:
  assumes "serves c started_spec" and keys: "signing_pair X priv user" "user \<noteq> Ed25519PubKey (fill32 1)"
    and new: "blake3_hash X (bytes_of (dk_repo K)) \<noteq> blake3_hash X (bytes_of (fill32 1))" "dk_repo K \<noteq> fill32 1"
    and fits: "demo_fits X K" "11 < n"
  shows "\<exists>c'. demo_test X n make_filter K C user priv c = (Ok (), c')"
proof -
  let ?p = "Ed25519PubKey (fill32 1)" and ?ov = "Blake3Digest32 (blake3_hash X (bytes_of (fill32 1)))"
  let ?link = "RepoLink.V0 \<lparr>rl_id = ?p, rl_secret = ChaCha20Key (fill32 0), rl_peers = []\<rparr>"
  let ?oc = "\<lparr>oc_overlay = ?ov, oc_repo_link = ?link\<rparr>" and ?b = "block_new X [] (ObjectIdList []) None (replicate 150 27) None"
  from users_ok [OF assms(1) keys] obtain c1 c2 c3 w where
    u: "bc_add_user C ?p priv c = (Ok (), c1)" "bc_add_user C user priv c1 = (Ok (), c2)" "bc_add_user C ?p priv c2 = (Err UserAlreadyExists, c3)"
    and w: "serves c3 w" "ready (sp_view w) user {} {}" "sp_blocks w = (\<lambda>_. Map.empty)" by blast
  from connect_new [OF w(1,2), of ?link True] obtain c4 W where
    c4: "overlay_connect X C ?link True c3 = (Ok ?oc, c4)" "serves c4 (w\<lparr>sp_view := W\<rparr>)" "ready W user {?ov} {?p}" "repo_at W ?ov = Some ?p" by auto
  let ?w = "w\<lparr>sp_view := W\<rparr>"
  have ov: "repo_at (sp_view ?w) (oc_overlay ?oc) = Some ?p" and n: "0 < n" using c4(4) fits(2) by simp_all
  have s4: "serves c4 (with_blocks ?w ?p Map.empty)" using c4(2) w(3) with_blocks_triv [of ?w ?p Map.empty] by simp
  have b: "honest X ?b" "leaf_block ?b" by (simp_all add: leaf_block_def)
  from put_block_ok [OF s4 ov b(1)] obtain c5 where
    c5: "client_put_block X C ?oc ?b c4 = (Ok (block_id X ?b), c5)" "serves c5 (with_blocks ?w ?p [block_id X ?b \<mapsto> plain ?b])" by blast
  from put_file_ok [OF c5(2) ov leafy_put [OF leafy_empty b]] fits(1) obtain i c6 m where
    c6: "client_put_object X C ?oc (ObjectContent.File (File.V0 \<lparr>file_content_type = [], file_metadata = [], file_content = replicate 69000 48\<rparr>)) []
        None demo_block_size ?p (ChaCha20Key (fill32 0)) c5 = (Ok i, c6)" "serves c6 (with_blocks ?w ?p m)"
      "leafy X m" "i \<in> dom m" "block_id X ?b \<in> dom m" unfolding demo_fits_def by fastforce
  from c6(4,5) obtain bi bb where m: "m i = Some bi" "m (block_id X ?b) = Some bb" by blast
  from get_leaf_ok [OF c6(2) ov c6(3) m(2) n] obtain bs7 c7 where
    c7: "client_get_block C ?oc (block_id X ?b) True None c6 = (Ok bs7, c7)" "serves c7 (with_blocks ?w ?p m)" by blast
  from get_leaf_ok [OF c7(2) ov c6(3) m(1) n] obtain bs8 c8 where
    c8: "client_get_block C ?oc i True None c7 = (Ok bs8, c8)" "serves c8 (with_blocks ?w ?p m)" by blast
  from get_object_ok [OF c8(2) ov c6(3) m(1) n] obtain ob c9 where
    c9: "client_get_object X n C ?oc i None c8 = (Ok ob, c9)" "serves c9 (with_blocks ?w ?p m)" by blast
  from delete_leaf_ok [OF c9(2) ov c6(3) m(1) n] obtain c10 where
    c10: "client_delete_object C ?oc i c9 = (Ok (), c10)" "serves c10 (with_blocks ?w ?p (m |` (- {i})))" by blast
  from get_missing [OF c10(2) ov leafy_del [OF c6(3)] _ n, of i n None] obtain c11 where
    c11: "client_get_object X n C ?oc i None c10 = (Err ProtocolError.NotFound, c11)" "serves c11 (with_blocks ?w ?p (m |` (- {i})))" by auto
  from test_sync_ok [OF c11(2) _ _ _ _ fits, of "{?ov}" "{?p}" make_filter] c4(3) w(3) new obtain st c12 where
    "test_sync X make_filter K C c11 = (Ok st, c12)" by (auto simp: with_blocks_def)
  with u c4(1) c5(1) c6(1) c7(1) c8(1) c9(1) c10(1) c11(1) show ?thesis by (simp add: demo_test_def assert_err_def Let_def)
qed

end

section \<open>Properties\<close>

text \<open>
  The demo passes over a local connection to a server that is started on an empty store: every call returns what
  it is expected to, no assertion fails and nothing panics, whatever the clock, the random bytes, the Bloom filter and the keys,
  provided that the two repositories of the demo have different keys and overlays.
\<close>

theorem demo_passes:
  fixes E :: "('b, 'd) BrokerEnv"
  assumes env: "lawful_env X E L" and fresh: "fresh X E L store disk" and clocks: "\<forall>k. clock_ok (clocks k)" and fuel: "11 < be_fuel E"
    and keys: "signing_pair X priv pub" "pub \<noteq> Ed25519PubKey (fill32 1)"
    and new: "blake3_hash X (bytes_of (dk_repo K)) \<noteq> blake3_hash X (bytes_of (fill32 1))" "dk_repo K \<noteq> fill32 1"
    and fits: "demo_fits X K"
  shows "(\<exists>s st c'. broker_new X E store Local disk = (Ok s, st)
      \<and> demo_test X (be_fuel E) make_filter K (local_connection X E pub clocks randoms) pub priv (0, s) = (Ok (), c'))
    \<and> test_local_connection X E make_filter K (priv, pub) clocks randoms store disk = Ok ()"
proof -
  from fresh_server [OF env fresh] obtain s st where
    s: "broker_new X E store Local disk = (Ok s, st)" "spec_rel X E L s started_spec" by blast
  with env clocks have "local_at X E L clocks (be_fuel E) (0, s) started_spec" by (simp add: local_at_def)
  from ls.demo_test_ok [OF this keys new fits fuel, of make_filter randoms] s(1) show ?thesis
    by (auto simp: test_local_connection_def dropped_def)
qed

text \<open>
  C14. The demo passes over a remote connection to a node that is started on an empty store: the handshake opens the
  connection, every call of the test returns over it what it is expected to, no assertion fails and nothing panics or waits
  for ever, and the connection is closed at the end.
\<close>

theorem demo_passes_remote:
  fixes E :: "('b, 'd) BrokerEnv"
  assumes env: "lawful_env X E L" and fresh: "fresh X E L store disk" and clocks: "\<forall>k. clock_ok (clocks k)" and fuel: "11 < be_fuel E"
    and keys: "signing_pair X priv pub" "pub \<noteq> Ed25519PubKey (fill32 1)"
    and new: "blake3_hash X (bytes_of (dk_repo K)) \<noteq> blake3_hash X (bytes_of (fill32 1))" "dk_repo K \<noteq> fill32 1"
    and fits: "demo_fits X K" and codec: "handshake_codec X" "\<forall>m. carried X m"
  shows "\<exists>n0 k con c' cs. run_server X E store disk = Ok n0
    \<and> open_broker_connection X (node_transport X E clock random) pub priv (Ed25519PubKey (fill32 1)) (0, connection_new, nd_server n0)
        = (Ok remote_open, (k, con, nd_server n0))
    \<and> demo_test X (be_fuel E) make_filter K (remote_connection X E (con_handler con) pub ids clocks randoms) pub priv
        (0, (remote_open, nd_server n0)) = (Ok (), c')
    \<and> test_remote_connection X E make_filter K (priv, pub) clock random ids clocks randoms (nd_server n0) = (Ok (), cs)
    \<and> \<not> rc_writable (fst cs)"
proof -
  from fresh_server [OF env fresh] obtain s st where
    s: "broker_new X E store Local disk = (Ok s, st)" "spec_rel X E L s started_spec" by blast
  let ?client = "Ed25519PubKey (fill32 1)" and ?n0 = "\<lparr>nd_server = s, nd_connections = []\<rparr>"
  let ?m = "ser_client_auth_content X \<lparr>cac_user = pub, cac_client = ?client, cac_nonce = bytes_of random\<rparr>"
  from keys(1) obtain sig where sig: "sign X priv pub ?m = Ok sig" "verify X ?m sig pub = Ok ()" by (auto simp: signing_pair_def)
  from opened_connection [OF codec(1) refl, of E clock random pub priv ?client s] sig obtain k con where
    con: "open_broker_connection X (node_transport X E clock random) pub priv ?client (0, connection_new, s) = (Ok remote_open, (k, con, s))"
      "ph_broker_protocol (con_handler con) = Some pub" by auto
  let ?C = "remote_connection X E (con_handler con) pub ids clocks randoms"
  have "remote_at X E L (con_handler con) pub clocks (be_fuel E) (0, (remote_open, s)) started_spec"
    using env clocks s(2) con(2) codec(2) by (simp add: remote_at_def local_at_def)
  from rs.demo_test_ok [OF this keys new fits fuel] obtain c' where
    c': "demo_test X (be_fuel E) make_filter K ?C pub priv (0, (remote_open, s)) = (Ok (), c')" by blast
  have "bc_close ?C c' = (Ok (), apsnd (apfst remote_close) c')" by (simp add: remote_connection_def)
  with con(1) c' have "test_remote_connection X E make_filter K (priv, pub) clock random ids clocks randoms s
      = (Ok (), snd (apsnd (apfst remote_close) c'))" by (simp add: test_remote_connection_def dropped_def)
  moreover have "run_server X E store disk = Ok ?n0" by (simp add: run_server_def s(1))
  ultimately show ?thesis using con(1) c'
    by (intro exI [of _ ?n0] exI [of _ k] exI [of _ con] exI [of _ c'] exI [of _ "apfst remote_close (snd c')"]) (simp add: remote_close_def)
qed

section \<open>Witnesses\<close>

text \<open>A serializer that keeps of a commit its number, a hash that tells the two repositories apart, and an environment with fuel for the branch.\<close>

fun short_content :: "ObjectContent \<Rightarrow> bytes" where
  "short_content (ObjectContent.Commit (Commit.V0 c)) = [1, ucast (cc_seq (com_content c))]"
| "short_content (ObjectContent.CommitBody (CommitBody.Branch _)) = [2]"
| "short_content (ObjectContent.CommitBody (CommitBody.Transaction _)) = [3]"
| "short_content (ObjectContent.CommitBody _) = [4]"
| "short_content (ObjectContent.File (File.V0 f)) = 5 # file_content f"
| "short_content _ = [6]"

definition demo_program :: server_externs where
  "demo_program = (demo_server [])\<lparr>ser_object_content := short_content, blake3_hash := (\<lambda>bs. fill32 (checksum bs + hd bs))\<rparr>"

definition demo_program_env :: "(demo_db, demo_env) BrokerEnv" where
  "demo_program_env = demo_broker_env\<lparr>be_fuel := 12\<rparr>"

definition demo_keys :: DemoKeys where
  "demo_keys = \<lparr>dk_repo = fill32 2, dk_branch = fill32 3, dk_member_secret = fill32 4, dk_member = fill32 5\<rparr>"

lemma demo_program_lawful: "lawful_env demo_program demo_program_env demo_laws"
  using demo_lawful [of "[]"] by (simp add: lawful_env_def demo_program_env_def demo_program_def net_codec_def repo_codec_def)

lemma demo_program_fresh: "fresh demo_program demo_program_env demo_laws (\<lambda>_. []) (\<lambda>_. demo_empty)"
proof -
  have "stored demo_program demo_program_env demo_laws k demo_empty" for k
    using demo_stored [of demo_program k] by (simp add: stored_def demo_program_env_def)
  then show ?thesis
    by (auto simp: fresh_def) (simp_all add: demo_laws_def list_vals_def demo_empty_def lmdb_abs_def fun_eq_iff)
qed

lemma demo_program_fields [simp]:
  "ed25519_sign demo_program sk pk m = Some (pk, fill32 (checksum m))" "ser_object_content demo_program = short_content"
  "ed25519_verify demo_program pk m (r, s) \<longleftrightarrow> r = pk \<and> s = fill32 (checksum m)"
  "blake3_hash demo_program bs = fill32 (checksum bs + hd bs)"
  by (simp_all add: demo_program_def demo_server_def auth_externs.defs repo_externs.defs demo_repo_def net_externs.defs
      demo_net_def externs.defs demo_externs_def)

theorem demo_passes_witness:
  "\<exists>s st c'. broker_new demo_program demo_program_env (\<lambda>_. []) Local (\<lambda>_. demo_empty) = (Ok s, st)
    \<and> demo_test demo_program 12 (\<lambda>ds. \<lparr>bf_k = 1, bf_f = map (hd \<circ> bytes_of) ds\<rparr>) demo_keys
        (local_connection demo_program demo_program_env (Ed25519PubKey (fill32 7)) (\<lambda>_. 1700000000) (\<lambda>_. fill32 5))
        (Ed25519PubKey (fill32 7)) (Ed25519PrivKey (fill32 9)) (0, s) = (Ok (), c')"
proof -
  have "signing_pair demo_program (Ed25519PrivKey (fill32 9)) (Ed25519PubKey (fill32 7))"
    by (simp add: signing_pair_def sign_def verify_def)
  moreover have "demo_fits demo_program demo_keys" by (simp add: demo_fits_def)
  moreover have "checksum (replicate 32 2) + 2 \<noteq> checksum (replicate 32 1) + 1" by code_simp
  moreover have "be_fuel demo_program_env = 12" by (simp add: demo_program_env_def)
  ultimately show ?thesis
    using demo_passes [OF demo_program_lawful demo_program_fresh, where clocks = "\<lambda>_. 1700000000" and K = demo_keys and priv = "Ed25519PrivKey (fill32 9)"
        and pub = "Ed25519PubKey (fill32 7)" and randoms = "\<lambda>_. fill32 5" and make_filter = "\<lambda>ds. \<lparr>bf_k = 1, bf_f = map (hd \<circ> bytes_of) ds\<rparr>"]
    by (simp add: some_clock demo_keys_def)
qed

text \<open>The same with the handshake and a serializer for all messages.\<close>

definition demo_remote :: client_externs where
  "demo_remote = demo_client\<lparr>ser_object_content := short_content, blake3_hash := (\<lambda>bs. fill32 (checksum bs + hd bs)),
     ser_broker_message := wire_ser, de_broker_message := wire_de\<rparr>"

lemma demo_remote_fields [simp]:
  "ed25519_sign demo_remote sk pk m = Some (pk, fill32 (checksum m))" "ser_object_content demo_remote = short_content"
  "ed25519_verify demo_remote pk m (r, s) \<longleftrightarrow> r = pk \<and> s = fill32 (checksum m)"
  "blake3_hash demo_remote bs = fill32 (checksum bs + hd bs)" "ser_broker_message demo_remote = wire_ser" "de_broker_message demo_remote = wire_de"
  by (simp_all add: demo_remote_def demo_client_def server_externs.defs demo_server_def auth_externs.defs repo_externs.defs demo_repo_def net_externs.defs
      demo_net_def externs.defs demo_externs_def)

lemma demo_remote_lawful: "lawful_env demo_remote demo_program_env demo_laws"
  using demo_lawful [of "[]"]
  by (simp add: lawful_env_def demo_program_env_def demo_remote_def demo_client_def server_externs.defs net_codec_def repo_codec_def)

lemma demo_remote_fresh: "fresh demo_remote demo_program_env demo_laws (\<lambda>_. []) (\<lambda>_. demo_empty)"
proof -
  have "stored demo_remote demo_program_env demo_laws k demo_empty" for k
    using demo_stored [of demo_remote k] by (simp add: stored_def demo_program_env_def)
  then show ?thesis
    by (auto simp: fresh_def) (simp_all add: demo_laws_def list_vals_def demo_empty_def lmdb_abs_def fun_eq_iff)
qed

lemma demo_remote_handshake: "handshake_codec demo_remote"
  using demo_client_codec by (simp add: handshake_codec_def demo_remote_def)

theorem demo_passes_remote_witness:
  "\<exists>n0 cs. run_server demo_remote demo_program_env (\<lambda>_. []) (\<lambda>_. demo_empty) = Ok n0
    \<and> test_remote_connection demo_remote demo_program_env (\<lambda>ds. \<lparr>bf_k = 1, bf_f = map (hd \<circ> bytes_of) ds\<rparr>) demo_keys
        (Ed25519PrivKey (fill32 9), Ed25519PubKey (fill32 7)) 1700000000 (fill32 8) of_nat (\<lambda>_. 1700000000) (\<lambda>_. fill32 5) (nd_server n0) = (Ok (), cs)
    \<and> \<not> rc_writable (fst cs)"
proof -
  have "signing_pair demo_remote (Ed25519PrivKey (fill32 9)) (Ed25519PubKey (fill32 7))"
    by (simp add: signing_pair_def sign_def verify_def)
  moreover have "demo_fits demo_remote demo_keys" by (simp add: demo_fits_def)
  moreover have "checksum (replicate 32 2) + 2 \<noteq> checksum (replicate 32 1) + 1" by code_simp
  moreover have "be_fuel demo_program_env = 12" by (simp add: demo_program_env_def)
  moreover have "carried demo_remote m" for m by (rule wire_carries) simp_all
  ultimately show ?thesis
    using demo_passes_remote [OF demo_remote_lawful demo_remote_fresh, where clocks = "\<lambda>_. 1700000000" and K = demo_keys and priv = "Ed25519PrivKey (fill32 9)"
        and pub = "Ed25519PubKey (fill32 7)" and randoms = "\<lambda>_. fill32 5" and make_filter = "\<lambda>ds. \<lparr>bf_k = 1, bf_f = map (hd \<circ> bytes_of) ds\<rparr>"
        and clock = 1700000000 and random = "fill32 8" and ids = of_nat] demo_remote_handshake
    by (simp add: some_clock demo_keys_def) blast
qed

end
