(* ===== verification/Lofire_Verify.thy ===== *)
theory Lofire_Verify
  imports Lofire_Commit
begin

text \<open>
  The properties of commits: what an accepted commit guarantees, what the answer of
  \<^verbatim>\<open>verify_deps\<close> says of the store and that the walk it makes always ends, that new commits and
  signatures verify, and the range of \<^verbatim>\<open>now_timestamp\<close>.
\<close>

section \<open>What the loads say of the store\<close>

abbreviation ld :: "'x externs_scheme \<Rightarrow> nat \<Rightarrow> (BlockId \<rightharpoonup> Block) \<Rightarrow> ObjectRef \<Rightarrow> (Commit, CommitLoadError) result" where
  "ld X n m r \<equiv> fst (commit_load X (map_store X) n r m)"

abbreviation bd :: "'x externs_scheme \<Rightarrow> nat \<Rightarrow> (BlockId \<rightharpoonup> Block) \<Rightarrow> Commit \<Rightarrow> (CommitBody, CommitLoadError) result" where
  "bd X n m c \<equiv> fst (load_body X (map_store X) n c m)"

lemma commit_set_simps [simp]:
  "commit_id (commit_set_id i c) = Some i" "commit_id (commit_set_key k c) = commit_id c"
  by (cases c; simp)+

lemma commit_load_id: "commit_load X S n r s = (Ok c, s') \<Longrightarrow> commit_id c = Some (ref_id r)"
proof (cases "object_load X S n (ref_id r) (Some (ref_key r)) s")
  case (Pair q s1)
  assume a: "commit_load X S n r s = (Ok c, s')"
  with Pair obtain ob where q: "q = Ok ob"
    by (cases q) (auto simp: commit_load_def split: ObjectParseError.splits)
  with a Pair obtain x where "object_content X ob = Ok x" by (auto simp: commit_load_def res_simps)
  with a Pair q show ?thesis by (cases x) (auto simp: commit_load_def)
qed

lemma collect_block_err: "collect_block X b p acc = Err e \<Longrightarrow> e \<in> {InvalidBlockId, BlockDeserializeError, InvalidKeys}"
  by (cases p; cases acc) (auto split: if_splits option.splits BlockContentV0.splits)

lemma collect_level_err: "collect_level X bs ps i acc = Err e \<Longrightarrow> e \<in> {InvalidBlockId, BlockDeserializeError, InvalidKeys}"
proof (induction ps arbitrary: i acc)
  case (Cons p ps)
  then show ?case using collect_block_err [of X "bs ! i" p acc]
    by (cases "collect_block X (bs ! i) p acc") (auto split: if_splits)
qed simp

lemma collect_leaves_err: "collect_leaves X bs ps i lv c = Err e \<Longrightarrow> e \<noteq> ObjectParseError.MissingBlocks b"
proof (induction X bs ps i lv c rule: collect_leaves.induct)
  case (1 X bs ps i lv c)
  show ?case
  proof (cases "collect_level X bs ps i ([], lv, c)")
    case (Ok r)
    obtain ch lv' c' where r: "r = (ch, lv', c')" by (cases r)
    show ?thesis
    proof (cases "ch = [] \<or> i < length ch")
      case True
      with Ok r 1(2) show ?thesis by (auto simp: collect_leaves.simps [of X bs ps i] split: if_splits)
    next
      case False
      with Ok r 1(2) have "collect_leaves X bs ch (i - length ch) lv' c' = Err e"
        by (simp add: collect_leaves.simps [of X bs ps i])
      with False show ?thesis by (intro 1(1)) auto
    qed
  qed (use 1(2) collect_level_err [of X bs ps i "([], lv, c)"] in \<open>auto simp: collect_leaves.simps [of X bs ps i]\<close>)
qed

lemma content_no_missing: "object_content X ob \<noteq> Err (ObjectParseError.MissingBlocks b)"
proof
  assume a: "object_content X ob = Err (ObjectParseError.MissingBlocks b)"
  then obtain k where k: "obj_blocks ob \<noteq> []" "block_key (last (obj_blocks ob)) = Some k"
    by (auto simp: object_content_def object_key_def object_root_def split: option.splits if_splits)
  let ?r = "collect_leaves X (obj_blocks ob) [(block_id X (last (obj_blocks ob)), k)] (length (obj_blocks ob) - 1) None (Some [])"
  from k a have e: "and_then ?r (\<lambda>(_, c). and_then (unwrap c) (\<lambda>c. ok_or ObjectDeserializeError (de_object_content X c)))
      = Err (ObjectParseError.MissingBlocks b)"
    by (simp add: object_content_def object_key_def object_id_def object_root_def)
  show False
  proof (cases ?r)
    case (Ok q)
    then obtain lv c where q: "q = (lv, c)" "?r = Ok (lv, c)" by (cases q) auto
    from collect_leaves_Some [OF q(2)] obtain d where "c = Some d" by blast
    with e q show ?thesis by (cases "de_object_content X d") auto
  qed (use e collect_leaves_err [of X "obj_blocks ob"] in auto)
qed

context repo_store
begin

lemma commit_load_sim:
  assumes "invar s"
  shows "\<exists>s'. commit_load X S n r s = (ld X n (\<alpha> s) r, s') \<and> invar s' \<and> \<alpha> s' = \<alpha> s"
proof -
  from object_load_sim [OF assms, of n "ref_id r" "Some (ref_key r)"] obtain s' q q' where
    q: "object_load X S n (ref_id r) (Some (ref_key r)) s = (q, s')"
      "object_load X (map_store X) n (ref_id r) (Some (ref_key r)) (\<alpha> s) = (q', \<alpha> s)"
      "rel_result (alike_objects X) (=) q q'" "invar s'" "\<alpha> s' = \<alpha> s" by blast
  from q(3) show ?thesis
    by (cases rule: result.rel_cases)
       (use q in \<open>auto simp: commit_load_def alike_objects_def object_content_alike split: ObjectParseError.split\<close>)
qed

lemma load_body_sim:
  assumes "invar s"
  shows "\<exists>s'. load_body X S n c s = (bd X n (\<alpha> s) c, s') \<and> invar s' \<and> \<alpha> s' = \<alpha> s"
proof -
  let ?r = "cc_body (commit_content c)"
  from object_load_sim [OF assms, of n "ref_id ?r" "Some (ref_key ?r)"] obtain s' q q' where
    q: "object_load X S n (ref_id ?r) (Some (ref_key ?r)) s = (q, s')"
      "object_load X (map_store X) n (ref_id ?r) (Some (ref_key ?r)) (\<alpha> s) = (q', \<alpha> s)"
      "rel_result (alike_objects X) (=) q q'" "invar s'" "\<alpha> s' = \<alpha> s" by blast
  from q(3) show ?thesis
    by (cases rule: result.rel_cases)
       (use q in \<open>auto simp: load_body_def Let_def alike_objects_def object_content_alike\<close>)
qed

text \<open>Blocks reported missing are missing, and at least one is reported.\<close>

lemma load_level_missing:
  assumes "invar s" "load_level S ps s ch bl ms = (Ok (ch', bl', ms'), s')"
  shows "set ms' \<subseteq> set ms \<union> {i. \<alpha> s i = None} \<and> invar s' \<and> \<alpha> s' = \<alpha> s"
  using assms
proof (induction ps arbitrary: s ch bl ms)
  case (Cons i ps)
  from Cons.prems(1) show ?case
  proof (cases rule: get_cases [of s i])
    case (found b s1)
    with Cons.IH [OF found(5), of _ "b # bl" ms] Cons.prems(2) show ?thesis by auto
  next
    case (missing s1)
    with Cons.IH [OF missing(3), of ch bl "ms @ [i]"] Cons.prems(2) show ?thesis by auto
  qed
qed auto

lemma load_tree_missing:
  assumes "invar s" "load_tree S n ps s bl ms = (Ok (bl', ms'), s')"
  shows "set ms' \<subseteq> set ms \<union> {i. \<alpha> s i = None} \<and> invar s' \<and> \<alpha> s' = \<alpha> s"
  using assms
proof (induction n arbitrary: ps s bl ms)
  case (Suc n)
  from Suc.prems(2) obtain ch1 bl1 ms1 s1 where "load_level S ps s [] bl ms = (Ok (ch1, bl1, ms1), s1)"
    and rest: "(if ch1 = [] then (Ok (bl1, ms1), s1) else load_tree S n ch1 s1 bl1 ms1) = (Ok (bl', ms'), s')"
    by (auto simp: load_tree.simps(2) res_simps)
  from load_level_missing [OF Suc.prems(1) this(1)]
  have l: "set ms1 \<subseteq> set ms \<union> {i. \<alpha> s i = None}" "invar s1" "\<alpha> s1 = \<alpha> s" by auto
  show ?case
  proof (cases "ch1 = []")
    case False
    with Suc.IH [OF l(2), of ch1 bl1 ms1] rest l show ?thesis by auto
  qed (use l rest in auto)
qed simp

lemma object_load_missing:
  assumes "invar s" "object_load X S n i k s = (Err (ObjectParseError.MissingBlocks b), s')"
  shows "b \<noteq> [] \<and> (\<forall>j \<in> set b. \<alpha> s j = None)"
  using assms
proof (induction n arbitrary: i k s)
  case (Suc n)
  have noerr: "load_level S ps s ch bl ms \<noteq> (Err e, s')" if "invar s" for ps s ch bl ms e s'
    using load_level_sim [OF that, of bl bl ps ch ms]
    by (auto simp: list_all2_same alike_def same_block_def)
  have noerr: "load_tree S q ps s bl ms \<noteq> (Err e, s')" if "invar s" for q ps s bl ms e s'
    using load_tree_sim [OF that, of bl bl q ps ms] by (auto simp: list_all2_same alike_def same_block_def)
  obtain r s1 where t: "load_tree S (Suc n) [i] s [] [] = (r, s1)" by fastforce
  with Suc.prems noerr [OF Suc.prems(1), of "Suc n" "[i]" "[]" "[]"] obtain bl ms where r: "r = Ok (bl, ms)"
    by (cases r) (auto simp: object_load_Suc)
  from load_tree_missing [OF Suc.prems(1) t [unfolded r]]
  have ms: "set ms \<subseteq> {i. \<alpha> s i = None}" "invar s1" "\<alpha> s1 = \<alpha> s" by auto
  show ?case
  proof (cases "ms = []")
    case True
    with Suc.prems(2) t r have ld: "load_deps X S n (butlast bl @ [with_key k (last bl)]) (with_key k (last bl)) s1
        = (Err (ObjectParseError.MissingBlocks b), s')"
      by (auto simp: object_load_Suc split: if_splits)
    then obtain d where d: "block_deps (with_key k (last bl)) = DepListRef d"
      by (auto simp: load_deps_def split: ObjectDeps.splits)
    show ?thesis
    proof (cases "object_load X S n (ref_id d) (Some (ref_key d)) s1")
      case (Pair q s2)
      show ?thesis
      proof (cases q)
        case (Ok ob)
        with Pair d ld have "object_content X ob = Err (ObjectParseError.MissingBlocks b)"
          by (cases "object_content X ob") (auto simp: load_deps_def split: ObjectContent.splits DepList.splits)
        then show ?thesis using content_no_missing by blast
      next
        case (Err e)
        with Pair d ld Suc.IH [OF ms(2)] ms(3) show ?thesis by (auto simp: load_deps_def)
      qed (use Pair d ld in \<open>auto simp: load_deps_def\<close>)
    qed
  qed (use Suc.prems(2) t r ms in \<open>auto simp: object_load_Suc\<close>)
qed simp

end

section \<open>The walk over the commits\<close>

definition ids_of :: "Commit set \<Rightarrow> ObjectId set" where
  "ids_of C = {i. \<exists>c \<in> C. commit_id c = Some i}"

text \<open>
  The commits \<open>C\<close> are complete up to the identifiers \<open>v\<close>: each one's body loads, and unless it is the
  definition of the branch all its dependencies and acknowledgements load and are in \<open>v\<close>.
\<close>

definition complete :: "'x externs_scheme \<Rightarrow> nat \<Rightarrow> (BlockId \<rightharpoonup> Block) \<Rightarrow> Commit set \<Rightarrow> ObjectId set \<Rightarrow> bool" where
  "complete X n m C v \<longleftrightarrow> (\<forall>c \<in> C. \<exists>b. bd X n m c = Ok b \<and> (to_type b \<noteq> CommitType.Branch \<longrightarrow>
     (\<forall>r \<in> set (deps_acks c). (\<exists>c'. ld X n m r = Ok c') \<and> ref_id r \<in> v)))"

lemma complete_mono: "complete X n m C v \<Longrightarrow> v \<subseteq> v' \<Longrightarrow> complete X n m C v'"
  unfolding complete_def by blast

lemma complete_Un: "complete X n m C v \<Longrightarrow> complete X n m D v \<Longrightarrow> complete X n m (C \<union> D) v"
  unfolding complete_def by blast

lemma ids_of_simps [simp]: "ids_of {} = {}" "ids_of (C \<union> D) = ids_of C \<union> ids_of D"
  by (auto simp: ids_of_def)

lemma ids_of_single: "ids_of {c} = (case commit_id c of None \<Rightarrow> {} | Some i \<Rightarrow> {i})"
  by (auto simp: ids_of_def split: option.splits)

text \<open>
  What one call has done: missing blocks are only added, and really missing; when none is
  reported, the commits \<open>C\<close> it went through, with \<open>D\<close> among them or visited before, are complete.
\<close>

definition went_through ::
  "'x externs_scheme \<Rightarrow> nat \<Rightarrow> (BlockId \<rightharpoonup> Block) \<Rightarrow> Commit set \<Rightarrow> id_set \<Rightarrow> id_set \<Rightarrow> bool" where
  "went_through X n m D v v' \<longleftrightarrow> (\<exists>C. (\<forall>d \<in> D. d \<in> C \<or> (\<exists>i \<in> v. commit_id d = Some i))
     \<and> v' = v \<union> ids_of C \<and> complete X n m C v')"

definition all_load :: "'x externs_scheme \<Rightarrow> nat \<Rightarrow> (BlockId \<rightharpoonup> Block) \<Rightarrow> ObjectRef list \<Rightarrow> id_set \<Rightarrow> bool" where
  "all_load X n m rs v \<longleftrightarrow> (\<forall>r \<in> set rs. (\<exists>c. ld X n m r = Ok c) \<and> ref_id r \<in> v)"

definition grows :: "(BlockId \<rightharpoonup> Block) \<Rightarrow> id_set \<Rightarrow> id_set \<Rightarrow> id_set \<Rightarrow> id_set \<Rightarrow> bool" where
  "grows m v ms v' ms' \<longleftrightarrow> ms \<subseteq> ms' \<and> ms' \<subseteq> ms \<union> {i. m i = None} \<and> v \<subseteq> v'
     \<and> finite (ms' - ms) \<and> finite (v' - v)"

definition walk_ok ::
  "'x externs_scheme \<Rightarrow> nat \<Rightarrow> (BlockId \<rightharpoonup> Block) \<Rightarrow> Commit set \<Rightarrow> ObjectRef list \<Rightarrow> id_set \<Rightarrow> id_set \<Rightarrow> id_set \<Rightarrow> id_set \<Rightarrow> bool" where
  "walk_ok X n m D rs v ms v' ms' \<longleftrightarrow> grows m v ms v' ms'
     \<and> (ms' = {} \<longrightarrow> went_through X n m D v v' \<and> all_load X n m rs v')"

lemma grows_refl [simp]: "grows m v ms v ms"
  by (simp add: grows_def)

lemma grows_trans:
  assumes "grows m v ms v1 ms1" "grows m v1 ms1 v2 ms2"
  shows "grows m v ms v2 ms2"
proof -
  have "ms2 - ms \<subseteq> (ms1 - ms) \<union> (ms2 - ms1)" "v2 - v \<subseteq> (v1 - v) \<union> (v2 - v1)" by blast+
  moreover have "finite ((ms1 - ms) \<union> (ms2 - ms1))" "finite ((v1 - v) \<union> (v2 - v1))"
    using assms by (simp_all add: grows_def)
  ultimately have "finite (ms2 - ms)" "finite (v2 - v)" by (meson finite_subset)+
  moreover have "ms \<subseteq> ms2" "ms2 \<subseteq> ms \<union> {i. m i = None}" "v \<subseteq> v2" using assms unfolding grows_def by blast+
  ultimately show ?thesis by (simp add: grows_def)
qed

lemma grows_missing: "\<forall>j \<in> set b. m j = None \<Longrightarrow> grows m v ms v (ms \<union> set b)"
  by (auto simp: grows_def intro: finite_subset [of _ "set b"])

lemma went_through_trans:
  assumes "went_through X n m D v v1" "went_through X n m {} v1 v2"
  shows "went_through X n m D v v2"
proof -
  from assms obtain C C' where C: "\<forall>d \<in> D. d \<in> C \<or> (\<exists>i \<in> v. commit_id d = Some i)" "v1 = v \<union> ids_of C"
    "complete X n m C v1" "v2 = v1 \<union> ids_of C'" "complete X n m C' v2" unfolding went_through_def by blast
  then have "complete X n m C v2" by (auto intro: complete_mono)
  with C have "complete X n m (C \<union> C') v2" by (blast intro: complete_Un)
  with C show ?thesis unfolding went_through_def by (intro exI [of _ "C \<union> C'"]) auto
qed

lemma went_through_refl: "\<forall>d \<in> D. \<exists>i \<in> v. commit_id d = Some i \<Longrightarrow> went_through X n m D v v"
  unfolding went_through_def by (intro exI [of _ "{}"]) (simp add: complete_def)

lemma walk_ok_Nil: "walk_ok X n m {} [] v ms v ms"
  by (simp add: walk_ok_def went_through_refl all_load_def)

lemma walk_ok_Cons:
  assumes "walk_ok X n m D [r] v ms v1 ms1" "walk_ok X n m {} rs v1 ms1 v2 ms2"
  shows "walk_ok X n m D (r # rs) v ms v2 ms2"
proof -
  have g: "grows m v ms v2 ms2" using assms grows_trans unfolding walk_ok_def by blast
  have "went_through X n m D v v2 \<and> all_load X n m (r # rs) v2" if "ms2 = {}"
  proof -
    have "ms1 = {}" using assms(2) that by (auto simp: walk_ok_def grows_def)
    with that assms have w: "went_through X n m D v v1" "all_load X n m [r] v1"
      "went_through X n m {} v1 v2" "all_load X n m rs v2" by (auto simp: walk_ok_def)
    moreover have "v1 \<subseteq> v2" using assms(2) by (simp add: walk_ok_def grows_def)
    ultimately show ?thesis using went_through_trans by (auto simp: all_load_def)
  qed
  with g show ?thesis by (simp add: walk_ok_def)
qed

lemma walk_ok_miss:
  assumes "b \<noteq> []" "\<forall>j \<in> set b. m j = None"
  shows "walk_ok X n m D rs v ms v (ms \<union> set b)"
  using assms by (simp add: walk_ok_def grows_missing)

text \<open>A commit is visited: its identifier is noted, its body loaded, its dependencies walked.\<close>

lemma grows_insert: "grows m (v \<union> ids_of {c}) ms v' ms' \<Longrightarrow> grows m v ms v' ms'"
proof (rule grows_trans)
  have "finite (ids_of {c})" by (auto simp: ids_of_single split: option.split)
  then show "grows m v ms (v \<union> ids_of {c}) ms"
    by (auto simp: grows_def intro: finite_subset [of _ "ids_of {c}"])
qed

lemma walk_ok_visit:
  assumes "walk_ok X n m {} rs (v \<union> ids_of {c}) ms v' ms'" "bd X n m c = Ok b"
    and "to_type b \<noteq> CommitType.Branch \<longrightarrow> rs = deps_acks c"
  shows "walk_ok X n m {c} [] v ms v' ms'"
proof -
  have "went_through X n m {c} v v'" if "ms' = {}"
  proof -
    from that assms(1) obtain C where C: "v' = (v \<union> ids_of {c}) \<union> ids_of C" "complete X n m C v'"
      "all_load X n m rs v'" by (auto simp: walk_ok_def went_through_def)
    then have "complete X n m {c} v'" using assms(2,3) by (auto simp: complete_def all_load_def)
    with C have "complete X n m ({c} \<union> C) v'" by (blast intro: complete_Un)
    moreover have "v' = v \<union> ids_of ({c} \<union> C)" unfolding C(1) ids_of_simps(2) by blast
    ultimately show ?thesis unfolding went_through_def by (intro exI [of _ "{c} \<union> C"]) simp
  qed
  moreover have "grows m v ms v' ms'" using assms(1) grows_insert unfolding walk_ok_def by blast
  ultimately show ?thesis by (simp add: walk_ok_def all_load_def)
qed

lemma walk_ok_visit_missing:
  assumes "walk_ok X n m {} rs (v \<union> ids_of {c}) (ms \<union> set b) v' ms'" "b \<noteq> []" "\<forall>j \<in> set b. m j = None"
  shows "walk_ok X n m {c} [] v ms v' ms'"
proof -
  have "grows m v ms v' ms'"
    using assms grows_missing grows_trans grows_insert unfolding walk_ok_def by metis
  moreover have "ms' \<noteq> {}" using assms by (auto simp: walk_ok_def grows_def)
  ultimately show ?thesis by (simp add: walk_ok_def)
qed

lemma walk_ok_ref:
  assumes "walk_ok X n m {c} [] v ms v' ms'" "ld X n m r = Ok c" "commit_id c = Some (ref_id r)"
  shows "walk_ok X n m {} [r] v ms v' ms'"
proof -
  have "ref_id r \<in> v'" if "went_through X n m {c} v v'"
    using that assms(3) by (auto simp: went_through_def ids_of_def)
  moreover have "went_through X n m {c} v v' \<Longrightarrow> went_through X n m {} v v'"
    unfolding went_through_def by blast
  ultimately show ?thesis using assms(1,2) by (auto simp: walk_ok_def all_load_def)
qed

lemma ld_missing:
  assumes "ld X n m r = Err (CommitLoadError.MissingBlocks b)"
  shows "fst (object_load X (map_store X) n (ref_id r) (Some (ref_key r)) m) = Err (ObjectParseError.MissingBlocks b)"
proof (cases "object_load X (map_store X) n (ref_id r) (Some (ref_key r)) m")
  case (Pair q s1)
  show ?thesis
  proof (cases q)
    case (Ok ob)
    with assms Pair show ?thesis
      by (cases "object_content X ob") (auto simp: commit_load_def split: ObjectContent.splits)
  qed (use assms Pair in \<open>auto simp: commit_load_def split: ObjectParseError.splits\<close>)
qed

lemma bd_missing:
  assumes "bd X n m c = Err (CommitLoadError.MissingBlocks b)"
  shows "fst (object_load X (map_store X) n (ref_id (cc_body (commit_content c)))
    (Some (ref_key (cc_body (commit_content c)))) m) = Err (ObjectParseError.MissingBlocks b)"
proof (cases "object_load X (map_store X) n (ref_id (cc_body (commit_content c)))
    (Some (ref_key (cc_body (commit_content c)))) m")
  case (Pair q s1)
  show ?thesis
  proof (cases q)
    case (Ok ob)
    with assms Pair show ?thesis
      by (cases "object_content X ob") (auto simp: load_body_def Let_def split: ObjectContent.splits)
  next
    case (Err e)
    with assms Pair show ?thesis by (cases e) (auto simp: load_body_def Let_def)
  qed (use assms Pair in \<open>auto simp: load_body_def Let_def\<close>)
qed

context repo_store
begin

lemma load_missing:
  assumes "invar s"
  shows "ld X n (\<alpha> s) r = Err (CommitLoadError.MissingBlocks b) \<Longrightarrow> b \<noteq> [] \<and> (\<forall>j \<in> set b. \<alpha> s j = None)"
    and "bd X n (\<alpha> s) c = Err (CommitLoadError.MissingBlocks b) \<Longrightarrow> b \<noteq> [] \<and> (\<forall>j \<in> set b. \<alpha> s j = None)"
proof -
  have ol: "b \<noteq> [] \<and> (\<forall>j \<in> set b. \<alpha> s j = None)"
    if "fst (object_load X (map_store X) n i k (\<alpha> s)) = Err (ObjectParseError.MissingBlocks b)" for i k
    using object_load_sim [OF assms, of n i k] object_load_missing [OF assms, of n i k b] that
    by (auto elim: result.rel_cases)
  show "ld X n (\<alpha> s) r = Err (CommitLoadError.MissingBlocks b) \<Longrightarrow> b \<noteq> [] \<and> (\<forall>j \<in> set b. \<alpha> s j = None)"
    by (rule ol [OF ld_missing])
  show "bd X n (\<alpha> s) c = Err (CommitLoadError.MissingBlocks b) \<Longrightarrow> b \<noteq> [] \<and> (\<forall>j \<in> set b. \<alpha> s j = None)"
    by (rule ol [OF bd_missing])
qed

lemma verify_deps_loop_ok:
  assumes rec: "\<And>c s v ms v' ms' s'. invar s \<Longrightarrow> \<alpha> s = m \<Longrightarrow> rec c s v ms = (Ok (v', ms'), s') \<Longrightarrow>
      walk_ok X n m {c} [] v ms v' ms' \<and> invar s' \<and> \<alpha> s' = m"
    and "invar s" "\<alpha> s = m" "verify_deps_loop rec X S n rs s v ms = (Ok (v', ms'), s')"
  shows "walk_ok X n m {} rs v ms v' ms' \<and> invar s' \<and> \<alpha> s' = m"
  using assms(2-)
proof (induction rs arbitrary: s v ms)
  case (Cons r rs)
  from commit_load_sim [OF Cons.prems(1), of n r] Cons.prems(2) obtain s1 where
    s1: "commit_load X S n r s = (ld X n m r, s1)" "invar s1" "\<alpha> s1 = m" by auto
  show ?case
  proof (cases "ld X n m r")
    case (Ok c)
    with s1 Cons.prems(3) obtain v1 ms1 s2 where
      r: "rec c s1 v ms = (Ok (v1, ms1), s2)" "verify_deps_loop rec X S n rs s2 v1 ms1 = (Ok (v', ms'), s')"
      by (auto simp: res_simps)
    have "commit_id c = Some (ref_id r)" using s1(1) Ok by (auto intro: commit_load_id)
    with rec [OF s1(2,3) r(1)] Ok have "walk_ok X n m {} [r] v ms v1 ms1" "invar s2" "\<alpha> s2 = m"
      by (auto intro: walk_ok_ref)
    with Cons.IH [OF _ _ r(2)] show ?thesis by (blast intro: walk_ok_Cons)
  next
    case (Err e)
    with s1(1) Cons.prems(3) obtain b where b: "e = CommitLoadError.MissingBlocks b"
      "verify_deps_loop rec X S n rs s1 v (ms \<union> set b) = (Ok (v', ms'), s')" by (cases e) auto
    with load_missing(1) [OF Cons.prems(1)] Err Cons.prems(2) have "walk_ok X n m {} [r] v ms v (ms \<union> set b)"
      by (auto intro!: walk_ok_miss)
    with Cons.IH [OF s1(2,3) b(2)] show ?thesis by (blast intro: walk_ok_Cons)
  qed (use s1(1) Cons.prems(3) in auto)
qed (simp add: walk_ok_Nil)

lemma verify_deps_visit_ok:
  assumes rec: "\<And>c s v ms v' ms' s'. invar s \<Longrightarrow> \<alpha> s = m \<Longrightarrow> rec c s v ms = (Ok (v', ms'), s') \<Longrightarrow>
      walk_ok X n m {c} [] v ms v' ms' \<and> invar s' \<and> \<alpha> s' = m"
    and "invar s" "\<alpha> s = m" "verify_deps_visit rec X S n c s (v \<union> ids_of {c}) ms = (Ok (v', ms'), s')"
  shows "walk_ok X n m {c} [] v ms v' ms' \<and> invar s' \<and> \<alpha> s' = m"
proof -
  from load_body_sim [OF assms(2), of n c] assms(3) obtain s1 where
    s1: "load_body X S n c s = (bd X n m c, s1)" "invar s1" "\<alpha> s1 = m" by auto
  have loop: "walk_ok X n m {} rs w ms1 v' ms' \<and> invar s' \<and> \<alpha> s' = m"
    if "verify_deps_loop rec X S n rs s1 w ms1 = (Ok (v', ms'), s')" for rs w ms1
    using that by (rule verify_deps_loop_ok [OF _ s1(2,3), rotated]) (rule rec)
  show ?thesis
  proof (cases "bd X n m c")
    case (Ok b)
    show ?thesis
    proof (cases "to_type b = CommitType.Branch")
      case True
      with assms(4) s1 Ok have "v' = v \<union> ids_of {c}" "ms' = ms" "s' = s1" by (auto simp: verify_deps_visit_def)
      with walk_ok_visit [OF walk_ok_Nil Ok] True s1 show ?thesis by simp
    next
      case False
      with assms(4) s1 Ok have "verify_deps_loop rec X S n (deps_acks c) s1 (v \<union> ids_of {c}) ms = (Ok (v', ms'), s')"
        by (simp add: verify_deps_visit_def)
      from loop [OF this] walk_ok_visit [OF _ Ok] show ?thesis by blast
    qed
  next
    case (Err e)
    with s1(1) assms(4) obtain b where b: "e = CommitLoadError.MissingBlocks b"
      "verify_deps_loop rec X S n (deps_acks c) s1 (v \<union> ids_of {c}) (ms \<union> set b) = (Ok (v', ms'), s')"
      by (cases e) (auto simp: verify_deps_visit_def)
    from load_missing(2) [OF assms(2)] Err b(1) assms(3) have "b \<noteq> []" "\<forall>j \<in> set b. m j = None" by auto
    with loop [OF b(2)] show ?thesis by (blast intro: walk_ok_visit_missing)
  qed (use s1(1) assms(4) in \<open>auto simp: verify_deps_visit_def\<close>)
qed

lemma verify_load_branch_ok:
  assumes "invar s" "\<alpha> s = m" "verify_load_branch X S n fuel c s v ms = (Ok (v', ms'), s')"
  shows "walk_ok X n m {c} [] v ms v' ms' \<and> invar s' \<and> \<alpha> s' = m"
  using assms
proof (induction fuel arbitrary: c s v ms v' ms' s')
  case (Suc fuel)
  show ?case
  proof (cases "\<exists>i \<in> v. commit_id c = Some i")
    case True
    with Suc.prems show ?thesis by (auto simp: walk_ok_def went_through_refl all_load_def)
  next
    case False
    with Suc.prems(3) have "verify_deps_visit (verify_load_branch X S n fuel) X S n c s (v \<union> ids_of {c}) ms = (Ok (v', ms'), s')"
      by (auto simp: ids_of_single split: option.splits)
    then show ?thesis by (rule verify_deps_visit_ok [OF _ Suc.prems(1,2), rotated]) (rule Suc.IH)
  qed
qed simp

lemma verify_deps_sound:
  assumes "invar s"
  shows "verify_deps X S n fuel c s = (Ok vs, s') \<Longrightarrow>
      \<exists>C. c \<in> C \<and> set vs = ids_of C \<and> complete X n (\<alpha> s) C (set vs)"
    and "verify_deps X S n fuel c s = (Err (CommitLoadError.MissingBlocks b), s') \<Longrightarrow>
      verify_load_branch X S n fuel c s {} {} \<noteq> (Err (CommitLoadError.MissingBlocks b), s') \<Longrightarrow>
      b \<noteq> [] \<and> (\<forall>j \<in> set b. \<alpha> s j = None)"
proof -
  assume "verify_deps X S n fuel c s = (Ok vs, s')"
  then obtain v where v: "verify_load_branch X S n fuel c s {} {} = (Ok (v, {}), s')" "vs = sorted_list_of_set v"
    by (auto simp: verify_deps_def res_simps split: if_splits)
  from verify_load_branch_ok [OF assms refl v(1)] have "finite v" "went_through X n (\<alpha> s) {c} {} v"
    by (auto simp: walk_ok_def grows_def)
  with v(2) show "\<exists>C. c \<in> C \<and> set vs = ids_of C \<and> complete X n (\<alpha> s) C (set vs)"
    by (auto simp: went_through_def)
next
  assume "verify_deps X S n fuel c s = (Err (CommitLoadError.MissingBlocks b), s')"
    "verify_load_branch X S n fuel c s {} {} \<noteq> (Err (CommitLoadError.MissingBlocks b), s')"
  then obtain v ms where v: "verify_load_branch X S n fuel c s {} {} = (Ok (v, ms), s')" "ms \<noteq> {}"
    "b = sorted_list_of_set ms"
    by (cases "verify_load_branch X S n fuel c s {} {}"; cases "fst (verify_load_branch X S n fuel c s {} {})")
       (auto simp: verify_deps_def split: if_splits)
  from verify_load_branch_ok [OF assms refl v(1)] have "finite ms" "ms \<subseteq> {i. \<alpha> s i = None}"
    by (auto simp: walk_ok_def grows_def)
  with v(2,3) show "b \<noteq> [] \<and> (\<forall>j \<in> set b. \<alpha> s j = None)" by auto
qed

end

section \<open>The walk ends\<close>

definition loads_return :: "'x externs_scheme \<Rightarrow> nat \<Rightarrow> (BlockId \<rightharpoonup> Block) \<Rightarrow> bool" where
  "loads_return X n m \<longleftrightarrow> (\<forall>r. ld X n m r \<noteq> Panic \<and> ld X n m r \<noteq> Hang) \<and> (\<forall>c. bd X n m c \<noteq> Panic \<and> bd X n m c \<noteq> Hang)"

text \<open>An outcome that is an answer, and not a missing-blocks error of a load.\<close>

fun answers :: "('a, CommitLoadError) result \<Rightarrow> bool" where
  "answers (Ok _) = True"
| "answers (Err e) \<longleftrightarrow> (\<forall>b. e \<noteq> CommitLoadError.MissingBlocks b)"
| "answers Panic = False"
| "answers Hang = False"

context repo_store
begin

lemma verify_deps_loop_answers:
  assumes rec: "\<And>c r s v ms. invar s \<Longrightarrow> \<alpha> s = m \<Longrightarrow> ld X n m r = Ok c \<Longrightarrow> v0 \<subseteq> v \<Longrightarrow> answers (fst (rec c s v ms))"
    and grow: "\<And>c s v ms v' ms' s'. invar s \<Longrightarrow> \<alpha> s = m \<Longrightarrow> rec c s v ms = (Ok (v', ms'), s') \<Longrightarrow> v \<subseteq> v' \<and> invar s' \<and> \<alpha> s' = m"
    and m: "loads_return X n m"
    and "invar s" "\<alpha> s = m" "v0 \<subseteq> v"
  shows "answers (fst (verify_deps_loop rec X S n rs s v ms))"
  using assms(4-)
proof (induction rs arbitrary: s v ms)
  case (Cons r rs)
  from commit_load_sim [OF Cons.prems(1), of n r] Cons.prems(2) obtain s1 where
    s1: "commit_load X S n r s = (ld X n m r, s1)" "invar s1" "\<alpha> s1 = m" by auto
  show ?case
  proof (cases "ld X n m r")
    case (Ok c)
    obtain q s2 where q: "rec c s1 v ms = (q, s2)" by fastforce
    show ?thesis
    proof (cases q)
      case (Ok p)
      obtain v1 ms1 where p: "p = (v1, ms1)" by (cases p)
      with grow [OF s1(2,3), of c v ms v1 ms1 s2] q Ok have "v \<subseteq> v1" "invar s2" "\<alpha> s2 = m" by auto
      with Cons.IH [of s2 v1 ms1] Cons.prems(3) s1(1) \<open>ld X n m r = Ok c\<close> q Ok p show ?thesis by auto
    qed (use rec [OF s1(2,3) Ok Cons.prems(3), of ms] s1(1) Ok q in auto)
  next
    case (Err e)
    with Cons.IH [OF s1(2,3) Cons.prems(3)] s1(1) show ?thesis by (cases e) auto
  qed (use m in \<open>auto simp: loads_return_def\<close>)
qed simp

lemma verify_deps_visit_answers:
  assumes "\<And>c r s v ms. invar s \<Longrightarrow> \<alpha> s = m \<Longrightarrow> ld X n m r = Ok c \<Longrightarrow> v0 \<subseteq> v \<Longrightarrow> answers (fst (rec c s v ms))"
    and "\<And>c s v ms v' ms' s'. invar s \<Longrightarrow> \<alpha> s = m \<Longrightarrow> rec c s v ms = (Ok (v', ms'), s') \<Longrightarrow> v \<subseteq> v' \<and> invar s' \<and> \<alpha> s' = m"
    and m: "loads_return X n m"
    and s: "invar s" "\<alpha> s = m" "v0 \<subseteq> v"
  shows "answers (fst (verify_deps_visit rec X S n c s v ms))"
proof -
  from load_body_sim [OF s(1), of n c] s(2) obtain s1 where
    s1: "load_body X S n c s = (bd X n m c, s1)" "invar s1" "\<alpha> s1 = m" by auto
  have loop: "answers (fst (verify_deps_loop rec X S n rs s1 v ms1))" for rs ms1
    by (rule verify_deps_loop_answers [OF _ _ m s1(2,3) s(3)]) (rule assms(1,2); assumption)+
  show ?thesis
  proof (cases "bd X n m c")
    case (Err e)
    with loop s1(1) show ?thesis by (cases e) (auto simp: verify_deps_visit_def)
  qed (use loop m s1(1) in \<open>auto simp: verify_deps_visit_def loads_return_def\<close>)
qed

lemma ld_dom:
  assumes "invar s" "ld X n (\<alpha> s) r = Ok c"
  shows "ref_id r \<in> dom (\<alpha> s)"
proof (rule ccontr)
  assume "ref_id r \<notin> dom (\<alpha> s)"
  then have "map_get (\<alpha> s) (ref_id r) = (Err StorageError.NotFound, \<alpha> s)" by (simp add: domIff)
  then have "fst (object_load X (map_store X) n (ref_id r) (Some (ref_key r)) (\<alpha> s))
      \<in> {Hang, Err (ObjectParseError.MissingBlocks [ref_id r])}"
    by (cases n) (simp_all add: object_load_Suc load_tree.simps(2) map_store_def del: map_get.simps)
  with assms(2) show False
    by (cases "object_load X (map_store X) n (ref_id r) (Some (ref_key r)) (\<alpha> s)") (auto simp: commit_load_def)
qed

lemma verify_load_branch_answers:
  assumes m: "loads_return X n m" "finite (dom m)"
    and "invar s" "\<alpha> s = m" "commit_id c = Some i" "i \<in> dom m" "card (dom m - v) < fuel"
  shows "answers (fst (verify_load_branch X S n fuel c s v ms))"
  using assms(3-)
proof (induction fuel arbitrary: c i s v ms)
  case (Suc fuel)
  show ?case
  proof (cases "i \<in> v")
    case False
    with Suc.prems(4,5) m(2) have lt: "card (dom m - insert i v) < fuel"
      by (metis Diff_insert card_Suc_Diff1 DiffI finite_Diff less_Suc_eq_le Suc_le_eq)
    have "answers (fst (verify_deps_visit (verify_load_branch X S n fuel) X S n c s (insert i v) ms))"
    proof (rule verify_deps_visit_answers [OF _ _ m(1) Suc.prems(1,2) subset_refl])
      fix c r s w ms
      assume a: "invar s" "\<alpha> s = m" "ld X n m r = Ok c" "insert i v \<subseteq> w"
      have "card (dom m - w) \<le> card (dom m - insert i v)" using a(4) m(2) by (intro card_mono) auto
      moreover have "commit_id c = Some (ref_id r)" using a(3) commit_load_id by (metis prod.collapse)
      moreover have "ref_id r \<in> dom m" using ld_dom a by blast
      ultimately show "answers (fst (verify_load_branch X S n fuel c s w ms))" using Suc.IH [OF a(1,2)] lt by simp
    next
      fix c s v ms v' ms' s'
      assume "invar s" "\<alpha> s = m" "verify_load_branch X S n fuel c s v ms = (Ok (v', ms'), s')"
      from verify_load_branch_ok [OF this] show "v \<subseteq> v' \<and> invar s' \<and> \<alpha> s' = m"
        by (simp add: walk_ok_def grows_def)
    qed
    with False Suc.prems(3) show ?thesis by simp
  qed (use Suc.prems in simp)
qed simp

lemma verify_load_branch_start:
  assumes m: "loads_return X n (\<alpha> s)" "finite (dom (\<alpha> s))" "card (dom (\<alpha> s)) < fuel" and s: "invar s"
  shows "answers (fst (verify_load_branch X S n (Suc fuel) c s {} ms))"
proof -
  have "answers (fst (verify_deps_visit (verify_load_branch X S n fuel) X S n c s v ms))" for v
  proof (rule verify_deps_visit_answers [OF _ _ m(1) s refl empty_subsetI])
    fix c r s' w ms
    assume a: "invar s'" "\<alpha> s' = \<alpha> s" "ld X n (\<alpha> s) r = Ok c"
    have "card (dom (\<alpha> s) - w) \<le> card (dom (\<alpha> s))" using m(2) by (intro card_mono) auto
    moreover have "commit_id c = Some (ref_id r)" using a(3) commit_load_id by (metis prod.collapse)
    moreover have "ref_id r \<in> dom (\<alpha> s)" using ld_dom a by metis
    ultimately show "answers (fst (verify_load_branch X S n fuel c s' w ms))"
      using verify_load_branch_answers [OF m(1,2) a(1,2)] m(3) by simp
  next
    fix c s1 v ms v' ms' s'
    assume "invar s1" "\<alpha> s1 = \<alpha> s" "verify_load_branch X S n fuel c s1 v ms = (Ok (v', ms'), s')"
    from verify_load_branch_ok [OF this] show "v \<subseteq> v' \<and> invar s' \<and> \<alpha> s' = \<alpha> s"
      by (simp add: walk_ok_def grows_def)
  qed
  then show ?thesis by (auto split: option.split)
qed

end

section \<open>Properties of commits\<close>

lemma loads_return_ranked:
  assumes "plain_map m" "ranked rank m" "\<forall>i. rank i < n"
  shows "loads_return X n m"
proof -
  have load: "(\<exists>ob s'. object_load X (map_store X) n i k m = (Ok ob, s') \<and> obj_blocks ob \<noteq> [])
      \<or> (\<exists>e s'. object_load X (map_store X) n i k m = (Err e, s'))" for i k
    using mp.object_load_ranked [OF assms(1,2), of i n X k] assms(3) by blast
  have "ld X n m r \<noteq> Panic \<and> ld X n m r \<noteq> Hang" for r
    using load [of "ref_id r" "Some (ref_key r)"]
  proof (elim disjE exE conjE)
    fix ob s' assume "object_load X (map_store X) n (ref_id r) (Some (ref_key r)) m = (Ok ob, s')" "obj_blocks ob \<noteq> []"
    with object_content_total [of ob X] show ?thesis
      by (cases "object_content X ob") (auto simp: commit_load_def split: ObjectContent.splits)
  qed (auto simp: commit_load_def split: ObjectParseError.split)
  moreover have "bd X n m c \<noteq> Panic \<and> bd X n m c \<noteq> Hang" for c
    using load [of "ref_id (cc_body (commit_content c))" "Some (ref_key (cc_body (commit_content c)))"]
  proof (elim disjE exE conjE)
    fix ob s' assume "object_load X (map_store X) n (ref_id (cc_body (commit_content c)))
      (Some (ref_key (cc_body (commit_content c)))) m = (Ok ob, s')" "obj_blocks ob \<noteq> []"
    with object_content_total [of ob X] show ?thesis
      by (cases "object_content X ob") (auto simp: load_body_def Let_def split: ObjectContent.splits)
  qed (auto simp: load_body_def Let_def)
  ultimately show ?thesis by (simp add: loads_return_def)
qed

lemma plain_map_hashmap [simp]: "plain_map (hashmap_abs s)"
  by (auto simp: plain_map_def hashmap_abs_def)

lemma finite_dom_hashmap [simp]: "finite (dom (hashmap_abs s))"
  by (rule finite_subset [OF _ finite_dom_map_of [of "hm_blocks s"]]) (auto simp: hashmap_abs_def)



text \<open>A signature made with a key pair verifies under its public key.\<close>

definition signs_verify :: "'x externs_scheme \<Rightarrow> bool" where
  "signs_verify X \<longleftrightarrow> (\<forall>sk pk m ss. ed25519_sign X sk pk m = Some ss \<longrightarrow> ed25519_verify X pk m ss)"


text \<open>
  \<^verbatim>\<open>now_timestamp\<close> is the number of whole minutes since the LoFiRe epoch when the clock is past the
  epoch and before the 32-bit minutes run out, some 8166 years later, and panics outside that range.
\<close>

theorem now_timestamp_minutes:
  "now_timestamp secs = (if unat secs < 1645568520 \<or> 1645568520 + 60 * 2 ^ 32 \<le> unat secs then Panic
     else Ok (of_nat ((unat secs - 1645568520) div 60)))"
proof -
  have e: "unat EPOCH_AS_UNIX_TIMESTAMP = 1645568520" by (simp add: EPOCH_AS_UNIX_TIMESTAMP_def)
  show ?thesis
  proof (cases "secs < EPOCH_AS_UNIX_TIMESTAMP")
    case True
    then show ?thesis by (simp add: now_timestamp_def word_less_nat_alt e)
  next
    case False
    then have le: "1645568520 \<le> unat secs" by (simp add: word_less_nat_alt e)
    have m: "unat ((secs - EPOCH_AS_UNIX_TIMESTAMP) div 60) = (unat secs - 1645568520) div 60"
      using False by (simp add: unat_div unat_sub not_less e)
    then have "ucast ((secs - EPOCH_AS_UNIX_TIMESTAMP) div 60) = (of_nat ((unat secs - 1645568520) div 60) :: u32)"
      by (metis of_nat_unat)
    with False le m show ?thesis by (auto simp: now_timestamp_def Let_def)
  qed
qed

section \<open>A concrete commit\<close>

text \<open>
  A store with the body of a branch commit, and a commit signed by the branch's only member. The
  deserializer is the one of the instance, extended with that body.
\<close>

definition demo_body :: CommitBody where
  "demo_body = CommitBody.Branch (Branch.V0 (branchv0_new demo_pubkey demo_pubkey demo_secret [] Map.empty (Hours 1) [] []))"

definition commit_externs :: externs where
  "commit_externs = demo_externs\<lparr>de_object_content := \<lambda>bs. if bs = [1] then Some (ObjectContent.CommitBody demo_body) else None\<rparr>"

definition body_ref :: ObjectRef where
  "body_ref = \<lparr>ref_id = demo_id 5, ref_key = ChaCha20Key (fill32 0)\<rparr>"

definition body_store :: HashMapRepoStore where
  "body_store = \<lparr>hm_blocks = [(demo_id 5, Block.V0 \<lparr>blk_id = Some (demo_id 5), blk_key = None, blk_children = [],
     blk_deps = ObjectIdList [], blk_expiry = None, blk_content = [1, 1]\<rparr>)]\<rparr>"

definition demo_commit :: Commit where
  "demo_commit = Commit.V0 \<lparr>com_id = None, com_key = None, com_content =
     \<lparr>cc_author = demo_pubkey, cc_seq = 1, cc_branch = body_ref, cc_deps = [], cc_acks = [], cc_refs = [],
      cc_metadata = [], cc_body = body_ref, cc_expiry = None\<rparr>, com_sig = Ed25519Sig (fill32 1, fill32 7)\<rparr>"

definition demo_members :: Branch where
  "demo_members = Branch.V0 (branchv0_new demo_pubkey demo_pubkey demo_secret
     [memberv0_new demo_pubkey [CommitType.Branch] []] Map.empty (Hours 1) [] [])"

lemma body_store_invar: "hashmap_invar X body_store"
  by (simp add: hashmap_invar_def body_store_def)

lemma body_store_load_body:
  "load_body commit_externs (hashmap_store commit_externs) (Suc 0) demo_commit body_store = (Ok demo_body, body_store)"
  by (simp add: load_body_def Let_def demo_commit_def body_ref_def object_load_Suc load_tree.simps(2) hashmap_store_def
      hashmap_get_def body_store_def load_deps_def with_key_def object_content_def object_key_def object_id_def
      object_root_def collect_leaves.simps decrypt_content_def commit_externs_def xor_cipher_def)

lemma demo_commit_deps:
  "verify_deps commit_externs (hashmap_store commit_externs) (Suc 0) 3 demo_commit body_store = (Ok [], body_store)"
proof -
  have "commit_id demo_commit = None" by (simp add: demo_commit_def)
  then show ?thesis
    by (simp add: numeral_3_eq_3 verify_deps_def verify_deps_visit_def body_store_load_body)
       (simp add: demo_body_def)
qed


lemma demo_commit_verify:
  "commit_verify commit_externs (hashmap_store commit_externs) (Suc 0) 3 demo_commit demo_members body_store
     = (Ok (), body_store)"
proof -
  have "verify_sig commit_externs demo_commit = Ok ()"
    by (simp add: demo_commit_def commit_externs_def demo_pubkey_def checksum_def)
  moreover have "verify_perm demo_commit demo_body demo_members = Ok ()"
    by (simp add: verify_perm_def demo_commit_def demo_members_def branchv0_new_def memberv0_new_def
        memberv0_has_perm_def demo_body_def)
  ultimately show ?thesis
    by (simp add: commit_verify_def map_op_err_def body_store_load_body demo_commit_deps)
qed



end
