(* ===== verification/Lofire_Branch_Test.thy ===== *)
theory Lofire_Branch_Test
  imports Lofire_Demo Lofire_Verify
begin

text \<open>
  The test \<^verbatim>\<open>test_branch\<close> of \<^verbatim>\<open>src/lofire/src/branch.rs\<close>, which builds the same branch as the demo program with the same helper functions
  and then verifies a commit and synchronizes; and what a synchronization of that branch sends.
\<close>

section \<open>The test\<close>

definition test_branch ::
  "'x externs_scheme \<Rightarrow> nat \<Rightarrow> nat \<Rightarrow> (bytes32 list \<Rightarrow> BloomFilter) \<Rightarrow> DemoKeys \<Rightarrow> (unit, ProtocolError) result" where
  "test_branch X n fuel make_filter K =
     (case build_branch X K hashmap_new of (r, store) \<Rightarrow>
      and_then r (\<lambda>R.
        case commit_load X (hashmap_store X) n (rf_a7 R) store of (r, store) \<Rightarrow>
      and_then (unwrap_res r) (\<lambda>c7.
        case commit_verify X (hashmap_store X) n fuel c7 (demo_branch_of K) store of (r, store) \<Rightarrow>
      and_then (unwrap_res r) (\<lambda>_.
        let their_commits = make_filter (map (\<lambda>r. case ref_id r of Blake3Digest32 d \<Rightarrow> d) [rf_br R, rf_t1 R, rf_t2 R, rf_a3 R, rf_t5 R, rf_a6 R]) in
        case sync_req X (hashmap_store X) n fuel [ref_id (rf_a3 R), ref_id (rf_t5 R), ref_id (rf_a6 R), ref_id (rf_a7 R)]
               [ref_id (rf_a3 R), ref_id (rf_t5 R)] their_commits store of (r, store) \<Rightarrow>
      and_then (unwrap_res r) (\<lambda>ids.
        if length ids = 1 \<and> ref_id (rf_a7 R) \<in> set ids then Ok () else Panic)))))"

section \<open>The graph of the branch\<close>

definition distinct_blocks :: "'x externs_scheme \<Rightarrow> DemoKeys \<Rightarrow> bool" where
  "distinct_blocks X K \<longleftrightarrow> distinct (map (block_id X) (branch_blocks X K))"

abbreviation branch_map :: "'x externs_scheme \<Rightarrow> DemoKeys \<Rightarrow> BlockId \<rightharpoonup> Block" where
  "branch_map X K \<equiv> blocks_map X Map.empty (branch_blocks X K)"

lemma blocks_map_other: "i \<notin> block_id X ` set bs \<Longrightarrow> blocks_map X m bs i = m i"
  by (induction bs arbitrary: m) auto

lemma blocks_map_get: "distinct (map (block_id X) bs) \<Longrightarrow> b \<in> set bs \<Longrightarrow> blocks_map X m bs (block_id X b) = Some (plain b)"
  by (induction bs arbitrary: m) (auto simp: blocks_map_other)

lemma leaf_graph:
  assumes "m i = Some (plain b)" "leaf_block b" "block_deps b = ObjectIdList ds"
  shows "dep_graph X (Suc k) m i = Some ds"
proof -
  obtain b1 where b1: "b = Block.V0 b1" by (cases b)
  with load_on_leaf [of m i "b1\<lparr>blk_id := None, blk_key := None\<rparr>" ds X k] assms show ?thesis
    by (simp add: dep_graph_def load_on_def leaf_block_def)
qed

lemma branch_block_in [simp]:
  "branch_body X K \<in> set (branch_blocks X K)" "ack_body X K \<in> set (branch_blocks X K)" "trans_body X K \<in> set (branch_blocks X K)"
  "br_block X K \<in> set (branch_blocks X K)" "t1_block X K \<in> set (branch_blocks X K)" "t2_block X K \<in> set (branch_blocks X K)"
  "a3_block X K \<in> set (branch_blocks X K)" "t4_block X K \<in> set (branch_blocks X K)" "t5_block X K \<in> set (branch_blocks X K)"
  "a6_block X K \<in> set (branch_blocks X K)" "a7_block X K \<in> set (branch_blocks X K)"
  by (simp_all add: branch_blocks_def)

lemmas commit_defs = br_block_def t1_block_def t2_block_def a3_block_def t4_block_def t5_block_def a6_block_def a7_block_def

lemma commit_block_leaf [simp]:
  "leaf_block (commit_block X K seq deps acks body)" "block_deps (commit_block X K seq deps acks body) = ObjectIdList (map (block_id X) (deps @ acks))"
  by (simp_all add: commit_block_def)

lemma commit_leafs [simp]:
  "leaf_block (br_block X K)" "leaf_block (t1_block X K)" "leaf_block (t2_block X K)" "leaf_block (a3_block X K)" "leaf_block (t4_block X K)"
  "leaf_block (t5_block X K)" "leaf_block (a6_block X K)" "leaf_block (a7_block X K)"
  by (simp_all add: commit_defs)

lemma commit_deps [simp]:
  "block_deps (br_block X K) = ObjectIdList []" "block_deps (t1_block X K) = ObjectIdList [block_id X (br_block X K)]"
  "block_deps (t2_block X K) = ObjectIdList [block_id X (br_block X K)]" "block_deps (a3_block X K) = ObjectIdList [block_id X (t1_block X K)]"
  "block_deps (t4_block X K) = ObjectIdList [block_id X (t2_block X K), block_id X (t1_block X K)]"
  "block_deps (t5_block X K) = ObjectIdList [block_id X (t1_block X K), block_id X (t2_block X K), block_id X (t4_block X K)]"
  "block_deps (a6_block X K) = ObjectIdList [block_id X (t4_block X K)]" "block_deps (a7_block X K) = ObjectIdList [block_id X (t4_block X K)]"
  by (simp_all add: commit_defs)

lemma branch_graph:
  assumes "distinct_blocks X K" "G = dep_graph X (Suc k) (branch_map X K)"
  shows "G (block_id X (br_block X K)) = Some []"
    "G (block_id X (t1_block X K)) = Some [block_id X (br_block X K)]"
    "G (block_id X (t2_block X K)) = Some [block_id X (br_block X K)]"
    "G (block_id X (a3_block X K)) = Some [block_id X (t1_block X K)]"
    "G (block_id X (t4_block X K)) = Some [block_id X (t2_block X K), block_id X (t1_block X K)]"
    "G (block_id X (t5_block X K)) = Some [block_id X (t1_block X K), block_id X (t2_block X K), block_id X (t4_block X K)]"
    "G (block_id X (a6_block X K)) = Some [block_id X (t4_block X K)]"
    "G (block_id X (a7_block X K)) = Some [block_id X (t4_block X K)]"
proof -
  have get: "branch_map X K (block_id X b) = Some (plain b)" if "b \<in> set (branch_blocks X K)" for b
    using blocks_map_get [of X "branch_blocks X K" b] assms(1) that by (simp add: distinct_blocks_def)
  have G: "G (block_id X b) = Some ds" if "b \<in> set (branch_blocks X K)" "leaf_block b" "block_deps b = ObjectIdList ds" for b ds
    using leaf_graph [of "branch_map X K" "block_id X b" b ds X k] get that by (simp add: assms(2))
  show "G (block_id X (br_block X K)) = Some []"
    "G (block_id X (t1_block X K)) = Some [block_id X (br_block X K)]"
    "G (block_id X (t2_block X K)) = Some [block_id X (br_block X K)]"
    "G (block_id X (a3_block X K)) = Some [block_id X (t1_block X K)]"
    "G (block_id X (t4_block X K)) = Some [block_id X (t2_block X K), block_id X (t1_block X K)]"
    "G (block_id X (t5_block X K)) = Some [block_id X (t1_block X K), block_id X (t2_block X K), block_id X (t4_block X K)]"
    "G (block_id X (a6_block X K)) = Some [block_id X (t4_block X K)]"
    "G (block_id X (a7_block X K)) = Some [block_id X (t4_block X K)]"
    using G [OF branch_block_in(4)] G [OF branch_block_in(5)] G [OF branch_block_in(6)] G [OF branch_block_in(7)]
      G [OF branch_block_in(8)] G [OF branch_block_in(9)] G [OF branch_block_in(10)] G [OF branch_block_in(11)] by simp_all
qed

lemma sync_reach_closed:
  assumes "sync_reach G T h i" "expandable G T h \<Longrightarrow> h \<in> S"
    and "\<And>j ds d. j \<in> S \<Longrightarrow> G j = Some ds \<Longrightarrow> d \<in> set ds \<Longrightarrow> expandable G T d \<Longrightarrow> d \<in> S"
  shows "i \<in> S"
  using assms(1) by (induction rule: sync_reach.induct) (use assms(2,3) in blast)+

definition branch_shape :: "(ObjectId \<Rightarrow> ObjectId list option) \<Rightarrow> ObjectId list \<Rightarrow> bool" where
  "branch_shape G ids \<longleftrightarrow> distinct ids \<and> (case ids of
     [br, t1, t2, a3, t4, t5, a6, a7] \<Rightarrow> G br = Some [] \<and> G t1 = Some [br] \<and> G t2 = Some [br] \<and> G a3 = Some [t1] \<and> G t4 = Some [t2, t1]
       \<and> G t5 = Some [t1, t2, t4] \<and> G a6 = Some [t4] \<and> G a7 = Some [t4]
   | _ \<Rightarrow> False)"

lemma branch_reach_from:
  assumes "branch_shape G [br, t1, t2, a3, t4, t5, a6, a7]" "H \<subseteq> {a3, t5, a6, a7}" "T \<inter> {t1, t2, t4} = {}" "\<exists>h \<in> H - T. h \<noteq> a3"
  shows "(\<exists>h \<in> H. sync_reach G T h i) \<longleftrightarrow> i \<in> H - T \<union> {t4, t2, t1}"
proof -
  have d: "distinct [br, t1, t2, a3, t4, t5, a6, a7]" and G: "G br = Some []" "G t1 = Some [br]" "G t2 = Some [br]" "G a3 = Some [t1]"
    "G t4 = Some [t2, t1]" "G t5 = Some [t1, t2, t4]" "G a6 = Some [t4]" "G a7 = Some [t4]" using assms(1) by (simp_all add: branch_shape_def)
  have e: "expandable G T t1" "expandable G T t2" "expandable G T t4" "\<not> expandable G T br" "h \<in> H \<Longrightarrow> expandable G T h \<longleftrightarrow> h \<notin> T" for h
    using assms(2,3) G by (auto simp: expandable_def)
  show ?thesis
  proof
    assume "\<exists>h \<in> H. sync_reach G T h i"
    then obtain h where h: "h \<in> H" "sync_reach G T h i" by blast
    have "d \<in> {t4, t2, t1}" if "j \<in> H - T \<union> {t4, t2, t1}" "G j = Some ds" "d \<in> set ds" "expandable G T d" for j ds d
    proof -
      from that(1) assms(2) consider "j = a3" | "j = t5" | "j = a6" | "j = a7" | "j = t4" | "j = t2" | "j = t1" by blast
      then show ?thesis by cases (use that(2-4) G e(4) in auto)
    qed
    with h show "i \<in> H - T \<union> {t4, t2, t1}" by (intro sync_reach_closed [OF h(2)]) (auto simp: e(5))
  next
    assume i: "i \<in> H - T \<union> {t4, t2, t1}"
    have start: "sync_reach G T h h" if "h \<in> H - T" for h using that e(5) by (auto intro: sync_reach.start)
    from assms(2,4) obtain h ds where h: "h \<in> H - T" "G h = Some ds" "t4 \<in> set ds" using G by auto
    have t4: "sync_reach G T h t4" by (rule sync_reach.step [OF start h(2,3) e(3)]) (rule h(1))
    from sync_reach.step [OF t4 G(5), of t2] sync_reach.step [OF t4 G(5), of t1] e(1,2) have "sync_reach G T h t2" "sync_reach G T h t1" by simp_all
    with i h(1) t4 start show "\<exists>h \<in> H. sync_reach G T h i" by blast
  qed
qed

section \<open>The commits load\<close>

text \<open>What the serializers, the cipher and the signature do on the contents of the branch; a new commit has no cached identifier or key.\<close>

definition branch_codec :: "'x externs_scheme \<Rightarrow> DemoKeys \<Rightarrow> bool" where
  "branch_codec X K \<longleftrightarrow> stream_cipher X \<and> block_content_codec X \<and> content_tagged X
     \<and> (\<forall>c. com_id c = None \<and> com_key c = None \<longrightarrow> object_content_codec X (ObjectContent.Commit (Commit.V0 c)))
     \<and> (\<forall>body \<in> {CommitBody.Branch (demo_branch_of K), CommitBody.Transaction (Transaction.V0 (replicate 777 7)), CommitBody.Ack Ack.V0}.
          object_content_codec X (ObjectContent.CommitBody body))
     \<and> (\<forall>msg ss. ed25519_sign X (dk_member_secret K) (dk_member K) msg = Some ss \<longrightarrow> ed25519_verify X (dk_member K) msg ss)"

lemma obj_block_loads:
  assumes X: "branch_codec X K" and c: "object_content_codec X content" "length deps \<le> 3" "length (ser_object_content X content) \<le> 3900"
    and m: "plain_map m" "m (block_id X (obj_block X K content deps)) = Some (plain (obj_block X K content deps))"
  shows "\<exists>ob. object_load X (map_store X) (Suc k) (block_id X (obj_block X K content deps)) (Some (the (block_key (obj_block X K content deps)))) m = (Ok ob, m)
    \<and> object_content X ob = Ok content"
proof -
  let ?b = "obj_block X K content deps"
  have laws: "stream_cipher X" "block_content_codec X" "content_tagged X" using X by (simp_all add: branch_codec_def)
  from object_new_facts [OF laws obj_block_new [OF c(2,3), where 'e = ProtocolError, of K]] obtain L ds where
    mk: "merkle X [?b] L ds" "concat ds = ser_object_content X content" by auto
  have "\<forall>b \<in> set [?b]. holds X m b" using m(2) by (simp add: holds_def)
  from mp.object_load_merkle [OF mk(1) m(1) this, of "Suc k" deps "Some (the (block_key ?b))"] obtain ob s' where
    ob: "object_load X (map_store X) (Suc k) (block_id X ?b) (Some (the (block_key ?b))) m = (Ok ob, s')"
      "list_all2 (same_block X) (obj_blocks ob) [?b]" "block_key (last (obj_blocks ob)) = Some (the (block_key ?b))" "s' = m" by auto
  from content_of_loaded(1) [OF mk(1) ob(2)] ob(3) mk(2) c(1) have "object_content X ob = Ok content"
    by (simp add: object_content_codec_def)
  with ob(1,4) show ?thesis by blast
qed

definition loaded_commit :: "'x externs_scheme \<Rightarrow> DemoKeys \<Rightarrow> u32 \<Rightarrow> Block list \<Rightarrow> Block list \<Rightarrow> Block \<Rightarrow> Commit" where
  "loaded_commit X K seq deps acks body = (let r = block_ref X (commit_block X K seq deps acks body) in
     commit_set_key (ref_key r) (commit_set_id (ref_id r) (Commit.V0 (made_commit X K (block_ref X (branch_body X K)) seq
       (map (block_ref X) deps) (map (block_ref X) acks) (block_ref X body)))))"

lemma commit_block_loads:
  assumes "branch_codec X K" "demo_fits X K" "length deps + length acks \<le> 3" "plain_map m"
    "m (block_id X (commit_block X K seq deps acks body)) = Some (plain (commit_block X K seq deps acks body))"
  shows "ld X (Suc k) m (block_ref X (commit_block X K seq deps acks body)) = Ok (loaded_commit X K seq deps acks body)"
proof -
  let ?c = "made_commit X K (block_ref X (branch_body X K)) seq (map (block_ref X) deps) (map (block_ref X) acks) (block_ref X body)"
  have "com_id ?c = None" "com_key ?c = None" by (simp_all add: made_commit_def Let_def)
  with assms(1) have "object_content_codec X (ObjectContent.Commit (Commit.V0 ?c))" unfolding branch_codec_def by blast
  moreover have "length (ser_object_content X (ObjectContent.Commit (Commit.V0 ?c))) \<le> 3900"
    using assms(2,3) by (auto simp: demo_fits_def made_commit_def made_content_def Let_def)
  ultimately show ?thesis using obj_block_loads [OF assms(1), of "ObjectContent.Commit (Commit.V0 ?c)" "map (block_id X) (deps @ acks)" m k] assms(3-5)
    by (auto simp: commit_load_def commit_block_def loaded_commit_def block_ref_def Let_def)
qed

lemma body_loads:
  assumes "branch_codec X K" "demo_fits X K" "plain_map m" "m (block_id X (obj_block X K (ObjectContent.CommitBody body) []))
      = Some (plain (obj_block X K (ObjectContent.CommitBody body) []))"
    "body \<in> {CommitBody.Branch (demo_branch_of K), CommitBody.Transaction (Transaction.V0 (replicate 777 7)), CommitBody.Ack Ack.V0}"
    "cc_body (commit_content c) = block_ref X (obj_block X K (ObjectContent.CommitBody body) [])"
  shows "bd X (Suc k) m c = Ok body"
proof -
  have "object_content_codec X (ObjectContent.CommitBody body)" using assms(1,5) unfolding branch_codec_def by blast
  moreover have "length (ser_object_content X (ObjectContent.CommitBody body)) \<le> 3900" using assms(2,5) unfolding demo_fits_def by blast
  ultimately show ?thesis using obj_block_loads [OF assms(1), of "ObjectContent.CommitBody body" "[]" m k] assms(3,4,6)
    by (auto simp: load_body_def block_ref_def Let_def)
qed

section \<open>The walk of verify\<close>

text \<open>From a commit the walk returns, with nothing missing, on any state of a store that holds the blocks \<open>m\<close>.\<close>

definition walks :: "'x externs_scheme \<Rightarrow> 's RepoStore \<Rightarrow> ('s \<Rightarrow> bool) \<Rightarrow> nat \<Rightarrow> nat \<Rightarrow> Commit \<Rightarrow> bool" where
  "walks X S good n f c \<longleftrightarrow> (\<forall>s v. good s \<longrightarrow> (\<exists>s' v'. verify_load_branch X S n f c s v {} = (Ok (v', {}), s') \<and> good s'))"

context repo_store
begin

lemma walks_loop:
  assumes "\<forall>d \<in> set ds. \<exists>c. ld X n m d = Ok c \<and> walks X S (holding invar \<alpha> m) n f c" "invar s" "\<alpha> s = m"
  shows "\<exists>s' v'. verify_deps_loop (\<lambda>c st v ms. verify_load_branch X S n f c st v ms) X S n ds s v {} = (Ok (v', {}), s') \<and> invar s' \<and> \<alpha> s' = m"
  using assms
proof (induction ds arbitrary: s v)
  case (Cons d ds)
  then obtain c where c: "ld X n m d = Ok c" "walks X S (holding invar \<alpha> m) n f c" by auto
  from commit_load_sim [OF Cons.prems(2), of n d] c(1) Cons.prems(3) obtain s1 where
    s1: "commit_load X S n d s = (Ok c, s1)" "invar s1" "\<alpha> s1 = m" by auto
  with c(2) obtain s2 v2 where s2: "verify_load_branch X S n f c s1 v {} = (Ok (v2, {}), s2)" "invar s2" "\<alpha> s2 = m" unfolding walks_def holding_def by blast
  from Cons.IH [OF _ s2(2,3), of v2] Cons.prems(1) s1(1) s2(1) show ?case by auto
qed auto

lemma walks_step:
  assumes "bd X n m c = Ok body" "to_type body = CommitType.Branch \<or> (\<forall>d \<in> set (deps_acks c). \<exists>c. ld X n m d = Ok c \<and> walks X S (holding invar \<alpha> m) n f c)"
  shows "walks X S (holding invar \<alpha> m) n (Suc f) c"
  unfolding walks_def holding_def
proof (intro allI impI)
  fix s v assume s: "invar s \<and> \<alpha> s = m"
  have visit: "\<exists>s' v'. verify_deps_visit (\<lambda>c st v ms. verify_load_branch X S n f c st v ms) X S n c s v {} = (Ok (v', {}), s') \<and> invar s' \<and> \<alpha> s' = m" for v
  proof -
    from load_body_sim [of s n c] s assms(1) obtain s1 where s1: "load_body X S n c s = (Ok body, s1)" "invar s1" "\<alpha> s1 = m" by auto
    with walks_loop [of "deps_acks c" n m f s1 v] assms(2) show ?thesis by (auto simp: verify_deps_visit_def)
  qed
  then show "\<exists>s' v'. verify_load_branch X S n (Suc f) c s v {} = (Ok (v', {}), s') \<and> invar s' \<and> \<alpha> s' = m"
    using s by (cases "commit_id c") auto
qed

end

lemma loaded_commit_simps [simp]:
  "deps_acks (loaded_commit X K seq deps acks body) = map (block_ref X) (acks @ deps)"
  "cc_body (commit_content (loaded_commit X K seq deps acks body)) = block_ref X body"
  "cc_author (commit_content (loaded_commit X K seq deps acks body)) = Ed25519PubKey (dk_member K)"
  by (simp_all add: loaded_commit_def made_commit_def made_content_def Let_def)

lemma loaded_commit_signed:
  assumes "branch_codec X K" "demo_fits X K"
  shows "verify_sig X (loaded_commit X K seq deps acks body) = Ok ()"
proof -
  let ?c = "made_content K (block_ref X (branch_body X K)) seq (map (block_ref X) deps) (map (block_ref X) acks) (block_ref X body)"
  obtain ss where ss: "ed25519_sign X (dk_member_secret K) (dk_member K) (ser_commit_content X ?c) = Some ss"
    using assms(2) unfolding demo_fits_def by blast
  moreover from ss assms(1) have "ed25519_verify X (dk_member K) (ser_commit_content X ?c) ss" unfolding branch_codec_def by blast
  moreover have "cc_author ?c = Ed25519PubKey (dk_member K)" by (simp add: made_content_def)
  ultimately show ?thesis by (simp add: loaded_commit_def made_commit_def Let_def)
qed

lemma demo_member_may_ack:
  "cc_author (commit_content c) = Ed25519PubKey (dk_member K) \<Longrightarrow> verify_perm c (CommitBody.Ack Ack.V0) (demo_branch_of K) = Ok ()"
  by (simp add: verify_perm_def demo_branch_of_def branch_new_def branchv0_new_def memberv0_new_def memberv0_has_perm_def Let_def)

lemma a7_verifies:
  assumes X: "branch_codec X K" "demo_fits X K" and d: "distinct_blocks X K" and s: "built X (branch_blocks X K) s"
  shows "\<exists>c s1 s2. commit_load X (hashmap_store X) (Suc k) (block_ref X (a7_block X K)) s = (Ok c, s1)
    \<and> commit_verify X (hashmap_store X) (Suc k) (Suc (Suc (Suc (Suc f)))) c (demo_branch_of K) s1 = (Ok (), s2) \<and> built X (branch_blocks X K) s2"
proof -
  let ?m = "branch_map X K" and ?w = "walks X (hashmap_store X) (holding (hashmap_invar X) hashmap_abs (branch_map X K)) (Suc k)"
  have plain: "plain_map ?m" by (rule leafy_plain [OF branch_blocks_leafy])
  have get: "?m (block_id X b) = Some (plain b)" if "b \<in> set (branch_blocks X K)" for b
    using blocks_map_get [of X "branch_blocks X K" b] d that by (simp add: distinct_blocks_def)
  have load: "ld X (Suc k) ?m (block_ref X b) = Ok (loaded_commit X K seq deps acks body)"
    if "b = commit_block X K seq deps acks body" "b \<in> set (branch_blocks X K)" "length deps + length acks \<le> 3" for b seq deps acks body
    using commit_block_loads [OF X that(3) plain, of seq body k] get that(1,2) by simp
  have body: "bd X (Suc k) ?m (loaded_commit X K seq deps acks (branch_body X K)) = Ok (CommitBody.Branch (demo_branch_of K))"
    "bd X (Suc k) ?m (loaded_commit X K seq deps acks (trans_body X K)) = Ok (CommitBody.Transaction (Transaction.V0 (replicate 777 7)))"
    "bd X (Suc k) ?m (loaded_commit X K seq deps acks (ack_body X K)) = Ok (CommitBody.Ack Ack.V0)" for seq deps acks
    by (rule body_loads [OF X plain]; simp add: get)+
  note ld = load [OF br_block_def branch_block_in(4)] load [OF t1_block_def branch_block_in(5)] load [OF t2_block_def branch_block_in(6)]
    load [OF t4_block_def branch_block_in(8)] load [OF a7_block_def branch_block_in(11)]
  have br: "?w (Suc f) (loaded_commit X K 0 [] [] (branch_body X K))" by (rule hm.walks_step [OF body(1)]) simp
  have t: "?w (Suc (Suc f)) (loaded_commit X K seq [br_block X K] [] (trans_body X K))" for seq
    by (rule hm.walks_step [OF body(2)]) (use ld(1) br in simp)
  have t4: "?w (Suc (Suc (Suc f))) (loaded_commit X K 4 [t2_block X K] [t1_block X K] (trans_body X K))"
    by (rule hm.walks_step [OF body(2)]) (use ld(2,3) t in simp)
  let ?c = "loaded_commit X K 7 [t4_block X K] [] (ack_body X K)"
  have a7: "?w (Suc (Suc (Suc (Suc f)))) ?c" by (rule hm.walks_step [OF body(3)]) (use ld(4) t4 in simp)
  have s0: "hashmap_invar X s" "hashmap_abs s = ?m" using s by (simp_all add: built_def)
  from hm.commit_load_sim [OF s0(1), of "Suc k" "block_ref X (a7_block X K)"] ld(5) s0(2) obtain s1 where
    s1: "commit_load X (hashmap_store X) (Suc k) (block_ref X (a7_block X K)) s = (Ok ?c, s1)" "hashmap_invar X s1" "hashmap_abs s1 = ?m" by auto
  from hm.load_body_sim [OF s1(2), of "Suc k" ?c] body(3) s1(3) obtain s2 where
    s2: "load_body X (hashmap_store X) (Suc k) ?c s1 = (Ok (CommitBody.Ack Ack.V0), s2)" "hashmap_invar X s2" "hashmap_abs s2 = ?m" by auto
  from a7 s2(2,3) obtain s3 v where
    s3: "verify_load_branch X (hashmap_store X) (Suc k) (Suc (Suc (Suc (Suc f)))) ?c s2 {} {} = (Ok (v, {}), s3)" "hashmap_invar X s3" "hashmap_abs s3 = ?m"
    unfolding walks_def holding_def by blast
  have "commit_verify X (hashmap_store X) (Suc k) (Suc (Suc (Suc (Suc f)))) ?c (demo_branch_of K) s1 = (Ok (), s3)"
    using s2(1) s3(1) demo_member_may_ack [of ?c K] loaded_commit_signed [OF X]
    by (simp add: commit_verify_def verify_deps_def map_op_err_def del: verify_load_branch.simps)
  with s1(1) s3(2,3) show ?thesis by (auto simp: built_def)
qed

section \<open>Synchronizing the branch\<close>

text \<open>The Bloom filter makes no mistake on the identifiers of the branch.\<close>

definition exact_filter :: "'x externs_scheme \<Rightarrow> (bytes32 list \<Rightarrow> BloomFilter) \<Rightarrow> DemoKeys \<Rightarrow> bool" where
  "exact_filter X make_filter K \<longleftrightarrow> (\<forall>ds. \<forall>b \<in> set (branch_blocks X K).
     bloom_has X (make_filter ds) (block_id X b) \<longleftrightarrow> block_id X b \<in> Blake3Digest32 ` set ds)"

lemma exact_filter_ids:
  assumes "exact_filter X make_filter K" "b \<in> set (branch_blocks X K)"
  shows "bloom_has X (make_filter (map (\<lambda>i. case i of Blake3Digest32 d \<Rightarrow> d) ids)) (block_id X b) \<longleftrightarrow> block_id X b \<in> set ids"
proof -
  have "Blake3Digest32 (case i of Blake3Digest32 d \<Rightarrow> d) = i" for i by (cases i) simp
  then have "Blake3Digest32 ` set (map (\<lambda>i. case i of Blake3Digest32 d \<Rightarrow> d) ids) = set ids" by (simp add: image_image)
  with assms show ?thesis unfolding exact_filter_def by simp
qed

lemma branch_shaped:
  assumes "distinct_blocks X K"
  shows "branch_shape (dep_graph X (Suc k) (branch_map X K)) (map (block_id X) [br_block X K, t1_block X K, t2_block X K, a3_block X K,
    t4_block X K, t5_block X K, a6_block X K, a7_block X K])"
proof -
  have "distinct (drop 3 (map (block_id X) (branch_blocks X K)))" using assms unfolding distinct_blocks_def by (rule distinct_drop)
  with branch_graph [OF assms refl, of k] show ?thesis by (simp add: branch_shape_def branch_blocks_def)
qed

lemma branch_map_size: "finite (dom (branch_map X K))" "card (dom (branch_map X K)) \<le> 11"
proof -
  have "length (branch_blocks X K) = 11" by (simp add: branch_blocks_def)
  moreover have "card (block_id X ` set (branch_blocks X K)) \<le> card (set (branch_blocks X K))" by (rule card_image_le) simp
  ultimately show "finite (dom (branch_map X K))" "card (dom (branch_map X K)) \<le> 11" using card_length [of "branch_blocks X K"] by simp_all
qed

lemma a7_synced:
  assumes d: "distinct_blocks X K" and filter: "exact_filter X make_filter K" and s: "built X (branch_blocks X K) s" and f: "11 < f"
  shows "\<exists>ids s'. sync_req X (hashmap_store X) (Suc k) f (map (block_id X) [a3_block X K, t5_block X K, a6_block X K, a7_block X K])
      (map (block_id X) [a3_block X K, t5_block X K]) (make_filter (map (\<lambda>i. case i of Blake3Digest32 d \<Rightarrow> d)
        (map (block_id X) [br_block X K, t1_block X K, t2_block X K, a3_block X K, t5_block X K, a6_block X K]))) s = (Ok ids, s')
    \<and> distinct ids \<and> set ids = {block_id X (a7_block X K)}"
proof -
  let ?G = "dep_graph X (Suc k) (branch_map X K)" and ?i = "block_id X"
  let ?bf = "make_filter (map (\<lambda>i. case i of Blake3Digest32 d \<Rightarrow> d)
    (map ?i [br_block X K, t1_block X K, t2_block X K, a3_block X K, t5_block X K, a6_block X K]))"
  let ?ours = "map ?i [a3_block X K, t5_block X K, a6_block X K, a7_block X K]" and ?theirs = "map ?i [a3_block X K, t5_block X K]"
  have inv: "hashmap_invar X s" "hashmap_abs s = branch_map X K" using s by (simp_all add: built_def)
  have card: "card (dom (branch_map X K)) < f" using branch_map_size(2) [of X K] f by simp
  have heads: "\<forall>h \<in> set ?ours \<union> set ?theirs. ?G h \<noteq> None" using branch_graph [OF d refl, of k] by simp
  from hm.sync_req_returns [OF _ _ _ inv(1), unfolded inv(2), OF leafy_loads_or_misses [OF branch_blocks_leafy] branch_map_size(1) card heads, of ?bf]
  obtain ids s' where ids: "sync_req X (hashmap_store X) (Suc k) f ?ours ?theirs ?bf s = (Ok ids, s')" "distinct ids"
    "set ids = {i. (\<exists>h \<in> set ?ours. sync_reach ?G (set ?theirs) h i) \<and> \<not> (\<exists>h \<in> set ?theirs. sync_reach ?G {} h i) \<and> \<not> bloom_has X ?bf i}" by blast
  have dist: "distinct (map ?i [br_block X K, t1_block X K, t2_block X K, a3_block X K, t4_block X K, t5_block X K, a6_block X K, a7_block X K])"
    using branch_shaped [OF d, of k] by (simp only: branch_shape_def)
  note reach = branch_reach_from [OF branch_shaped [OF d, of k, simplified], of "set ?ours" "set ?theirs"]
    branch_reach_from [OF branch_shaped [OF d, of k, simplified], of "set ?theirs" "{}"]
  have a7: "?i (a7_block X K) \<notin> set (map ?i [br_block X K, t1_block X K, t2_block X K, a3_block X K, t4_block X K, t5_block X K, a6_block X K])"
    using d by (auto simp: distinct_blocks_def branch_blocks_def)
  have bloom: "bloom_has X ?bf (?i (a6_block X K))" "\<not> bloom_has X ?bf (?i (a7_block X K))"
    using exact_filter_ids [OF filter branch_block_in(10), of "map ?i [br_block X K, t1_block X K, t2_block X K, a3_block X K, t5_block X K, a6_block X K]"]
      exact_filter_ids [OF filter branch_block_in(11), of "map ?i [br_block X K, t1_block X K, t2_block X K, a3_block X K, t5_block X K, a6_block X K]"] a7 by simp_all
  have r: "(\<exists>h \<in> set ?ours. sync_reach ?G (set ?theirs) h i) \<longleftrightarrow> i \<in> set ?ours - set ?theirs \<union> {?i (t4_block X K), ?i (t2_block X K), ?i (t1_block X K)}"
    "(\<exists>h \<in> set ?theirs. sync_reach ?G {} h i) \<longleftrightarrow> i \<in> set ?theirs - {} \<union> {?i (t4_block X K), ?i (t2_block X K), ?i (t1_block X K)}" for i
    by (rule reach; use dist in auto)+
  have "set ids = {i \<in> set ?ours - set ?theirs - {?i (t4_block X K), ?i (t2_block X K), ?i (t1_block X K)}. \<not> bloom_has X ?bf i}"
    unfolding ids(3) r by blast
  also have "\<dots> = {?i (a7_block X K)}" using bloom a7 dist by auto
  finally show ?thesis using ids(1,2) by blast
qed

section \<open>What the demo receives\<close>

lemma receive_all_collects: "collect_stream X bs s = (Ok (), s') \<Longrightarrow> receive_all X bs s = s'"
  by (induction bs arbitrary: s) (simp_all add: hashmap_put_def Let_def)

lemma leafy_load_all_ids:
  assumes "leafy X m" "set ids \<subseteq> dom m" "load_all X (Suc k) m ids = Ok bs"
  shows "map (block_id X) bs = ids"
  using assms(2,3)
proof (induction ids arbitrary: bs)
  case (Cons i ids)
  then obtain b where b: "m i = Some b" by auto
  from leafy_held [where k = k, OF assms(1) this] Cons show ?case by (auto simp: res_simps)
qed simp

lemma each_once_ids: "fst ` set (each_once X bs) = block_id X ` set bs"
proof -
  let ?Q = "snd (send_blocks X bs {} [])"
  have "set ?Q \<subseteq> set bs" and some: "\<forall>b \<in> set bs. \<exists>q \<in> set ?Q. block_id X q = block_id X b" using send_blocks_sends [of X bs "{}" "[]"] by auto
  moreover have "block_id X ` set bs \<subseteq> block_id X ` set ?Q"
  proof (rule image_subsetI)
    fix b assume "b \<in> set bs"
    with some obtain q where "q \<in> set ?Q" "block_id X b = block_id X q" by force
    then show "block_id X b \<in> block_id X ` set ?Q" by (rule image_eqI [rotated])
  qed
  ultimately have "block_id X ` set ?Q = block_id X ` set bs" by blast
  then show ?thesis by (simp add: each_once_def addressed_def image_image)
qed

lemma leafy_sends_wanted:
  assumes m: "leafy X m" "finite (dom m)" "card (dom m) < n" and heads: "set heads \<union> set known \<subseteq> dom m"
    and ps: "fst (repo_spec X n (OvSyncBranch heads known bf) m) = Ok (Sent ps)"
  shows "fst ` set ps = wanted X (dep_graph X n m) heads known bf"
proof -
  obtain k where n: "n = Suc k" using m(3) by (cases n) auto
  have "\<forall>h \<in> set heads \<union> set known. dep_graph X n m h \<noteq> None" using heads leafy_graph [OF m(1), of k] by (auto simp: n)
  from mp.sync_req_returns [OF leafy_loads_or_misses [OF m(1), of k] m(2) m(3) leafy_plain [OF m(1)], folded n, OF this, of bf] obtain ids s where
    ids: "sync_req X (map_store X) n n heads known bf m = (Ok ids, s)" "set ids = wanted X (dep_graph X n m) heads known bf"
    unfolding wanted_def by blast
  with ps obtain bs where bs: "load_all X n m ids = Ok bs" "ps = each_once X bs" by (auto simp: res_simps)
  have "set ids \<subseteq> dom m" using sync_reach_loads leafy_graph [OF m(1), of k] unfolding n ids(2) wanted_def by blast
  from leafy_load_all_ids [OF m(1) this bs(1) [unfolded n]] have "block_id X ` set bs = set ids" by (metis set_map)
  then show ?thesis by (simp add: bs(2) each_once_ids ids(2))
qed

lemma wanted_commits:
  fixes X :: "'x externs_scheme"
  assumes d: "distinct_blocks X K" and filter: "exact_filter X make_filter K"
    and heads: "heads = map (block_id X) [a6_block X K, a7_block X K]" and known: "known = [block_id X (br_block X K)]"
    and bf: "bf = make_filter (map (\<lambda>i. case i of Blake3Digest32 d \<Rightarrow> d) (map (block_id X) [br_block X K, t5_block X K]))"
  shows "wanted X (dep_graph X (Suc k) (branch_map X K)) heads known bf
    = block_id X ` {t1_block X K, t2_block X K, t4_block X K, a6_block X K, a7_block X K}"
proof -
  let ?i = "block_id X" and ?G = "dep_graph X (Suc k) (branch_map X K)"
  have dist: "distinct (map ?i [br_block X K, t1_block X K, t2_block X K, a3_block X K, t4_block X K, t5_block X K, a6_block X K, a7_block X K])"
    using branch_shaped [OF d, of k] by (simp only: branch_shape_def)
  have reach: "(\<exists>h \<in> set heads. sync_reach ?G (set known) h i) \<longleftrightarrow> i \<in> set heads - set known \<union> {?i (t4_block X K), ?i (t2_block X K), ?i (t1_block X K)}" for i
    by (rule branch_reach_from [OF branch_shaped [OF d, of k, simplified]]; use dist in \<open>auto simp: heads known\<close>)
  have "\<not> expandable ?G {} (?i (br_block X K))" using branch_graph(1) [OF d refl, of k] by (simp add: expandable_def)
  then have none: "\<not> sync_reach ?G {} (?i (br_block X K)) i" for i
    using sync_reach_closed [of ?G "{}" "?i (br_block X K)" i "{}"] by blast
  have bloom: "bloom_has X bf (?i b) \<longleftrightarrow> ?i b \<in> ?i ` {br_block X K, t5_block X K}" if "b \<in> set (branch_blocks X K)" for b
    using exact_filter_ids [OF filter that, of "map ?i [br_block X K, t5_block X K]"] by (simp add: bf)
  define S where "S = ?i ` {t1_block X K, t2_block X K, t4_block X K, a6_block X K, a7_block X K}"
  have "\<not> bloom_has X bf i" if "i \<in> S" for i using that dist by (auto simp: bloom S_def)
  moreover have "set heads - set known \<union> {?i (t4_block X K), ?i (t2_block X K), ?i (t1_block X K)} = S" using dist by (auto simp: heads known S_def)
  moreover have "\<not> (\<exists>h \<in> set known. sync_reach ?G {} h i)" for i using none by (simp add: known)
  ultimately show ?thesis unfolding wanted_def reach S_def [symmetric] by auto
qed

lemma synced_store:
  assumes d: "distinct_blocks X K" and filter: "exact_filter X make_filter K" and n: "11 < n" and s: "synced X n make_filter K s"
  shows "hashmap_invar X s" "hashmap_abs s \<subseteq>\<^sub>m branch_map X K"
    "dom (hashmap_abs s) = block_id X ` {br_block X K, t1_block X K, t2_block X K, t4_block X K, t5_block X K, a6_block X K, a7_block X K}"
proof -
  let ?i = "block_id X" and ?m = "branch_map X K"
  let ?heads = "[?i (a6_block X K), ?i (a7_block X K)]" and ?known = "[?i (br_block X K)]"
  let ?bf = "make_filter (map (\<lambda>i. case i of Blake3Digest32 d \<Rightarrow> d) [?i (br_block X K), ?i (t5_block X K)])"
  have leafy: "leafy X ?m" by (rule branch_blocks_leafy)
  from s obtain s0 bs where s0: "built X [br_block X K, t5_block X K] s0" "s = receive_all X bs s0"
    and sent: "fst (repo_spec X n (OvSyncBranch ?heads ?known ?bf) ?m) = Ok (Sent (map (addressed X) bs))" unfolding synced_def by blast
  obtain k where k: "n = Suc k" using n by (cases n) auto
  have "wanted X (dep_graph X n ?m) ?heads ?known ?bf = ?i ` {t1_block X K, t2_block X K, t4_block X K, a6_block X K, a7_block X K}"
    unfolding k by (rule wanted_commits [OF d filter]) simp_all
  moreover have "card (dom ?m) < n" using branch_map_size(2) [of X K] n by simp
  ultimately have ids: "?i ` set bs = ?i ` {t1_block X K, t2_block X K, t4_block X K, a6_block X K, a7_block X K}"
    using leafy_sends_wanted [OF leafy branch_map_size(1) _ _ sent] by (auto simp: addressed_def image_image)
  have get: "?m (?i b) = Some (plain b)" if "b \<in> set (branch_blocks X K)" for b
    using blocks_map_get [of X "branch_blocks X K" b] d that by (simp add: distinct_blocks_def)
  have "?i (br_block X K) \<noteq> ?i (t5_block X K)" using d by (simp add: distinct_blocks_def branch_blocks_def)
  then have abs0: "hashmap_invar X s0" "hashmap_abs s0 \<subseteq>\<^sub>m ?m" "dom (hashmap_abs s0) = {?i (br_block X K), ?i (t5_block X K)}"
    using s0(1) get by (auto simp: built_def map_le_def)
  have "own_ids X ?m" using leafyD [OF leafy] unfolding own_ids_def leaf_block_def by blast
  moreover have "\<forall>b \<in> set bs. ?m (?i b) = Some (plain b)"
    using sent_from_map [OF leafy_plain [OF leafy] sent] by (auto simp: addressed_def)
  ultimately obtain c' where c': "collect_stream X bs s0 = (Ok (), c')" "hashmap_invar X c'" "hashmap_abs c' \<subseteq>\<^sub>m ?m"
    "dom (hashmap_abs c') = dom (hashmap_abs s0) \<union> ?i ` set bs" using received_blocks_added [OF _ abs0(1,2)] by blast
  have "s = c'" using receive_all_collects [OF c'(1)] s0(2) by simp
  with c' abs0(3) ids show "hashmap_invar X s" "hashmap_abs s \<subseteq>\<^sub>m ?m"
    "dom (hashmap_abs s) = ?i ` {br_block X K, t1_block X K, t2_block X K, t4_block X K, t5_block X K, a6_block X K, a7_block X K}" by auto
qed

text \<open>A commit that a store holds without its body loads and does not verify.\<close>

lemma bodiless_commit:
  assumes X: "branch_codec X K" "demo_fits X K" and d: "distinct_blocks X K" and s: "hashmap_invar X s" "hashmap_abs s \<subseteq>\<^sub>m branch_map X K"
    and b: "b = commit_block X K seq deps acks body" "b \<in> set (branch_blocks X K)" "length deps + length acks \<le> 3"
    and held: "block_id X b \<in> dom (hashmap_abs s)" "block_id X body \<notin> dom (hashmap_abs s)"
  shows "\<exists>c s'. commit_load X (hashmap_store X) (Suc k) (block_ref X b) s = (Ok c, s')
    \<and> fst (commit_verify X (hashmap_store X) (Suc k) f c branch s') = Err (BodyLoadError (CommitLoadError.MissingBlocks [ref_id (cc_body (commit_content c))]))"
proof -
  let ?m = "hashmap_abs s" and ?c = "loaded_commit X K seq deps acks body"
  have plain: "plain_map ?m" using leafy_plain [OF branch_blocks_leafy [of X K]] s(2) by (force simp: plain_map_def map_le_def)
  have "?m (block_id X b) = branch_map X K (block_id X b)" using s(2) held(1) by (simp add: map_le_def)
  then have "?m (block_id X b) = Some (plain b)"
    using blocks_map_get [of X "branch_blocks X K" b] d b(2) by (simp add: distinct_blocks_def)
  with commit_block_loads [OF X b(3) plain, of seq body k] have load: "ld X (Suc k) ?m (block_ref X b) = Ok ?c" by (simp add: b(1))
  have body: "bd X (Suc k) ?m ?c = Err (CommitLoadError.MissingBlocks [block_id X body])"
    using held(2) by (simp add: load_body_def object_load_Suc load_tree.simps(2) map_store_def domIff Let_def)
  from hm.commit_load_sim [OF s(1), of "Suc k" "block_ref X b"] load obtain s1 where
    s1: "commit_load X (hashmap_store X) (Suc k) (block_ref X b) s = (Ok ?c, s1)" "hashmap_invar X s1" "hashmap_abs s1 = ?m" by auto
  from hm.load_body_sim [OF s1(2), of "Suc k" ?c] body s1(3) obtain s2 where
    "load_body X (hashmap_store X) (Suc k) ?c s1 = (Err (CommitLoadError.MissingBlocks [block_id X body]), s2)" by auto
  with s1(1) loaded_commit_signed [OF X] show ?thesis by (auto simp: commit_verify_def map_op_err_def)
qed

section \<open>Properties\<close>



section \<open>Witnesses\<close>

text \<open>
  A serializer for the contents of the branch, whose first byte tells them apart, and a hash and a filter that look at that byte only.
\<close>

definition ref_codec :: "ObjectRef codec" where
  "ref_codec = map_codec (\<lambda>r. (ref_id r, ref_key r)) (\<lambda>(i, k). \<lparr>ref_id = i, ref_key = k\<rparr>) (pair_codec digest_codec symkey_codec)"

definition commit_codec :: "(CommitContentV0 \<times> Sig) codec" where
  "commit_codec = map_codec
     (\<lambda>(c, s). (s, cc_author c, cc_seq c, cc_branch c, cc_deps c, cc_acks c, cc_refs c, cc_metadata c, cc_body c, cc_expiry c))
     (\<lambda>(s, author, seq, branch, deps, acks, refs, metadata, body, expiry). (\<lparr>cc_author = author, cc_seq = seq, cc_branch = branch,
        cc_deps = deps, cc_acks = acks, cc_refs = refs, cc_metadata = metadata, cc_body = body, cc_expiry = expiry\<rparr>, s))
     (pair_codec sig_codec (pair_codec pubkey_codec (pair_codec word_codec (pair_codec ref_codec (pair_codec (list_codec ref_codec)
       (pair_codec (list_codec ref_codec) (pair_codec (list_codec ref_codec) (pair_codec (list_codec byte_codec) (pair_codec ref_codec
         (option_codec word_codec))))))))))"

lemma good_ref [intro]: "good_codec ref_codec"
  unfolding ref_codec_def by (intro good_map good_pair good_keys) auto

lemma good_commit [intro]: "good_codec commit_codec"
  unfolding commit_codec_def
  by (intro good_map good_pair good_keys good_word good_ref good_list good_byte good_option) auto

lemma length_encode_list: "\<forall>x \<in> set xs. length (e x) = k \<Longrightarrow> length (encode_list e xs) = (k + 1) * length xs + 1"
  by (induction xs) simp_all

lemma length_word: "length (fst (word_codec :: 'w::len word codec) w) = 2 * LENGTH('w) + 1"
  by (simp add: word_codec_def map_codec_def list_codec_def bool_codec_def byte_codec_def length_encode_list [where k = 1])

lemma length_ref: "length (fst ref_codec r) = 130"
  by (simp add: ref_codec_def map_codec_def pair_codec_def symkey_codec_def)

lemma length_commit:
  "length (fst commit_codec (c, s)) \<le> 131 * (length (cc_deps c) + length (cc_acks c) + length (cc_refs c)) + 2 * length (cc_metadata c) + 700"
  by (cases "cc_expiry c") (simp_all add: commit_codec_def map_codec_def pair_codec_def list_codec_def option_codec_def sig_codec_def length_ref
      length_word length_encode_list [where k = 130] length_encode_list [where k = 1] byte_codec_def
      length_encode_list [where k = 129] split: Sig.splits)

fun branch_ser :: "ObjectContent \<Rightarrow> bytes" where
  "branch_ser (ObjectContent.Commit (Commit.V0 c)) = (10 + ucast (cc_seq (com_content c))) # fst commit_codec (com_content c, com_sig c)"
| "branch_ser (ObjectContent.CommitBody (CommitBody.Branch _)) = [2]"
| "branch_ser (ObjectContent.CommitBody (CommitBody.Transaction _)) = [3]"
| "branch_ser (ObjectContent.CommitBody _) = [4]"
| "branch_ser _ = [5]"

fun branch_de :: "bytes \<Rightarrow> ObjectContent option" where
  "branch_de [] = None"
| "branch_de [b] = (if b = 2 then Some (ObjectContent.CommitBody (CommitBody.Branch (demo_branch_of demo_keys)))
     else if b = 3 then Some (ObjectContent.CommitBody (CommitBody.Transaction (Transaction.V0 (replicate 777 7))))
     else if b = 4 then Some (ObjectContent.CommitBody (CommitBody.Ack Ack.V0)) else None)"
| "branch_de (_ # bs) = map_option (\<lambda>(c, s). ObjectContent.Commit (Commit.V0 \<lparr>com_id = None, com_key = None, com_content = c, com_sig = s\<rparr>))
     (decode commit_codec bs)"

definition branch_program :: server_externs where
  "branch_program = (demo_server [])\<lparr>blake3_hash := (\<lambda>bs. fill32 (bs ! 1)), ser_block := (\<lambda>children deps expiry content. content),
     chacha20 := (\<lambda>k n d. d), ser_object_content := branch_ser, de_object_content := branch_de\<rparr>"

definition first_bytes :: "bytes32 list \<Rightarrow> BloomFilter" where
  "first_bytes ds = \<lparr>bf_k = 1, bf_f = map (hd \<circ> bytes_of) (filter (\<lambda>d. d = fill32 (hd (bytes_of d))) ds)\<rparr>"

lemma branch_program_fields [simp]:
  "blake3_hash branch_program bs = fill32 (bs ! 1)" "ser_block branch_program ch ds e content = content" "chacha20 branch_program k nonce d = d"
  "ser_object_content branch_program = branch_ser" "de_object_content branch_program = branch_de"
  "ser_block_content branch_program = tag_block_content" "de_block_content branch_program = untag_block_content"
  "ed25519_sign branch_program sk pk m = Some (pk, fill32 (checksum m))"
  "ed25519_verify branch_program pk m (r, s) \<longleftrightarrow> r = pk \<and> s = fill32 (checksum m)"
  "bloom_contains branch_program f n dg \<longleftrightarrow> hd (bytes_of dg) \<in> set f"
  by (simp_all add: branch_program_def demo_server_def auth_externs.defs repo_externs.defs demo_repo_def net_externs.defs
      demo_net_def externs.defs demo_externs_def)

lemma branch_program_lawful: "lawful_env branch_program demo_program_env demo_laws"
  using demo_lawful [of "[]"] by (simp add: lawful_env_def demo_program_env_def branch_program_def net_codec_def repo_codec_def)

lemma branch_program_fresh: "fresh branch_program demo_program_env demo_laws (\<lambda>_. []) (\<lambda>_. demo_empty)"
proof -
  have "stored branch_program demo_program_env demo_laws k demo_empty" for k
    using demo_stored [of branch_program k] by (simp add: stored_def demo_program_env_def)
  then show ?thesis
    by (auto simp: fresh_def) (simp_all add: demo_laws_def list_vals_def demo_empty_def lmdb_abs_def fun_eq_iff)
qed

lemma commit_not_empty: "fst commit_codec p \<noteq> []"
proof -
  have "length (fst commit_codec p) > 0"
    by (cases p) (simp add: commit_codec_def map_codec_def pair_codec_def length_greater_0_conv [symmetric] del: length_greater_0_conv)
  then show ?thesis by simp
qed

lemma branch_de_commit:
  "branch_de (b # fst commit_codec p) = Some (ObjectContent.Commit (Commit.V0 \<lparr>com_id = None, com_key = None, com_content = fst p, com_sig = snd p\<rparr>))"
proof -
  obtain x xs where x: "fst commit_codec p = x # xs" using commit_not_empty [of p] by (cases "fst commit_codec p") auto
  with decode_encode [OF good_commit, of p] show ?thesis by (simp add: split_beta)
qed

lemma branch_program_codec: "branch_codec branch_program demo_keys"
proof -
  have "block_content_codec branch_program"
    using demo_block_content_codec by (simp add: block_content_codec_def)
  moreover have "branch_ser c \<noteq> []" for c by (cases c rule: branch_ser.cases) simp_all
  moreover have "object_content_codec branch_program (ObjectContent.Commit (Commit.V0 c))" if "com_id c = None" "com_key c = None" for c
    using that by (simp add: object_content_codec_def branch_de_commit)
  ultimately show ?thesis
    by (auto simp: branch_codec_def stream_cipher_def content_tagged_def object_content_codec_def)
qed

lemma branch_program_fit: "demo_fits branch_program demo_keys"
proof -
  have "length (branch_ser (ObjectContent.Commit (Commit.V0 c))) \<le> 3900"
    if "length (cc_deps (com_content c)) + length (cc_acks (com_content c)) \<le> 3" "length (cc_refs (com_content c)) = 1"
      "length (cc_metadata (com_content c)) = 55" for c
    using length_commit [of "com_content c" "com_sig c"] that by simp
  then show ?thesis by (simp add: demo_fits_def)
qed

lemma branch_program_ids: "map (block_id branch_program) (branch_blocks branch_program demo_keys)
    = map (Blake3Digest32 \<circ> fill32) [2, 4, 3, 10, 11, 12, 13, 14, 15, 16, 17]"
proof -
  have obj: "block_id branch_program (obj_block branch_program K c deps) = Blake3Digest32 (fill32 (hd (branch_ser c)))" for K c deps
  proof -
    obtain b bs where "branch_ser c = b # bs" by (cases c rule: branch_ser.cases) simp_all
    then show ?thesis by (simp add: obj_block_def make_leaf_def make_block_def block_new_def blockv0_new_def lofire_defs Let_def)
  qed
  show ?thesis by (simp add: branch_blocks_def commit_defs commit_block_def made_commit_def made_content_def obj Let_def)
qed

lemma first_bytes_exact: "exact_filter branch_program first_bytes demo_keys"
proof -
  have "bloom_has branch_program (first_bytes ds) i \<longleftrightarrow> i \<in> Blake3Digest32 ` set ds" if "i \<in> range (Blake3Digest32 \<circ> fill32)" for i ds
  proof -
    from that obtain v where i: "i = Blake3Digest32 (fill32 v)" by auto
    have "v \<in> (hd \<circ> bytes_of) ` {d \<in> set ds. d = fill32 (hd (bytes_of d))} \<longleftrightarrow> fill32 v \<in> set ds"
      by (auto simp: image_iff intro: bexI [of _ "fill32 v"])
    then show ?thesis by (auto simp: i bloom_has_def first_bytes_def)
  qed
  moreover have "block_id branch_program b \<in> range (Blake3Digest32 \<circ> fill32)" if "b \<in> set (branch_blocks branch_program demo_keys)" for b
  proof -
    from that have "block_id branch_program b \<in> set (map (block_id branch_program) (branch_blocks branch_program demo_keys))" by simp
    then show ?thesis unfolding branch_program_ids by auto
  qed
  ultimately show ?thesis unfolding exact_filter_def by blast
qed

lemma branch_program_distinct: "distinct_blocks branch_program demo_keys"
  unfolding distinct_blocks_def branch_program_ids by simp



end
