(* ===== verification/Lofire_Object_Tests.thy ===== *)
theory Lofire_Object_Tests
  imports Lofire_Verify
begin

text \<open>
  The tests of \<^verbatim>\<open>src/lofire/src/object.rs\<close> and \<^verbatim>\<open>src/lofire/src/commit.rs\<close> as programs over the model, each of which
  returns \<open>Ok ()\<close> or panics, and the proofs that they pass: whatever the hash, the cipher and the keys are, given the lengths
  that BARE documents. What a test prints is computed, since that may panic, and dropped.
\<close>

section \<open>Assertions\<close>

definition assert_that :: "bool \<Rightarrow> (unit, unit) result" where
  "assert_that b = (if b then Ok () else Panic)"

fun assert_all :: "bool list \<Rightarrow> (unit, unit) result" where
  "assert_all [] = Ok ()"
| "assert_all (b # bs) = and_then (assert_that b) (\<lambda>_. assert_all bs)"

lemma assert_that_Ok [simp]: "assert_that b = Ok () \<longleftrightarrow> b" "b \<Longrightarrow> assert_that b = Ok ()"
  by (simp_all add: assert_that_def)

lemma assert_all_Ok [simp]: "assert_all bs = Ok () \<longleftrightarrow> list_all (\<lambda>b. b) bs"
  by (induction bs) (auto simp: assert_that_def)

section \<open>The tests of objects\<close>

text \<open>\<^verbatim>\<open>match obj.content()\<close> with the expected content, or a panic.\<close>

definition assert_content :: "(ObjectContent, ObjectParseError) result \<Rightarrow> ObjectContent \<Rightarrow> (unit, unit) result" where
  "assert_content r content = and_then (unwrap_res r) (\<lambda>cnt. assert_that (content = cnt))"

definition print_object :: "'x externs_scheme \<Rightarrow> Object \<Rightarrow> (unit, unit) result" where
  "print_object X ob = and_then (object_id X ob) (\<lambda>_. and_then (object_key ob) (\<lambda>_. Ok ()))"

definition test_file :: ObjectContent where
  "test_file = ObjectContent.File (File.V0 \<lparr>file_content_type = map of_char ''file/test'',
     file_metadata = map of_char ''some meta data here'', file_content = concat (replicate 320 (map of_nat [0..<255]))\<rparr>)"

definition test_deps :: "ObjectId list" where
  "test_deps = [Blake3Digest32 (fill32 9)]"

definition test_repo_secret :: SymKey where
  "test_repo_secret = ChaCha20Key (fill32 0)"

definition test_repo_pubkey :: PubKey where
  "test_repo_pubkey = Ed25519PubKey (fill32 1)"

definition test_expiry :: "Timestamp option" where
  "test_expiry = Some (2 ^ 31)"

definition test_object :: "'x externs_scheme \<Rightarrow> nat \<Rightarrow> (unit, unit) result" where
  "test_object X fuel =
     (let S = hashmap_store X; exp = test_expiry; exp4 = Some 2342 in
      and_then (object_new X test_file test_deps exp 0 test_repo_pubkey test_repo_secret) (\<lambda>obj.
      and_then (print_object X obj) (\<lambda>_.
      and_then (assert_that (obj_deps obj = test_deps)) (\<lambda>_.
      and_then (assert_content (object_content X obj) test_file) (\<lambda>_.
      case object_save X S obj hashmap_new of (r, store) \<Rightarrow> and_then (unwrap_res r) (\<lambda>_.
      and_then (object_id X obj) (\<lambda>i. and_then (object_key obj) (\<lambda>k.
      and_then (unwrap_res (fst (object_load X S fuel i k store))) (\<lambda>obj2.
      and_then (print_object X obj2) (\<lambda>_.
      and_then (assert_that (obj_deps obj2 = test_deps)) (\<lambda>_.
      and_then (assert_content (object_content X obj2) test_file) (\<lambda>_.
      and_then (unwrap_res (fst (object_load X S fuel i None store))) (\<lambda>obj3.
      and_then (print_object X obj3) (\<lambda>_.
      and_then (assert_that (obj_deps obj3 = test_deps)) (\<lambda>_.
      and_then (case object_content X obj3 of Err MissingRootKey \<Rightarrow> Ok () | Hang \<Rightarrow> Hang | _ \<Rightarrow> Panic) (\<lambda>_.
      and_then (unwrap_res (object_copy X obj exp4 test_repo_pubkey test_repo_secret)) (\<lambda>obj4.
      and_then (unwrap_res (fst (object_save X S obj4 store))) (\<lambda>_.
      and_then (object_expiry obj4) (\<lambda>e4. and_then (assert_that (e4 = exp4)) (\<lambda>_.
      and_then (assert_that (obj_deps obj = test_deps)) (\<lambda>_.
      assert_content (object_content X obj4) test_file)))))))))))))))))))))"

definition plain_file :: "bytes \<Rightarrow> ObjectContent" where
  "plain_file d = ObjectContent.File (File.V0 \<lparr>file_content_type = [], file_metadata = [], file_content = d\<rparr>)"

text \<open>The subtraction panics below zero.\<close>

definition test_depth_1 :: "'x externs_scheme \<Rightarrow> (unit, unit) result" where
  "test_depth_1 X =
     (let deps = test_deps; empty_file_ser = ser_object_content X (plain_file []);
          used = EMPTY_BLOCK_SIZE + DATA_VARINT_EXTRA + BLOCK_ID_SIZE * length deps + length empty_file_ser + DATA_VARINT_EXTRA in
      if store_max_value_size < used then Panic
      else (let size' = store_max_value_size - used; content = plain_file (replicate size' 99) in
        and_then (object_new X content deps test_expiry store_max_value_size test_repo_pubkey test_repo_secret) (\<lambda>ob.
        and_then (object_id X ob) (\<lambda>_. and_then (object_key ob) (\<lambda>k. and_then (unwrap k) (\<lambda>_.
          assert_that (length (obj_blocks ob) = 1)))))))"

definition MAX_ARITY_LEAVES :: usize where "MAX_ARITY_LEAVES = 31774"
definition MAX_ARITY_ROOT :: usize where "MAX_ARITY_ROOT = 31770"
definition MAX_DATA_PAYLOAD_SIZE :: usize where "MAX_DATA_PAYLOAD_SIZE = 2097112"

lemmas arity_consts [lofire_defs] = MAX_ARITY_LEAVES_def MAX_ARITY_ROOT_def MAX_DATA_PAYLOAD_SIZE_def

definition test_block_size :: "'x externs_scheme \<Rightarrow> (unit, unit) result" where
  "test_block_size X =
     (let max_block_size = store_max_value_size; i = Blake3Digest32 (fill32 0); key = ChaCha20Key (fill32 0);
          one_key_ser = ser_block_content X (InternalNode [key]);
          two_keys_ser = ser_block_content X (InternalNode [key, key]);
          max_keys_ser = ser_block_content X (InternalNode (replicate MAX_ARITY_LEAVES key));
          data_ser = ser_block_content X (DataChunk []);
          data_full_ser = ser_block_content X (DataChunk (replicate MAX_DATA_PAYLOAD_SIZE 0));
          block_ser_len = (\<lambda>children deps content. serialized_size X (block_new X children deps (Some 2342) content None));
          leaf_empty = block_ser_len [] (ObjectIdList []) data_ser;
          leaf_full_data = block_ser_len [] (ObjectIdList []) data_full_ser;
          root_depsref = block_ser_len [] (DepListRef \<lparr>ref_id = i, ref_key = key\<rparr>) data_ser;
          internal_max = block_ser_len (replicate MAX_ARITY_LEAVES i) (ObjectIdList []) max_keys_ser;
          internal_one = block_ser_len [i] (ObjectIdList []) one_key_ser;
          internal_two = block_ser_len [i, i] (ObjectIdList []) two_keys_ser;
          root_one = block_ser_len [i] (ObjectIdList (replicate 8 i)) one_key_ser;
          root_two = block_ser_len [i, i] (ObjectIdList (replicate 8 i)) two_keys_ser;
          max_arity_leaves = (max_block_size - EMPTY_BLOCK_SIZE - BIG_VARINT_EXTRA * 2) div (BLOCK_ID_SIZE + BLOCK_KEY_SIZE);
          max_arity_root = (max_block_size - EMPTY_BLOCK_SIZE - MAX_DEPS_SIZE - BIG_VARINT_EXTRA * 2) div (BLOCK_ID_SIZE + BLOCK_KEY_SIZE) in
      assert_all [
        max_arity_leaves = MAX_ARITY_LEAVES,
        max_block_size - EMPTY_BLOCK_SIZE - DATA_VARINT_EXTRA = MAX_DATA_PAYLOAD_SIZE,
        max_arity_root = MAX_ARITY_ROOT,
        leaf_full_data = max_block_size,
        leaf_empty = EMPTY_BLOCK_SIZE,
        root_depsref = EMPTY_ROOT_SIZE_DEPSREF,
        internal_max = EMPTY_BLOCK_SIZE + BIG_VARINT_EXTRA * 2 + MAX_ARITY_LEAVES * (BLOCK_ID_SIZE + BLOCK_KEY_SIZE),
        internal_max < max_block_size,
        internal_one = EMPTY_BLOCK_SIZE + 1 * BLOCK_ID_SIZE + 1 * BLOCK_KEY_SIZE,
        internal_two = EMPTY_BLOCK_SIZE + 2 * BLOCK_ID_SIZE + 2 * BLOCK_KEY_SIZE,
        root_one = EMPTY_BLOCK_SIZE + 8 * BLOCK_ID_SIZE + 1 * BLOCK_ID_SIZE + 1 * BLOCK_KEY_SIZE,
        root_two = EMPTY_BLOCK_SIZE + 8 * BLOCK_ID_SIZE + 2 * BLOCK_ID_SIZE + 2 * BLOCK_KEY_SIZE])"

section \<open>The test of commits\<close>

definition expect_one_missing :: "('a, CommitLoadError) result \<Rightarrow> (unit, unit) result" where
  "expect_one_missing r = (case r of
       Err (CommitLoadError.MissingBlocks missing) \<Rightarrow> assert_that (length missing = 1) | Hang \<Rightarrow> Hang | _ \<Rightarrow> Panic)"

definition expect_body_missing :: "('a, CommitVerifyError) result \<Rightarrow> (unit, unit) result" where
  "expect_body_missing r = (case r of
       Err (BodyLoadError (CommitLoadError.MissingBlocks missing)) \<Rightarrow> assert_that (length missing = 1) | Hang \<Rightarrow> Hang | _ \<Rightarrow> Panic)"

definition test_commit :: "'x externs_scheme \<Rightarrow> nat \<Rightarrow> nat \<Rightarrow> bytes32 \<Rightarrow> bytes32 \<Rightarrow> (unit, unit) result" where
  "test_commit X n fuel secret_key public_key =
     (let priv_key = Ed25519PrivKey secret_key; pub_key = Ed25519PubKey public_key; S = hashmap_store X;
          obj_ref = \<lparr>ref_id = Blake3Digest32 (fill32 1), ref_key = ChaCha20Key (fill32 2)\<rparr> in
      and_then (unwrap_res (commit_new X priv_key pub_key 3 obj_ref [obj_ref] [obj_ref] [obj_ref] [1, 2, 3] obj_ref (Some 2342)))
        (\<lambda>commit.
          let store = hashmap_new; metadata = replicate 64 66;
              member = memberv0_new pub_key [CommitType.Ack, CommitType.Transaction] metadata;
              branch = branch_new pub_key pub_key (ChaCha20Key (fill32 0)) [member] [CommitType.Transaction \<mapsto> 3] (Minutes 3)
                (replicate 32 99) metadata;
              body = CommitBody.Ack Ack.V0 in
          and_then (expect_one_missing (fst (load_body X S n commit store))) (\<lambda>_.
          and_then (unwrap_res (verify_sig X commit)) (\<lambda>_.
          and_then (unwrap_res (verify_perm commit body branch)) (\<lambda>_.
          and_then (expect_one_missing (fst (verify_deps X S n fuel commit store))) (\<lambda>_.
          expect_body_missing (fst (commit_verify X S n fuel commit branch store))))))))"

section \<open>The constants\<close>

text \<open>
  The test of the block sizes passes given the lengths that BARE documents: the arities of a root and of an internal node and the
  payload of a leaf that the test expects are those that the constants of \<^verbatim>\<open>object.rs\<close> give, a leaf with the largest
  payload takes exactly the largest value of the store, an internal node of the largest arity takes less, and each other block
  has the length that the constants predict.
\<close>

theorem test_block_size_passes:
  assumes "bare_lengths X"
  shows "test_block_size X = Ok ()"
proof -
  have size: "serialized_size X (block_new X ch d e c k) = block_len ch d e c" for ch d e c k
    using assms by (simp add: block_new_def blockv0_new_def Let_def bare_lengths_def)
  have content: "length (ser_block_content X c) = content_len c" for c using assms by (simp add: bare_lengths_def)
  have big: "varint_len 2097112 = 3" "varint_len 2097116 = 3" "varint_len 31774 = 3" "varint_len 1048546 = 3" by (simp_all add: varint_len.simps)
  show ?thesis
    by (simp add: test_block_size_def size block_len_def content expiry_len_def varint_len_1 big lofire_defs store_max_value_size_def Let_def)
qed

definition file_lengths :: "'x externs_scheme \<Rightarrow> bool" where
  "file_lengths X \<longleftrightarrow> (\<forall>f. length (ser_object_content X (ObjectContent.File (File.V0 f))) =
     2 + (\<Sum>d \<leftarrow> [file_content_type f, file_metadata f, file_content f]. varint_len (length d) + length d))"

text \<open>
  A file as large as the constants allow, with one dependency, becomes an object of one block: the test passes.
\<close>

theorem test_depth_1_passes:
  assumes "file_lengths X"
  shows "test_depth_1 X = Ok ()"
proof -
  have len: "length (ser_object_content X (plain_file d)) = 4 + varint_len (length d) + length d" for d
    using assms by (simp add: file_lengths_def plain_file_def varint_len_1)
  have v: "store_valid_value_size store_max_value_size = (Ok store_max_value_size :: (usize, unit) result)"
    by (simp add: store_valid_value_size_eq store_max_value_size_def lofire_defs)
  let ?size = "2097070 :: nat"
  have "varint_len ?size = 3" by (simp add: varint_len.simps)
  with len [of "replicate ?size 99"] have "length (ser_object_content X (plain_file (replicate ?size 99))) = 2097077" by (simp)
  then show ?thesis
    using v by (simp add: test_depth_1_def len [of "[]"] varint_len_1 test_deps_def object_new.simps make_deps.simps make_blocks_def
        store_max_value_size_def lofire_defs object_id_def object_key_def object_root_def make_leaf_def make_block_def Let_def)
qed

section \<open>Making, saving, loading and copying an object\<close>

text \<open>
  The test of objects passes given enough fuel for the loads: an object of a file of several blocks has its dependencies and its
  content, loading it from the store it was saved in gives both back, loading it without the key gives the dependencies but
  \<^verbatim>\<open>MissingRootKey\<close> for the content, and a copy with another expiry is saved and has the same content. The hash, the cipher and the
  serializer are any that meet their documentation; the blocks of the object must not collide under the hash.
\<close>

theorem test_object_passes:
  assumes X: "stream_cipher X" "block_content_codec X" "content_tagged X" "object_content_codec X test_file"
    and len: "bare_lengths X" "cipher_keeps_length X"
    and cf: "\<And>ob. object_new X test_file test_deps test_expiry 0 test_repo_pubkey test_repo_secret = (Ok ob :: (Object, unit) result) \<Longrightarrow>
      collision_free X (set (obj_blocks ob))"
  shows "\<exists>n. \<forall>fuel \<ge> n. test_object X fuel = Ok ()"
proof -
  have few: "length test_deps \<le> 8" by (simp add: test_deps_def)
  from object_new_merkle [OF X(1-3), where 'e = unit, of 0 test_deps test_repo_pubkey test_repo_secret test_file test_expiry] obtain ob where
    new: "object_new X test_file test_deps test_expiry 0 test_repo_pubkey test_repo_secret = (Ok ob :: (Object, unit) result)" by (auto simp: lofire_defs)
  from object_new_facts [OF X(1-3) new] obtain K ds where
    m: "merkle X (obj_blocks ob) K ds" "concat ds = ser_object_content X test_file" "obj_deps ob = test_deps"
      "\<forall>b \<in> set (obj_blocks ob). honest X b" "block_deps (last (obj_blocks ob)) = ObjectIdList test_deps" by (auto simp: make_deps_few [OF few])
  let ?i = "block_id X (last (obj_blocks ob))" and ?k = "the (block_key (last (obj_blocks ob)))" and ?S = "hashmap_store X"
  have content: "object_content X ob = Ok test_file"
    using merkle_object(3) [OF m(1), of "obj_deps ob"] m(2) X(4) by (simp add: object_content_codec_def)
  have "hd K \<in> set (obj_blocks ob)" using m(1) by (auto simp: merkle_def)
  with new_blocks_fit [OF len new] have "serialized_size X (hd K) \<le> 4072"
    by (auto simp: store_valid_value_size_eq lofire_defs)
  then have "length (block_content (hd K)) + HEADER < 2 ^ 64"
    using len(1) by (cases "hd K") (auto simp: bare_lengths_def block_len_def lofire_defs)
  from copy_merkle [OF X(1,2) m(1) this, of "Some 2342" test_repo_pubkey test_repo_secret] obtain ob4 where
    c4: "object_copy X ob (Some 2342) test_repo_pubkey test_repo_secret = Ok ob4" "merkle X (obj_blocks ob4) (map (set_expiry (Some 2342)) K) ds"
      "\<forall>b \<in> set (obj_blocks ob4). block_expiry b = Some 2342 \<and> honest X b" by blast
  have "object_expiry ob4 = (Ok (Some 2342) :: (Timestamp option, unit) result)"
    using merkle_nonempty [OF c4(2)] c4(3) by (simp add: object_expiry_def object_root_def)
  moreover have "object_content X ob4 = Ok test_file"
    using merkle_object(3) [OF c4(2), of "obj_deps ob4"] m(2) X(4) by (simp add: object_content_codec_def)
  ultimately have c4': "object_expiry ob4 = (Ok (Some 2342) :: (Timestamp option, unit) result)" "object_content X ob4 = Ok test_file" "\<forall>b \<in> set (obj_blocks ob4). honest X b"
    using c4(3) by auto
  have "test_object X fuel = Ok ()" if fuel: "length (obj_blocks ob) \<le> fuel" for fuel
  proof -
    note load = hm.save_then_load [OF m(1,4) cf [OF new] hashmap_invar_new fuel m(5)]
    from load [of "Some ?k"] obtain s1 ob2 s2 where
      s1: "object_save X ?S ob hashmap_new = (Ok (), s1)" and
      ob2: "object_load X ?S fuel ?i (Some ?k) s1 = (Ok ob2, s2)" "obj_deps ob2 = test_deps" "list_all2 (same_block X) (obj_blocks ob2) (obj_blocks ob)"
        "block_key (last (obj_blocks ob2)) = Some ?k" by blast
    from load [of None] s1 obtain ob3 s3 where
      ob3: "object_load X ?S fuel ?i None s1 = (Ok ob3, s3)" "obj_deps ob3 = test_deps" "list_all2 (same_block X) (obj_blocks ob3) (obj_blocks ob)"
        "block_key (last (obj_blocks ob3)) = None" by auto
    have contents: "object_content X ob2 = Ok test_file" "object_content X ob3 = Err MissingRootKey"
      using content_of_loaded(1) [OF m(1) ob2(3,4)] content_of_loaded(2) [OF m(1) ob3(3,4)] m(2) X(4) by (simp_all add: object_content_codec_def)
    have inv: "hashmap_invar X s1" using hm.save_blocks_adds [OF hashmap_invar_new m(4), of "{}"] s1 by (auto simp: object_save_def)
    from hm.save_blocks_adds [OF inv c4'(3), of "{}"] obtain s4 where s4: "object_save X ?S ob4 s1 = (Ok (), s4)" by (auto simp: object_save_def)
    have ne: "obj_blocks ob2 \<noteq> []" "obj_blocks ob3 \<noteq> []" "obj_blocks ob \<noteq> []" using merkle_nonempty [OF m(1)] ob2(3) ob3(3) by auto
    have print: "print_object X ob2 = Ok ()" "print_object X ob3 = Ok ()" "print_object X ob = Ok ()"
      using ne by (simp_all add: print_object_def object_id_def object_key_def object_root_def)
    show ?thesis
      by (simp add: test_object_def assert_content_def new print m(3) content s1 merkle_ids [OF m(1)] ob2(1,2) ob3(1,2) contents c4(1) c4'(1,2) s4 Let_def)
  qed
  then show ?thesis by blast
qed

section \<open>A commit whose body and dependencies are missing\<close>

lemma load_from_empty:
  "object_load X (hashmap_store X) (Suc k) i key hashmap_new = (Err (ObjectParseError.MissingBlocks [i]), hashmap_new)"
  by (simp add: object_load_Suc load_tree.simps(2) hashmap_store_def hashmap_get_def hashmap_new_def)

lemma commit_from_empty:
  "commit_load X (hashmap_store X) (Suc k) r hashmap_new = (Err (CommitLoadError.MissingBlocks [ref_id r]), hashmap_new)"
  "load_body X (hashmap_store X) (Suc k) c hashmap_new = (Err (CommitLoadError.MissingBlocks [ref_id (cc_body (commit_content c))]), hashmap_new)"
  by (simp_all add: commit_load_def load_body_def load_from_empty Let_def)

text \<open>
  The test of commits passes with any pair of keys that signs and verifies: over an empty store the body, and the
  dependencies, of a signed and permitted commit are one missing block each.
\<close>

theorem test_commit_passes:
  assumes sign: "\<And>m. ed25519_sign X sk pk m = Some (sig m)" "\<And>m. ed25519_verify X pk m (sig m)" and fuel: "0 < n" "0 < fuel"
  shows "test_commit X n fuel sk pk = Ok ()"
proof -
  obtain k f where n: "n = Suc k" "fuel = Suc f" using fuel by (metis Suc_pred)
  show ?thesis
    by (simp add: test_commit_def sign commit_new_def commitv0_new_def n commit_from_empty expect_one_missing_def expect_body_missing_def
        verify_deps_def verify_deps_visit_def commit_verify_def map_op_err_def verify_perm_def branch_new_def branchv0_new_def memberv0_new_def
        memberv0_has_perm_def Let_def)
qed

section \<open>Witnesses\<close>

text \<open>An instance with BARE's lengths and the content of blocks as BARE writes it, in which an object of the test's file is one block.\<close>

fun varint :: "nat \<Rightarrow> bytes" where
  "varint n = (if n < 128 then [of_nat n] else of_nat (128 + n mod 128) # varint (n div 128))"

declare varint.simps [simp del]

definition skip_varint :: "bytes \<Rightarrow> bytes" where
  "skip_varint bs = tl (dropWhile (\<lambda>b. 128 \<le> b) bs)"

lemma length_varint: "length (varint n) = varint_len n"
  by (induction n rule: varint.induct) (subst varint.simps, subst varint_len.simps, simp)

lemma skip_varint [simp]: "skip_varint (varint n @ bs) = bs"
proof (induction n rule: varint.induct)
  case (1 n)
  show ?case
  proof (cases "n < 128")
    case True
    then have "\<not> 128 \<le> (of_nat n :: u8)" by (simp add: word_le_nat_alt unat_of_nat)
    with True show ?thesis by (simp add: skip_varint_def varint.simps)
  next
    case False
    have "unat (of_nat (128 + n mod 128) :: u8) = 128 + n mod 128" unfolding unat_of_nat by (simp add: take_bit_eq_mod)
    then have "128 \<le> (of_nat (128 + n mod 128) :: u8)" by (simp add: word_le_nat_alt)
    with False 1 show ?thesis by (subst varint.simps) (simp add: skip_varint_def)
  qed
qed

primrec bare_content :: "BlockContentV0 \<Rightarrow> bytes" where
  "bare_content (InternalNode ks) = 0 # varint (length ks) @ concat (map (\<lambda>k. 0 # bytes_of (symkey_slice k)) ks)"
| "bare_content (DataChunk d) = 1 # varint (length d) @ d"

fun bare_content_de :: "bytes \<Rightarrow> BlockContentV0 option" where
  "bare_content_de [] = None"
| "bare_content_de (t # bs) = Some (if t = 0 then InternalNode (map (\<lambda>c. ChaCha20Key (bytes32_of (tl c))) (chunks 33 (skip_varint bs)))
     else DataChunk (skip_varint bs))"

lemma bare_content_codec: "bare_content_de (bare_content c) = Some c" "length (bare_content c) = content_len c"
proof -
  have key: "ChaCha20Key (symkey_slice k) = k" for k by (cases k) simp
  show "bare_content_de (bare_content c) = Some c" by (cases c) (simp_all add: chunks_concat_exact comp_def key)
  show "length (bare_content c) = content_len c"
    by (cases c) (simp_all add: length_varint length_concat comp_def sum_list_triv lofire_defs)
qed

definition bare_externs :: "(ObjectContent \<Rightarrow> bytes) \<Rightarrow> externs" where
  "bare_externs ser = demo_externs\<lparr>ser_block := (\<lambda>ch d e c. replicate (block_len ch d e c) 0), ser_block_content := bare_content,
     de_block_content := bare_content_de, ser_object_content := ser, de_object_content := (\<lambda>_. Some test_file)\<rparr>"

lemma bare_externs_fields [simp]:
  "ser_block (bare_externs ser) = (\<lambda>ch d e c. replicate (block_len ch d e c) 0)" "ser_block_content (bare_externs ser) = bare_content"
  "de_block_content (bare_externs ser) = bare_content_de" "ser_object_content (bare_externs ser) = ser"
  "de_object_content (bare_externs ser) = (\<lambda>_. Some test_file)" "chacha20 (bare_externs ser) = xor_cipher"
  by (simp_all add: bare_externs_def)

lemma bare_externs_lengths: "bare_lengths (bare_externs ser)"
  by (simp add: bare_lengths_def bare_content_codec)

theorem test_block_size_passes_witness: "test_block_size (bare_externs (\<lambda>_. [2])) = Ok ()"
  by (rule test_block_size_passes [OF bare_externs_lengths])

theorem test_depth_1_passes_witness:
  "test_depth_1 (bare_externs (\<lambda>c. case c of ObjectContent.File (File.V0 f) \<Rightarrow>
     replicate (2 + (\<Sum>d \<leftarrow> [file_content_type f, file_metadata f, file_content f]. varint_len (length d) + length d)) 0 | _ \<Rightarrow> [0])) = Ok ()"
  by (rule test_depth_1_passes) (simp add: file_lengths_def)

theorem test_commit_passes_witness: "test_commit demo_externs 1 1 (fill32 4) (fill32 5) = Ok ()"
  by (rule test_commit_passes [where sig = "\<lambda>m. (fill32 5, fill32 (checksum m))"]) simp_all

theorem test_object_passes_witness: "\<exists>fuel. test_object (bare_externs (\<lambda>_. [2])) fuel = Ok ()"
proof -
  let ?X = "bare_externs (\<lambda>_. [2])"
  have "stream_cipher ?X" using demo_stream_cipher by (simp add: stream_cipher_def)
  moreover have "block_content_codec ?X" "content_tagged ?X" "object_content_codec ?X test_file" "cipher_keeps_length ?X"
    by (simp_all add: block_content_codec_def bare_content_codec content_tagged_def object_content_codec_def cipher_keeps_length_def xor_cipher_def)
  moreover have "collision_free ?X (set (obj_blocks ob))"
    if "object_new ?X test_file test_deps test_expiry 0 test_repo_pubkey test_repo_secret = (Ok ob :: (Object, unit) result)" for ob
    using that by (auto simp: object_new.simps make_deps.simps test_deps_def store_valid_value_size_eq make_blocks_def lofire_defs collision_free_def Let_def)
  ultimately show ?thesis using test_object_passes [of ?X] bare_externs_lengths by blast
qed

end
