(* ===== verification/Lofire_Bare.thy ===== *)
theory Lofire_Bare
  imports Lofire_Lmdb_Instance Lofire_Object_Tests
begin

text \<open>
  Blocks in the BARE format: self-delimiting codecs for the parts of a block whose lengths are those that
  \<open>bare_lengths\<close> and the tests of the block store rely on. With them these hypotheses hold together with \<open>repo_codec\<close>; no
  property is about these functions.
\<close>

section \<open>Integers and sequences\<close>

fun varint_de :: "bytes \<Rightarrow> (nat \<times> bytes) option" where
  "varint_de [] = None"
| "varint_de (b # bs) = (if b < 128 then Some (unat b, bs)
     else map_option (\<lambda>(n, rest). (unat b - 128 + 128 * n, rest)) (varint_de bs))"

lemma varint_de [simp]: "varint_de (varint n @ bs) = Some (n, bs)"
proof (induction n rule: varint.induct)
  case (1 n)
  show ?case
  proof (cases "n < 128")
    case True
    then have "unat (of_nat n :: u8) = n" by (simp add: unat_of_nat)
    with True show ?thesis by (simp add: varint.simps word_less_nat_alt)
  next
    case False
    have "unat (of_nat (128 + n mod 128) :: u8) = 128 + n mod 128" unfolding unat_of_nat by (simp add: take_bit_eq_mod)
    with False 1 show ?thesis by (subst varint.simps) (simp add: word_less_nat_alt)
  qed
qed

fun decode_n :: "nat \<Rightarrow> (bytes \<Rightarrow> ('a \<times> bytes) option) \<Rightarrow> bytes \<Rightarrow> ('a list \<times> bytes) option" where
  "decode_n 0 d bs = Some ([], bs)"
| "decode_n (Suc n) d bs = (case d bs of None \<Rightarrow> None | Some (a, rest) \<Rightarrow> map_option (map_prod ((#) a) (\<lambda>x. x)) (decode_n n d rest))"

definition seq_codec :: "'a codec \<Rightarrow> 'a list codec" where
  "seq_codec c = (\<lambda>xs. varint (length xs) @ concat (map (fst c) xs),
     \<lambda>bs. case varint_de bs of None \<Rightarrow> None | Some (n, rest) \<Rightarrow> decode_n n (snd c) rest)"

lemma good_seq [intro]:
  assumes "good_codec c"
  shows "good_codec (seq_codec c)"
proof -
  have "decode_n (length xs) (snd c) (concat (map (fst c) xs) @ rest) = Some (xs, rest)" for xs rest
    by (induction xs) (use assms in \<open>simp_all add: good_codec_def\<close>)
  then show ?thesis by (simp add: good_codec_def seq_codec_def)
qed

lemma length_seq: "(\<And>x. length (fst c x) = k) \<Longrightarrow> length (fst (seq_codec c) xs) = varint_len (length xs) + k * length xs"
  by (simp add: seq_codec_def length_varint length_concat comp_def sum_list_triv)

text \<open>Values of a fixed length.\<close>

definition fixed_codec :: "nat \<Rightarrow> ('a \<Rightarrow> bytes) \<Rightarrow> (bytes \<Rightarrow> 'a) \<Rightarrow> 'a codec" where
  "fixed_codec k f g = (f, \<lambda>bs. if length bs < k then None else Some (g (take k bs), drop k bs))"

lemma good_fixed [intro]: "(\<And>a. length (f a) = k \<and> g (f a) = a) \<Longrightarrow> good_codec (fixed_codec k f g)"
  by (simp add: good_codec_def fixed_codec_def)

definition u32_bytes :: "u32 \<Rightarrow> bytes" where
  "u32_bytes w = map of_nat [unat w, unat w div 256, unat w div 256 div 256, unat w div 256 div 256 div 256]"

definition u32_of_bytes :: "bytes \<Rightarrow> u32" where
  "u32_of_bytes bs = of_nat (foldr (\<lambda>b n. unat b + 256 * n) bs 0)"

lemma u32_digits:
  assumes "n < 2 ^ 32"
  shows "foldr (\<lambda>b n. unat b + 256 * n) (map (of_nat :: nat \<Rightarrow> u8) [n, n div 256, n div 256 div 256, n div 256 div 256 div 256]) 0 = n"
proof -
  have "n div 256 div 256 div 256 < 256" using assms by (simp add: div_mult2_eq [symmetric] less_mult_imp_div_less)
  moreover have "unat (of_nat m :: u8) = m mod 256" for m by (simp add: unat_of_nat take_bit_eq_mod)
  ultimately show ?thesis by simp
qed

lemma u32_of_u32_bytes: "u32_of_bytes (u32_bytes w) = w"
proof -
  have "unat w < 2 ^ LENGTH(32)" by (rule unsigned_less)
  then have "foldr (\<lambda>b n. unat b + 256 * n) (u32_bytes w) 0 = unat w" unfolding u32_bytes_def by (intro u32_digits) simp
  then show ?thesis unfolding u32_of_bytes_def by simp
qed

definition u32_codec :: "u32 codec" where
  "u32_codec = fixed_codec 4 u32_bytes u32_of_bytes"

definition id_codec :: "Digest codec" where
  "id_codec = fixed_codec 33 (\<lambda>d. 0 # bytes_of (digest_bytes d)) (\<lambda>bs. Blake3Digest32 (bytes32_of (tl bs)))"

definition key_codec :: "SymKey codec" where
  "key_codec = fixed_codec 33 (\<lambda>k. 0 # bytes_of (symkey_slice k)) (\<lambda>bs. ChaCha20Key (bytes32_of (tl bs)))"

lemma good_fixeds [intro]: "good_codec u32_codec" "good_codec id_codec" "good_codec key_codec"
proof -
  show "good_codec u32_codec" unfolding u32_codec_def by (rule good_fixed) (simp add: u32_of_u32_bytes, simp add: u32_bytes_def)
  have "Blake3Digest32 (digest_bytes d) = d" for d by (cases d) simp
  then show "good_codec id_codec" unfolding id_codec_def by (intro good_fixed) simp
  show "good_codec key_codec" unfolding key_codec_def by (intro good_fixed) simp
qed

lemma length_fixeds [simp]: "length (fst u32_codec w) = 4" "length (fst id_codec d) = 33" "length (fst key_codec k) = 33"
  by (simp_all add: u32_codec_def u32_bytes_def id_codec_def key_codec_def fixed_codec_def)

section \<open>Blocks\<close>

text \<open>A value of one of two variants, after a tag.\<close>

definition either_codec :: "'a codec \<Rightarrow> 'b codec \<Rightarrow> ('a + 'b) codec" where
  "either_codec c e = (\<lambda>x. case x of Inl a \<Rightarrow> 0 # fst c a | Inr b \<Rightarrow> 1 # fst e b,
     \<lambda>bs. case bs of [] \<Rightarrow> None | t # rest \<Rightarrow>
       if t = 0 then map_option (map_prod Inl (\<lambda>x. x)) (snd c rest) else map_option (map_prod Inr (\<lambda>x. x)) (snd e rest))"

lemma good_either [intro]: "good_codec c \<Longrightarrow> good_codec e \<Longrightarrow> good_codec (either_codec c e)"
  by (simp add: good_codec_def either_codec_def split: sum.split)

definition unit_codec :: "unit codec" where
  "unit_codec = (\<lambda>_. [], \<lambda>bs. Some ((), bs))"

lemma good_unit [intro]: "good_codec unit_codec"
  by (simp add: good_codec_def unit_codec_def)

definition bare_deps_codec :: "ObjectDeps codec" where
  "bare_deps_codec = map_codec (\<lambda>d. case d of ObjectIdList l \<Rightarrow> Inl l | DepListRef r \<Rightarrow> Inr (ref_id r, ref_key r))
     (\<lambda>x. case x of Inl l \<Rightarrow> ObjectIdList l | Inr (i, k) \<Rightarrow> DepListRef \<lparr>ref_id = i, ref_key = k\<rparr>)
     (either_codec (seq_codec id_codec) (pair_codec id_codec key_codec))"

definition bare_expiry_codec :: "Timestamp option codec" where
  "bare_expiry_codec = map_codec (\<lambda>e. case e of None \<Rightarrow> Inl () | Some t \<Rightarrow> Inr t) (\<lambda>x. case x of Inl _ \<Rightarrow> None | Inr t \<Rightarrow> Some t)
     (either_codec unit_codec u32_codec)"

definition bare_block_codec :: "(BlockId list \<times> ObjectDeps \<times> Timestamp option \<times> bytes) codec" where
  "bare_block_codec = map_codec (Pair 0) snd (pair_codec byte_codec
     (pair_codec (seq_codec id_codec) (pair_codec bare_deps_codec (pair_codec bare_expiry_codec (seq_codec byte_codec)))))"

lemma good_bare_block: "good_codec bare_block_codec"
  unfolding bare_block_codec_def bare_deps_codec_def bare_expiry_codec_def
  by (intro good_map good_pair good_seq good_either good_unit good_byte good_fixeds) (auto split: ObjectDeps.splits option.splits)

lemma length_bare_block: "length (fst bare_block_codec (ch, d, e, c)) = block_len ch d e c"
proof -
  have "length (fst (seq_codec byte_codec) c) = varint_len (length c) + 1 * length c" by (rule length_seq) (simp add: byte_codec_def)
  moreover have "length (fst (seq_codec id_codec) l) = varint_len (length l) + 33 * length l" for l by (rule length_seq) simp
  moreover have "length (fst bare_deps_codec d) = deps_len d"
    by (cases d) (simp_all add: bare_deps_codec_def map_codec_def either_codec_def pair_codec_def length_seq lofire_defs)
  moreover have "length (fst bare_expiry_codec e) = expiry_len e"
    by (cases e) (simp_all add: bare_expiry_codec_def map_codec_def either_codec_def unit_codec_def expiry_len_def)
  ultimately show ?thesis by (simp add: bare_block_codec_def map_codec_def pair_codec_def byte_codec_def block_len_def lofire_defs)
qed

definition bare_block :: "Block \<Rightarrow> bytes" where
  "bare_block b = fst bare_block_codec (block_fields b)"

definition bare_block_de :: "bytes \<Rightarrow> Block option" where
  "bare_block_de bs = map_option fields_block (decode bare_block_codec bs)"

lemma bare_block_codec: "bare_block_de (bare_block b) = Some (plain b)" "bare_block (plain b) = bare_block b"
  by (simp_all add: bare_block_de_def bare_block_def good_bare_block) (simp add: block_fields_def)

lemma length_bare: "length (bare_block (Block.V0 b)) = block_len (blk_children b) (blk_deps b) (blk_expiry b) (blk_content b)"
  by (simp add: bare_block_def block_fields_def length_bare_block)

end
