(* ===== verification/Lofire_Store_Tests.thy ===== *)
theory Lofire_Store_Tests
  imports Lofire_Lmdb_Props Lofire_Bare
begin

text \<open>
  The tests of the LMDB block store in \<^verbatim>\<open>src/lofire-store-lmdb/src/repostore.rs\<close>, and that of accounts in
  \<^verbatim>\<open>src/lofire-broker/src/account.rs\<close>, as programs over the model, and the proofs that they pass on a store that has just been
  created. The directory and the environment in it are the argument \<open>d\<close>.
\<close>

section \<open>Listing a store\<close>

text \<open>
  \<^verbatim>\<open>while let Some(Ok(entry)) = iter.next()\<close>: the entries up to the first error. What \<^verbatim>\<open>list_all\<close> prints is its result;
  \<open>rows\<close> is \<^verbatim>\<open>iter_start\<close> of the tables with one value for a key.
\<close>

fun shown :: "('a, unit) result list \<Rightarrow> 'a list" where
  "shown (Ok entry # iter) = entry # shown iter"
| "shown _ = []"

type_synonym 'd rows = "'d \<Rightarrow> SingleTable \<Rightarrow> ((bytes \<times> bytes, unit) result list, unit) result"

definition repo_list_all ::
  "'d RepoRkv \<Rightarrow> 'd rows \<Rightarrow> 'd \<Rightarrow> ((bytes \<times> bytes) list \<times> (bytes \<times> bytes) list \<times> (u32 \<times> bytes) list \<times> (u32 \<times> bytes) list, unit) result" where
  "repo_list_all R rows d =
     and_then (unwrap_res (rows d MainStore)) (\<lambda>iter.
     and_then (unwrap_res (rows d MetaStore)) (\<lambda>iter2.
     and_then (unwrap_res (rr_iter_start R d ExpiryStore)) (\<lambda>iter3.
     and_then (unwrap_res (rr_iter_start R d RecentlyUsedStore)) (\<lambda>iter4.
       Ok (shown iter, shown iter2, shown iter3, shown iter4)))))"

section \<open>Recently used blocks\<close>

fun for_each :: "('a \<Rightarrow> 'd \<Rightarrow> (unit, 'e, 'd) op) \<Rightarrow> 'a list \<Rightarrow> 'd \<Rightarrow> (unit, 'e, 'd) op" where
  "for_each f [] d = (Ok (), d)"
| "for_each f (x # xs) d = op_then (f x d) (\<lambda>_ d. for_each f xs d)"

definition test_block :: "'x externs_scheme \<Rightarrow> Timestamp option \<Rightarrow> bytes \<Rightarrow> Block" where
  "test_block X expiry content = block_new X [] (ObjectIdList []) expiry content None"

definition tens :: "'x externs_scheme \<Rightarrow> nat \<Rightarrow> Block" where
  "tens X x = test_block X None (replicate 10 (of_nat x))"

text \<open>\<^verbatim>\<open>now -= 200\<close> panics below zero.\<close>

definition test_remove_least_used :: "'x repo_externs_scheme \<Rightarrow> 'd RepoRkv \<Rightarrow> u64 \<Rightarrow> 'd \<Rightarrow> (unit, unit, 'd) op" where
  "test_remove_least_used X R clock d =
     op_then (now_timestamp clock, d) (\<lambda>now d.
     if now < 200 then (Panic, d) else let now = now - 200 in
     op_then (for_each (\<lambda>x d.
         op_then (unwrap_op (lmdb_repo_put X R d (tens X x))) (\<lambda>block_id d.
         unwrap_op (has_been_synced X R clock d block_id (Some (now + of_nat x))))) [1..<85] d) (\<lambda>_ d.
     op_then (remove_least_used X R d 200) (\<lambda>ret d. (assert_that (ret = 208), d))))"

definition test_set_pin :: "'x repo_externs_scheme \<Rightarrow> 'd RepoRkv \<Rightarrow> 'd rows \<Rightarrow> u64 \<Rightarrow> 'd \<Rightarrow> (unit, unit, 'd) op" where
  "test_set_pin X R rows clock d =
     op_then (now_timestamp clock, d) (\<lambda>now d.
     if now < 200 then (Panic, d) else let now = now - 200 in
     op_then (for_each (\<lambda>x d.
         op_then (unwrap_op (lmdb_repo_put X R d (tens X x))) (\<lambda>obj_id d.
         op_then (unwrap_op (set_pin X R d obj_id True)) (\<lambda>_ d.
         unwrap_op (has_been_synced X R clock d obj_id (Some (now + of_nat x)))))) [1..<100] d) (\<lambda>_ d.
     op_then (remove_least_used X R d 200) (\<lambda>ret d.
     op_then (assert_that (ret = 0), d) (\<lambda>_ d.
     op_then (repo_list_all R rows d, d) (\<lambda>_ d. (Ok (), d))))))"

section \<open>Expired blocks\<close>

text \<open>The loop that puts a block per expiry, with its index as its content.\<close>

fun put_expiring ::
  "'x repo_externs_scheme \<Rightarrow> 'd RepoRkv \<Rightarrow> u8 \<Rightarrow> Timestamp list \<Rightarrow> BlockId list \<Rightarrow> 'd \<Rightarrow> (BlockId list, unit, 'd) op" where
  "put_expiring X R i [] block_ids d = (Ok block_ids, d)"
| "put_expiring X R i (expiry # list) block_ids d =
     op_then (unwrap_op (lmdb_repo_put X R d (test_block X (Some expiry) [i]))) (\<lambda>block_id d.
       put_expiring X R (i + 1) list (block_ids @ [block_id]) d)"

text \<open>\<^verbatim>\<open>assert!(store.get(block_ids.get(k).unwrap()).is_err())\<close>, or \<^verbatim>\<open>is_ok()\<close>, for a list of indices.\<close>

fun assert_gets ::
  "'x repo_externs_scheme \<Rightarrow> 'd RepoRkv \<Rightarrow> u64 \<Rightarrow> BlockId list \<Rightarrow> (nat \<times> bool) list \<Rightarrow> 'd \<Rightarrow> (unit, unit, 'd) op" where
  "assert_gets X R clock block_ids [] d = (Ok (), d)"
| "assert_gets X R clock block_ids ((k, found) # ks) d =
     (if length block_ids \<le> k then (Panic, d)
      else case lmdb_repo_get X R clock d (block_ids ! k) of (r, d) \<Rightarrow>
        op_then (case r of Ok _ \<Rightarrow> assert_that found | Err _ \<Rightarrow> assert_that (\<not> found) | Panic \<Rightarrow> Panic | Hang \<Rightarrow> Hang, d)
          (\<lambda>_ d. assert_gets X R clock block_ids ks d))"

text \<open>The clock is read again by \<^verbatim>\<open>remove_expired\<close>, and by the calls of \<^verbatim>\<open>get\<close> after it.\<close>

definition test_expired ::
  "'x repo_externs_scheme \<Rightarrow> 'd RepoRkv \<Rightarrow> u64 \<Rightarrow> 'd \<Rightarrow> Timestamp list \<Rightarrow> (nat \<times> bool) list \<Rightarrow> (unit, unit, 'd) op" where
  "test_expired X R clock d list expected =
     op_then (put_expiring X R 0 list [] d) (\<lambda>block_ids d.
     op_then (unwrap_op (remove_expired X R clock d)) (\<lambda>_ d.
     assert_gets X R clock block_ids expected d))"

definition test_remove_expired :: "'x repo_externs_scheme \<Rightarrow> 'd RepoRkv \<Rightarrow> u64 \<Rightarrow> u64 \<Rightarrow> 'd \<Rightarrow> (unit, unit, 'd) op" where
  "test_remove_expired X R clock clock' d =
     op_then (now_timestamp clock, d) (\<lambda>now d.
     if now < 10 \<or> 2 ^ 32 \<le> unat now + 10 then (Panic, d)
     else test_expired X R clock' d
       [now - 10, now - 6, now - 6, now - 3, now - 2, now - 1, now + 3, now + 4, now + 4, now + 5, now + 10]
       [(0, False), (1, False), (2, False), (5, False), (6, True), (7, True)])"

definition test_remove_all_expired :: "'x repo_externs_scheme \<Rightarrow> 'd RepoRkv \<Rightarrow> u64 \<Rightarrow> u64 \<Rightarrow> 'd \<Rightarrow> (unit, unit, 'd) op" where
  "test_remove_all_expired X R clock clock' d =
     op_then (now_timestamp clock, d) (\<lambda>now d.
     if now < 10 then (Panic, d)
     else test_expired X R clock' d [now - 10, now - 6, now - 6, now - 3, now - 2, now - 2]
       [(0, False), (1, False), (2, False), (3, False), (4, False), (5, False)])"

definition test_remove_empty_expired :: "'x repo_externs_scheme \<Rightarrow> 'd RepoRkv \<Rightarrow> u64 \<Rightarrow> 'd \<Rightarrow> (unit, unit, 'd) op" where
  "test_remove_empty_expired X R clock d = unwrap_op (remove_expired X R clock d)"

section \<open>A block and the sizes of values\<close>

definition abc_digest :: bytes32 where
  "abc_digest = bytes32_of [155, 83, 186, 17, 95, 10, 80, 31, 111, 24, 250, 64, 8, 145, 71, 193, 103, 246, 202,
     28, 202, 144, 63, 65, 85, 229, 136, 85, 202, 34, 13, 85]"

definition test_store_block :: "'x repo_externs_scheme \<Rightarrow> 'd RepoRkv \<Rightarrow> u64 \<Rightarrow> 'd \<Rightarrow> (unit, unit, 'd) op" where
  "test_store_block X R clock d =
     (let block = test_block X None (map of_char ''abc'') in
      op_then (unwrap_op (lmdb_repo_put X R d block)) (\<lambda>i d.
      op_then (assert_all [i = block_id X block, i = Blake3Digest32 abc_digest], d) (\<lambda>_ d.
      op_then (unwrap_op (lmdb_repo_get X R clock d i)) (\<lambda>block_res d.
        (assert_that (block_id X block_res = block_id X block), d)))))"

fun assert_sizes :: "(usize \<times> usize) list \<Rightarrow> (unit, unit) result" where
  "assert_sizes [] = Ok ()"
| "assert_sizes ((sz, expected) # szs) =
     and_then (store_valid_value_size sz) (\<lambda>v. and_then (assert_that (v = expected)) (\<lambda>_. assert_sizes szs))"

definition test_get_valid_value_size :: "(unit, unit) result" where
  "test_get_valid_value_size = assert_sizes [
     (0, 4072), (2, 4072), (4072, 4072), (4072 + 1, 4072 + 4096), (4072 + 4096, 4072 + 4096),
     (4072 + 4096 + 1, 4072 + 4096 + 4096), (4072 + 4096 + 4096, 4072 + 4096 + 4096),
     (4072 + 4096 + 4096 + 1, 4072 + 4096 + 4096 + 4096), (4072 + 4096 * 511, 4072 + 4096 * 511),
     (4072 + 4096 * 511 + 1, 4072 + 4096 * 511)]"

section \<open>An account\<close>

definition test_account :: "'x net_externs_scheme \<Rightarrow> 'b BrokerStore \<Rightarrow> 'b \<Rightarrow> (unit, unit, 'b) op" where
  "test_account X B s =
     (let user_id = Ed25519PubKey (fill32 1); client_id = Ed25519PubKey (fill32 56); client_id_not_added = Ed25519PubKey (fill32 57) in
      op_then (unwrap_op (account_create X B user_id True s)) (\<lambda>account s.
      op_then (unwrap_res (account_open X B user_id s), s) (\<lambda>account2 s.
      op_then (unwrap_op (account_add_client X B account2 client_id s)) (\<lambda>_ s.
      op_then (unwrap_res (account_is_admin X B account2 s), s) (\<lambda>admin s.
      op_then (assert_that admin, s) (\<lambda>_ s.
      op_then (unwrap_res (account_has_client X B account client_id s), s) (\<lambda>_ s.
        (case account_has_client X B account client_id_not_added s of
           Err _ \<Rightarrow> Ok () | Hang \<Rightarrow> Hang | _ \<Rightarrow> Panic, s))))))))"

section \<open>Sizes\<close>

lemma test_get_valid_value_size_passes: "test_get_valid_value_size = Ok ()"
  by (simp add: test_get_valid_value_size_def store_valid_value_size_eq lofire_defs)

section \<open>The calls of the tests\<close>

lemma put_represents:
  assumes "repo_codec X" "represents X R good single multi exact d V" "honest X b" "exact \<Longrightarrow> rv_blocks V (block_id X b) = None"
  shows "\<exists>d'. lmdb_repo_put X R d b = (Ok (block_id X b), d')
    \<and> represents X R good single multi exact d' (V\<lparr>rv_blocks := (rv_blocks V)(block_id X b \<mapsto> plain b)\<rparr>)"
  using put_step [OF assms(1-3), of clock now] assms(4) by (auto simp: res_simps)

lemma apfst_map_err_Ok [res_simps]: "apfst (map_err g) p = (Ok x, s) \<longleftrightarrow> p = (Ok x, s)"
  by (cases p) (simp add: res_simps)

lemma synced_represents:
  assumes "repo_codec X" "represents X R good single multi exact d V" "now_timestamp clock = (Ok now :: (Timestamp, unit) result)" "w \<noteq> 0"
    "repo_step X now V (Synced i (Some w)) = (Ok Finished, V')"
  shows "\<exists>d'. has_been_synced X R clock d i (Some w) = (Ok (), d') \<and> represents X R good single multi exact d' V'"
  using synced_step [OF assms(1-3), of "Some w" i] assms(4,5) by (auto simp: res_simps)

lemma pin_represents:
  assumes "repo_codec X" "represents X R good single multi exact d V" "repo_step X now V (SetPin i add) = (Ok Finished, V')"
  shows "\<exists>d'. set_pin X R d i add = (Ok (), d') \<and> represents X R good single multi exact d' V'"
  using set_pin_step [OF assms(1,2), of clock i add now] assms(3) by (auto simp: res_simps)

section \<open>Recently used blocks are reclaimed, pinned ones are not\<close>

text \<open>A store of synced blocks with the times of their last use, all pinned or none.\<close>

definition synced_view :: "'x externs_scheme \<Rightarrow> bool \<Rightarrow> (Block \<times> Timestamp) list \<Rightarrow> RepoView" where
  "synced_view X pinned bts = \<lparr>rv_blocks = map_of (map (\<lambda>(b, t). (block_id X b, plain b)) bts),
     rv_metas = map_of (map (\<lambda>(b, t). (block_id X b, \<lparr>bm_pin = pinned, bm_last_used = t, bm_synced = True\<rparr>)) bts)\<rparr>"

abbreviation ids_of_pairs :: "'x externs_scheme \<Rightarrow> (Block \<times> Timestamp) list \<Rightarrow> BlockId set" where
  "ids_of_pairs X bts \<equiv> block_id X ` fst ` set bts"

lemma synced_view_new:
  assumes "block_id X b \<notin> ids_of_pairs X bts"
  shows "rv_blocks (synced_view X p bts) (block_id X b) = None" "rv_metas (synced_view X p bts) (block_id X b) = None"
  using assms by (force simp: synced_view_def map_of_eq_None_iff)+

lemma synced_view_Cons:
  "synced_view X p ((b, t) # bts) = set_meta (block_id X b) \<lparr>bm_pin = p, bm_last_used = t, bm_synced = True\<rparr>
     ((synced_view X p bts)\<lparr>rv_blocks := (rv_blocks (synced_view X p bts))(block_id X b \<mapsto> plain b)\<rparr>)"
  by (simp add: synced_view_def set_meta_def)

lemma synced_view_metas:
  "rv_metas (synced_view X p bts) i = Some m \<Longrightarrow> bm_pin m = p \<and> bm_synced m \<and> (\<exists>b. (b, bm_last_used m) \<in> set bts \<and> block_id X b = i)"
  by (fastforce simp: synced_view_def dest!: map_of_SomeD)

lemma synced_view_blocks:
  assumes "i \<in> ids_of_pairs X bts"
  shows "\<exists>b \<in> fst ` set bts. rv_blocks (synced_view X p bts) i = Some (plain b)"
proof -
  have "rv_blocks (synced_view X p bts) i \<noteq> None" using assms by (simp add: synced_view_def map_of_eq_None_iff image_image case_prod_beta)
  then obtain b where b: "rv_blocks (synced_view X p bts) i = Some b" by blast
  then have "(i, b) \<in> set (map (\<lambda>(b, t). (block_id X b, plain b)) bts)" by (auto simp: synced_view_def dest: map_of_SomeD)
  with b show ?thesis by force
qed

lemma synced_loop:
  assumes "repo_codec X" "represents X R good single multi exact d (synced_view X p bts)"
    "now_timestamp clock = (Ok now :: (Timestamp, unit) result)"
    "\<forall>x \<in> set xs. honest X (f x) \<and> g x \<noteq> 0" "distinct (map (block_id X \<circ> f) xs)" "distinct (map g xs)"
    "block_id X ` f ` set xs \<inter> ids_of_pairs X bts = {}" "g ` set xs \<inter> snd ` set bts = {}"
  shows "\<exists>d'. for_each (\<lambda>x d. op_then (unwrap_op (lmdb_repo_put X R d (f x))) (\<lambda>i d.
      op_then (if p then unwrap_op (set_pin X R d i True) else (Ok (), d)) (\<lambda>_ d.
        unwrap_op (has_been_synced X R clock d i (Some (g x)))))) xs d = (Ok () :: (unit, unit) result, d')
    \<and> represents X R good single multi exact d' (synced_view X p (rev (map (\<lambda>x. (f x, g x)) xs) @ bts))"
  using assms(2,4-8)
proof (induction xs arbitrary: d bts)
  case (Cons x xs)
  let ?V = "synced_view X p bts" and ?i = "block_id X (f x)"
  let ?V1 = "?V\<lparr>rv_blocks := (rv_blocks ?V)(?i \<mapsto> plain (f x))\<rparr>"
  let ?V2 = "if p then set_meta ?i \<lparr>bm_pin = True, bm_last_used = 0, bm_synced = False\<rparr> ?V1 else ?V1"
  have new: "rv_blocks ?V ?i = None" "rv_metas ?V ?i = None" using Cons.prems(5) synced_view_new [of X "f x" bts p] by auto
  from put_represents [OF assms(1) Cons.prems(1)] Cons.prems(2) new(1) obtain d1 where
    d1: "lmdb_repo_put X R d (f x) = (Ok ?i, d1)" "represents X R good single multi exact d1 ?V1" by auto
  from pin_represents [OF assms(1) d1(2), of now ?i True] new(2) obtain d2 where
    d2: "(if p then unwrap_op (set_pin X R d1 ?i True) else (Ok (), d1)) = (Ok () :: (unit, unit) result, d2)" "represents X R good single multi exact d2 ?V2"
    using d1(2) by (cases p) (auto simp: unwrap_op_def)
  have "lru_of (rv_metas ?V) (g x) = {}"
    using Cons.prems(6) by (force simp: lru_of_def dest: synced_view_metas)
  then have "repo_step X now ?V2 (Synced ?i (Some (g x))) = (Ok Finished, synced_view X p ((f x, g x) # bts))"
    using new(2) by (auto simp: synced_view_Cons set_meta_def appendable_def)
  from synced_represents [OF assms(1) d2(2) assms(3) _ this] Cons.prems(2) obtain d3 where
    d3: "has_been_synced X R clock d2 ?i (Some (g x)) = (Ok (), d3)" "represents X R good single multi exact d3 (synced_view X p ((f x, g x) # bts))" by auto
  from Cons.IH [OF d3(2)] Cons.prems(2-6) obtain d4 where
    "for_each (\<lambda>x d. op_then (unwrap_op (lmdb_repo_put X R d (f x))) (\<lambda>i d.
      op_then (if p then unwrap_op (set_pin X R d i True) else (Ok (), d)) (\<lambda>_ d.
        unwrap_op (has_been_synced X R clock d i (Some (g x)))))) xs d3 = (Ok () :: (unit, unit) result, d4)"
    "represents X R good single multi exact d4 (synced_view X p (rev (map (\<lambda>x. (f x, g x)) xs) @ (f x, g x) # bts))" by auto
  with d1(1) d2(1) d3(1) show ?case by (simp add: unwrap_op_def)
qed simp

text \<open>The blocks of the loops, with distinct identifiers, at the minutes after \<open>t\<close>.\<close>

definition tens_distinct :: "'x externs_scheme \<Rightarrow> bool" where
  "tens_distinct X \<longleftrightarrow> distinct (map (block_id X \<circ> tens X) [1..<100])"

lemma honest_tens [simp]: "honest X (tens X x)"
  by (simp add: tens_def test_block_def)

lemma minutes_after:
  assumes "t + 200 \<le> 2 ^ 32" "k \<le> 100"
  shows "distinct (map (\<lambda>x. word_of_nat t + word_of_nat x :: Timestamp) [1..<k])" "\<forall>x \<in> set [1..<k]. (word_of_nat t + word_of_nat x :: Timestamp) \<noteq> 0"
proof -
  have u: "unat (word_of_nat t + word_of_nat x :: Timestamp) = t + x" if "x < k" for x
  proof -
    have "t + x < 2 ^ 32" using assms that by simp
    then show ?thesis by (simp flip: of_nat_add add: unat_of_nat take_bit_eq_mod)
  qed
  show "distinct (map (\<lambda>x. word_of_nat t + word_of_nat x :: Timestamp) [1..<k])"
    unfolding distinct_map
  proof (intro conjI inj_onI)
    fix x y assume "x \<in> set [1..<k]" "y \<in> set [1..<k]" and eq: "word_of_nat t + word_of_nat x = (word_of_nat t + word_of_nat y :: Timestamp)"
    then have "x < k" "y < k" by simp_all
    from u [OF this(1)] u [OF this(2)] eq have "t + x = t + y" by metis
    then show "x = y" by simp
  qed simp
  show "\<forall>x \<in> set [1..<k]. (word_of_nat t + word_of_nat x :: Timestamp) \<noteq> 0"
    by (auto dest!: arg_cong [where f = unat] simp: u)
qed

lemma tens_loop:
  assumes "repo_codec X" "represents X R good single multi exact d no_view" "now_timestamp clock = (Ok now :: (Timestamp, unit) result)"
    "200 \<le> now" "tens_distinct X" "k \<le> 100"
  shows "\<exists>d'. for_each (\<lambda>x d. op_then (unwrap_op (lmdb_repo_put X R d (tens X x))) (\<lambda>i d.
      op_then (if p then unwrap_op (set_pin X R d i True) else (Ok (), d)) (\<lambda>_ d.
        unwrap_op (has_been_synced X R clock d i (Some (now - 200 + of_nat x)))))) [1..<k] d = (Ok () :: (unit, unit) result, d')
    \<and> represents X R good single multi exact d' (synced_view X p (rev (map (\<lambda>x. (tens X x, now - 200 + of_nat x)) [1..<k])))"
proof -
  have view: "no_view = synced_view X p []" by (simp add: no_view_def synced_view_def)
  have ids: "distinct (map (block_id X \<circ> tens X) [1..<k])"
    using assms(5,6) unfolding tens_distinct_def distinct_map by (auto intro: inj_on_subset)
  let ?t = "unat now - 200"
  have "unat now < 2 ^ LENGTH(32)" by (rule unsigned_less)
  then have t: "now - 200 = of_nat ?t" "?t + 200 \<le> 2 ^ 32"
    using assms(4) by (simp_all add: word_le_nat_alt of_nat_diff)
  note times = minutes_after [OF t(2) assms(6)]
  from synced_loop [where p = p and f = "tens X" and g = "\<lambda>x. now - 200 + of_nat x" and xs = "[1..<k]" and bts = "[]",
      OF assms(1) assms(2) [unfolded view] assms(3)] ids times show ?thesis unfolding t(1) by simp
qed

lemma synced_view_listed: "listed (synced_view X p bts) = (if p then {} else ids_of_pairs X bts)"
proof -
  have lru: "in_lru m \<longleftrightarrow> \<not> p" if "rv_metas (synced_view X p bts) i = Some m" for i m
    using synced_view_metas [OF that] by (simp add: in_lru_def)
  have "map_of (map (\<lambda>(b, t). (block_id X b, \<lparr>bm_pin = p, bm_last_used = t, bm_synced = True\<rparr>)) bts) i \<noteq> None \<longleftrightarrow> i \<in> ids_of_pairs X bts" for i
    by (force simp: map_of_eq_None_iff image_iff)
  then have dom: "(\<exists>m. rv_metas (synced_view X p bts) i = Some m) \<longleftrightarrow> i \<in> ids_of_pairs X bts" for i by (simp add: synced_view_def)
  have "listed (synced_view X p bts) = {i. \<exists>m. rv_metas (synced_view X p bts) i = Some m \<and> \<not> p}"
    unfolding listed_def using lru by (intro Collect_cong) blast
  also have "\<dots> = (if p then {} else {i. \<exists>m. rv_metas (synced_view X p bts) i = Some m})" by simp
  finally show ?thesis unfolding dom by simp
qed

lemma equal_sizes_stop:
  assumes "stops_at f 200 ids k" "\<forall>i \<in> set ids. f i = 16" "13 \<le> length ids"
  shows "sum_list (map f (take k ids)) = 208"
proof -
  have sum: "sum_list (map f (take j ids)) = 16 * j" if "j \<le> length ids" for j
  proof -
    have "map f (take j ids) = replicate j 16" using that by (intro replicate_eqI) (auto dest!: in_set_takeD simp: assms(2) [rule_format])
    then show ?thesis by (simp add: sum_list_replicate)
  qed
  from assms(1,3) have k: "k \<le> length ids" "k = length ids \<or> 200 \<le> 16 * k" "\<forall>j. 0 < j \<and> j < k \<longrightarrow> 16 * j < (200 :: nat)" 
    using sum unfolding stops_at_def by auto
  from k(3) [rule_format, of 13] assms(3) k(2) have "k = 13" by linarith
  with sum [OF k(1)] show ?thesis by simp
qed

lemma test_remove_least_used_passes:
  fixes R :: "'d RepoRkv"
  assumes "repo_codec X" "represents X R good single multi exact d no_view" "now_timestamp clock = (Ok now :: (Timestamp, unit) result)" "200 \<le> now"
    and "tens_distinct X" and len: "\<And>b. length (ser_whole_block X (Block.V0 b)) = block_len (blk_children b) (blk_deps b) (blk_expiry b) (blk_content b)"
  shows "\<exists>d'. test_remove_least_used X R clock d = (Ok (), d')"
proof -
  let ?bts = "rev (map (\<lambda>x. (tens X x, now - 200 + of_nat x)) [1..<85])" and ?V = "\<lambda>bts. synced_view X False bts"
  from tens_loop [OF assms(1-5), of 85 False] obtain d1 where
    d1: "for_each (\<lambda>x d. op_then (unwrap_op (lmdb_repo_put X R d (tens X x))) (\<lambda>i d.
        unwrap_op (has_been_synced X R clock d i (Some (now - 200 + of_nat x))))) [1..<85] d = (Ok () :: (unit, unit) result, d1)"
      "represents X R good single multi exact d1 (?V ?bts)" by auto
  have listed: "listed (?V ?bts) = (block_id X \<circ> tens X) ` set [1..<85]" by (force simp: synced_view_listed)
  have blocks: "\<exists>x. rv_blocks (?V ?bts) i = Some (plain (tens X x))" if "i \<in> listed (?V ?bts)" for i
    using synced_view_blocks [of i X ?bts False] that by (auto simp: synced_view_listed)
  have size: "stored_size X (?V ?bts) i = 16" if "i \<in> listed (?V ?bts)" for i
    using blocks [OF that] len by (auto simp: stored_size_def tens_def test_block_def block_new_def blockv0_new_def block_len_def expiry_len_def
        varint_len_1 Let_def)
  from remove_least_used_ids [where 'e = unit, OF assms(1) d1(2), of 200] obtain ids where
    ids: "(remove_least_used X R d1 200 :: (usize, unit, 'd) op) = del_least_used X R 200 d1 ids 0" "distinct ids" "set ids = listed (?V ?bts)" by blast
  have "\<forall>i \<in> set ids. rv_blocks (?V ?bts) i \<noteq> None \<and> \<not> locked (?V ?bts) i" using blocks listed_unlocked ids(3) by fastforce
  from del_least_used_follows [where 'e = unit, OF assms(1) d1(2) ids(2) this, of 200 0] obtain k d2 where
    k: "del_least_used X R 200 d1 ids 0 = ((Ok (sum_list (map (stored_size X (?V ?bts)) (take k ids))), d2) :: (usize, unit, 'd) op)"
      "stops_at (stored_size X (?V ?bts)) 200 ids k" unfolding stops_at_def by auto
  have "inj_on (block_id X \<circ> tens X) (set [1..<85])" using assms(5) unfolding tens_distinct_def distinct_map by (auto intro: inj_on_subset)
  then have "card (set ids) = 84" unfolding ids(3) listed by (subst card_image) simp_all
  then have "length ids = 84" using distinct_card [OF ids(2)] by simp
  with equal_sizes_stop [OF k(2)] size ids(3) have "sum_list (map (stored_size X (?V ?bts)) (take k ids)) = 208" by auto
  with k(1) ids(1) d1(1) assms(3,4) show ?thesis by (simp add: test_remove_least_used_def Let_def)
qed

text \<open>The tables with one value for a key can be iterated over, and hold what is read from them.\<close>

definition rows_law :: "'d rows \<Rightarrow> ('d \<Rightarrow> bool) \<Rightarrow> ('d \<Rightarrow> singles) \<Rightarrow> bool" where
  "rows_law rows good single \<longleftrightarrow> (\<forall>d T. good d \<longrightarrow> (\<exists>es. rows d T = Ok (map Ok es) \<and> set es = {(k, v). single d T k = Some v}))"

lemma shown_map_Ok [simp]: "shown (map Ok es) = es"
  by (induction es) simp_all

lemma repo_list_all_complete:
  assumes "repo_state R good single multi d S M" "rows_law rows good single"
  shows "\<exists>main meta expiry lru. repo_list_all R rows d = Ok (main, meta, expiry, lru)
    \<and> set main = {(k, v). S MainStore k = Some v} \<and> set meta = {(k, v). S MetaStore k = Some v}
    \<and> set expiry = {(t, v). v \<in> M ExpiryStore t} \<and> set lru = {(t, v). v \<in> M RecentlyUsedStore t}"
proof -
  have "good d" "single d = S" using assms(1) by (simp_all add: repo_state_def)
  with assms(2) have rows: "\<exists>es. rows d T = Ok (map Ok es) \<and> set es = {(k, v). S T k = Some v}" for T by (auto simp: rows_law_def)
  from rows [of MainStore] rows [of MetaStore] rr_iter_law [OF assms(1), of ExpiryStore] rr_iter_law [OF assms(1), of RecentlyUsedStore]
  show ?thesis by (auto simp: repo_list_all_def)
qed

lemma list_all_represents:
  assumes "represents X R good single multi exact d V" "rows_law rows good single"
  shows "\<exists>entries. repo_list_all R rows d = Ok entries"
  using assms(1) repo_list_all_complete [OF _ assms(2)] unfolding represents_def by blast

lemma test_set_pin_passes:
  fixes R :: "'d RepoRkv"
  assumes "repo_codec X" "represents X R good single multi exact d no_view" "now_timestamp clock = (Ok now :: (Timestamp, unit) result)" "200 \<le> now"
    "tens_distinct X" and rows: "rows_law rows good single"
  shows "\<exists>d'. test_set_pin X R rows clock d = (Ok (), d')"
proof -
  let ?V = "synced_view X True (rev (map (\<lambda>x. (tens X x, now - 200 + of_nat x)) [1..<100]))"
  from tens_loop [OF assms(1-5), of 100 True] obtain d1 where
    d1: "for_each (\<lambda>x d. op_then (unwrap_op (lmdb_repo_put X R d (tens X x))) (\<lambda>i d.
      op_then (unwrap_op (set_pin X R d i True)) (\<lambda>_ d.
        unwrap_op (has_been_synced X R clock d i (Some (now - 200 + of_nat x)))))) [1..<100] d = (Ok () :: (unit, unit) result, d1)"
      "represents X R good single multi exact d1 ?V" by auto
  from remove_least_used_ids [where 'e = unit, OF assms(1) d1(2), of 200] have "(remove_least_used X R d1 200 :: (usize, unit, 'd) op) = (Ok 0, d1)"
    by (auto simp: synced_view_listed)
  moreover from list_all_represents [OF d1(2) rows] obtain es where "repo_list_all R rows d1 = Ok es" ..
  ultimately show ?thesis using d1(1) assms(3,4) by (simp add: test_set_pin_def Let_def)
qed

section \<open>Expired blocks are removed, others stay\<close>

text \<open>The blocks that the loop puts, with the indices from \<open>i\<close> on.\<close>

fun expiring_blocks :: "'x externs_scheme \<Rightarrow> u8 \<Rightarrow> Timestamp list \<Rightarrow> Block list" where
  "expiring_blocks X i [] = []"
| "expiring_blocks X i (e # es) = test_block X (Some e) [i] # expiring_blocks X (i + 1) es"

lemma expiring_blocks_length [simp]: "length (expiring_blocks X i es) = length es"
  by (induction es arbitrary: i) simp_all

lemma expiring_blocks_expiry: "k < length es \<Longrightarrow> block_expiry (expiring_blocks X i es ! k) = Some (es ! k)"
  by (induction es arbitrary: i k) (auto simp: test_block_def nth_Cons split: nat.split)

definition stored_view :: "'x externs_scheme \<Rightarrow> Block list \<Rightarrow> RepoView" where
  "stored_view X bs = \<lparr>rv_blocks = map_of (map (\<lambda>b. (block_id X b, plain b)) bs), rv_metas = Map.empty\<rparr>"

lemma put_expiring_represents:
  assumes "repo_codec X" "represents X R good single multi exact d (stored_view X bs)" "distinct (map (block_id X) (rev (expiring_blocks X i es) @ bs))"
  shows "\<exists>d'. put_expiring X R i es ids d = (Ok (ids @ map (block_id X) (expiring_blocks X i es)), d')
    \<and> represents X R good single multi exact d' (stored_view X (rev (expiring_blocks X i es) @ bs))"
  using assms(2,3)
proof (induction es arbitrary: i ids d bs)
  case (Cons e es)
  let ?b = "test_block X (Some e) [i]"
  have "rv_blocks (stored_view X bs) (block_id X ?b) = None"
    using Cons.prems(2) by (auto simp: stored_view_def map_of_eq_None_iff image_image)
  moreover have "honest X ?b" by (simp add: test_block_def)
  ultimately obtain d1 where d1: "lmdb_repo_put X R d ?b = (Ok (block_id X ?b), d1)"
      "represents X R good single multi exact d1 (stored_view X (?b # bs))"
    using put_represents [OF assms(1) Cons.prems(1), of ?b] by (auto simp: stored_view_def)
  from Cons.IH [OF d1(2), of "i + 1" "ids @ [block_id X ?b]"] Cons.prems(2) d1(1) show ?case by (auto simp: unwrap_op_def)
qed simp

lemma assert_gets_pass:
  assumes "repo_codec X" "represents X R good single multi exact d V" "rv_metas V = Map.empty"
    "now_timestamp clock = (Ok now :: (Timestamp, StorageError) result)" "now \<noteq> 0"
    "\<forall>(k, found) \<in> set ks. k < length ids \<and> (found \<longleftrightarrow> rv_blocks V (ids ! k) \<noteq> None)"
  shows "\<exists>d'. assert_gets X R clock ids ks d = (Ok (), d')"
  using assms(2,6)
proof (induction ks arbitrary: d)
  case (Cons p ks)
  obtain k found where p: "p = (k, found)" by fastforce
  with Cons.prems(2) have k: "k < length ids" "found \<longleftrightarrow> rv_blocks V (ids ! k) \<noteq> None" by auto
  obtain r d1 where get: "lmdb_repo_get X R clock d (ids ! k) = (r, d1)" by fastforce
  from get_step [OF assms(1) Cons.prems(1) assms(4,5), of "ids ! k"] get assms(3) have
    "represents X R good single multi exact d1 V \<and> (case rv_blocks V (ids ! k) of None \<Rightarrow> r = Err StorageError.NotFound | Some b \<Rightarrow> r = Ok b)"
    by (cases r) (auto split: option.splits)
  with Cons.IH [of d1] Cons.prems(2) k get show ?case by (auto simp: p split: option.splits)
qed simp

lemma test_expired_passes:
  assumes "repo_codec X" "represents X R good single multi True d no_view" "now_timestamp clock = (Ok now :: (Timestamp, unit) result)"
    "now_timestamp clock = (Ok now :: (Timestamp, StorageError) result)" "now \<noteq> 0"
    "distinct (map (block_id X) (expiring_blocks X 0 es))"
    "\<forall>(k, found) \<in> set ks. k < length es \<and> (found \<longleftrightarrow> now < es ! k)"
  shows "\<exists>d'. test_expired X R clock d es ks = (Ok (), d')"
proof -
  let ?bs = "expiring_blocks X 0 es" and ?V = "stored_view X (rev (expiring_blocks X 0 es))"
  have "no_view = stored_view X []" by (simp add: no_view_def stored_view_def)
  with put_expiring_represents [where i = 0 and es = es and ids = "[]" and bs = "[]", OF assms(1), of R good single multi True d] assms(2,6) obtain d1 where
    d1: "put_expiring X R 0 es [] d = (Ok (map (block_id X) ?bs), d1)" "represents X R good single multi True d1 ?V"
    by (auto simp: rev_map [symmetric])
  have get: "rv_blocks ?V (block_id X (?bs ! k)) = Some (plain (?bs ! k))" if "k < length es" for k
    using assms(6) that by (auto simp: stored_view_def rev_map [symmetric] comp_def intro!: map_of_is_SomeI)
  from remove_expired_ids [OF assms(1) d1(2) assms(3)] obtain ids where
    ids: "remove_expired X R clock d1 = del_expired X R d1 ids" "distinct ids" "set ids = expired ?V now" by blast
  have "\<forall>i \<in> set ids. rv_blocks ?V i \<noteq> None" "\<forall>i. \<not> locked ?V i" by (auto simp: ids(3) expired_def locked_def stored_view_def)
  with del_expired_follows [OF assms(1) d1(2) ids(2)] obtain d2 where
    d2: "remove_expired X R clock d1 = (Ok (), d2)" "represents X R good single multi True d2 (without (expired ?V now) ?V)"
    by (auto simp: ids(1,3))
  have left: "rv_blocks (without (expired ?V now) ?V) (block_id X (?bs ! k)) \<noteq> None \<longleftrightarrow> now < es ! k" if "k < length es" for k
    using get [OF that] expiring_blocks_expiry [OF that, of X 0] by (auto simp: without_def restrict_map_def expired_def not_le)
  have "\<exists>d'. assert_gets X R clock (map (block_id X) ?bs) ks d2 = (Ok (), d')"
  proof (rule assert_gets_pass [OF assms(1) d2(2) _ assms(4,5)])
    show "\<forall>(k, found) \<in> set ks. k < length (map (block_id X) ?bs)
        \<and> (found \<longleftrightarrow> rv_blocks (without (expired ?V now) ?V) (map (block_id X) ?bs ! k) \<noteq> None)"
    proof (clarify, intro conjI)
      fix k found assume "(k, found) \<in> set ks"
      with assms(7) have k: "k < length es" "found \<longleftrightarrow> now < es ! k" by auto
      then show "k < length (map (block_id X) ?bs)" by simp
      from k left [OF k(1)] show "found \<longleftrightarrow> rv_blocks (without (expired ?V now) ?V) (map (block_id X) ?bs ! k) \<noteq> None" by simp
    qed
  qed (simp add: without_def stored_view_def)
  with d1(1) d2(1) show ?thesis by (simp add: test_expired_def unwrap_op_def)
qed

text \<open>A clock that reads \<open>now\<close>, whatever the type of errors of the call.\<close>

definition reads :: "u64 \<Rightarrow> Timestamp \<Rightarrow> bool" where
  "reads clock now \<longleftrightarrow> (now_timestamp clock :: (Timestamp, unit) result) = Ok now"

lemma readsD: "reads clock now \<Longrightarrow> now_timestamp clock = (Ok now :: (Timestamp, 'e) result)"
  by (auto simp: reads_def now_timestamp_def Let_def split: if_splits)

lemma near_times:
  fixes now :: Timestamp
  assumes "10 \<le> now" "now \<le> now'" "k \<le> 10"
  shows "now - of_nat k \<le> now'"
proof -
  have "of_nat k \<le> now" using assms(1,3) by (simp add: word_le_nat_alt unat_of_nat)
  then have "unat (now - of_nat k) \<le> unat now" by (simp add: unat_sub_if_size word_le_nat_alt)
  with assms(2) show ?thesis by (simp add: word_le_nat_alt)
qed

lemma test_remove_all_expired_passes:
  assumes "repo_codec X" "represents X R good single multi True d no_view" "reads clock now" "reads clock' now'" "10 \<le> now" "now \<le> now'"
    "distinct (map (block_id X) (expiring_blocks X 0 [now - 10, now - 6, now - 6, now - 3, now - 2, now - 2]))"
  shows "\<exists>d'. test_remove_all_expired X R clock clock' d = (Ok (), d')"
proof -
  have "now' \<noteq> 0" using assms(5,6) by (auto simp: word_le_nat_alt)
  moreover have "now - 10 \<le> now'" "now - 6 \<le> now'" "now - 3 \<le> now'" "now - 2 \<le> now'"
    using near_times [OF assms(5,6), of 10] near_times [OF assms(5,6), of 6] near_times [OF assms(5,6), of 3] near_times [OF assms(5,6), of 2] by simp_all
  ultimately have "\<exists>d'. test_expired X R clock' d [now - 10, now - 6, now - 6, now - 3, now - 2, now - 2]
      [(0, False), (1, False), (2, False), (3, False), (4, False), (5, False)] = (Ok (), d')"
    by (intro test_expired_passes [OF assms(1,2) readsD readsD _ assms(7)]) (simp_all add: assms(4) not_less)
  with readsD [OF assms(3), where 'e = unit] assms(5) show ?thesis by (simp add: test_remove_all_expired_def not_less)
qed

lemma test_remove_expired_passes:
  assumes "repo_codec X" "represents X R good single multi True d no_view" "reads clock now" "reads clock' now'"
    "10 \<le> now" "now \<le> now'" "unat now' < unat now + 3" "unat now + 10 < 2 ^ 32"
    "distinct (map (block_id X) (expiring_blocks X 0
      [now - 10, now - 6, now - 6, now - 3, now - 2, now - 1, now + 3, now + 4, now + 4, now + 5, now + 10]))"
  shows "\<exists>d'. test_remove_expired X R clock clock' d = (Ok (), d')"
proof -
  have "now' \<noteq> 0" using assms(5,6) by (auto simp: word_le_nat_alt)
  moreover have "now - 10 \<le> now'" "now - 6 \<le> now'" "now - 1 \<le> now'"
    using near_times [OF assms(5,6), of 10] near_times [OF assms(5,6), of 6] near_times [OF assms(5,6), of 1] by simp_all
  moreover have "unat (now + 3) = unat now + 3" "unat (now + 4) = unat now + 4" using assms(8) by (simp_all add: unat_word_ariths)
  then have "now' < now + 3" "now' < now + 4" using assms(7) by (simp_all add: word_less_nat_alt)
  ultimately have "\<exists>d'. test_expired X R clock' d [now - 10, now - 6, now - 6, now - 3, now - 2, now - 1, now + 3, now + 4, now + 4, now + 5, now + 10]
      [(0, False), (1, False), (2, False), (5, False), (6, True), (7, True)] = (Ok (), d')"
    by (intro test_expired_passes [OF assms(1,2) readsD readsD _ assms(9)]) (simp_all add: assms(4) not_less)
  with readsD [OF assms(3), where 'e = unit] assms(5,8) show ?thesis by (simp add: test_remove_expired_def not_less)
qed

lemma test_remove_empty_expired_passes:
  assumes "repo_codec X" "represents X R good single multi True d no_view" "reads clock now"
  shows "\<exists>d'. test_remove_empty_expired X R clock d = (Ok (), d')"
proof -
  from remove_expired_ids [OF assms(1,2) readsD [OF assms(3)]] have "remove_expired X R clock d = (Ok (), d)"
    by (auto simp: expired_def no_view_def)
  then show ?thesis by (simp add: test_remove_empty_expired_def unwrap_op_def)
qed

lemma test_store_block_passes:
  assumes "repo_codec X" "represents X R good single multi exact d no_view" "reads clock now" "now \<noteq> 0"
    "blake3_hash X (ser_block X [] (ObjectIdList []) None (map of_char ''abc'')) = abc_digest"
  shows "\<exists>d'. test_store_block X R clock d = (Ok (), d')"
proof -
  let ?b = "test_block X None (map of_char ''abc'')"
  have "honest X ?b" by (simp add: test_block_def)
  moreover have "block_id X ?b = Blake3Digest32 abc_digest" using assms(5) by (simp add: test_block_def block_new_def blockv0_new_def Let_def)
  ultimately have b: "honest X ?b" "block_id X ?b = Blake3Digest32 abc_digest" by simp_all
  from put_represents [OF assms(1,2) b(1)] obtain d1 where
    d1: "lmdb_repo_put X R d ?b = (Ok (block_id X ?b), d1)"
      "represents X R good single multi exact d1 (no_view\<lparr>rv_blocks := (rv_blocks no_view)(block_id X ?b \<mapsto> plain ?b)\<rparr>)"
    by (auto simp: no_view_def)
  from get_step [OF assms(1) d1(2) readsD [OF assms(3)] assms(4), of "block_id X ?b"] obtain d2 where
    "lmdb_repo_get X R clock d1 (block_id X ?b) = (Ok (plain ?b), d2)" by (auto simp: no_view_def res_simps)
  moreover have "block_id X (plain ?b) = block_id X ?b" using b(1) by (simp add: honest_def)
  ultimately show ?thesis using d1(1) b(2) by (simp add: test_store_block_def unwrap_op_def Let_def)
qed

section \<open>Accounts\<close>

lemma apfst_answered_Ok [res_simps]: "apfst answered p = (Ok b, s) \<longleftrightarrow> (\<exists>x. p = (Ok x, s)) \<and> b"
  by (cases p; cases "fst p") auto

lemma account_create_id: "account_create X B i admin s = (Ok a, s') \<Longrightarrow> a = \<lparr>acc_id = i\<rparr>"
  by (auto simp: account_create_def Let_def res_simps split: if_splits)

lemma account_open_id: "account_open X B i s = Ok a \<Longrightarrow> a = \<lparr>acc_id = i\<rparr>"
  by (auto simp: account_open_def Let_def split: if_splits)

context broker_store
begin

lemma test_account_ok:
  assumes "net_codec X" "invar s" "account_rel X (vals s) (\<lambda>_. no_account)"
  shows "\<exists>s'. test_account X B s = (Ok (), s')"
proof -
  let ?u = "Ed25519PubKey (fill32 1)" and ?c = "Ed25519PubKey (fill32 56)" and ?n = "Ed25519PubKey (fill32 57)"
  let ?t1 = "(\<lambda>_. no_account)(?u := no_account\<lparr>ae_admin := Some True\<rparr>)"
  let ?t2 = "?t1(?u := (?t1 ?u)\<lparr>ae_clients := {?c}\<rparr>)"
  from account_create_follows [OF assms, of ?u True] obtain a s1 where
    s1: "account_create X B ?u True s = (Ok a, s1)" "invar s1" "account_rel X (vals s1) ?t1"
    by (auto simp: no_account_def res_simps)
  note a = account_create_id [OF s1(1)]
  from account_reads_follow(1) [OF assms(1) s1(2,3), of ?u] obtain a2 where a2: "account_open X B ?u s1 = Ok a2"
    by (cases "account_open X B ?u s1") auto
  from account_adds_follow [OF assms(1) s1(2,3), of "AddClient ?u ?c" ?u ?c] obtain s2 where
    s2: "account_add_client X B \<lparr>acc_id = ?u\<rparr> ?c s1 = (Ok (), s2)" "invar s2" "account_rel X (vals s2) ?t2"
    by (auto simp: no_account_def res_simps)
  note reads = account_reads_follow(2,3) [OF assms(1) s2(2,3)]
  have "account_is_admin X B \<lparr>acc_id = ?u\<rparr> s2 = Ok True" using reads(1) [of ?u] by simp
  moreover have "account_has_client X B \<lparr>acc_id = ?u\<rparr> ?c s2 = Ok ()"
    using reads(2) [of ?u ?c] by (cases "account_has_client X B \<lparr>acc_id = ?u\<rparr> ?c s2") auto
  moreover have "account_has_client X B \<lparr>acc_id = ?u\<rparr> ?n s2 = Err StorageError.NotFound"
    using reads(2) [of ?u ?n] by (cases "account_has_client X B \<lparr>acc_id = ?u\<rparr> ?n s2") auto
  ultimately show ?thesis
    using s1(1) a a2 account_open_id [OF a2] s2(1) by (simp add: test_account_def unwrap_op_def Let_def)
qed

end

section \<open>Properties\<close>

text \<open>
  The test of accounts passes on an empty LMDB store: an account that is created can be opened, its flag and its clients are those
  it was given, and no other.
\<close>

theorem test_account_passes:
  assumes "lmdb_ok R good vals d" "net_codec X" "account_rel X (vals d) (\<lambda>_. no_account)"
  shows "\<exists>d'. test_account X (lmdb_broker R) d = (Ok (), d')"
  by (rule lmdb.test_account_ok [OF assms(2,1,3)])


section \<open>Witnesses\<close>

theorem test_account_passes_witness: "\<exists>d'. test_account demo_net (lmdb_broker list_rkv) (\<lambda>_. []) = (Ok (), d')"
proof -
  have "lmdb_ok list_rkv list_db_ok list_vals (\<lambda>_. [])" by simp
  from test_account_passes [where vals = list_vals, OF this demo_net_codec account_rel_empty] show ?thesis .
qed

text \<open>A store whose blocks are in the BARE format, with a hash that keeps the blocks of the tests apart.\<close>

definition test_hash :: "bytes \<Rightarrow> bytes32" where
  "test_hash bs = (if bs = map of_char ''abc'' then abc_digest else fill32 (hd bs))"

definition bare_repo :: repo_externs where
  "bare_repo = demo_repo\<lparr>ser_whole_block := bare_block, de_whole_block := bare_block_de, ser_block := \<lambda>ch d e c. c,
     blake3_hash := test_hash\<rparr>"

lemma bare_repo_codec: "repo_codec bare_repo"
  using demo_repo_codec unfolding repo_codec_def bare_repo_def by (simp add: bare_block_codec)

lemma bare_repo_id [simp]:
  "block_id bare_repo (test_block bare_repo e c) = Blake3Digest32 (test_hash c)"
  by (simp add: test_block_def block_new_def blockv0_new_def Let_def bare_repo_def)

lemma bare_tens: "tens_distinct bare_repo"
proof -
  have "block_id bare_repo (tens bare_repo x) = Blake3Digest32 (fill32 (of_nat x))" for x
  proof -
    have "replicate 10 (of_nat x :: u8) \<noteq> map of_char ''abc''" by (rule notI, drule arg_cong [where f = length]) simp
    then show ?thesis by (simp add: tens_def test_hash_def)
  qed
  moreover have "inj_on (of_nat :: nat \<Rightarrow> u8) {1..<100}"
    by (rule inj_onI) (auto dest: arg_cong [where f = unat] simp: unat_of_nat take_bit_eq_mod)
  ultimately show ?thesis by (auto simp: tens_distinct_def distinct_map inj_on_def)
qed

lemma bare_expiring:
  "map (block_id bare_repo) (expiring_blocks bare_repo i es) = map (\<lambda>k. Blake3Digest32 (fill32 (i + of_nat k))) [0..<length es]"
proof (induction es arbitrary: i)
  case (Cons e es)
  have "map (\<lambda>k. Blake3Digest32 (fill32 (i + of_nat k))) [0..<length (e # es)]
      = Blake3Digest32 (fill32 i) # map (\<lambda>k. Blake3Digest32 (fill32 (i + 1 + of_nat k))) [0..<length es]"
    by (simp add: upt_conv_Cons map_Suc_upt [symmetric] add_ac del: upt_Suc)
  with Cons.IH [of "i + 1"] show ?case by (simp add: test_hash_def del: upt_Suc)
qed simp

lemma bare_expiring_distinct:
  assumes "length es \<le> 11"
  shows "distinct (map (block_id bare_repo) (expiring_blocks bare_repo 0 es))"
proof -
  have "inj_on (of_nat :: nat \<Rightarrow> u8) {0..<length es}"
    using assms by (intro inj_onI) (auto dest: arg_cong [where f = unat] simp: unat_of_nat take_bit_eq_mod)
  then show ?thesis unfolding bare_expiring by (auto simp: distinct_map inj_on_def)
qed

definition demo_rows :: "demo_env rows" where
  "demo_rows d T = Ok (map (\<lambda>k. Ok (k, the (fst d T k))) (sorted_list_of_set (dom (fst d T))))"

lemma demo_rows_law: "rows_law demo_rows demo_good fst"
  unfolding rows_law_def
proof (intro allI impI)
  fix d T assume "demo_good d"
  then have "finite (dom (fst d T))" by (simp add: demo_good_def)
  then show "\<exists>es. demo_rows d T = Ok (map Ok es) \<and> set es = {(k, v). fst d T k = Some v}"
    by (intro exI [of _ "map (\<lambda>k. (k, the (fst d T k))) (sorted_list_of_set (dom (fst d T)))"]) (auto simp: demo_rows_def)
qed


end
