(* ===== verification/Lofire_Auth_Machines.thy ===== *)
theory Lofire_Auth_Machines
  imports Lofire_Auth
begin

text \<open>
  The client's half of the handshake in \<^verbatim>\<open>src/lofire-broker/src/auth.rs\<close>. No code runs this machine: the client of
  \<^verbatim>\<open>connection.rs\<close> goes through the handshake in one function. What is shown is that it is the counterpart of the server's machine: each
  accepts the events of one handshake only, and what one sends the other receives, in the same order.
\<close>

datatype AuthProtocolClientState = Ready | ClientHelloSent | ServerHelloReceived | ClientAuthSent | AuthResult | BrokerProtocol | Closed

datatype AuthProtocolClientInput = ClientHelloSent | ServerHelloReceived | ClientAuthSent | AuthResultReceived | OkInput | ErrorInput

fun client_transition :: "AuthProtocolClientState \<Rightarrow> AuthProtocolClientInput \<Rightarrow> AuthProtocolClientState option" where
  "client_transition Ready ClientHelloSent = Some AuthProtocolClientState.ClientHelloSent"
| "client_transition AuthProtocolClientState.ClientHelloSent ServerHelloReceived = Some AuthProtocolClientState.ServerHelloReceived"
| "client_transition AuthProtocolClientState.ServerHelloReceived ClientAuthSent = Some AuthProtocolClientState.ClientAuthSent"
| "client_transition AuthProtocolClientState.ClientAuthSent AuthResultReceived = Some AuthResult"
| "client_transition AuthResult OkInput = Some BrokerProtocol"
| "client_transition AuthResult ErrorInput = Some Closed"
| "client_transition _ _ = None"

text \<open>A machine over a sequence of inputs, all of which it must take.\<close>

fun run_machine :: "('s \<Rightarrow> 'i \<Rightarrow> 's option) \<Rightarrow> 's \<Rightarrow> 'i list \<Rightarrow> 's option" where
  "run_machine t s [] = Some s"
| "run_machine t s (i # is) = Option.bind (t s i) (\<lambda>s. run_machine t s is)"

text \<open>What goes over the connection: who sends it, and what it is.\<close>

datatype wire = Hello | Nonce | Proof | Verdict

fun client_wire :: "AuthProtocolClientInput \<Rightarrow> (bool \<times> wire) list" where
  "client_wire ClientHelloSent = [(True, Hello)]"
| "client_wire ServerHelloReceived = [(False, Nonce)]"
| "client_wire ClientAuthSent = [(True, Proof)]"
| "client_wire AuthResultReceived = [(False, Verdict)]"
| "client_wire _ = []"

fun server_wire :: "AuthProtocolServerInput \<Rightarrow> (bool \<times> wire) list" where
  "server_wire AuthProtocolServerInput.ClientHelloReceived = [(True, Hello)]"
| "server_wire AuthProtocolServerInput.ServerHelloSent = [(False, Nonce)]"
| "server_wire AuthProtocolServerInput.ClientAuthReceived = [(True, Proof)]"
| "server_wire AuthResultSent = [(False, Verdict)]"
| "server_wire _ = []"

section \<open>One handshake\<close>

definition client_events :: "bool \<Rightarrow> AuthProtocolClientInput list" where
  "client_events ok = [ClientHelloSent, ServerHelloReceived, ClientAuthSent, AuthResultReceived, if ok then OkInput else ErrorInput]"

definition server_events :: "bool \<Rightarrow> AuthProtocolServerInput list" where
  "server_events ok = [AuthProtocolServerInput.ClientHelloReceived, AuthProtocolServerInput.ServerHelloSent,
     AuthProtocolServerInput.ClientAuthReceived, if ok then AuthProtocolServerInput.OkInput else AuthProtocolServerInput.ErrorInput, AuthResultSent]"

lemma client_transition_iff: "client_transition s i = Some s' \<longleftrightarrow> (s, i, s') \<in> {
    (Ready, ClientHelloSent, AuthProtocolClientState.ClientHelloSent),
    (AuthProtocolClientState.ClientHelloSent, ServerHelloReceived, AuthProtocolClientState.ServerHelloReceived),
    (AuthProtocolClientState.ServerHelloReceived, ClientAuthSent, AuthProtocolClientState.ClientAuthSent),
    (AuthProtocolClientState.ClientAuthSent, AuthResultReceived, AuthResult),
    (AuthResult, OkInput, BrokerProtocol), (AuthResult, ErrorInput, Closed)}"
  by (cases "(s, i)" rule: client_transition.cases) auto

lemma server_transition_iff: "transition s i = Some s' \<longleftrightarrow> (s, i, s') \<in> {
    (AuthProtocolServerState.Ready, AuthProtocolServerInput.ClientHelloReceived, AuthProtocolServerState.ClientHelloReceived),
    (AuthProtocolServerState.ClientHelloReceived, AuthProtocolServerInput.ServerHelloSent, AuthProtocolServerState.ServerHelloSent),
    (AuthProtocolServerState.ServerHelloSent, AuthProtocolServerInput.ClientAuthReceived, AuthProtocolServerState.ClientAuthReceived),
    (AuthProtocolServerState.ClientAuthReceived, AuthProtocolServerInput.OkInput, AuthResultOk),
    (AuthProtocolServerState.ClientAuthReceived, AuthProtocolServerInput.ErrorInput, AuthResultError),
    (AuthResultOk, AuthResultSent, AuthProtocolServerState.BrokerProtocol), (AuthResultError, AuthResultSent, AuthProtocolServerState.Closed)}"
  by (cases "(s, i)" rule: transition.cases) auto

text \<open>Where a machine can take no input, one input or one of two.\<close>

lemma run_end: "(\<And>i. t s i = None) \<Longrightarrow> run_machine t s is = Some s' \<longleftrightarrow> is = [] \<and> s = s'"
  by (cases "is") auto

lemma run_one: "(\<And>i r. t s i = Some r \<longleftrightarrow> i = a \<and> r = b) \<Longrightarrow> s \<noteq> s' \<Longrightarrow>
    run_machine t s is = Some s' \<longleftrightarrow> (\<exists>js. is = a # js \<and> run_machine t b js = Some s')"
  by (cases "is") (auto simp: bind_eq_Some_conv)

lemma run_two: "(\<And>i r. t s i = Some r \<longleftrightarrow> i = a \<and> r = b \<or> i = a' \<and> r = b') \<Longrightarrow> s \<noteq> s' \<Longrightarrow>
    run_machine t s is = Some s' \<longleftrightarrow> (\<exists>js. is = a # js \<and> run_machine t b js = Some s' \<or> is = a' # js \<and> run_machine t b' js = Some s')"
  by (cases "is") (auto simp: bind_eq_Some_conv)

lemmas client_runs = run_end [of client_transition BrokerProtocol] run_end [of client_transition Closed]
  run_two [of client_transition AuthResult OkInput BrokerProtocol ErrorInput Closed]
  run_one [of client_transition AuthProtocolClientState.ClientAuthSent AuthResultReceived AuthResult]
  run_one [of client_transition AuthProtocolClientState.ServerHelloReceived ClientAuthSent AuthProtocolClientState.ClientAuthSent]
  run_one [of client_transition AuthProtocolClientState.ClientHelloSent ServerHelloReceived AuthProtocolClientState.ServerHelloReceived]
  run_one [of client_transition Ready ClientHelloSent AuthProtocolClientState.ClientHelloSent]

lemmas server_runs = run_end [of transition AuthProtocolServerState.BrokerProtocol] run_end [of transition AuthProtocolServerState.Closed]
  run_one [of transition AuthResultOk AuthResultSent AuthProtocolServerState.BrokerProtocol]
  run_one [of transition AuthResultError AuthResultSent AuthProtocolServerState.Closed]
  run_two [of transition AuthProtocolServerState.ClientAuthReceived AuthProtocolServerInput.OkInput AuthResultOk AuthProtocolServerInput.ErrorInput AuthResultError]
  run_one [of transition AuthProtocolServerState.ServerHelloSent AuthProtocolServerInput.ClientAuthReceived AuthProtocolServerState.ClientAuthReceived]
  run_one [of transition AuthProtocolServerState.ClientHelloReceived AuthProtocolServerInput.ServerHelloSent AuthProtocolServerState.ServerHelloSent]
  run_one [of transition AuthProtocolServerState.Ready AuthProtocolServerInput.ClientHelloReceived AuthProtocolServerState.ClientHelloReceived]

lemma client_machine_ends:
  "run_machine client_transition Ready is = Some BrokerProtocol \<longleftrightarrow> is = client_events True"
  "run_machine client_transition Ready is = Some Closed \<longleftrightarrow> is = client_events False"
  by (auto simp: client_runs client_transition_iff client_events_def)

lemma server_machine_ends:
  "run_machine transition AuthProtocolServerState.Ready is = Some AuthProtocolServerState.BrokerProtocol \<longleftrightarrow> is = server_events True"
  "run_machine transition AuthProtocolServerState.Ready is = Some AuthProtocolServerState.Closed \<longleftrightarrow> is = server_events False"
  by (auto simp: server_runs server_transition_iff server_events_def)

text \<open>
  A client and a server whose machines both reach an end have sent and received the same messages in the same order; each machine gets
  to \<^verbatim>\<open>BrokerProtocol\<close>, and to \<^verbatim>\<open>Closed\<close>, by one sequence of events only.
\<close>

theorem auth_machines_match:
  assumes "run_machine client_transition Ready is = Some c" "c \<in> {BrokerProtocol, Closed}"
    and "run_machine transition AuthProtocolServerState.Ready js = Some s" "s \<in> {AuthProtocolServerState.BrokerProtocol, AuthProtocolServerState.Closed}"
  shows "concat (map client_wire is) = concat (map server_wire js)
    \<and> is = client_events (c = BrokerProtocol) \<and> js = server_events (s = AuthProtocolServerState.BrokerProtocol)"
proof -
  have "is = client_events (c = BrokerProtocol)" using assms(1,2) client_machine_ends by auto
  moreover have "js = server_events (s = AuthProtocolServerState.BrokerProtocol)" using assms(3,4) server_machine_ends by auto
  ultimately show ?thesis by (simp add: client_events_def server_events_def)
qed

theorem auth_machines_match_witness:
  "concat (map client_wire (client_events True)) = concat (map server_wire (server_events False))"
  using auth_machines_match [of "client_events True" BrokerProtocol "server_events False" AuthProtocolServerState.Closed]
  by (simp add: client_machine_ends server_machine_ends)

end
